(* ===== verification/Prelude.thy ===== *)
theory Prelude
  imports Main "HOL-Library.Word"
begin

text \<open>
  Shared vocabulary of the development: the types of addresses, bytes and memories, the
  outcome of a kernel function (a value, a fault, or no return at all), little-endian
  loads and stores on a byte-addressed memory, and the facts about machine words and
  page alignment that the component theories use.
\<close>

unbundle bit_operations_syntax

named_theorems result_simps \<open>evaluation of outcomes\<close>
named_theorems mem_simps \<open>loads after stores\<close>

section \<open>Outcomes of kernel functions\<close>

text \<open>
  A call of a kernel function has one of three outcomes. \<open>None\<close>: it never returns (a
  spin on a lock that nobody will release, a loop with no exit). \<open>Some (Inl e)\<close>: it
  stops in \<open>panic\<close> with a message, or in a memory access the C program may not make.
  \<open>Some (Inr x)\<close>: it returns \<open>x\<close>; a function with effects returns its value paired
  with the new state.
\<close>

datatype fault = Panic string | Bad_Access string

type_synonym 'a result = "(fault + 'a) option"

definition ret :: "'a \<Rightarrow> 'a result" where
  "ret x = Some (Inr x)"

definition fails :: "fault \<Rightarrow> 'a result" where
  "fails e = Some (Inl e)"

definition diverges :: "'a result" where
  "diverges = None"

definition rbind :: "'a result \<Rightarrow> ('a \<Rightarrow> 'b result) \<Rightarrow> 'b result" where
  "rbind m f = Option.bind m (\<lambda>r. case r of Inl e \<Rightarrow> Some (Inl e) | Inr x \<Rightarrow> f x)"

text \<open>\<open>ASSERT(cond)\<close> of \<open>types.h\<close>: on a false condition it panics with a fixed message.\<close>

definition ASSERT :: "bool \<Rightarrow> unit result" where
  "ASSERT c = (if c then ret () else fails (Panic ''Assertion failure''))"

lemma rbind_simps [simp, result_simps]:
  "rbind (ret x) f = f x"
  "rbind (fails e) f = fails e"
  "rbind diverges f = diverges"
  by (simp_all add: rbind_def ret_def fails_def diverges_def)

lemma result_distinct [simp, result_simps]:
  "ret x \<noteq> fails e" "fails e \<noteq> ret x" "ret x \<noteq> diverges" "diverges \<noteq> ret x"
  "fails e \<noteq> diverges" "diverges \<noteq> fails e"
  "ret x = ret y \<longleftrightarrow> x = y" "fails e = fails e' \<longleftrightarrow> e = e'"
  by (simp_all add: ret_def fails_def diverges_def)

lemma result_cases [case_names returns fails diverges]:
  obtains x where "m = ret x" | e where "m = fails e" | "m = diverges"
  by (cases m; cases "the m") (auto simp: ret_def fails_def diverges_def)

lemma rbind_eq_ret:
  "rbind m f = ret y \<longleftrightarrow> (\<exists>x. m = ret x \<and> f x = ret y)"
  by (cases m rule: result_cases) auto

lemma rbind_eq_fails:
  "rbind m f = fails e \<longleftrightarrow> m = fails e \<or> (\<exists>x. m = ret x \<and> f x = fails e)"
  by (cases m rule: result_cases) auto

lemma rbind_retE [elim]:
  assumes "rbind m f = ret y"
  obtains x where "m = ret x" "f x = ret y"
  using assms by (auto simp: rbind_eq_ret)

lemma rbind_assoc: "rbind (rbind m f) g = rbind m (\<lambda>x. rbind (f x) g)"
  by (cases m rule: result_cases) auto

lemma rbind_ret_right [simp]: "rbind m ret = m"
  by (cases m rule: result_cases) auto

lemma ASSERT_simps [simp, result_simps]:
  "ASSERT True = ret ()" "ASSERT False = fails (Panic ''Assertion failure'')"
  by (simp_all add: ASSERT_def)

lemma ASSERT_eq_ret [simp]: "ASSERT c = ret u \<longleftrightarrow> c"
  by (simp add: ASSERT_def)

text \<open>A loop that cannot fail but may not end.\<close>

definition ends :: "'a option \<Rightarrow> 'a result" where
  "ends m = map_option Inr m"

lemma ends_simps [simp]: "ends (Some x) = ret x" "ends None = diverges"
  by (simp_all add: ends_def ret_def diverges_def)

text \<open>A counted loop whose body may fail: \<open>for_each f xs\<close> runs \<open>f\<close> for the elements of \<open>xs\<close> in turn.\<close>

fun for_each :: "('x \<Rightarrow> 's \<Rightarrow> 's result) \<Rightarrow> 'x list \<Rightarrow> 's \<Rightarrow> 's result" where
  "for_each f [] s = ret s"
| "for_each f (x # xs) s = rbind (f x s) (for_each f xs)"

text \<open>\<open>returns m P\<close>: the outcome is a value, and it satisfies \<open>P\<close>.\<close>

definition returns :: "'a result \<Rightarrow> ('a \<Rightarrow> bool) \<Rightarrow> bool" where
  "returns m P \<longleftrightarrow> (\<exists>x. m = ret x \<and> P x)"

lemma returns_simps [simp]:
  "returns (ret x) P \<longleftrightarrow> P x" "\<not> returns (fails e) P" "\<not> returns diverges P"
  by (auto simp: returns_def)

lemma returnsE: "returns m P \<Longrightarrow> (\<And>x. m = ret x \<Longrightarrow> P x \<Longrightarrow> thesis) \<Longrightarrow> thesis"
  by (auto simp: returns_def)

lemma returns_bind: "returns m P \<Longrightarrow> (\<And>x. P x \<Longrightarrow> returns (f x) Q) \<Longrightarrow> returns (rbind m f) Q"
  by (auto elim!: returnsE)

lemma returns_mono: "returns m P \<Longrightarrow> (\<And>x. P x \<Longrightarrow> Q x) \<Longrightarrow> returns m Q"
  by (auto simp: returns_def)

lemma returns_for_each:
  assumes "P s" "\<And>x s. x \<in> set xs \<Longrightarrow> P s \<Longrightarrow> returns (f x s) P"
  shows "returns (for_each f xs s) P"
  using assms
proof (induction xs arbitrary: s)
  case (Cons x xs)
  have "returns (f x s) P" using Cons.prems by simp
  then show ?case using Cons by (auto intro!: returns_bind)
qed simp

lemma for_each_append: "for_each f (xs @ ys) s = rbind (for_each f xs s) (for_each f ys)"
proof (induction xs arbitrary: s)
  case (Cons x xs)
  then have "for_each f (xs @ ys) = (\<lambda>s. rbind (for_each f xs s) (for_each f ys))" by (intro ext)
  then show ?case by (simp add: rbind_assoc)
qed simp

text \<open>The rule for a counted loop whose invariant mentions the counter.\<close>

lemma returns_for_upt:
  assumes "P 0 s" "\<And>k s. k < n \<Longrightarrow> P k s \<Longrightarrow> returns (f k s) (P (Suc k))"
  shows "returns (for_each f [0..<n] s) (P n)"
proof -
  have "returns (for_each f [k..<k + m] s) (P (k + m))" if "k + m \<le> n" "P k s" for k m s
    using that
  proof (induction m arbitrary: k s)
    case (Suc m)
    have "returns (f k s) (P (Suc k))" using Suc.prems by (intro assms(2)) auto
    moreover have "returns (for_each f [Suc k..<Suc k + m] s') (P (Suc k + m))" if "P (Suc k) s'" for s'
      using Suc.prems that by (intro Suc.IH) auto
    moreover have "[k..<k + Suc m] = k # [Suc k..<Suc k + m]" by (simp add: upt_rec)
    ultimately show ?case by (auto intro!: returns_bind)
  qed simp
  from this [of 0 n] show ?thesis using assms(1) by simp
qed

text \<open>Loops over outcomes may be defined by \<open>partial_function (option)\<close>.\<close>

lemma rbind_mono [partial_function_mono]:
  assumes "mono_option B" and "\<And>y. mono_option (\<lambda>f. C y f)"
  shows "mono_option (\<lambda>f. rbind (B f) (\<lambda>y. C y f))"
  unfolding rbind_def
proof (rule bind_mono [OF assms(1)])
  fix r
  show "mono_option (\<lambda>f. case r of Inl e \<Rightarrow> Some (Inl e) | Inr x \<Rightarrow> C x f)"
    by (cases r) (auto intro: assms(2) option.const_mono)
qed


section \<open>Loops\<close>

lemma find_append:
  "find P (xs @ ys) = (case find P xs of None \<Rightarrow> find P ys | Some x \<Rightarrow> Some x)"
  by (induction xs) auto

lemma fold_preserves: "(\<And>x s. g (f x s) = g s) \<Longrightarrow> g (fold f xs s) = g s"
  by (induction xs arbitrary: s) auto

section \<open>Machine words\<close>

type_synonym u8 = "8 word"
type_synonym u16 = "16 word"
type_synonym u32 = "32 word"
type_synonym u64 = "64 word"
type_synonym addr = "64 word"

text \<open>The null pointer.\<close>

abbreviation (input) NULL :: addr where
  "NULL \<equiv> 0"

lemma word_and_not_mask:
  fixes a :: "'a::len word"
  shows "a AND NOT (mask n) = push_bit n (drop_bit n a)"
  by (rule bit_word_eqI) (auto simp: bit_simps)

lemma unat_and_not_mask:
  fixes a :: "'a::len word"
  shows "unat (a AND NOT (mask n)) = unat a div 2 ^ n * 2 ^ n"
proof -
  have "unat (push_bit n (drop_bit n a)) = take_bit LENGTH('a) (push_bit n (drop_bit n (unat a)))"
    by (simp add: unsigned_push_bit_eq unat_drop_bit_eq)
  also have "\<dots> = take_bit LENGTH('a) (unat a div 2 ^ n * 2 ^ n)"
    by (simp only: drop_bit_eq_div push_bit_eq_mult)
  also have "\<dots> = unat a div 2 ^ n * 2 ^ n"
    by (rule take_bit_nat_eq_self) (rule le_less_trans [OF div_times_less_eq_dividend unsigned_less])
  finally show ?thesis by (simp add: word_and_not_mask)
qed

lemma unat_and_mask:
  fixes a :: "'a::len word"
  shows "unat (a AND mask n) = unat a mod 2 ^ n"
proof -
  have "unat (a AND mask n) = take_bit n (unat a)"
    by (simp flip: take_bit_eq_mask add: unsigned_take_bit_eq)
  then show ?thesis by (simp only: take_bit_eq_mod)
qed

lemma unat_add_lt:
  fixes a b :: "'a::len word"
  shows "unat a + unat b < 2 ^ LENGTH('a) \<Longrightarrow> unat (a + b) = unat a + unat b"
  by (simp add: unat_word_ariths)

lemma unat_of_nat_lt:
  "n < 2 ^ LENGTH('a::len) \<Longrightarrow> unat (of_nat n :: 'a word) = n"
  by (simp add: unsigned_of_nat take_bit_nat_eq_self)

lemma of_nat_inj_lt:
  assumes "(of_nat i :: 'a::len word) = of_nat j" "i < 2 ^ LENGTH('a)" "j < 2 ^ LENGTH('a)"
  shows "i = j"
  using assms by (metis unat_of_nat_lt)

lemma mod_add_cancel_nat:
  assumes "(a + i) mod N = (a + j) mod (N :: nat)" "i < N" "j < N"
  shows "i = j"
proof -
  obtain p q where "a + i + N * p = a + j + N * q" using assms(1) by (auto simp: nat_mod_eq_iff)
  then have "i + N * p = j + N * q" by simp
  then have "i mod N = j mod N" by (metis mod_mult_self2)
  with assms(2,3) show ?thesis by simp
qed

lemma unat_lt64: "unat (a :: u64) < 2 ^ 64" "unat (a :: u64) \<le> 2 ^ 64"
proof -
  have "unat a < 2 ^ LENGTH(64)" by (rule unsigned_less)
  then show "unat a < 2 ^ 64" by simp
  then show "unat a \<le> 2 ^ 64" by (rule less_imp_le)
qed

section \<open>Byte-addressed memory\<close>

text \<open>
  A memory maps every 64-bit address to a byte. Multi-byte values are stored with the
  least significant byte first, as x86-64 does; address arithmetic wraps.
\<close>

type_synonym mem = "addr \<Rightarrow> u8"

definition region :: "addr \<Rightarrow> nat \<Rightarrow> addr set" where
  "region a n = (\<lambda>i. a + of_nat i) ` {i. i < n}"

fun load_le :: "mem \<Rightarrow> addr \<Rightarrow> nat \<Rightarrow> nat" where
  "load_le m a 0 = 0"
| "load_le m a (Suc n) = unat (m a) + 256 * load_le m (a + 1) n"

fun store_le :: "mem \<Rightarrow> addr \<Rightarrow> nat \<Rightarrow> nat \<Rightarrow> mem" where
  "store_le m a 0 v = m"
| "store_le m a (Suc n) v = store_le (m(a := of_nat v)) (a + 1) n (v div 256)"

definition load64 :: "mem \<Rightarrow> addr \<Rightarrow> u64" where
  "load64 m a = of_nat (load_le m a 8)"

definition load32 :: "mem \<Rightarrow> addr \<Rightarrow> u32" where
  "load32 m a = of_nat (load_le m a 4)"

definition load16 :: "mem \<Rightarrow> addr \<Rightarrow> u16" where
  "load16 m a = of_nat (load_le m a 2)"

definition store64 :: "mem \<Rightarrow> addr \<Rightarrow> u64 \<Rightarrow> mem" where
  "store64 m a v = store_le m a 8 (unat v)"

lemma region_0 [simp]: "region a 0 = {}"
  by (simp add: region_def)

lemma region_Suc: "region a (Suc n) = insert a (region (a + 1) n)"
proof -
  have "{i. i < Suc n} = insert 0 (Suc ` {i. i < n})"
    by (auto simp: image_iff less_Suc_eq_0_disj)
  then show ?thesis
    by (simp add: region_def image_image add.assoc)
qed

lemma region_iff:
  assumes "n \<le> 2 ^ 64"
  shows "x \<in> region a n \<longleftrightarrow> unat (x - a) < n"
proof
  assume "x \<in> region a n"
  then obtain i where "i < n" "x = a + of_nat i" by (auto simp: region_def)
  with assms show "unat (x - a) < n" by (simp add: unat_of_nat_lt)
next
  assume "unat (x - a) < n"
  then show "x \<in> region a n"
    unfolding region_def by (intro image_eqI [where x = "unat (x - a)"]) auto
qed

lemma store_le_outside: "x \<notin> region a n \<Longrightarrow> store_le m a n v x = m x"
  by (induction m a n v rule: store_le.induct) (auto simp: region_Suc)

lemma load_le_cong:
  "(\<And>x. x \<in> region a n \<Longrightarrow> m x = m' x) \<Longrightarrow> load_le m a n = load_le m' a n"
  by (induction m a n rule: load_le.induct) (auto simp: region_Suc)

text \<open>Wide loads from narrower ones, and their size.\<close>

lemma load_le_2: "load_le m a 2 = unat (m a) + 256 * unat (m (a + 1))"
  unfolding numeral_2_eq_2 by simp

lemma load_le_add: "load_le m a (j + k) = load_le m a j + 256 ^ j * load_le m (a + of_nat j) k"
  by (induction j arbitrary: a) (simp_all add: algebra_simps)

lemma load_le_4: "load_le m a 4 = load_le m a 2 + 65536 * load_le m (a + 2) 2"
  using load_le_add [of m a 2 2] by simp

lemma load_le_8: "load_le m a 8 = load_le m a 4 + 4294967296 * load_le m (a + 4) 4"
  using load_le_add [of m a 4 4] by simp

lemma load_le_bound: "load_le m a n < 256 ^ n"
proof (induction m a n rule: load_le.induct)
  case (2 m a n)
  have "unat (m a) < 256" using unsigned_less [of "m a"] by simp
  then show ?case using 2 by simp
qed simp

lemma load_le_store_le_disjoint:
  assumes "region a n \<inter> region b k = {}"
  shows "load_le (store_le m a n v) b k = load_le m b k"
  by (rule load_le_cong) (use assms in \<open>auto intro!: store_le_outside\<close>)

lemma start_notin_region:
  assumes "n < 2 ^ 64"
  shows "a \<notin> region (a + 1) n"
proof
  assume "a \<in> region (a + 1) n"
  then have "unat (- 1 :: u64) < n" using assms by (simp add: region_iff)
  moreover have "unat (- 1 :: u64) = 2 ^ 64 - 1" by (simp add: unsigned_minus_1_eq_mask mask_eq_exp_minus_1)
  ultimately show False using assms by simp
qed

lemma load_le_store_le_same:
  "n \<le> 2 ^ 64 \<Longrightarrow> load_le (store_le m a n v) a n = v mod 256 ^ n"
proof (induction n arbitrary: m a v)
  case (Suc n)
  have "store_le (m(a := of_nat v)) (a + 1) n (v div 256) a = of_nat v"
    using Suc.prems by (simp add: store_le_outside start_notin_region)
  moreover have "v mod 256 ^ Suc n = v mod 256 + 256 * (v div 256 mod 256 ^ n)"
    by (simp add: mod_mult2_eq mult.commute)
  ultimately show ?case
    using Suc by (simp add: unsigned_of_nat take_bit_eq_mod)
qed simp

lemma load64_store64_same [simp, mem_simps]: "load64 (store64 m a v) a = v"
proof -
  have "load_le (store_le m a 8 (unat v)) a 8 = unat v mod 256 ^ 8"
    by (rule load_le_store_le_same) simp
  also have "\<dots> = unat v"
    using unsigned_less [of v] by (intro mod_less) (simp add: power_numeral_reduce)
  finally show ?thesis by (simp add: load64_def store64_def)
qed

lemma load64_store64_disjoint:
  "region a 8 \<inter> region b 8 = {} \<Longrightarrow> load64 (store64 m a v) b = load64 m b"
  by (simp add: load64_def store64_def load_le_store_le_disjoint)

lemma store64_outside: "x \<notin> region a 8 \<Longrightarrow> store64 m a v x = m x"
  by (simp add: store64_def store_le_outside)

lemma load64_cong:
  "(\<And>x. x \<in> region a 8 \<Longrightarrow> m x = m' x) \<Longrightarrow> load64 m a = load64 m' a"
  unfolding load64_def by (rule arg_cong [OF load_le_cong])

lemma load64_zero:
  assumes "\<And>x. x \<in> region a 8 \<Longrightarrow> m x = 0"
  shows "load64 m a = 0"
proof -
  have "load_le (\<lambda>_. 0) a n = 0" for n
    by (induction n arbitrary: a) auto
  with load_le_cong [of a 8 m "\<lambda>_. 0"] assms show ?thesis
    by (simp add: load64_def)
qed

text \<open>Two distinct addresses that are multiples of a common power of two are apart.\<close>

lemma aligned_region_disjoint:
  assumes "2 ^ k dvd unat a" "2 ^ k dvd unat b" "a \<noteq> b" "k < 64"
  shows "region a (2 ^ k) \<inter> region b (2 ^ k) = {}"
proof (rule ccontr)
  let ?n = "(2::nat) ^ k"
  have n: "?n \<le> 2 ^ 64" using assms(4) by (intro power_increasing) auto
  have div: "unat x div ?n = unat c div ?n" if h: "x \<in> region c ?n" "?n dvd unat c" for x c
  proof -
    from h obtain i where i: "i < ?n" "x = c + of_nat i" by (auto simp: region_def)
    obtain q where q: "unat c = ?n * q" using h(2) by blast
    have "?n * 2 ^ (64 - k) = (2::nat) ^ 64"
      using assms(4) by (simp flip: power_add)
    moreover have "unat c < 2 ^ 64" using unsigned_less [of c] by simp
    ultimately have "q < 2 ^ (64 - k)" using q by (metis nat_mult_less_cancel_disj)
    then have "?n * q + ?n \<le> 2 ^ 64"
      using \<open>?n * 2 ^ (64 - k) = 2 ^ 64\<close> by (metis Suc_leI mult_Suc_right mult_le_mono2 add.commute)
    then have "unat x = ?n * q + i"
      using i q n by (simp add: unat_add_lt unat_of_nat_lt)
    then show ?thesis using i q by simp
  qed
  assume "\<not> ?thesis"
  then obtain x where "x \<in> region a ?n" "x \<in> region b ?n" by auto
  then have "unat a div ?n = unat b div ?n" using div assms by metis
  then have "unat a = unat b" using assms(1,2) by (metis dvd_div_mult_self)
  with assms(3) show False by (simp add: word_unat_eq_iff)
qed

end
