(* ===== verification/Cpu.thy ===== *)
theory Cpu
  imports Prelude
begin

text \<open>
  The interrupt flag with its nesting counter (\<open>int_disable\<close>, \<open>int_resume\<close> and
  \<open>int_enable\<close> of \<open>kernel/arch/x86_64/irq.c\<close>, the macros \<open>IRQ_OFF\<close>, \<open>IRQ_RES\<close>
  and \<open>IRQ_ON\<close>), and the spin locks of \<open>riria/spinlock.h\<close>.
\<close>

section \<open>Definitions\<close>

text \<open>
  \<open>if_flag\<close> is bit 9 of \<open>RFLAGS\<close>; the other two fields are the static variables of
  \<open>irq.c\<close>. Later theories extend this record with the state of their components.
\<close>

record cpu =
  if_flag :: bool
  sync_depth :: int
  sync_was_enabled :: bool

definition int_disable :: "'a cpu_scheme \<Rightarrow> 'a cpu_scheme" where
  "int_disable s =
     (let flags = if_flag s;
          s = s\<lparr>if_flag := False\<rparr>;
          s = (if sync_depth s = 0 then s\<lparr>sync_was_enabled := flags\<rparr> else s)
      in s\<lparr>sync_depth := sync_depth s + 1\<rparr>)"

definition int_resume :: "'a cpu_scheme \<Rightarrow> 'a cpu_scheme" where
  "int_resume s =
     (if sync_depth s = 0 then s
      else let s = s\<lparr>sync_depth := sync_depth s - 1\<rparr>
           in if sync_depth s = 0 \<and> sync_was_enabled s then s\<lparr>if_flag := True\<rparr> else s)"

definition int_enable :: "'a cpu_scheme \<Rightarrow> 'a cpu_scheme" where
  "int_enable s = s\<lparr>sync_depth := 0, sync_was_enabled := True, if_flag := True\<rparr>"

text \<open>
  A spin lock. Taking a lock that is held spins until another context releases it; the
  model runs one call at a time with nobody else to release it, so the call does not
  return. The file and line arguments only serve log output.
\<close>

record spin_lock_t =
  latch :: bool
  func :: "string option"

definition spin_lock :: "string \<Rightarrow> spin_lock_t \<Rightarrow> spin_lock_t result" where
  "spin_lock f l = (if latch l then diverges else ret (l\<lparr>latch := True, func := Some f\<rparr>))"

definition spin_unlock :: "spin_lock_t \<Rightarrow> spin_lock_t" where
  "spin_unlock l = l\<lparr>func := None, latch := False\<rparr>"

definition unlocked :: spin_lock_t where
  "unlocked = \<lparr>latch = False, func = None\<rparr>"

section \<open>Nested critical sections\<close>

text \<open>Interrupts are off whenever the nesting depth is positive.\<close>

definition irq_inv :: "'a cpu_scheme \<Rightarrow> bool" where
  "irq_inv s \<longleftrightarrow> 0 \<le> sync_depth s \<and> (0 < sync_depth s \<longrightarrow> \<not> if_flag s)"

lemma irq_inv_ops:
  "irq_inv s \<Longrightarrow> irq_inv (int_disable s)"
  "irq_inv s \<Longrightarrow> irq_inv (int_resume s)"
  "irq_inv (int_enable s)"
  by (auto simp: irq_inv_def int_disable_def int_resume_def int_enable_def Let_def)

lemma int_disable_off: "\<not> if_flag (int_disable s)"
  by (simp add: int_disable_def Let_def)

text \<open>
  The state after a matched pair: only the record of what to restore at depth zero
  changes, and it then holds the current flag.
\<close>

definition sync_settled :: "'a cpu_scheme \<Rightarrow> 'a cpu_scheme" where
  "sync_settled s = (if sync_depth s = 0 then s\<lparr>sync_was_enabled := if_flag s\<rparr> else s)"

lemma int_resume_disable: "irq_inv s \<Longrightarrow> int_resume (int_disable s) = sync_settled s"
  by (auto simp: irq_inv_def int_disable_def int_resume_def sync_settled_def Let_def)

lemma sync_settled_simps [simp]:
  "if_flag (sync_settled s) = if_flag s"
  "sync_depth (sync_settled s) = sync_depth s"
  "sync_settled (sync_settled s) = sync_settled s"
  "irq_inv (sync_settled s) = irq_inv s"
  by (auto simp: sync_settled_def irq_inv_def)

datatype sync_op = IRQ_OFF | IRQ_RES

primrec sync_run :: "sync_op list \<Rightarrow> 'a cpu_scheme \<Rightarrow> 'a cpu_scheme" where
  "sync_run [] s = s"
| "sync_run (x # xs) s = sync_run xs (case x of IRQ_OFF \<Rightarrow> int_disable s | IRQ_RES \<Rightarrow> int_resume s)"

text \<open>Well-nested sequences of the two macros, as every function of the kernel leaves them.\<close>

inductive nested :: "sync_op list \<Rightarrow> bool" where
  nested_Nil: "nested []"
| nested_bracket: "nested xs \<Longrightarrow> nested ys \<Longrightarrow> nested (IRQ_OFF # xs @ IRQ_RES # ys)"

lemma sync_run_append: "sync_run (xs @ ys) s = sync_run ys (sync_run xs s)"
  by (induction xs arbitrary: s) auto

lemma sync_run_nested_inside:
  "nested xs \<Longrightarrow> irq_inv s \<Longrightarrow> 0 < sync_depth s \<Longrightarrow> sync_run xs s = s"
proof (induction arbitrary: s rule: nested.induct)
  case (nested_bracket xs ys)
  have "irq_inv (int_disable s)" "0 < sync_depth (int_disable s)"
    using nested_bracket.prems by (auto simp: irq_inv_def int_disable_def Let_def)
  then have "sync_run xs (int_disable s) = int_disable s" by (rule nested_bracket.IH)
  moreover have "int_resume (int_disable s) = s"
    using nested_bracket.prems by (simp add: int_resume_disable sync_settled_def)
  ultimately show ?case using nested_bracket by (simp add: sync_run_append)
qed simp

lemma sync_run_nested:
  "nested xs \<Longrightarrow> irq_inv s \<Longrightarrow> sync_run xs s = (if xs = [] then s else sync_settled s)"
proof (induction arbitrary: s rule: nested.induct)
  case (nested_bracket xs ys)
  have "irq_inv (int_disable s)" "0 < sync_depth (int_disable s)"
    using nested_bracket.prems by (auto simp: irq_inv_def int_disable_def Let_def)
  then have "sync_run xs (int_disable s) = int_disable s"
    by (rule sync_run_nested_inside [OF nested_bracket.hyps(1)])
  with nested_bracket show ?case by (simp add: sync_run_append int_resume_disable)
qed simp

text \<open>Inside a critical section, at any point of the nested part, interrupts are off.\<close>

lemma sync_run_prefix_off:
  assumes "irq_inv s" "0 < sync_depth (sync_run xs s)" "sync_run xs s = t"
  shows "\<not> if_flag t"
proof -
  have "irq_inv (sync_run xs s)"
    using assms(1) by (induction xs arbitrary: s) (auto simp: irq_inv_ops split: sync_op.split)
  then show ?thesis using assms by (auto simp: irq_inv_def)
qed

section \<open>Locks\<close>

lemma spin_lock_simps [simp]:
  "\<not> latch l \<Longrightarrow> spin_lock f l = ret (l\<lparr>latch := True, func := Some f\<rparr>)"
  "latch l \<Longrightarrow> spin_lock f l = diverges"
  by (simp_all add: spin_lock_def)

lemma spin_unlock_lock [simp]: "spin_unlock (l\<lparr>latch := b, func := f\<rparr>) = unlocked"
  by (simp add: spin_unlock_def unlocked_def)

lemma spin_unlock_eq [simp]: "spin_unlock l = unlocked"
  by (simp add: spin_unlock_def unlocked_def)

lemma unlocked_latch [simp]: "\<not> latch unlocked"
  by (simp add: unlocked_def)

text \<open>A lock is not reentrant: the second acquisition by the same context never returns.\<close>

lemma spin_lock_twice: "rbind (spin_lock f l) (spin_lock g) = diverges"
  by (simp add: spin_lock_def)

section \<open>What the critical sections guarantee\<close>



end
