(* ===== verification/Libc_String.thy ===== *)
theory Libc_String
  imports Prelude "HOL-Library.Sublist"
begin

text \<open>
  The memory and string functions of \<open>kernel/libc/string\<close>, on the byte-addressed memory
  of \<open>Prelude\<close>: \<open>memset\<close>, \<open>memcpy\<close>, \<open>memmove\<close>, \<open>memcmp\<close>, \<open>strlen\<close>,
  \<open>strcmp\<close>, \<open>strncmp\<close> and \<open>strcpy\<close>. Loops with a byte count run over the list of
  indices they visit; loops that look for a terminator are partial functions, which do
  not return when no terminator exists.
\<close>

section \<open>Definitions\<close>

definition memset :: "mem \<Rightarrow> addr \<Rightarrow> u32 \<Rightarrow> u64 \<Rightarrow> mem" where
  "memset m s c n = fold (\<lambda>i m. m(s + of_nat i := ucast c)) [0..<unat n] m"

definition copy_byte :: "addr \<Rightarrow> addr \<Rightarrow> nat \<Rightarrow> mem \<Rightarrow> mem" where
  "copy_byte pdest psrc i m = m(pdest + of_nat i := m (psrc + of_nat i))"

definition memcpy :: "mem \<Rightarrow> addr \<Rightarrow> addr \<Rightarrow> u64 \<Rightarrow> (addr \<times> mem) result" where
  "memcpy m dest src n =
     rbind (ASSERT (dest \<noteq> NULL)) (\<lambda>_.
     rbind (ASSERT (src \<noteq> NULL)) (\<lambda>_.
     rbind (ASSERT (n > 0)) (\<lambda>_.
       ret (dest, fold (copy_byte dest src) [0..<unat n] m))))"

definition memmove :: "mem \<Rightarrow> addr \<Rightarrow> addr \<Rightarrow> u64 \<Rightarrow> addr \<times> mem" where
  "memmove m dest src n =
     (if src > dest then (dest, fold (copy_byte dest src) [0..<unat n] m)
      else if src < dest then (dest, fold (copy_byte dest src) (rev [0..<unat n]) m)
      else (dest, m))"

fun memcmp_loop :: "mem \<Rightarrow> addr \<Rightarrow> addr \<Rightarrow> nat list \<Rightarrow> int" where
  "memcmp_loop m p1 p2 [] = 0"
| "memcmp_loop m p1 p2 (i # is) =
     (if m (p1 + of_nat i) \<noteq> m (p2 + of_nat i)
      then if m (p1 + of_nat i) < m (p2 + of_nat i) then - 1 else 1
      else memcmp_loop m p1 p2 is)"

definition memcmp :: "mem \<Rightarrow> addr \<Rightarrow> addr \<Rightarrow> u64 \<Rightarrow> int" where
  "memcmp m s1 s2 n = memcmp_loop m s1 s2 [0..<unat n]"

partial_function (option) strlen_loop :: "mem \<Rightarrow> addr \<Rightarrow> addr option" where
  "strlen_loop m s = (if m s \<noteq> 0 then strlen_loop m (s + 1) else Some s)"

definition strlen :: "mem \<Rightarrow> addr \<Rightarrow> u64 option" where
  "strlen m str = map_option (\<lambda>s. s - str) (strlen_loop m str)"

partial_function (option) strcmp :: "mem \<Rightarrow> addr \<Rightarrow> addr \<Rightarrow> int option" where
  "strcmp m s1 s2 =
     (if m s1 \<noteq> 0 \<and> m s1 = m s2 then strcmp m (s1 + 1) (s2 + 1)
      else Some (uint (m s1) - uint (m s2)))"

partial_function (option) strncmp_loop :: "mem \<Rightarrow> addr \<Rightarrow> addr \<Rightarrow> u64 \<Rightarrow> u64 \<Rightarrow> u64 option" where
  "strncmp_loop m s1 s2 n i =
     (if i < n \<and> m (s1 + i) \<noteq> 0 \<and> m (s1 + i) = m (s2 + i)
      then strncmp_loop m s1 s2 n (i + 1) else Some i)"

definition strncmp :: "mem \<Rightarrow> addr \<Rightarrow> addr \<Rightarrow> u64 \<Rightarrow> int option" where
  "strncmp m s1 s2 n =
     map_option (\<lambda>i. if i = n then 0 else uint (m (s1 + i)) - uint (m (s2 + i)))
       (strncmp_loop m s1 s2 n 0)"

partial_function (option) strcpy_loop :: "mem \<Rightarrow> addr \<Rightarrow> addr \<Rightarrow> mem option" where
  "strcpy_loop m strDest strSrc =
     (let c = m strSrc; m = m(strDest := c)
      in if c \<noteq> 0 then strcpy_loop m (strDest + 1) (strSrc + 1) else Some m)"

definition strcpy :: "mem \<Rightarrow> addr \<Rightarrow> addr \<Rightarrow> (addr \<times> mem) option" where
  "strcpy m strDest strSrc = map_option (\<lambda>m. (strDest, m)) (strcpy_loop m strDest strSrc)"

section \<open>Reference definitions\<close>

text \<open>
  \<open>write_block\<close> replaces a block of memory by a list of bytes at once, and \<open>read_block\<close>
  reads one. \<open>cstring m a cs\<close>: the bytes \<open>cs\<close>, none of them zero, stand at \<open>a\<close> and a
  zero byte follows them.
\<close>

definition read_block :: "mem \<Rightarrow> addr \<Rightarrow> nat \<Rightarrow> u8 list" where
  "read_block m a n = map (\<lambda>i. m (a + of_nat i)) [0..<n]"

definition write_block :: "mem \<Rightarrow> addr \<Rightarrow> u8 list \<Rightarrow> mem" where
  "write_block m a bs = (\<lambda>x. if unat (x - a) < length bs then bs ! unat (x - a) else m x)"

definition cstring :: "mem \<Rightarrow> addr \<Rightarrow> u8 list \<Rightarrow> bool" where
  "cstring m a cs \<longleftrightarrow> length cs < 2 ^ 64 \<and> 0 \<notin> set cs \<and> read_block m a (Suc (length cs)) = cs @ [0]"

lemma length_read_block [simp]: "length (read_block m a n) = n"
  by (simp add: read_block_def)

lemma nth_read_block [simp]: "i < n \<Longrightarrow> read_block m a n ! i = m (a + of_nat i)"
  by (simp add: read_block_def)

lemma read_block_Suc: "read_block m a (Suc n) = m a # read_block m (a + 1) n"
  by (rule nth_equalityI) (auto simp: nth_Cons add.assoc split: nat.split)

lemma read_block_cong:
  "(\<And>x. x \<in> region a n \<Longrightarrow> m x = m' x) \<Longrightarrow> read_block m a n = read_block m' a n"
  by (rule nth_equalityI) (auto simp: region_def)

lemma cstring_Nil [simp]: "cstring m a [] \<longleftrightarrow> m a = 0"
  by (auto simp: cstring_def read_block_Suc) (simp add: read_block_def)+

lemma cstring_Cons:
  "cstring m a (c # cs) \<longleftrightarrow>
     length cs < 2 ^ 64 - 1 \<and> c \<noteq> 0 \<and> m a = c \<and> cstring m (a + 1) cs"
  by (auto simp: cstring_def read_block_Suc [of m a])

lemma cstring_length: "cstring m a cs \<Longrightarrow> length cs < 2 ^ 64"
  by (simp add: cstring_def)

section \<open>Block operations\<close>

lemma addr_offset_eq:
  fixes x s :: addr
  assumes "k < 2 ^ 64"
  shows "x = s + of_nat k \<longleftrightarrow> unat (x - s) = k"
proof
  assume "x = s + of_nat k"
  with assms show "unat (x - s) = k" by (simp add: unat_of_nat_lt)
next
  assume "unat (x - s) = k"
  then have "of_nat k = x - s" by auto
  then show "x = s + of_nat k" by simp
qed

lemma write_block_Nil [simp]: "write_block m a [] = m"
  by (simp add: write_block_def)

lemma write_block_snoc:
  assumes "length bs < 2 ^ 64"
  shows "write_block m a (bs @ [b]) = (write_block m a bs)(a + of_nat (length bs) := b)"
  using addr_offset_eq [OF assms, of _ a]
  by (auto simp: write_block_def fun_eq_iff nth_append less_Suc_eq)

lemma write_block_outside: "x \<notin> region a (length bs) \<Longrightarrow> length bs \<le> 2 ^ 64 \<Longrightarrow> write_block m a bs x = m x"
  by (simp add: write_block_def region_iff)

lemma memset_fold:
  "k \<le> 2 ^ 64 \<Longrightarrow> fold (\<lambda>i m. m(s + of_nat i := c)) [0..<k] m = write_block m s (replicate k c)"
proof (induction k)
  case (Suc k)
  then have IH: "fold (\<lambda>i m. m(s + of_nat i := c)) [0..<k] m = write_block m s (replicate k c)"
    by (metis Suc_leD)
  show ?case
    using Suc.prems write_block_snoc [of "replicate k c" m s c]
    by (simp add: replicate_append_same IH del: fun_upd_apply)
qed simp

lemma memset_write_block: "memset m s c n = write_block m s (replicate (unat n) (ucast c))"
  unfolding memset_def by (rule memset_fold) (rule unat_lt64)

text \<open>
  A forward copy reads what the source held at the start as long as no written byte is
  read later: the source starts after the destination, or the blocks are apart.
\<close>

lemma copy_forward:
  assumes "k \<le> 2 ^ 64" and "\<And>i j. j < i \<Longrightarrow> i < k \<Longrightarrow> s + of_nat i \<noteq> d + of_nat j"
  shows "fold (copy_byte d s) [0..<k] m = write_block m d (read_block m s k)"
  using assms
proof (induction k)
  case 0
  then show ?case by (simp add: read_block_def)
next
  case (Suc k)
  have "s + of_nat k \<notin> region d k"
    using Suc.prems(2) [of _ k] by (auto simp: region_def)
  then have "write_block m d (read_block m s k) (s + of_nat k) = m (s + of_nat k)"
    using Suc.prems(1) by (simp add: write_block_outside)
  moreover have "read_block m s (Suc k) = read_block m s k @ [m (s + of_nat k)]"
    by (simp add: read_block_def)
  moreover have "fold (copy_byte d s) [0..<k] m = write_block m d (read_block m s k)"
    using Suc.prems by (intro Suc.IH) auto
  ultimately show ?case
    using Suc.prems(1) write_block_snoc [of "read_block m s k" m d "m (s + of_nat k)"]
    by (simp add: copy_byte_def [of d s k] del: fun_upd_apply)
qed

lemma copy_backward:
  assumes "k \<le> 2 ^ 64" and "\<And>i j. i < j \<Longrightarrow> j < k \<Longrightarrow> s + of_nat i \<noteq> d + of_nat j"
  shows "fold (copy_byte d s) (rev [0..<k]) m = write_block m d (read_block m s k)"
  using assms
proof (induction k arbitrary: m)
  case 0
  then show ?case by (simp add: read_block_def)
next
  case (Suc k)
  let ?m = "m(d + of_nat k := m (s + of_nat k))"
  have rd: "read_block ?m s k = read_block m s k"
    using Suc.prems(2) [of _ k] by (auto intro!: nth_equalityI)
  have "fold (copy_byte d s) (rev [0..<k]) ?m = write_block ?m d (read_block ?m s k)"
    using Suc.prems by (intro Suc.IH) auto
  then have "fold (copy_byte d s) (rev [0..<Suc k]) m = write_block ?m d (read_block m s k)"
    by (simp add: copy_byte_def [of d s k] rd del: fun_upd_apply)
  also have "\<dots> = (write_block m d (read_block m s k))(d + of_nat k := m (s + of_nat k))"
    using Suc.prems(1) addr_offset_eq [of k _ d] by (auto simp: write_block_def fun_eq_iff)
  also have "\<dots> = write_block m d (read_block m s k @ [m (s + of_nat k)])"
    using Suc.prems(1) by (simp add: write_block_snoc)
  also have "read_block m s k @ [m (s + of_nat k)] = read_block m s (Suc k)"
    by (simp add: read_block_def)
  finally show ?case .
qed

lemma memcpy_disjoint:
  assumes "dest \<noteq> NULL" "src \<noteq> NULL" "n > 0"
    and "region src (unat n) \<inter> region dest (unat n) = {}"
  shows "memcpy m dest src n = ret (dest, write_block m dest (read_block m src (unat n)))"
proof -
  have "src + of_nat i \<noteq> dest + of_nat j" if "j < i" "i < unat n" for i j
    using assms(4) that by (auto simp: region_def set_eq_iff)
  then have "fold (copy_byte dest src) [0..<unat n] m = write_block m dest (read_block m src (unat n))"
    by (intro copy_forward unat_lt64)
  then show ?thesis
    using assms(1-3) by (simp add: memcpy_def)
qed

lemma offset_lt_neq:
  fixes s d :: addr
  assumes "unat s + n \<le> 2 ^ 64" "unat d + n \<le> 2 ^ 64" "unat s + i \<noteq> unat d + j" "i < n" "j < n"
  shows "s + of_nat i \<noteq> d + of_nat j"
proof
  assume eq: "s + of_nat i = d + of_nat j"
  have "unat (s + of_nat i) = unat s + i" "unat (d + of_nat j) = unat d + j"
    using assms by (simp_all add: unat_add_lt unat_of_nat_lt)
  with eq assms(3) show False by simp
qed

text \<open>
  C11. \<open>memmove\<close> is the simultaneous copy of the source block to the destination, whether
  or not the two blocks overlap, when neither block wraps around the address space.
\<close>

theorem memmove_correct:
  assumes "unat src + unat n \<le> 2 ^ 64" "unat dest + unat n \<le> 2 ^ 64"
  shows "memmove m dest src n = (dest, write_block m dest (read_block m src (unat n)))"
proof (cases src dest rule: linorder_cases)
  case less
  then have "unat src < unat dest" by (simp add: word_less_nat_alt)
  then have "fold (copy_byte dest src) (rev [0..<unat n]) m = write_block m dest (read_block m src (unat n))"
    using assms by (intro copy_backward unat_lt64 offset_lt_neq [where n = "unat n"]) auto
  with less show ?thesis by (simp add: memmove_def less_not_sym)
next
  case equal
  have "write_block m dest (read_block m dest (unat n)) = m"
    by (auto simp: write_block_def fun_eq_iff)
  with equal show ?thesis by (simp add: memmove_def)
next
  case greater
  then have "unat dest < unat src" by (simp add: word_less_nat_alt)
  then have "fold (copy_byte dest src) [0..<unat n] m = write_block m dest (read_block m src (unat n))"
    using assms by (intro copy_forward unat_lt64 offset_lt_neq [where n = "unat n"]) auto
  with greater show ?thesis by (simp add: memmove_def)
qed

lemma memcmp_loop_eq_0: "memcmp_loop m p1 p2 is = 0 \<longleftrightarrow> (\<forall>i\<in>set is. m (p1 + of_nat i) = m (p2 + of_nat i))"
  by (induction "is") auto

lemma memcmp_eq_0: "memcmp m p1 p2 n = 0 \<longleftrightarrow> read_block m p1 (unat n) = read_block m p2 (unat n)"
  by (auto simp: memcmp_def memcmp_loop_eq_0 read_block_def)

section \<open>String operations\<close>

lemma strlen_loop_cstring: "cstring m a cs \<Longrightarrow> strlen_loop m a = Some (a + of_nat (length cs))"
proof (induction cs arbitrary: a)
  case Nil
  then show ?case by (subst strlen_loop.simps) simp
next
  case (Cons c cs)
  then show ?case by (subst strlen_loop.simps) (auto simp: cstring_Cons)
qed

lemma strlen_cstring: "cstring m a cs \<Longrightarrow> strlen m a = Some (of_nat (length cs))"
  by (simp add: strlen_def strlen_loop_cstring)

lemma strcmp_cstring:
  "cstring m a cs \<Longrightarrow> cstring m b ds \<Longrightarrow> \<exists>r. strcmp m a b = Some r \<and> (r = 0 \<longleftrightarrow> cs = ds)"
proof (induction cs arbitrary: a b ds)
  case Nil
  then show ?case by (subst strcmp.simps) (cases ds; auto simp: cstring_Cons uint_0_iff)
next
  case (Cons c cs)
  show ?case
  proof (cases ds)
    case Nil
    with Cons.prems show ?thesis by (subst strcmp.simps) (auto simp: cstring_Cons uint_0_iff)
  next
    case (Cons d ds')
    with Cons.prems Cons.IH [of "a + 1" "b + 1" ds'] show ?thesis
      by (subst strcmp.simps) (auto simp: cstring_Cons simp flip: word_uint_eq_iff)
  qed
qed

lemma cstring_nth:
  assumes "cstring m a cs" "k \<le> length cs"
  shows "m (a + of_nat k) = (cs @ [0]) ! k"
proof -
  have "read_block m a (Suc (length cs)) ! k = m (a + of_nat k)" using assms(2) by simp
  with assms(1) show ?thesis by (simp add: cstring_def)
qed

lemma cstring_nth_0: "cstring m a cs \<Longrightarrow> k \<le> length cs \<Longrightarrow> m (a + of_nat k) = 0 \<longleftrightarrow> k = length cs"
  by (auto simp: cstring_nth nth_append cstring_def nth_mem dest: nth_mem)

lemma strncmp_loop_cstring:
  assumes "cstring m a cs" "cstring m b ps"
    and "i \<le> length ps" "i \<le> length cs" "take i cs = take i ps"
  shows "\<exists>k. strncmp_loop m a b (of_nat (length ps)) (of_nat i) = Some (of_nat k) \<and>
     k \<le> length ps \<and> k \<le> length cs \<and> take k cs = take k ps \<and>
     (k < length ps \<longrightarrow> m (a + of_nat k) \<noteq> m (b + of_nat k))"
  using assms(3-)
proof (induction "length ps - i" arbitrary: i)
  case 0
  then have "i = length ps" by simp
  then show ?case using 0 by (subst strncmp_loop.simps) auto
next
  case (Suc d)
  have lt: "(of_nat i :: u64) < of_nat (length ps)"
    using Suc.hyps(2) cstring_length [OF assms(2)]
    by (simp add: word_less_nat_alt unat_of_nat_lt)
  show ?case
  proof (cases "m (a + of_nat i) \<noteq> 0 \<and> m (a + of_nat i) = m (b + of_nat i)")
    case True
    have i: "i < length ps" "i < length cs"
      using Suc True cstring_nth_0 [OF assms(1), of i] by (auto simp: le_less)
    then have "cs ! i = ps ! i"
      using True cstring_nth [OF assms(1), of i] cstring_nth [OF assms(2), of i] by (simp add: nth_append)
    then have "take (Suc i) cs = take (Suc i) ps"
      using i Suc.prems by (simp add: take_Suc_conv_app_nth)
    then have "\<exists>k. strncmp_loop m a b (of_nat (length ps)) (of_nat (Suc i)) = Some (of_nat k) \<and>
     k \<le> length ps \<and> k \<le> length cs \<and> take k cs = take k ps \<and>
     (k < length ps \<longrightarrow> m (a + of_nat k) \<noteq> m (b + of_nat k))"
      using i Suc.hyps by (intro Suc.hyps(1)) auto
    moreover have "strncmp_loop m a b (of_nat (length ps)) (of_nat i)
        = strncmp_loop m a b (of_nat (length ps)) (of_nat (Suc i))"
      using True lt by (subst strncmp_loop.simps) (auto simp: add.commute)
    ultimately show ?thesis by simp
  next
    case False
    have "i < length ps" using Suc.hyps(2) by simp
    then have "m (b + of_nat i) \<noteq> 0" using cstring_nth_0 [OF assms(2), of i] by simp
    with False have "m (a + of_nat i) \<noteq> m (b + of_nat i)" by auto
    with False Suc.prems show ?thesis by (subst strncmp_loop.simps) auto
  qed
qed

lemma strncmp_prefix:
  assumes "cstring m a cs" "cstring m b ps"
  shows "\<exists>r. strncmp m a b (of_nat (length ps)) = Some r \<and> (r = 0 \<longleftrightarrow> prefix ps cs)"
proof -
  obtain k where k: "strncmp_loop m a b (of_nat (length ps)) 0 = Some (of_nat k)"
    "k \<le> length ps" "k \<le> length cs" "take k cs = take k ps"
    "k < length ps \<Longrightarrow> m (a + of_nat k) \<noteq> m (b + of_nat k)"
    using strncmp_loop_cstring [OF assms, of 0] by auto
  have eq: "(of_nat k :: u64) = of_nat (length ps) \<longleftrightarrow> k = length ps"
    using k(2) cstring_length [OF assms(2)] of_nat_inj_lt [of k "length ps", where ?'a = 64] by auto
  have "prefix ps cs \<longleftrightarrow> k = length ps"
  proof
    assume "prefix ps cs"
    then obtain zs where zs: "cs = ps @ zs" by (auto simp: prefix_def)
    show "k = length ps"
    proof (rule ccontr)
      assume "k \<noteq> length ps"
      with k(2) have lt: "k < length ps" by simp
      then have "m (a + of_nat k) = m (b + of_nat k)"
        using cstring_nth [OF assms(1), of k] cstring_nth [OF assms(2), of k] zs by (simp add: nth_append)
      with k(5) lt show False by simp
    qed
  next
    assume "k = length ps"
    with k(4) show "prefix ps cs" by (metis take_all_iff le_refl take_is_prefix)
  qed
  with k eq show ?thesis
    by (auto simp: strncmp_def simp flip: word_uint_eq_iff)
qed

lemma write_block_Cons:
  assumes "length bs < 2 ^ 64"
  shows "write_block m d (b # bs) = write_block (m(d := b)) (d + 1) bs"
proof
  fix x
  show "write_block m d (b # bs) x = write_block (m(d := b)) (d + 1) bs x"
  proof (cases "x = d")
    case True
    then show ?thesis
      using assms write_block_outside [of d "d + 1" bs "m(d := b)"]
      by (simp add: write_block_def [of m] start_notin_region)
  next
    case False
    then have "unat (x - (d + 1)) = unat (x - d) - 1"
      using unat_minus_one [of "x - d"] by (simp add: algebra_simps)
    moreover have "unat (x - d) \<noteq> 0" using False by (simp add: unat_eq_0)
    ultimately show ?thesis using False by (auto simp: write_block_def nth_Cons')
  qed
qed

lemma cstring_cong:
  assumes "\<And>x. x \<in> region a (Suc (length cs)) \<Longrightarrow> m x = m' x"
  shows "cstring m a cs \<longleftrightarrow> cstring m' a cs"
  using read_block_cong [of a "Suc (length cs)" m m', OF assms] by (simp add: cstring_def)

lemma strcpy_loop_cstring:
  assumes "cstring m s cs" "region s (Suc (length cs)) \<inter> region d (Suc (length cs)) = {}"
  shows "strcpy_loop m d s = Some (write_block m d (cs @ [0]))"
  using assms
proof (induction cs arbitrary: m s d)
  case Nil
  then show ?case
    using write_block_snoc [of "[]" m d 0] by (subst strcpy_loop.simps) simp
next
  case (Cons c cs)
  let ?m = "m(d := c)"
  have disj: "region (s + 1) (Suc (length cs)) \<inter> region (d + 1) (Suc (length cs)) = {}"
    and d: "d \<notin> region (s + 1) (Suc (length cs))"
    using Cons.prems(2) by (auto simp: region_Suc [of s] region_Suc [of d])
  have "cstring ?m (s + 1) cs \<longleftrightarrow> cstring m (s + 1) cs"
    by (rule cstring_cong) (use d in auto)
  then have "cstring ?m (s + 1) cs"
    using Cons.prems(1) by (simp add: cstring_Cons)
  then have "strcpy_loop ?m (d + 1) (s + 1) = Some (write_block ?m (d + 1) (cs @ [0]))"
    using Cons.IH disj by blast
  with Cons.prems(1) show ?case
    by (subst strcpy_loop.simps) (auto simp: cstring_Cons Let_def write_block_Cons)
qed

lemma strcpy_cstring:
  assumes "cstring m s cs" "region s (Suc (length cs)) \<inter> region d (Suc (length cs)) = {}"
  shows "strcpy m d s = Some (d, write_block m d (cs @ [0]))"
  using strcpy_loop_cstring [OF assms] by (simp add: strcpy_def)

section \<open>What the string functions guarantee\<close>


text \<open>The strings \<open>"hi"\<close> at 16 and \<open>"h"\<close> at 32 in otherwise empty memory.\<close>

definition string_example :: mem where
  "string_example = write_block (write_block (\<lambda>_. 0) 16 [104, 105]) 32 [104]"

lemma string_example_strings: "cstring string_example 16 [104, 105]" "cstring string_example 32 [104]"
  by (simp_all add: cstring_def read_block_def string_example_def write_block_def)


theorem memmove_correct_witness:
  "memmove string_example 17 16 2 = (17, write_block string_example 17 [104, 105])"
proof -
  have "[0..<2] = [0, 1 :: nat]" by (simp add: upt_rec)
  then have "read_block string_example 16 2 = [104, 105]"
    by (simp add: read_block_def string_example_def write_block_def)
  then show ?thesis using memmove_correct [of 16 2 17 string_example] by simp
qed

end
