(* ===== verification/Frame_Allocator.thy ===== *)
theory Frame_Allocator
  imports Prelude
begin

text \<open>
  The interface between the physical memory manager and the code that asks it for page frames
  (the page tables, the kernel heap, the process code): a locale with the allocator's operations
  and laws, and the consequences its clients rely on.
\<close>

section \<open>The contract of a frame allocator\<close>

text \<open>
  What the page tables, the heap and the process code rely on: an allocation hands out a free
  frame, takes it off the free frames and fails only when there is none; a release puts an
  allocated frame back.
\<close>

fun alloc_many :: "('s \<Rightarrow> (addr \<times> 's) result) \<Rightarrow> nat \<Rightarrow> 's \<Rightarrow> (addr list \<times> 's) result" where
  "alloc_many alloc 0 s = ret ([], s)"
| "alloc_many alloc (Suc n) s =
     rbind (alloc s) (\<lambda>(p, s1).
     rbind (alloc_many alloc n s1) (\<lambda>(ps, s2). ret (p # ps, s2)))"

fun dealloc_many :: "(addr \<Rightarrow> 's \<Rightarrow> 's result) \<Rightarrow> addr list \<Rightarrow> 's \<Rightarrow> 's result" where
  "dealloc_many dealloc [] s = ret s"
| "dealloc_many dealloc (p # ps) s = rbind (dealloc p s) (dealloc_many dealloc ps)"

locale frame_allocator =
  fixes inv :: "'s \<Rightarrow> bool"
    and managed :: "'s \<Rightarrow> addr set"
    and frames :: "'s \<Rightarrow> addr set"
    and alloc :: "'s \<Rightarrow> (addr \<times> 's) result"
    and dealloc :: "addr \<Rightarrow> 's \<Rightarrow> 's result"
  assumes frames_managed: "inv s \<Longrightarrow> finite (frames s) \<and> frames s \<subseteq> managed s"
    and alloc_some: "inv s \<Longrightarrow> frames s \<noteq> {} \<Longrightarrow>
      \<exists>p s'. alloc s = ret (p, s') \<and> p \<in> frames s \<and> frames s' = frames s - {p} \<and>
        managed s' = managed s \<and> inv s'"
    and alloc_none: "inv s \<Longrightarrow> frames s = {} \<Longrightarrow> \<exists>f. alloc s = fails f"
    and dealloc_used: "inv s \<Longrightarrow> p \<in> managed s - frames s \<Longrightarrow>
      \<exists>s'. dealloc p s = ret s' \<and> frames s' = insert p (frames s) \<and>
        managed s' = managed s \<and> inv s'"
    and dealloc_other: "inv s \<Longrightarrow> p \<notin> managed s - frames s \<Longrightarrow> \<exists>f. dealloc p s = fails f"
begin

lemma alloc_many_ok:
  "inv s \<Longrightarrow> n \<le> card (frames s) \<Longrightarrow>
   \<exists>ps s'. alloc_many alloc n s = ret (ps, s') \<and> length ps = n \<and> distinct ps \<and>
     set ps \<subseteq> frames s \<and> frames s' = frames s - set ps \<and> managed s' = managed s \<and> inv s'"
proof (induction n arbitrary: s)
  case 0
  then show ?case by simp
next
  case (Suc n)
  then have "frames s \<noteq> {}" by auto
  then obtain p s1 where s1: "alloc s = ret (p, s1)" "p \<in> frames s" "frames s1 = frames s - {p}"
    "managed s1 = managed s" "inv s1"
    using alloc_some [OF Suc.prems(1)] by blast
  have "n \<le> card (frames s1)"
    using Suc.prems frames_managed [OF Suc.prems(1)] s1(2,3) by simp
  from Suc.IH [OF s1(5) this] obtain ps s2 where s2: "alloc_many alloc n s1 = ret (ps, s2)"
    "length ps = n" "distinct ps" "set ps \<subseteq> frames s1" "frames s2 = frames s1 - set ps"
    "managed s2 = managed s1" "inv s2" by blast
  have "alloc_many alloc (Suc n) s = ret (p # ps, s2)" using s1(1) s2(1) by simp
  moreover have "frames s2 = frames s - set (p # ps)" using s1(3) s2(5) by auto
  moreover have "distinct (p # ps)" "set (p # ps) \<subseteq> frames s" using s1(2,3) s2(3,4) by auto
  ultimately show ?case using s1(4) s2(2,6,7) by (metis length_Cons)
qed

lemma alloc_many_exhausted:
  "inv s \<Longrightarrow> card (frames s) < n \<Longrightarrow> \<exists>f. alloc_many alloc n s = fails f"
proof (induction n arbitrary: s)
  case 0
  then show ?case by simp
next
  case (Suc n)
  show ?case
  proof (cases "frames s = {}")
    case True
    then show ?thesis using alloc_none [OF Suc.prems(1)] by auto
  next
    case False
    then obtain p s1 where s1: "alloc s = ret (p, s1)" "p \<in> frames s" "frames s1 = frames s - {p}"
      "inv s1"
      using alloc_some [OF Suc.prems(1)] by blast
    have "card (frames s) = Suc (card (frames s1))"
      unfolding s1(3) using frames_managed [OF Suc.prems(1)] s1(2) by (intro card.remove) auto
    with Suc.prems(2) have "card (frames s1) < n" by simp
    from Suc.IH [OF s1(4) this] show ?thesis using s1(1) by auto
  qed
qed

lemma dealloc_many_ok:
  "inv s \<Longrightarrow> distinct ps \<Longrightarrow> set ps \<subseteq> managed s - frames s \<Longrightarrow>
   \<exists>s'. dealloc_many dealloc ps s = ret s' \<and> frames s' = frames s \<union> set ps \<and>
     managed s' = managed s \<and> inv s'"
proof (induction ps arbitrary: s)
  case Nil
  then show ?case by simp
next
  case (Cons p ps)
  then obtain s1 where s1: "dealloc p s = ret s1" "frames s1 = insert p (frames s)"
    "managed s1 = managed s" "inv s1"
    using dealloc_used [of s p] by auto
  have "set ps \<subseteq> managed s1 - frames s1" using Cons.prems s1(2,3) by auto
  from Cons.IH [OF s1(4) _ this] Cons.prems(2) obtain s2 where
    "dealloc_many dealloc ps s1 = ret s2" "frames s2 = frames s1 \<union> set ps"
    "managed s2 = managed s1" "inv s2" by auto
  then show ?case using s1(1-3) by simp
qed

lemma alloc_dealloc_many:
  assumes "inv s" "n \<le> card (frames s)"
  shows "\<exists>ps s1 s2. alloc_many alloc n s = ret (ps, s1) \<and> length ps = n \<and> distinct ps \<and>
    set ps \<subseteq> frames s \<and> frames s1 = frames s - set ps \<and>
    dealloc_many dealloc (rev ps) s1 = ret s2 \<and> frames s2 = frames s"
proof -
  obtain ps s1 where s1: "alloc_many alloc n s = ret (ps, s1)" "length ps = n" "distinct ps"
    "set ps \<subseteq> frames s" "frames s1 = frames s - set ps" "managed s1 = managed s" "inv s1"
    using alloc_many_ok [OF assms] by blast
  have "set (rev ps) \<subseteq> managed s1 - frames s1"
    using s1(4-6) frames_managed [OF assms(1)] by auto
  then obtain s2 where "dealloc_many dealloc (rev ps) s1 = ret s2" "frames s2 = frames s1 \<union> set ps"
    using dealloc_many_ok [OF s1(7), of "rev ps"] s1(3) by auto
  moreover from this have "frames s2 = frames s" using s1(4,5) by auto
  ultimately show ?thesis using s1(1-5) by blast
qed

lemma double_dealloc_fails:
  assumes "inv s" "dealloc p s = ret s'"
  shows "\<exists>f. dealloc p s' = fails f"
proof -
  have "p \<in> managed s - frames s" using assms dealloc_other [of s p] by auto
  then have "inv s'" "p \<in> frames s'" using assms dealloc_used [of s p] by auto
  then show ?thesis using dealloc_other [of s' p] by blast
qed

end

end
