(* ===== verification/Pmm.thy ===== *)
theory Pmm
  imports Cpu Libc_String Frame_Allocator
begin

text \<open>
  The physical memory manager, \<open>kernel/system/pmm.c\<close>: a bitmap with one bit per 4 KiB
  frame (a set bit marks a used or unusable frame) and four page counters. \<open>boot_info\<close>
  holds what the kernel reads from the bootloader's responses and from linker symbols.
\<close>

section \<open>Definitions\<close>

definition PAGE_SIZE :: u64 where
  "PAGE_SIZE = 4096"

text \<open>\<open>ALIGN_UP(value, align)\<close> of \<open>mem.h\<close>, for a power of two.\<close>

definition ALIGN_UP :: "u64 \<Rightarrow> u64 \<Rightarrow> u64" where
  "ALIGN_UP value align = (value + align - 1) AND NOT (align - 1)"

definition LIMINE_MEMMAP_USABLE :: u64 where
  "LIMINE_MEMMAP_USABLE = 0"

definition LIMINE_MEMMAP_BOOTLOADER_RECLAIMABLE :: u64 where
  "LIMINE_MEMMAP_BOOTLOADER_RECLAIMABLE = 5"

record memmap_entry =
  me_base :: u64
  me_length :: u64
  me_type :: u64

record boot_info =
  memmap :: "memmap_entry list"
  hhdm_offset :: u64
  physical_base :: u64
  virtual_base :: u64
  text_begin :: u64
  text_end :: u64
  rodata_begin :: u64
  rodata_end :: u64
  data_begin :: u64
  bss_end :: u64
  bitmap_addr :: u64

definition PMM_BITMAP_SIZE :: u64 where
  "PMM_BITMAP_SIZE = 1024 * 1024"

type_synonym bitmap = "u64 \<Rightarrow> u8"

definition BITMAP_GET :: "bitmap \<Rightarrow> u64 \<Rightarrow> bool" where
  "BITMAP_GET bm index = (bm (index div 8) AND push_bit (unat (index mod 8)) 1 \<noteq> 0)"

definition BITMAP_SET :: "bitmap \<Rightarrow> u64 \<Rightarrow> bitmap" where
  "BITMAP_SET bm index =
     bm(index div 8 := bm (index div 8) OR push_bit (unat (index mod 8)) 1)"

definition BITMAP_CLEAR :: "bitmap \<Rightarrow> u64 \<Rightarrow> bitmap" where
  "BITMAP_CLEAR bm index =
     bm(index div 8 := bm (index div 8) AND NOT (push_bit (unat (index mod 8)) 1))"

text \<open>
  The state: the statics of \<open>pmm.c\<close>, the kernel's memory, and \<open>VMM_HIGHER_HALF\<close>, the
  offset at which all physical memory is visible to the kernel.
\<close>

record pmm = cpu +
  mem :: mem
  hhdm :: addr
  bitmap :: bitmap
  highest_page :: u64
  used_pages :: u64
  free_pages :: u64
  total_ram_pages :: u64
  pmm_lock :: spin_lock_t

subsection \<open>Initialisation\<close>

definition highest_address :: "memmap_entry list \<Rightarrow> u64" where
  "highest_address entries =
     fold (\<lambda>e h. let top = me_base e + me_length e in if top > h then top else h) entries 0"

definition init_highest_page :: "memmap_entry list \<Rightarrow> u64" where
  "init_highest_page entries =
     (let hp = (highest_address entries - 1) div PAGE_SIZE;
          max_bitmap_pages = PMM_BITMAP_SIZE * 8
      in if hp \<ge> max_bitmap_pages then max_bitmap_pages - 1 else hp)"

text \<open>The pages of a loop \<open>for (page_idx = first; page_idx < last; ++page_idx)\<close>.\<close>

definition page_range :: "u64 \<Rightarrow> u64 \<Rightarrow> u64 list" where
  "page_range first_page last_page = map of_nat [unat first_page..<unat last_page]"

definition release_page :: "u64 \<Rightarrow> 'a pmm_scheme \<Rightarrow> 'a pmm_scheme" where
  "release_page page_idx s =
     (if page_idx \<le> highest_page s \<and> BITMAP_GET (bitmap s) page_idx
      then s\<lparr>bitmap := BITMAP_CLEAR (bitmap s) page_idx,
             total_ram_pages := total_ram_pages s + 1\<rparr>
      else s)"

definition release_entry :: "memmap_entry \<Rightarrow> 'a pmm_scheme \<Rightarrow> 'a pmm_scheme" where
  "release_entry entry s =
     (if me_type entry = LIMINE_MEMMAP_USABLE \<or>
         me_type entry = LIMINE_MEMMAP_BOOTLOADER_RECLAIMABLE
      then let base = ALIGN_UP (me_base entry) PAGE_SIZE;
               top = (me_base entry + me_length entry) AND NOT (PAGE_SIZE - 1)
           in if top \<le> base then s
              else fold release_page (page_range (base div PAGE_SIZE) (top div PAGE_SIZE)) s
      else s)"

definition reserve_page :: "u64 \<Rightarrow> 'a pmm_scheme \<Rightarrow> 'a pmm_scheme" where
  "reserve_page page_idx s =
     (if page_idx \<le> highest_page s
      then let s = (if \<not> BITMAP_GET (bitmap s) page_idx
                    then s\<lparr>free_pages := free_pages s - 1\<rparr> else s)
           in s\<lparr>bitmap := BITMAP_SET (bitmap s) page_idx\<rparr>
      else s)"

text \<open>The three reserved ranges: the kernel image, the bitmap, and the first mebibyte.\<close>

definition kernel_pages :: "boot_info \<Rightarrow> u64 list" where
  "kernel_pages b =
     (let k_phys_start = physical_base b;
          k_size = bss_end b - text_begin b;
          k_phys_end = k_phys_start + ALIGN_UP k_size PAGE_SIZE
      in page_range (k_phys_start div PAGE_SIZE) (k_phys_end div PAGE_SIZE))"

definition bitmap_pages :: "boot_info \<Rightarrow> u64 list" where
  "bitmap_pages b =
     (let bitmap_phys_start = bitmap_addr b - virtual_base b + physical_base b;
          bitmap_phys_end = bitmap_phys_start + PMM_BITMAP_SIZE
      in page_range (bitmap_phys_start div PAGE_SIZE)
           ((bitmap_phys_end + PAGE_SIZE - 1) div PAGE_SIZE))"

definition low_pages :: "u64 list" where
  "low_pages = page_range 0 (0x100000 div PAGE_SIZE)"

definition pmm_install :: "boot_info \<Rightarrow> 'a pmm_scheme \<Rightarrow> 'a pmm_scheme" where
  "pmm_install b s =
     (let s = s\<lparr>highest_page := init_highest_page (memmap b)\<rparr>;
          s = s\<lparr>bitmap := (\<lambda>i. if i < PMM_BITMAP_SIZE then 0xFF else bitmap s i)\<rparr>;
          s = s\<lparr>total_ram_pages := 0\<rparr>;
          s = fold release_entry (memmap b) s;
          s = s\<lparr>free_pages := total_ram_pages s\<rparr>;
          s = fold reserve_page (kernel_pages b) s;
          s = fold reserve_page (bitmap_pages b) s;
          s = fold reserve_page low_pages s
      in s\<lparr>used_pages := total_ram_pages s - free_pages s\<rparr>)"

subsection \<open>Allocation and release\<close>

definition find_free_page :: "'a pmm_scheme \<Rightarrow> u64 option" where
  "find_free_page s =
     find (\<lambda>i. \<not> BITMAP_GET (bitmap s) i) (map of_nat [0..<Suc (unat (highest_page s))])"

definition pmm_allocate :: "'a pmm_scheme \<Rightarrow> (addr \<times> 'a pmm_scheme) result" where
  "pmm_allocate s =
     (let s = int_disable s in
      rbind (spin_lock ''pmm_allocate'' (pmm_lock s)) (\<lambda>l.
      let s = s\<lparr>pmm_lock := l\<rparr> in
      case find_free_page s of
        Some i \<Rightarrow>
          (let s = s\<lparr>bitmap := BITMAP_SET (bitmap s) i,
                     used_pages := used_pages s + 1,
                     free_pages := free_pages s - 1\<rparr>;
               phys = i * PAGE_SIZE;
               vaddr = phys + hhdm s;
               s = s\<lparr>pmm_lock := spin_unlock (pmm_lock s)\<rparr>;
               s = int_resume s;
               s = s\<lparr>mem := memset (mem s) vaddr 0 PAGE_SIZE\<rparr>
           in ret (phys, s))
      | None \<Rightarrow> fails (Panic ''out of memory in pmm_allocate!'')))"

definition pmm_free :: "addr \<Rightarrow> 'a pmm_scheme \<Rightarrow> 'a pmm_scheme result" where
  "pmm_free page s =
     (if page = NULL then fails (Panic ''pmm_free called with NULL pointer!'')
      else if page mod PAGE_SIZE \<noteq> 0 then fails (Panic ''pmm_free called with unaligned address!'')
      else let idx = page div PAGE_SIZE in
        if idx > highest_page s then fails (Panic ''pmm_free called with out-of-bounds address!'')
        else if \<not> BITMAP_GET (bitmap s) idx then fails (Panic ''pmm_free called on already free page!'')
        else let s = int_disable s in
          rbind (spin_lock ''pmm_free'' (pmm_lock s)) (\<lambda>l.
          let s = s\<lparr>pmm_lock := l\<rparr>;
              s = s\<lparr>bitmap := BITMAP_CLEAR (bitmap s) idx,
                     used_pages := used_pages s - 1,
                     free_pages := free_pages s + 1\<rparr>;
              s = s\<lparr>pmm_lock := spin_unlock (pmm_lock s)\<rparr>
          in ret (int_resume s)))"

definition pmm_get_total_pages :: "'a pmm_scheme \<Rightarrow> u64" where
  "pmm_get_total_pages s = total_ram_pages s"

definition pmm_get_free_pages :: "'a pmm_scheme \<Rightarrow> u64" where
  "pmm_get_free_pages s = free_pages s"

section \<open>The bitmap\<close>

lemma BITMAP_GET_bit: "BITMAP_GET bm i \<longleftrightarrow> bit (bm (i div 8)) (unat (i mod 8))"
proof -
  have "unat (i mod 8) < 8" by (simp add: unat_mod)
  then show ?thesis
    by (simp add: BITMAP_GET_def and_exp_eq_0_iff_not_bit)
qed

lemma word_div_mod_8_eq: "(i :: u64) div 8 = j div 8 \<Longrightarrow> i mod 8 = j mod 8 \<Longrightarrow> i = j"
  by (metis div_mult_mod_eq)

lemma bit_8_eq_iff:
  assumes "(i :: u64) div 8 = j div 8"
  shows "bit (2 ^ unat (i mod 8) :: u8) (unat (j mod 8)) \<longleftrightarrow> i = j"
proof -
  have "unat (i mod 8) < 8" by (simp add: unat_mod)
  then have "bit (2 ^ unat (i mod 8) :: u8) (unat (j mod 8)) \<longleftrightarrow> i mod 8 = j mod 8"
    by (auto simp: bit_exp_iff word_unat_eq_iff)
  with word_div_mod_8_eq [OF assms] show ?thesis by auto
qed

lemma BITMAP_GET_SET [simp]: "BITMAP_GET (BITMAP_SET bm i) j \<longleftrightarrow> i = j \<or> BITMAP_GET bm j"
  by (cases "i div 8 = j div 8")
    (auto simp: BITMAP_GET_bit BITMAP_SET_def bit_or_iff bit_8_eq_iff)

lemma BITMAP_GET_CLEAR [simp]: "BITMAP_GET (BITMAP_CLEAR bm i) j \<longleftrightarrow> i \<noteq> j \<and> BITMAP_GET bm j"
proof (cases "i div 8 = j div 8")
  case True
  have "unat (j mod 8) < 8" by (simp add: unat_mod)
  with True show ?thesis
    by (simp add: BITMAP_GET_bit BITMAP_CLEAR_def bit_and_iff bit_not_iff bit_8_eq_iff conj_commute)
qed (auto simp: BITMAP_GET_bit BITMAP_CLEAR_def)

lemma BITMAP_CLEAR_SET:
  assumes "\<not> BITMAP_GET bm i"
  shows "BITMAP_CLEAR (BITMAP_SET bm i) i = bm"
proof -
  have "(bm (i div 8) OR push_bit (unat (i mod 8)) 1) AND NOT (push_bit (unat (i mod 8)) 1) = bm (i div 8)"
    using assms by (intro bit_word_eqI) (auto simp: BITMAP_GET_bit bit_simps)
  then show ?thesis by (simp add: BITMAP_CLEAR_def BITMAP_SET_def)
qed

section \<open>Free frames and the counters\<close>

definition free_set :: "'a pmm_scheme \<Rightarrow> u64 set" where
  "free_set s = {i. i \<le> highest_page s \<and> \<not> BITMAP_GET (bitmap s) i}"

text \<open>
  The invariant: every index the allocator uses lies in the bitmap, the free counter
  counts the clear bits, the counters add up, frame 0 (whose address is the null pointer)
  is never free, the lock is not held between calls, and interrupts nest properly.
\<close>

definition pmm_inv :: "'a pmm_scheme \<Rightarrow> bool" where
  "pmm_inv s \<longleftrightarrow>
     highest_page s < PMM_BITMAP_SIZE * 8 \<and>
     free_pages s = of_nat (card (free_set s)) \<and>
     used_pages s + free_pages s = total_ram_pages s \<and>
     0 \<notin> free_set s \<and> \<not> latch (pmm_lock s) \<and> irq_inv s"

lemma card_free_set_le: "card (free_set s) \<le> Suc (unat (highest_page s))"
proof -
  have "free_set s \<subseteq> of_nat ` {..unat (highest_page s)}"
  proof
    fix i assume "i \<in> free_set s"
    then have "unat i \<le> unat (highest_page s)" by (simp add: free_set_def word_le_nat_alt)
    then show "i \<in> of_nat ` {..unat (highest_page s)}"
      by (intro image_eqI [where x = "unat i"]) auto
  qed
  then have "card (free_set s) \<le> card (of_nat ` {..unat (highest_page s)} :: u64 set)"
    by (intro card_mono) auto
  also have "\<dots> \<le> Suc (unat (highest_page s))"
    using card_image_le [of "{..unat (highest_page s)}"] by (metis card_atMost finite_atMost)
  finally show ?thesis .
qed

lemma unat_free_pages: "pmm_inv s \<Longrightarrow> unat (free_pages s) = card (free_set s)"
proof -
  assume inv: "pmm_inv s"
  then have "unat (highest_page s) < 8388608"
    by (simp add: pmm_inv_def PMM_BITMAP_SIZE_def word_less_nat_alt)
  with card_free_set_le [of s] have "card (free_set s) < 2 ^ LENGTH(64)" by simp
  with inv show ?thesis by (simp add: pmm_inv_def unat_of_nat_lt)
qed

subsection \<open>After initialisation\<close>

lemma release_page_frame [simp]:
  "highest_page (release_page p s) = highest_page s"
  "free_pages (release_page p s) = free_pages s"
  "pmm_lock (release_page p s) = pmm_lock s"
  "irq_inv (release_page p s) = irq_inv s"
  by (simp_all add: release_page_def irq_inv_def)

lemma release_page_free: "free_set (release_page p s) = free_set s \<union> {i. i = p \<and> i \<le> highest_page s}"
  by (auto simp: free_set_def release_page_def)

lemma release_page_total:
  "total_ram_pages s = of_nat (card (free_set s)) \<Longrightarrow>
   total_ram_pages (release_page p s) = of_nat (card (free_set (release_page p s)))"
proof (cases "p \<le> highest_page s \<and> p \<notin> free_set s")
  case True
  assume "total_ram_pages s = of_nat (card (free_set s))"
  moreover have "free_set (release_page p s) = insert p (free_set s)"
    using True by (auto simp: release_page_free)
  moreover have "total_ram_pages (release_page p s) = total_ram_pages s + 1"
    using True by (simp add: release_page_def free_set_def)
  ultimately show ?thesis using True by (simp add: add.commute)
next
  case False
  assume "total_ram_pages s = of_nat (card (free_set s))"
  moreover have "release_page p s = s"
    using False by (auto simp: release_page_def free_set_def)
  ultimately show ?thesis by simp
qed

lemma release_pages:
  assumes "total_ram_pages s = of_nat (card (free_set s))"
  shows "free_set (fold release_page ps s) = free_set s \<union> {i \<in> set ps. i \<le> highest_page s}"
    and "total_ram_pages (fold release_page ps s) = of_nat (card (free_set (fold release_page ps s)))"
  using assms by (induction ps arbitrary: s) (auto simp: release_page_free release_page_total)

definition usable_pages :: "memmap_entry \<Rightarrow> u64 set" where
  "usable_pages e =
     (let base = ALIGN_UP (me_base e) PAGE_SIZE;
          top = (me_base e + me_length e) AND NOT (PAGE_SIZE - 1)
      in if (me_type e = LIMINE_MEMMAP_USABLE \<or> me_type e = LIMINE_MEMMAP_BOOTLOADER_RECLAIMABLE)
            \<and> base < top
         then set (page_range (base div PAGE_SIZE) (top div PAGE_SIZE)) else {})"

lemma release_entry_frame [simp]:
  "highest_page (release_entry e s) = highest_page s"
  "free_pages (release_entry e s) = free_pages s"
  "pmm_lock (release_entry e s) = pmm_lock s"
  "irq_inv (release_entry e s) = irq_inv s"
  by (simp_all add: release_entry_def Let_def fold_preserves [where g = highest_page]
      fold_preserves [where g = free_pages] fold_preserves [where g = pmm_lock]
      fold_preserves [where g = irq_inv])

lemma release_entry:
  assumes "total_ram_pages s = of_nat (card (free_set s))"
  shows "free_set (release_entry e s) = free_set s \<union> {i \<in> usable_pages e. i \<le> highest_page s}"
    and "total_ram_pages (release_entry e s) = of_nat (card (free_set (release_entry e s)))"
  using assms by (auto simp: release_entry_def usable_pages_def Let_def release_pages not_le)

lemma release_entries:
  assumes "total_ram_pages s = of_nat (card (free_set s))"
  shows "free_set (fold release_entry es s) =
      free_set s \<union> {i. i \<le> highest_page s \<and> (\<exists>e\<in>set es. i \<in> usable_pages e)}"
    and "total_ram_pages (fold release_entry es s) = of_nat (card (free_set (fold release_entry es s)))"
  using assms by (induction es arbitrary: s) (auto simp: release_entry)

lemma reserve_page_frame [simp]:
  "highest_page (reserve_page p s) = highest_page s"
  "total_ram_pages (reserve_page p s) = total_ram_pages s"
  "pmm_lock (reserve_page p s) = pmm_lock s"
  "irq_inv (reserve_page p s) = irq_inv s"
  by (simp_all add: reserve_page_def irq_inv_def Let_def)

lemma reserve_page_free: "free_set (reserve_page p s) = free_set s - {p}"
  by (auto simp: free_set_def reserve_page_def Let_def)

lemma reserve_page_count:
  assumes "free_pages s = of_nat (card (free_set s))"
  shows "free_pages (reserve_page p s) = of_nat (card (free_set (reserve_page p s)))"
proof (cases "p \<in> free_set s")
  case True
  then have "card (free_set s) = Suc (card (free_set s - {p}))"
    by (intro card.remove) auto
  then have "free_pages s - 1 = of_nat (card (free_set s - {p}))"
    by (simp only: assms of_nat_Suc) simp
  moreover have "free_pages (reserve_page p s) = free_pages s - 1"
    using True by (simp add: reserve_page_def free_set_def)
  ultimately show ?thesis by (simp only: reserve_page_free)
next
  case False
  then have "free_pages (reserve_page p s) = free_pages s"
    by (auto simp: reserve_page_def free_set_def)
  with False assms show ?thesis by (simp add: reserve_page_free)
qed

lemma reserve_pages:
  assumes "free_pages s = of_nat (card (free_set s))"
  shows "free_set (fold reserve_page ps s) = free_set s - set ps"
    and "free_pages (fold reserve_page ps s) = of_nat (card (free_set (fold reserve_page ps s)))"
  using assms by (induction ps arbitrary: s) (auto simp: reserve_page_free reserve_page_count)

lemma page_range_iff: "i \<in> set (page_range a b) \<longleftrightarrow> a \<le> i \<and> i < b"
proof
  assume "i \<in> set (page_range a b)"
  then obtain k where k: "i = of_nat k" "unat a \<le> k" "k < unat b"
    by (auto simp: page_range_def)
  moreover have "k < 2 ^ LENGTH(64)" using k(3) unat_lt64 [of b] by simp
  ultimately show "a \<le> i \<and> i < b"
    by (simp add: word_le_nat_alt word_less_nat_alt unat_of_nat_lt)
next
  assume "a \<le> i \<and> i < b"
  then show "i \<in> set (page_range a b)"
    by (auto simp: page_range_def word_le_nat_alt word_less_nat_alt
        intro!: image_eqI [where x = "unat i"])
qed

lemma low_pages_iff: "i \<in> set low_pages \<longleftrightarrow> i < 256"
  by (simp add: low_pages_def page_range_iff PAGE_SIZE_def)

lemma init_highest_page_bound: "init_highest_page es < PMM_BITMAP_SIZE * 8"
  by (auto simp: init_highest_page_def PMM_BITMAP_SIZE_def Let_def not_le)

lemma BITMAP_GET_full:
  assumes "\<And>j. j < PMM_BITMAP_SIZE \<Longrightarrow> bm j = 0xFF" "i < PMM_BITMAP_SIZE * 8"
  shows "BITMAP_GET bm i"
proof -
  have "i div 8 < PMM_BITMAP_SIZE"
    using assms(2) by (simp add: PMM_BITMAP_SIZE_def word_less_nat_alt unat_div)
  moreover have "bit (0xFF :: u8) k" if "k < 8" for k
  proof -
    have "(0xFF :: u8) = - 1" by simp
    with that show ?thesis by (simp only: bit_minus_1_iff) simp
  qed
  moreover have "unat (i mod 8) < 8" by (simp add: unat_mod)
  ultimately show ?thesis using assms(1) by (simp add: BITMAP_GET_bit)
qed

lemma pmm_install_props:
  fixes s :: "'a pmm_scheme" and b :: boot_info
  defines "t \<equiv> pmm_install b s"
  shows "free_set t = {i. i \<le> init_highest_page (memmap b) \<and> (\<exists>e\<in>set (memmap b). i \<in> usable_pages e)}
           - set (kernel_pages b) - set (bitmap_pages b) - set low_pages"
    and "highest_page t = init_highest_page (memmap b)"
    and "free_pages t = of_nat (card (free_set t))"
    and "used_pages t + free_pages t = total_ram_pages t"
    and "pmm_lock t = pmm_lock s" and "irq_inv t = irq_inv s"
proof -
  define s1 where "s1 = s\<lparr>highest_page := init_highest_page (memmap b),
    bitmap := (\<lambda>i. if i < PMM_BITMAP_SIZE then 0xFF else bitmap s i), total_ram_pages := 0\<rparr>"
  define s2 where "s2 = fold release_entry (memmap b) s1"
  define s3 where "s3 = s2\<lparr>free_pages := total_ram_pages s2\<rparr>"
  define s4 where "s4 = fold reserve_page low_pages
    (fold reserve_page (bitmap_pages b) (fold reserve_page (kernel_pages b) s3))"
  have t: "t = s4\<lparr>used_pages := total_ram_pages s4 - free_pages s4\<rparr>"
    by (simp add: t_def pmm_install_def s1_def s2_def s3_def s4_def Let_def cong: if_cong)
  have "BITMAP_GET (bitmap s1) i" if "i \<le> highest_page s1" for i
    using that init_highest_page_bound [of "memmap b"]
    by (intro BITMAP_GET_full) (auto simp: s1_def)
  then have f1: "free_set s1 = {}" by (auto simp: free_set_def)
  then have "total_ram_pages s1 = of_nat (card (free_set s1))" by (simp add: s1_def)
  note f2 = release_entries [OF this, of "memmap b", folded s2_def, unfolded f1]
  have h2: "highest_page s2 = highest_page s1" "pmm_lock s2 = pmm_lock s1" "irq_inv s2 = irq_inv s1"
    by (simp_all add: s2_def fold_preserves [where g = highest_page]
        fold_preserves [where g = pmm_lock] fold_preserves [where g = irq_inv])
  have f3: "free_set s3 = free_set s2" by (simp add: s3_def free_set_def)
  then have "free_pages s3 = of_nat (card (free_set s3))" using f2(2) by (simp add: s3_def)
  note f4 = reserve_pages [OF this, of "kernel_pages b"]
  note f5 = reserve_pages [OF f4(2), of "bitmap_pages b"]
  note f6 = reserve_pages [OF f5(2), of low_pages, folded s4_def]
  have h4: "highest_page s4 = highest_page s3" "pmm_lock s4 = pmm_lock s3" "irq_inv s4 = irq_inv s3"
    by (simp_all add: s4_def fold_preserves [where g = highest_page]
        fold_preserves [where g = pmm_lock] fold_preserves [where g = irq_inv])
  have ft: "free_set t = free_set s4" by (simp add: t free_set_def)
  show "free_set t = {i. i \<le> init_highest_page (memmap b) \<and> (\<exists>e\<in>set (memmap b). i \<in> usable_pages e)}
           - set (kernel_pages b) - set (bitmap_pages b) - set low_pages"
    using f2(1) f3 f4(1) f5(1) f6(1) by (simp add: ft s1_def)
  show "highest_page t = init_highest_page (memmap b)" by (simp add: t h4 s3_def h2 s1_def)
  show "free_pages t = of_nat (card (free_set t))" using f6(2) by (simp only: ft) (simp add: t)
  show "used_pages t + free_pages t = total_ram_pages t" by (simp add: t)
  show "pmm_lock t = pmm_lock s" by (simp add: t h4 s3_def h2 s1_def)
  show "irq_inv t = irq_inv s" using h4(3) h2(3) by (simp add: t s3_def s1_def irq_inv_def)
qed

text \<open>
  C8. After \<open>pmm_install\<close> the free frames are exactly those below the (bitmap-limited)
  top of memory that belong to a usable memory-map entry and to none of the three
  reserved ranges (kernel image, bitmap, first mebibyte); the counters agree with the
  bitmap, and the allocator's invariant holds.
\<close>

theorem pmm_install_correct:
  assumes "irq_inv s" "\<not> latch (pmm_lock s)"
  shows "pmm_inv (pmm_install b s) \<and> free_set (pmm_install b s) =
      {i. i \<le> init_highest_page (memmap b) \<and> (\<exists>e\<in>set (memmap b). i \<in> usable_pages e) \<and>
          i \<notin> set (kernel_pages b) \<and> i \<notin> set (bitmap_pages b) \<and> 256 \<le> i}"
proof -
  have *: "free_set (pmm_install b s) =
      {i. i \<le> init_highest_page (memmap b) \<and> (\<exists>e\<in>set (memmap b). i \<in> usable_pages e) \<and>
          i \<notin> set (kernel_pages b) \<and> i \<notin> set (bitmap_pages b) \<and> 256 \<le> i}"
    by (auto simp: pmm_install_props(1) low_pages_iff not_le)
  then have "0 \<notin> free_set (pmm_install b s)" by simp
  then have "pmm_inv (pmm_install b s)"
    unfolding pmm_inv_def
    using assms init_highest_page_bound pmm_install_props(3,4) [of b s]
    by (simp only: pmm_install_props(2,5,6)) simp
  with * show ?thesis by (rule conjI [rotated])
qed

subsection \<open>Allocation and release\<close>

lemma sync_ops_pmm_fields [simp]:
  fixes s :: "'a pmm_scheme"
  shows "mem (int_disable s) = mem s" "hhdm (int_disable s) = hhdm s"
    "bitmap (int_disable s) = bitmap s" "highest_page (int_disable s) = highest_page s"
    "used_pages (int_disable s) = used_pages s" "free_pages (int_disable s) = free_pages s"
    "total_ram_pages (int_disable s) = total_ram_pages s" "pmm_lock (int_disable s) = pmm_lock s"
    "mem (int_resume s) = mem s" "hhdm (int_resume s) = hhdm s"
    "bitmap (int_resume s) = bitmap s" "highest_page (int_resume s) = highest_page s"
    "used_pages (int_resume s) = used_pages s" "free_pages (int_resume s) = free_pages s"
    "total_ram_pages (int_resume s) = total_ram_pages s" "pmm_lock (int_resume s) = pmm_lock s"
    "mem (sync_settled s) = mem s" "hhdm (sync_settled s) = hhdm s"
    "bitmap (sync_settled s) = bitmap s" "highest_page (sync_settled s) = highest_page s"
    "used_pages (sync_settled s) = used_pages s" "free_pages (sync_settled s) = free_pages s"
    "total_ram_pages (sync_settled s) = total_ram_pages s" "pmm_lock (sync_settled s) = pmm_lock s"
  by (simp_all add: int_disable_def int_resume_def sync_settled_def Let_def)

lemma find_free_page_cong:
  "bitmap s = bitmap t \<Longrightarrow> highest_page s = highest_page t \<Longrightarrow> find_free_page s = find_free_page t"
  by (simp add: find_free_page_def)

lemma find_free_page_None: "find_free_page s = None \<longleftrightarrow> free_set s = {}"
proof -
  have "(\<exists>k < Suc (unat (highest_page s)). i = of_nat k) \<longleftrightarrow> i \<le> highest_page s" for i
    using unat_lt64 [of "highest_page s"]
    by (auto simp: word_le_nat_alt unat_of_nat_lt less_Suc_eq_le intro!: exI [where x = "unat i"])
  then have "of_nat ` {0..<Suc (unat (highest_page s))} = {i. i \<le> highest_page s}"
    unfolding set_eq_iff image_iff by (simp add: Bex_def)
  then show ?thesis
    by (auto simp: find_free_page_def find_None_iff free_set_def simp del: upt_Suc)
qed

lemma find_free_page_Some:
  assumes "find_free_page s = Some i"
  shows "i \<in> free_set s" and "\<And>j. j \<in> free_set s \<Longrightarrow> i \<le> j"
proof -
  let ?n = "Suc (unat (highest_page s))"
  from assms obtain k where k: "k < ?n" "i = of_nat k" "\<not> BITMAP_GET (bitmap s) (of_nat k)"
    and least: "\<And>l. l < k \<Longrightarrow> BITMAP_GET (bitmap s) (of_nat l)"
    by (auto simp: find_free_page_def find_Some_iff simp del: upt_Suc)
  have lt: "k < 2 ^ LENGTH(64)" using k(1) unat_lt64 [of "highest_page s"] by simp
  with k show "i \<in> free_set s" by (simp add: free_set_def word_le_nat_alt unat_of_nat_lt)
  fix j assume "j \<in> free_set s"
  then have "\<not> unat j < k" using least [of "unat j"] by (auto simp: free_set_def)
  with k lt show "i \<le> j" by (simp add: word_le_nat_alt unat_of_nat_lt)
qed

definition take_page :: "u64 \<Rightarrow> 'a pmm_scheme \<Rightarrow> 'a pmm_scheme" where
  "take_page i s = (sync_settled s)\<lparr>
     mem := memset (mem s) (i * PAGE_SIZE + hhdm s) 0 PAGE_SIZE,
     bitmap := BITMAP_SET (bitmap s) i,
     used_pages := used_pages s + 1, free_pages := free_pages s - 1, pmm_lock := unlocked\<rparr>"

definition give_page :: "u64 \<Rightarrow> 'a pmm_scheme \<Rightarrow> 'a pmm_scheme" where
  "give_page i s = (sync_settled s)\<lparr>
     bitmap := BITMAP_CLEAR (bitmap s) i,
     used_pages := used_pages s - 1, free_pages := free_pages s + 1, pmm_lock := unlocked\<rparr>"

lemma pmm_allocate_eq:
  assumes "pmm_inv s"
  shows "pmm_allocate s =
    (case find_free_page s of
       None \<Rightarrow> fails (Panic ''out of memory in pmm_allocate!'')
     | Some i \<Rightarrow> ret (i * PAGE_SIZE, take_page i s))"
proof -
  have "find_free_page ((int_disable s)\<lparr>pmm_lock := l\<rparr>) = find_free_page s" for l
    by (rule find_free_page_cong) simp_all
  moreover have "\<not> latch (pmm_lock s)" "irq_inv s" using assms by (simp_all add: pmm_inv_def)
  ultimately show ?thesis
    by (auto simp: pmm_allocate_def take_page_def Let_def irq_inv_def int_disable_def int_resume_def
        sync_settled_def split: option.split)
qed

lemma pmm_free_eq:
  assumes "pmm_inv s"
  shows "pmm_free p s =
    (if p = NULL then fails (Panic ''pmm_free called with NULL pointer!'')
     else if p mod PAGE_SIZE \<noteq> 0 then fails (Panic ''pmm_free called with unaligned address!'')
     else if p div PAGE_SIZE > highest_page s
       then fails (Panic ''pmm_free called with out-of-bounds address!'')
     else if p div PAGE_SIZE \<in> free_set s
       then fails (Panic ''pmm_free called on already free page!'')
     else ret (give_page (p div PAGE_SIZE) s))"
proof -
  have "\<not> latch (pmm_lock s)" "irq_inv s" using assms by (simp_all add: pmm_inv_def)
  then show ?thesis
    by (auto simp: pmm_free_def give_page_def Let_def free_set_def irq_inv_def int_disable_def
        int_resume_def sync_settled_def)
qed

lemma pmm_inv_take_page:
  assumes "pmm_inv s" "i \<in> free_set s"
  shows "pmm_inv (take_page i s)" and "free_set (take_page i s) = free_set s - {i}"
proof -
  show fs: "free_set (take_page i s) = free_set s - {i}"
    by (auto simp: take_page_def free_set_def)
  have "card (free_set s) = Suc (card (free_set s - {i}))"
    using assms(2) by (intro card.remove) auto
  moreover have "free_pages s = of_nat (card (free_set s))" using assms(1) by (simp add: pmm_inv_def)
  ultimately have "free_pages s - 1 = of_nat (card (free_set s - {i}))"
    by (simp only: of_nat_Suc) simp
  then have "free_pages (take_page i s) = of_nat (card (free_set (take_page i s)))"
    unfolding fs by (simp add: take_page_def)
  moreover have used_free: "used_pages s + free_pages s = total_ram_pages s"
    using assms(1) unfolding pmm_inv_def by blast
  moreover have "used_pages (take_page i s) + free_pages (take_page i s) = total_ram_pages (take_page i s)"
    using used_free by (simp add: take_page_def)
  moreover have "highest_page (take_page i s) = highest_page s" "irq_inv (take_page i s) = irq_inv s"
    "pmm_lock (take_page i s) = unlocked"
    by (simp_all add: take_page_def irq_inv_def)
  ultimately show "pmm_inv (take_page i s)"
    using assms(1) unfolding pmm_inv_def fs by simp
qed

lemma pmm_inv_give_page:
  assumes "pmm_inv s" "i \<le> highest_page s" "i \<notin> free_set s" "i \<noteq> 0"
  shows "pmm_inv (give_page i s)" and "free_set (give_page i s) = insert i (free_set s)"
proof -
  show fs: "free_set (give_page i s) = insert i (free_set s)"
    using assms(2,3) by (auto simp: give_page_def free_set_def)
  have "free_pages s + 1 = of_nat (card (insert i (free_set s)))"
    using assms by (simp add: pmm_inv_def add.commute)
  then have "free_pages (give_page i s) = of_nat (card (free_set (give_page i s)))"
    unfolding fs by (simp add: give_page_def)
  moreover have used_free: "used_pages s + free_pages s = total_ram_pages s"
    using assms(1) unfolding pmm_inv_def by blast
  moreover have "used_pages (give_page i s) + free_pages (give_page i s) = total_ram_pages (give_page i s)"
    using used_free by (simp add: give_page_def)
  moreover have "highest_page (give_page i s) = highest_page s" "irq_inv (give_page i s) = irq_inv s"
    "pmm_lock (give_page i s) = unlocked"
    by (simp_all add: give_page_def irq_inv_def)
  ultimately show "pmm_inv (give_page i s)"
    using assms unfolding pmm_inv_def fs by simp
qed

definition managed_frames :: "'a pmm_scheme \<Rightarrow> addr set" where
  "managed_frames s = (\<lambda>i. i * PAGE_SIZE) ` {i. 0 < i \<and> i \<le> highest_page s}"

definition free_frames :: "'a pmm_scheme \<Rightarrow> addr set" where
  "free_frames s = (\<lambda>i. i * PAGE_SIZE) ` free_set s"

lemma page_address:
  assumes "i \<le> h" "h < PMM_BITMAP_SIZE * 8"
  shows "unat (i * PAGE_SIZE) = unat i * 4096"
    and "i * PAGE_SIZE div PAGE_SIZE = i" and "i * PAGE_SIZE mod PAGE_SIZE = 0"
proof -
  have small: "unat i < 2 ^ 23"
    using assms by (simp add: word_le_nat_alt word_less_nat_alt PMM_BITMAP_SIZE_def)
  then show u: "unat (i * PAGE_SIZE) = unat i * 4096"
    by (simp add: PAGE_SIZE_def unat_word_ariths)
  show "i * PAGE_SIZE div PAGE_SIZE = i" "i * PAGE_SIZE mod PAGE_SIZE = 0"
    by (simp_all add: word_unat_eq_iff unat_div_distrib unat_mod_distrib u)
      (simp_all add: PAGE_SIZE_def)
qed

lemma page_of_address:
  "p mod PAGE_SIZE = 0 \<Longrightarrow> p div PAGE_SIZE * PAGE_SIZE = p"
  by (metis add.right_neutral div_mult_mod_eq)

lemma page_address_free:
  assumes "pmm_inv s" "i \<in> free_set s"
  shows "i \<le> highest_page s" "i * PAGE_SIZE div PAGE_SIZE = i" "i * PAGE_SIZE mod PAGE_SIZE = 0"
    "i \<noteq> 0" "unat (i * PAGE_SIZE) = unat i * 4096"
  using assms page_address [of i "highest_page s"] by (auto simp: free_set_def pmm_inv_def)

lemma managed_frames_iff:
  assumes "pmm_inv s"
  shows "p \<in> managed_frames s \<longleftrightarrow>
    p \<noteq> NULL \<and> p mod PAGE_SIZE = 0 \<and> p div PAGE_SIZE \<le> highest_page s"
proof -
  have h: "highest_page s < PMM_BITMAP_SIZE * 8" using assms by (simp add: pmm_inv_def)
  have "i * PAGE_SIZE \<noteq> 0" if "0 < i" "i \<le> highest_page s" for i
    using page_address(1) [OF that(2) h] that(1) by (auto simp: word_unat_eq_iff word_less_nat_alt)
  moreover have "0 < p div PAGE_SIZE" if "p \<noteq> 0" "p mod PAGE_SIZE = 0"
    using page_of_address [OF that(2)] that(1) by (metis mult_zero_left word_neq_0_conv)
  moreover have "p \<in> (\<lambda>i. i * PAGE_SIZE) ` {i. 0 < i \<and> i \<le> highest_page s}"
    if "0 < p div PAGE_SIZE" "p mod PAGE_SIZE = 0" "p div PAGE_SIZE \<le> highest_page s"
    using that page_of_address [OF that(2)] by (intro image_eqI [of _ _ "p div PAGE_SIZE"]) auto
  ultimately show ?thesis
    unfolding managed_frames_def using page_address(2,3) [OF _ h] by (auto del: mod_0_imp_dvd)
qed

lemma free_frames_iff:
  assumes "pmm_inv s"
  shows "p \<in> free_frames s \<longleftrightarrow> p mod PAGE_SIZE = 0 \<and> p div PAGE_SIZE \<in> free_set s"
  unfolding free_frames_def
  using page_address_free(2,3) [OF assms] page_of_address [of p]
  by (auto intro: image_eqI [of _ _ "p div PAGE_SIZE"] del: mod_0_imp_dvd)

lemma free_frames_subset: "pmm_inv s \<Longrightarrow> free_frames s \<subseteq> managed_frames s"
  by (auto simp: free_frames_iff managed_frames_iff free_set_def pmm_inv_def)

lemma free_frames_take_page:
  assumes "pmm_inv s" "i \<in> free_set s"
  shows "free_frames (take_page i s) = free_frames s - {i * PAGE_SIZE}"
  using free_frames_iff [OF assms(1)] free_frames_iff [OF pmm_inv_take_page(1) [OF assms]]
    pmm_inv_take_page(2) [OF assms] page_address_free [OF assms] page_of_address
  by (auto del: mod_0_imp_dvd)

lemma free_frames_give_page:
  assumes "pmm_inv s" "p \<in> managed_frames s - free_frames s"
  shows "pmm_inv (give_page (p div PAGE_SIZE) s)"
    and "free_frames (give_page (p div PAGE_SIZE) s) = insert p (free_frames s)"
    and "free_set (give_page (p div PAGE_SIZE) s) = insert (p div PAGE_SIZE) (free_set s)"
proof -
  let ?i = "p div PAGE_SIZE"
  from assms have p: "p \<noteq> 0" "p mod PAGE_SIZE = 0" "?i \<le> highest_page s" "?i \<notin> free_set s"
    by (auto simp: managed_frames_iff free_frames_iff)
  then have "?i \<noteq> 0" using page_of_address [of p] by auto
  note give = pmm_inv_give_page [OF assms(1) p(3,4) this]
  show "pmm_inv (give_page ?i s)" and fs: "free_set (give_page ?i s) = insert ?i (free_set s)"
    by (fact give)+
  show "free_frames (give_page ?i s) = insert p (free_frames s)"
    unfolding free_frames_def fs using page_of_address [OF p(2)] by simp
qed

lemma managed_take_give [simp]:
  "managed_frames (take_page i s) = managed_frames s"
  "managed_frames (give_page i s) = managed_frames s"
  by (simp_all add: managed_frames_def take_page_def give_page_def)

lemma pmm_free_ok:
  assumes "pmm_inv s" "p \<in> managed_frames s - free_frames s"
  shows "pmm_free p s = ret (give_page (p div PAGE_SIZE) s)"
  using assms by (auto simp: pmm_free_eq managed_frames_iff free_frames_iff del: mod_0_imp_dvd)

lemma pmm_free_fails:
  assumes "pmm_inv s" "p \<notin> managed_frames s - free_frames s"
  shows "\<exists>f. pmm_free p s = fails f"
  using assms by (auto simp: pmm_free_eq managed_frames_iff free_frames_iff del: mod_0_imp_dvd)

lemma pmm_allocate_ok:
  assumes "pmm_inv s" "free_frames s \<noteq> {}"
  obtains i where "pmm_allocate s = ret (i * PAGE_SIZE, take_page i s)" "i \<in> free_set s"
    "\<And>j. j \<in> free_set s \<Longrightarrow> i \<le> j"
proof -
  have "free_set s \<noteq> {}" using assms(2) by (simp add: free_frames_def)
  then obtain i where i: "find_free_page s = Some i" using find_free_page_None [of s] by auto
  show thesis
    by (rule that [of i]) (use find_free_page_Some [OF i] pmm_allocate_eq [OF assms(1)] i in auto)
qed

interpretation frames: frame_allocator pmm_inv managed_frames free_frames pmm_allocate pmm_free
proof
  fix s :: "'a pmm_scheme" and p :: addr
  assume inv: "pmm_inv s"
  have "finite (free_frames s)" by (simp add: free_frames_def)
  then show "finite (free_frames s) \<and> free_frames s \<subseteq> managed_frames s"
    using free_frames_subset [OF inv] by simp
  show "\<exists>p s'. pmm_allocate s = ret (p, s') \<and> p \<in> free_frames s \<and>
      free_frames s' = free_frames s - {p} \<and> managed_frames s' = managed_frames s \<and> pmm_inv s'"
    if ne: "free_frames s \<noteq> {}"
  proof -
    obtain i where i: "pmm_allocate s = ret (i * PAGE_SIZE, take_page i s)" "i \<in> free_set s"
      using pmm_allocate_ok [OF inv ne] by blast
    have "i * PAGE_SIZE \<in> free_frames s" using i(2) by (simp add: free_frames_def)
    with i show ?thesis
      using free_frames_take_page [OF inv i(2)] pmm_inv_take_page(1) [OF inv i(2)] by auto
  qed
  show "\<exists>f. pmm_allocate s = fails f" if "free_frames s = {}"
    using that find_free_page_None [of s] pmm_allocate_eq [OF inv] by (simp add: free_frames_def)
  show "\<exists>s'. pmm_free p s = ret s' \<and> free_frames s' = insert p (free_frames s) \<and>
      managed_frames s' = managed_frames s \<and> pmm_inv s'" if "p \<in> managed_frames s - free_frames s"
    using pmm_free_ok [OF inv that] free_frames_give_page [OF inv that] by simp
  show "\<exists>f. pmm_free p s = fails f" if "p \<notin> managed_frames s - free_frames s"
    using pmm_free_fails [OF inv that] .
qed

section \<open>What the allocator guarantees\<close>

lemma memset_take_page:
  "mem (take_page i s) = write_block (mem s) (i * PAGE_SIZE + hhdm s) (replicate 4096 0)"
  by (simp add: take_page_def memset_write_block) (simp add: PAGE_SIZE_def)

text \<open>
  C4. With a free frame left, \<open>pmm_allocate\<close> returns the lowest one: never the null
  frame, page aligned, zero-filled through the higher-half mapping with the rest of memory
  untouched, no longer free, and the invariant and the interrupt flag are kept. With none
  left it panics.
\<close>

theorem pmm_allocate_correct:
  assumes "pmm_inv s"
  shows "if free_frames s = {} then pmm_allocate s = fails (Panic ''out of memory in pmm_allocate!'')
    else \<exists>p s'. pmm_allocate s = ret (p, s') \<and> p \<in> free_frames s \<and> p \<noteq> NULL \<and>
      p mod PAGE_SIZE = 0 \<and> (\<forall>q. q \<in> free_frames s \<longrightarrow> p \<le> q) \<and>
      mem s' = write_block (mem s) (p + hhdm s) (replicate 4096 0) \<and>
      free_frames s' = free_frames s - {p} \<and> pmm_inv s' \<and> if_flag s' = if_flag s"
proof (cases "free_frames s = {}")
  case True
  then show ?thesis
    using find_free_page_None [of s] pmm_allocate_eq [OF assms] by (simp add: free_frames_def)
next
  case False
  then obtain i where i: "pmm_allocate s = ret (i * PAGE_SIZE, take_page i s)" "i \<in> free_set s"
    "\<And>j. j \<in> free_set s \<Longrightarrow> i \<le> j"
    using pmm_allocate_ok [OF assms] by blast
  note addr = page_address_free [OF assms]
  have "i * PAGE_SIZE \<in> free_frames s" using i(2) by (simp add: free_frames_def)
  moreover have "i * PAGE_SIZE \<noteq> NULL" using calculation free_frames_subset [OF assms]
    by (auto simp: managed_frames_iff [OF assms])
  moreover have "i * PAGE_SIZE \<le> q" if "q \<in> free_frames s" for q
    using that i(3) addr(5) [OF i(2)] addr(5) by (auto simp: free_frames_def word_le_nat_alt)
  moreover have "if_flag (take_page i s) = if_flag s" by (simp add: take_page_def)
  ultimately show ?thesis
    using False i(1) addr(3) [OF i(2)] memset_take_page free_frames_take_page [OF assms i(2)]
      pmm_inv_take_page(1) [OF assms i(2)]
    by auto
qed

text \<open>
  C9. \<open>n\<close> successive allocations return \<open>n\<close> pairwise distinct frames that were free before,
  whenever that many frames are free; otherwise one of them panics. Freeing them all, in the
  reverse order, gives back the same set of free frames.
\<close>

theorem pmm_alloc_many_distinct:
  assumes "pmm_inv s"
  shows "(n \<le> card (free_frames s) \<longrightarrow>
      (\<exists>ps s1 s2. alloc_many pmm_allocate n s = ret (ps, s1) \<and> length ps = n \<and> distinct ps \<and>
        set ps \<subseteq> free_frames s \<and> free_frames s1 = free_frames s - set ps \<and>
        dealloc_many pmm_free (rev ps) s1 = ret s2 \<and> free_frames s2 = free_frames s)) \<and>
    (card (free_frames s) < n \<longrightarrow> (\<exists>f. alloc_many pmm_allocate n s = fails f))"
  using frames.alloc_many_exhausted [OF assms, of n] frames.alloc_dealloc_many [OF assms, of n]
  by blast


text \<open>
  Freeing the frame an allocation has just returned restores the bitmap and all four
  counters exactly.
\<close>

theorem pmm_allocate_free_roundtrip:
  assumes "pmm_inv s" "free_frames s \<noteq> {}"
  shows "\<exists>p s1 s2. pmm_allocate s = ret (p, s1) \<and> pmm_free p s1 = ret s2 \<and>
    bitmap s2 = bitmap s \<and> pmm_get_free_pages s2 = pmm_get_free_pages s \<and>
    used_pages s2 = used_pages s \<and> pmm_get_total_pages s2 = pmm_get_total_pages s \<and>
    highest_page s2 = highest_page s \<and> if_flag s2 = if_flag s"
proof -
  obtain i where i: "pmm_allocate s = ret (i * PAGE_SIZE, take_page i s)" "i \<in> free_set s"
    using pmm_allocate_ok [OF assms] by blast
  let ?s1 = "take_page i s"
  have "i * PAGE_SIZE \<in> managed_frames ?s1 - free_frames ?s1"
    using i(2) free_frames_subset [OF assms(1)] free_frames_take_page [OF assms(1) i(2)]
    by (auto simp: free_frames_def)
  then have "pmm_free (i * PAGE_SIZE) ?s1 = ret (give_page i ?s1)"
    using pmm_free_ok [OF pmm_inv_take_page(1) [OF assms(1) i(2)]]
      page_address_free(2) [OF assms(1) i(2)] by simp
  moreover have "BITMAP_CLEAR (BITMAP_SET (bitmap s) i) i = bitmap s"
    using i(2) by (intro BITMAP_CLEAR_SET) (simp add: free_set_def)
  ultimately show ?thesis
    using i(1) by (intro exI [of _ "i * PAGE_SIZE"] exI [of _ ?s1] exI [of _ "give_page i ?s1"])
      (simp add: give_page_def take_page_def pmm_get_free_pages_def pmm_get_total_pages_def)
qed

subsection \<open>A concrete allocator\<close>

text \<open>Four frames, of which the last two are free.\<close>

definition pmm_example :: pmm where
  "pmm_example = \<lparr>if_flag = True, sync_depth = 0, sync_was_enabled = False,
     mem = (\<lambda>_. 7), hhdm = 0xFFFF800000000000, bitmap = (\<lambda>i. if i = 0 then 0xF3 else 0xFF),
     highest_page = 3, used_pages = 0, free_pages = 2, total_ram_pages = 2, pmm_lock = unlocked\<rparr>"

lemma word_le_3: "(i :: u64) \<le> 3 \<longleftrightarrow> i \<in> {0, 1, 2, 3}"
proof -
  have "unat i \<le> 3 \<longleftrightarrow> unat i \<in> {0, 1, 2, 3}" by auto
  then show ?thesis by (simp add: word_le_nat_alt word_unat_eq_iff)
qed

lemma free_set_example: "free_set pmm_example = {2, 3}"
proof -
  let ?bm = "\<lambda>i :: u64. if i = 0 then 0xF3 else 0xFF :: u8"
  have "BITMAP_GET ?bm 0" "BITMAP_GET ?bm 1" "\<not> BITMAP_GET ?bm 2" "\<not> BITMAP_GET ?bm 3"
    by (simp_all add: BITMAP_GET_def)
  then show ?thesis
    unfolding free_set_def pmm_example_def pmm.simps word_le_3 by blast
qed

lemma pmm_inv_example: "pmm_inv pmm_example"
  using free_set_example
  by (simp add: pmm_inv_def) (simp add: pmm_example_def PMM_BITMAP_SIZE_def irq_inv_def)

lemma free_frames_example: "free_frames pmm_example = {0x2000, 0x3000}"
  by (simp add: free_frames_def free_set_example PAGE_SIZE_def)

theorem pmm_allocate_correct_witness:
  "\<exists>s'. pmm_allocate pmm_example = ret (0x2000, s') \<and> free_frames s' = {0x3000}"
proof -
  have ne: "free_frames pmm_example \<noteq> {}" by (simp add: free_frames_example)
  note correct = pmm_allocate_correct [OF pmm_inv_example, unfolded if_not_P [OF ne]]
  then obtain p s' where p: "pmm_allocate pmm_example = ret (p, s')" "p \<in> {0x2000, 0x3000}"
    "\<forall>q. q \<in> {0x2000, 0x3000} \<longrightarrow> p \<le> q" "free_frames s' = {0x2000, 0x3000} - {p}"
    unfolding free_frames_example by (elim exE conjE) (rule that; assumption)
  have "p \<le> 0x2000" using p(3) by blast
  then have "p \<noteq> 0x3000" by auto
  with p(2) have "p = 0x2000" by blast
  moreover have "{0x2000, 0x3000} - {0x2000 :: addr} = {0x3000}" by auto
  ultimately show ?thesis using p(1,4) by simp
qed

theorem pmm_alloc_many_distinct_witness:
  "(\<exists>ps s1. alloc_many pmm_allocate 2 pmm_example = ret (ps, s1) \<and> free_frames s1 = {}) \<and>
   (\<exists>f. alloc_many pmm_allocate 3 pmm_example = fails f)"
proof
  have c: "card (free_frames pmm_example) = 2" by (simp add: free_frames_example)
  then obtain ps s1 where ps: "alloc_many pmm_allocate 2 pmm_example = ret (ps, s1)"
    "length ps = 2" "distinct ps" "set ps \<subseteq> free_frames pmm_example"
    "free_frames s1 = free_frames pmm_example - set ps"
    using pmm_alloc_many_distinct [OF pmm_inv_example, of 2] by auto
  have "set ps = free_frames pmm_example"
    using ps(2-4) c by (intro card_subset_eq) (auto simp: distinct_card free_frames_example)
  with ps show "\<exists>ps s1. alloc_many pmm_allocate 2 pmm_example = ret (ps, s1) \<and> free_frames s1 = {}"
    by auto
  show "\<exists>f. alloc_many pmm_allocate 3 pmm_example = fails f"
    using pmm_alloc_many_distinct [OF pmm_inv_example, of 3] c by auto
qed

lemma managed_frames_example: "0x1000 \<in> managed_frames pmm_example"
proof -
  have "highest_page pmm_example = 3" by (simp add: pmm_example_def)
  then show ?thesis by (simp add: managed_frames_iff [OF pmm_inv_example] PAGE_SIZE_def)
qed


theorem pmm_allocate_free_roundtrip_witness:
  "\<exists>p s1 s2. pmm_allocate pmm_example = ret (p, s1) \<and> pmm_free p s1 = ret s2 \<and>
    bitmap s2 = bitmap pmm_example"
  using pmm_allocate_free_roundtrip [OF pmm_inv_example] by (auto simp: free_frames_example)

theorem pmm_install_correct_witness:
  "pmm_inv (pmm_install \<lparr>memmap = [\<lparr>me_base = 0, me_length = 0x102000, me_type = 0\<rparr>],
     hhdm_offset = 0, physical_base = 0x100000, virtual_base = 0, text_begin = 0, text_end = 0,
     rodata_begin = 0, rodata_end = 0, data_begin = 0, bss_end = 0x1000, bitmap_addr = 0\<rparr> pmm_example)"
proof -
  have "irq_inv pmm_example" "\<not> latch (pmm_lock pmm_example)"
    by (simp_all add: pmm_example_def irq_inv_def)
  from pmm_install_correct [OF this] show ?thesis by blast
qed

end
