(* ===== verification/Page_Table.thy ===== *)
theory Page_Table
  imports Prelude
begin

text \<open>
  Four-level page tables as a tree. A table is known by its kernel address; \<open>\<sigma> t i\<close> is the
  entry \<open>i\<close> of table \<open>t\<close>, and a present entry points to the table at its address field plus the
  higher-half offset. The lemmas say what linking a fresh table, writing a last-level entry and
  unlinking an empty table do to every path from the root, which is all the code of
  \<open>kernel/system/vmm.c\<close> does to a tree.
\<close>

section \<open>Entries\<close>

definition PTE_PRESENT :: u64 where "PTE_PRESENT = 0x1"
definition PTE_WRITABLE :: u64 where "PTE_WRITABLE = 0x2"
definition PTE_USER :: u64 where "PTE_USER = 0x4"
definition PTE_NX :: u64 where "PTE_NX = 0x8000000000000000"
definition PTE_ADDR_MASK :: u64 where "PTE_ADDR_MASK = 0x000FFFFFFFFFF000"

definition PTE_GET_ADDR :: "u64 \<Rightarrow> addr" where
  "PTE_GET_ADDR v = v AND PTE_ADDR_MASK"

definition PTE_GET_FLAGS :: "u64 \<Rightarrow> u64" where
  "PTE_GET_FLAGS v = v AND NOT PTE_ADDR_MASK"

abbreviation present :: "u64 \<Rightarrow> bool" where
  "present e \<equiv> e AND PTE_PRESENT \<noteq> 0"

lemma present_bit: "present e \<longleftrightarrow> bit e 0"
  by (simp add: PTE_PRESENT_def and_one_eq odd_iff_mod_2_eq_one [symmetric] bit_0 one_word_def [symmetric])

section \<open>Paths\<close>

definition child :: "(addr \<Rightarrow> u64 \<Rightarrow> u64) \<Rightarrow> addr \<Rightarrow> addr \<Rightarrow> u64 \<Rightarrow> addr option" where
  "child \<sigma> h t i = (if present (\<sigma> t i) then Some (PTE_GET_ADDR (\<sigma> t i) + h) else None)"

fun table_at :: "(addr \<Rightarrow> u64 \<Rightarrow> u64) \<Rightarrow> addr \<Rightarrow> addr \<Rightarrow> u64 list \<Rightarrow> addr option" where
  "table_at \<sigma> h t [] = Some t"
| "table_at \<sigma> h t (i # p) =
     (case child \<sigma> h t i of None \<Rightarrow> None | Some t' \<Rightarrow> table_at \<sigma> h t' p)"

definition path_ok :: "u64 list \<Rightarrow> bool" where
  "path_ok p \<longleftrightarrow> length p \<le> 3 \<and> (\<forall>i\<in>set p. i < 512)"

definition tree :: "(addr \<Rightarrow> u64 \<Rightarrow> u64) \<Rightarrow> addr \<Rightarrow> addr \<Rightarrow> addr set \<Rightarrow> bool" where
  "tree \<sigma> h root V \<longleftrightarrow>
     (\<forall>p t. path_ok p \<and> table_at \<sigma> h root p = Some t \<longrightarrow> t \<in> V) \<and>
     (\<forall>p q t. path_ok p \<and> path_ok q \<and> table_at \<sigma> h root p = Some t \<and>
        table_at \<sigma> h root q = Some t \<longrightarrow> p = q)"

lemma table_at_snoc:
  "table_at \<sigma> h t (p @ [i]) =
     (case table_at \<sigma> h t p of None \<Rightarrow> None | Some t' \<Rightarrow> child \<sigma> h t' i)"
  by (induction p arbitrary: t) (auto split: option.splits)

lemma path_ok_snoc: "path_ok (p @ [i]) \<longleftrightarrow> path_ok p \<and> length p < 3 \<and> i < 512"
  by (auto simp: path_ok_def)

lemma treeD:
  assumes "tree \<sigma> h root V" "path_ok p" "table_at \<sigma> h root p = Some t"
  shows "t \<in> V" and "\<And>q. path_ok q \<Longrightarrow> table_at \<sigma> h root q = Some t \<Longrightarrow> q = p"
  using assms unfolding tree_def by blast+

lemma treeI:
  assumes "\<And>p t. path_ok p \<Longrightarrow> table_at \<sigma> h root p = Some t \<Longrightarrow> t \<in> V"
    and "\<And>p q t. path_ok p \<Longrightarrow> path_ok q \<Longrightarrow> table_at \<sigma> h root p = Some t \<Longrightarrow>
      table_at \<sigma> h root q = Some t \<Longrightarrow> p = q"
  shows "tree \<sigma> h root V"
  using assms unfolding tree_def by blast

lemma child_cong: "\<sigma>' t i = \<sigma> t i \<Longrightarrow> child \<sigma>' h t i = child \<sigma> h t i"
  by (simp add: child_def)

text \<open>The tree only depends on the entries of its own tables.\<close>

lemma table_at_agree:
  assumes "tree \<sigma> h root V" "\<And>t i. t \<in> V \<Longrightarrow> i < 512 \<Longrightarrow> \<sigma>' t i = \<sigma> t i"
  shows "path_ok p \<Longrightarrow> table_at \<sigma>' h root p = table_at \<sigma> h root p"
proof (induction p rule: rev_induct)
  case (snoc i p)
  then have IH: "table_at \<sigma>' h root p = table_at \<sigma> h root p" and p: "path_ok p" "i < 512"
    by (auto simp: path_ok_snoc)
  show ?case
    using treeD(1) [OF assms(1) p(1)] assms(2) [OF _ p(2)] child_cong [of \<sigma>' _ i \<sigma> h]
    by (auto simp: table_at_snoc IH split: option.split)
qed simp

lemma tree_agree:
  assumes "tree \<sigma> h root V" "\<And>t i. t \<in> V \<Longrightarrow> i < 512 \<Longrightarrow> \<sigma>' t i = \<sigma> t i"
  shows "tree \<sigma>' h root V"
proof (rule treeI)
  fix p t assume p: "path_ok p" "table_at \<sigma>' h root p = Some t"
  then show "t \<in> V" using treeD(1) [OF assms(1) p(1)] table_at_agree [OF assms p(1)] by simp
  fix q assume q: "path_ok q" "table_at \<sigma>' h root q = Some t"
  have "table_at \<sigma> h root p = Some t" "table_at \<sigma> h root q = Some t"
    using p q table_at_agree [OF assms p(1)] table_at_agree [OF assms q(1)] by simp_all
  then show "p = q" using treeD(2) [OF assms(1) q(1)] p(1) by blast
qed

subsection \<open>Linking a fresh table\<close>

lemma table_at_link:
  assumes tr: "tree \<sigma> h root V"
    and p: "path_ok (p @ [i])" "table_at \<sigma> h root p = Some t" "\<not> present (\<sigma> t i)"
    and g: "g \<notin> V" "present (\<sigma>' t i)" "PTE_GET_ADDR (\<sigma>' t i) + h = g"
    and zero: "\<forall>j<512. \<sigma>' g j = 0"
    and same: "\<forall>t'\<in>V. \<forall>j<512. (t', j) \<noteq> (t, i) \<longrightarrow> \<sigma>' t' j = \<sigma> t' j"
  shows "path_ok q \<Longrightarrow>
    table_at \<sigma>' h root q = (if q = p @ [i] then Some g else table_at \<sigma> h root q)"
proof (induction q rule: rev_induct)
  case (snoc j q)
  then have IH: "table_at \<sigma>' h root q = (if q = p @ [i] then Some g else table_at \<sigma> h root q)"
    and q: "path_ok q" "j < 512"
    by (auto simp: path_ok_snoc)
  have none: "table_at \<sigma> h root (p @ [i]) = None"
    using p by (simp add: table_at_snoc child_def)
  show ?case
  proof (cases "q = p @ [i]")
    case True
    have "child \<sigma>' h g j = None" using zero q(2) by (simp add: child_def)
    with True IH none show ?thesis
      using table_at_snoc [of \<sigma> h root "p @ [i]" j] table_at_snoc [of \<sigma>' h root "p @ [i]" j] by simp
  next
    case False
    then have q_same: "table_at \<sigma>' h root q = table_at \<sigma> h root q" using IH by simp
    show ?thesis
    proof (cases "table_at \<sigma> h root q")
      case None
      then have "q \<noteq> p" using p(2) by auto
      then show ?thesis using None q_same by (simp add: table_at_snoc)
    next
      case (Some t')
      have t': "t' \<in> V" using treeD(1) [OF tr q(1) Some] .
      have "q = p \<longleftrightarrow> t' = t"
        using treeD(2) [OF tr q(1) Some, of p] p(1,2) Some by (auto simp: path_ok_snoc)
      moreover have "child \<sigma>' h t i = Some g" using g by (simp add: child_def)
      moreover have "child \<sigma>' h t' j = child \<sigma> h t' j" if "(t', j) \<noteq> (t, i)"
        using same [rule_format, OF t' q(2) that] by (rule child_cong)
      ultimately show ?thesis using Some q_same by (auto simp: table_at_snoc)
    qed
  qed
qed simp

lemma tree_link:
  assumes tr: "tree \<sigma> h root V"
    and p: "path_ok (p @ [i])" "table_at \<sigma> h root p = Some t" "\<not> present (\<sigma> t i)"
    and g: "g \<notin> V" "present (\<sigma>' t i)" "PTE_GET_ADDR (\<sigma>' t i) + h = g"
    and zero: "\<forall>j<512. \<sigma>' g j = 0"
    and same: "\<forall>t'\<in>V. \<forall>j<512. (t', j) \<noteq> (t, i) \<longrightarrow> \<sigma>' t' j = \<sigma> t' j"
  shows "tree \<sigma>' h root (insert g V)"
proof (rule treeI)
  note at = table_at_link [OF assms]
  fix q t' assume q: "path_ok q" "table_at \<sigma>' h root q = Some t'"
  show "t' \<in> insert g V"
  proof (cases "q = p @ [i]")
    case True
    then show ?thesis using at [OF q(1)] q(2) by simp
  next
    case False
    then show ?thesis using at [OF q(1)] q(2) treeD(1) [OF tr q(1)] by simp
  qed
  fix r assume r: "path_ok r" "table_at \<sigma>' h root r = Some t'"
  have old: "table_at \<sigma> h root x = Some t' \<and> t' \<noteq> g" if "path_ok x" "x \<noteq> p @ [i]"
    "table_at \<sigma>' h root x = Some t'" for x
    using at [OF that(1)] that treeD(1) [OF tr that(1)] g(1) by auto
  have new: "t' = g" if "x = p @ [i]" "path_ok x" "table_at \<sigma>' h root x = Some t'" for x
    using at [OF that(2)] that by simp
  show "q = r"
  proof (cases "q = p @ [i] \<or> r = p @ [i]")
    case True
    then show ?thesis using old [OF q(1) _ q(2)] old [OF r(1) _ r(2)] new [OF _ q] new [OF _ r] by blast
  next
    case False
    then have "table_at \<sigma> h root q = Some t'" "table_at \<sigma> h root r = Some t'"
      using old [OF q(1) _ q(2)] old [OF r(1) _ r(2)] by blast+
    then show ?thesis using treeD(2) [OF tr r(1) _ q(1)] by blast
  qed
qed

subsection \<open>Writing a last-level entry\<close>

lemma table_at_leaf:
  assumes tr: "tree \<sigma> h root V"
    and p: "path_ok p" "length p = 3" "table_at \<sigma> h root p = Some t"
    and same: "\<forall>t'\<in>V. \<forall>j<512. t' \<noteq> t \<longrightarrow> \<sigma>' t' j = \<sigma> t' j"
  shows "path_ok q \<Longrightarrow> table_at \<sigma>' h root q = table_at \<sigma> h root q"
proof (induction q rule: rev_induct)
  case (snoc j q)
  then have IH: "table_at \<sigma>' h root q = table_at \<sigma> h root q"
    and q: "path_ok q" "length q < 3" "j < 512"
    by (auto simp: path_ok_snoc)
  have "t' \<noteq> t" if "table_at \<sigma> h root q = Some t'" for t'
    using treeD(2) [OF tr q(1) that, of p] p q(2) by auto
  then have "child \<sigma>' h t' j = child \<sigma> h t' j" if "table_at \<sigma> h root q = Some t'" for t'
    using that same treeD(1) [OF tr q(1) that] q(3) by (intro child_cong) blast
  then show ?case by (auto simp: table_at_snoc IH split: option.split)
qed simp

lemma tree_cong:
  assumes "tree \<sigma> h root V"
    and "\<And>q. path_ok q \<Longrightarrow> table_at \<sigma>' h root q = table_at \<sigma> h root q"
  shows "tree \<sigma>' h root V"
  using assms unfolding tree_def by metis

subsection \<open>Unlinking an empty table\<close>

lemma table_at_unlink:
  assumes tr: "tree \<sigma> h root V"
    and p: "path_ok (p @ [i])" "table_at \<sigma> h root p = Some t" "\<sigma>' t i = 0"
    and g: "table_at \<sigma> h root (p @ [i]) = Some g"
    and zero: "length p < 2 \<longrightarrow> (\<forall>j<512. \<sigma> g j = 0)"
    and same: "\<forall>t'\<in>V. \<forall>j<512. (t', j) \<noteq> (t, i) \<longrightarrow> \<sigma>' t' j = \<sigma> t' j"
  shows "path_ok q \<Longrightarrow>
    table_at \<sigma>' h root q = (if q = p @ [i] then None else table_at \<sigma> h root q)"
proof (induction q rule: rev_induct)
  case (snoc j q)
  then have IH: "table_at \<sigma>' h root q = (if q = p @ [i] then None else table_at \<sigma> h root q)"
    and q: "path_ok q" "length q < 3" "j < 512"
    by (auto simp: path_ok_snoc)
  show ?case
  proof (cases "q = p @ [i]")
    case True
    then have "child \<sigma> h g j = None" using zero q by (simp add: child_def)
    with True IH g show ?thesis
      using table_at_snoc [of \<sigma> h root "p @ [i]" j] table_at_snoc [of \<sigma>' h root "p @ [i]" j] by simp
  next
    case False
    then have q_same: "table_at \<sigma>' h root q = table_at \<sigma> h root q" using IH by simp
    show ?thesis
    proof (cases "table_at \<sigma> h root q")
      case None
      then have "q \<noteq> p" using p(2) by auto
      then show ?thesis using None q_same by (simp add: table_at_snoc)
    next
      case (Some t')
      have t': "t' \<in> V" using treeD(1) [OF tr q(1) Some] .
      have "q = p \<longleftrightarrow> t' = t"
        using treeD(2) [OF tr q(1) Some, of p] p(1,2) Some by (auto simp: path_ok_snoc)
      moreover have "child \<sigma>' h t i = None" using p(3) by (simp add: child_def)
      moreover have "child \<sigma>' h t' j = child \<sigma> h t' j" if "(t', j) \<noteq> (t, i)"
        using same [rule_format, OF t' q(3) that] by (rule child_cong)
      ultimately show ?thesis using Some q_same by (auto simp: table_at_snoc)
    qed
  qed
qed simp

lemma tree_unlink:
  assumes tr: "tree \<sigma> h root V"
    and p: "path_ok (p @ [i])" "table_at \<sigma> h root p = Some t" "\<sigma>' t i = 0"
    and g: "table_at \<sigma> h root (p @ [i]) = Some g"
    and zero: "length p < 2 \<longrightarrow> (\<forall>j<512. \<sigma> g j = 0)"
    and same: "\<forall>t'\<in>V. \<forall>j<512. (t', j) \<noteq> (t, i) \<longrightarrow> \<sigma>' t' j = \<sigma> t' j"
  shows "tree \<sigma>' h root (V - {g})"
proof (rule treeI)
  note at = table_at_unlink [OF assms]
  fix q t' assume q: "path_ok q" "table_at \<sigma>' h root q = Some t'"
  then have q': "q \<noteq> p @ [i]" "table_at \<sigma> h root q = Some t'"
    using at [OF q(1)] by (auto split: if_splits)
  then show "t' \<in> V - {g}" using treeD [OF tr q(1) q'(2)] g p(1) by auto
  fix r assume r: "path_ok r" "table_at \<sigma>' h root r = Some t'"
  then have "table_at \<sigma> h root r = Some t'" using at [OF r(1)] by (auto split: if_splits)
  then show "q = r" using treeD(2) [OF tr q(1) q'(2) r(1)] by simp
qed

end
