(* ===== verification/Address_Space.thy ===== *)
theory Address_Space
  imports Prelude
begin

text \<open>
  The interface of an address space for the code that maps pages (the kernel's own mappings, the
  heap, programs and their stacks): what is mapped, as a function of the virtual page, and how
  mapping and unmapping change it.
\<close>

fun map_all :: "(addr \<Rightarrow> addr \<Rightarrow> u64 \<Rightarrow> 's \<Rightarrow> (bool \<times> 's) result) \<Rightarrow> (addr \<times> addr \<times> u64) list \<Rightarrow> 's \<Rightarrow> 's result" where
  "map_all mp [] s = ret s"
| "map_all mp ((v, p, f) # xs) s = rbind (mp v p f s) (\<lambda>(_, s). map_all mp xs s)"

fun unmap_all :: "(addr \<Rightarrow> 's \<Rightarrow> (bool \<times> 's) result) \<Rightarrow> addr list \<Rightarrow> 's \<Rightarrow> 's result" where
  "unmap_all um [] s = ret s"
| "unmap_all um (v # vs) s = rbind (um v s) (\<lambda>(_, s). unmap_all um vs s)"

locale address_space =
  fixes inv :: "'s \<Rightarrow> bool"
    and look :: "'s \<Rightarrow> addr \<Rightarrow> u64 option"
    and page :: "addr \<Rightarrow> 'k"
    and ent :: "addr \<Rightarrow> u64 \<Rightarrow> u64"
    and aligned :: "addr \<Rightarrow> bool"
    and map_page :: "addr \<Rightarrow> addr \<Rightarrow> u64 \<Rightarrow> 's \<Rightarrow> (bool \<times> 's) result"
    and unmap_page :: "addr \<Rightarrow> 's \<Rightarrow> (bool \<times> 's) result"
  assumes look_page: "page v = page w \<Longrightarrow> look s v = look s w"
    and map_law: "inv s \<Longrightarrow>
      (\<exists>s'. map_page v p f s = ret (True, s') \<and> inv s' \<and>
        (\<forall>w. look s' w = (if page w = page v then Some (ent p f) else look s w))) \<or>
      (\<exists>m. map_page v p f s = fails (Panic m))"
    and unmap_law: "inv s \<Longrightarrow> aligned v \<Longrightarrow>
      \<exists>s'. unmap_page v s = ret (True, s') \<and> inv s' \<and>
        (\<forall>w. look s' w = (if page w = page v then None else look s w))"
begin

lemma map_then_unmap:
  assumes "inv s" "aligned v" "look s v = None" "map_page v p f s = ret (b, s1)"
  shows "look s1 v = Some (ent p f) \<and>
    (\<exists>s2. unmap_page v s1 = ret (True, s2) \<and> inv s2 \<and> look s2 = look s)"
proof -
  have s1: "inv s1" "look s1 w = (if page w = page v then Some (ent p f) else look s w)" for w
    using map_law [OF assms(1), of v p f] assms(4) by auto
  obtain s2 where s2: "unmap_page v s1 = ret (True, s2)" "inv s2"
    "\<And>w. look s2 w = (if page w = page v then None else look s1 w)"
    using unmap_law [OF s1(1) assms(2)] by blast
  have "look s2 w = look s w" for w
    using s2(3) [of w] s1(2) [of w] look_page [of w v s] assms(3) by (cases "page w = page v") auto
  then show ?thesis using s1(2) [of v] s2 by auto
qed

lemma map_all_look:
  "inv s \<Longrightarrow>
   (\<exists>s'. map_all map_page xs s = ret s' \<and> inv s' \<and>
      (\<forall>w. look s' w = (case find (\<lambda>(v, _). page v = page w) (rev xs) of
         None \<Rightarrow> look s w | Some (_, p, f) \<Rightarrow> Some (ent p f)))) \<or>
   (\<exists>m. map_all map_page xs s = fails (Panic m))"
proof (induction xs arbitrary: s)
  case Nil
  then show ?case by simp
next
  case (Cons x xs)
  obtain v p f where x: "x = (v, p, f)" by (cases x)
  show ?case
  proof (cases "\<exists>m. map_page v p f s = fails (Panic m)")
    case True
    then show ?thesis by (auto simp: x)
  next
    case False
    then obtain s1 where s1: "map_page v p f s = ret (True, s1)" "inv s1"
      "\<And>w. look s1 w = (if page w = page v then Some (ent p f) else look s w)"
      using map_law [OF Cons.prems, of v p f] by blast
    have find: "find (\<lambda>(v, _). page v = page w) (rev (x # xs)) =
        (case find (\<lambda>(v, _). page v = page w) (rev xs) of
           Some y \<Rightarrow> Some y | None \<Rightarrow> if page v = page w then Some x else None)" for w
      by (simp add: x find_append split: option.split)
    from Cons.IH [OF s1(2)] show ?thesis
    proof
      assume "\<exists>m. map_all map_page xs s1 = fails (Panic m)"
      then show ?thesis using s1(1) by (auto simp: x)
    next
      assume "\<exists>s'. map_all map_page xs s1 = ret s' \<and> inv s' \<and>
        (\<forall>w. look s' w = (case find (\<lambda>(v, _). page v = page w) (rev xs) of
           None \<Rightarrow> look s1 w | Some (_, p, f) \<Rightarrow> Some (ent p f)))"
      then obtain s' where s': "map_all map_page xs s1 = ret s'" "inv s'"
        "\<And>w. look s' w = (case find (\<lambda>(v, _). page v = page w) (rev xs) of
           None \<Rightarrow> look s1 w | Some (_, p, f) \<Rightarrow> Some (ent p f))" by blast
      have "look s' w = (case find (\<lambda>(v, _). page v = page w) (rev (x # xs)) of
           None \<Rightarrow> look s w | Some (_, p, f) \<Rightarrow> Some (ent p f))" for w
        unfolding find s'(3) using s1(3) [of w] by (auto simp: x split: option.split)
      moreover have "map_all map_page (x # xs) s = ret s'" using s1(1) s'(1) by (simp add: x)
      ultimately show ?thesis using s'(2) by blast
    qed
  qed
qed

lemma unmap_all_look:
  "inv s \<Longrightarrow> \<forall>v\<in>set vs. aligned v \<Longrightarrow>
   \<exists>s'. unmap_all unmap_page vs s = ret s' \<and> inv s' \<and>
     (\<forall>w. look s' w = (if page w \<in> page ` set vs then None else look s w))"
proof (induction vs arbitrary: s)
  case (Cons v vs)
  then obtain s1 where s1: "unmap_page v s = ret (True, s1)" "inv s1"
    "\<And>w. look s1 w = (if page w = page v then None else look s w)"
    using unmap_law [of s v] by auto
  have "\<forall>v\<in>set vs. aligned v" using Cons.prems by simp
  from Cons.IH [OF s1(2) this] obtain s2 where s2: "unmap_all unmap_page vs s1 = ret s2" "inv s2"
    "\<And>w. look s2 w = (if page w \<in> page ` set vs then None else look s1 w)" by blast
  have "look s2 w = (if page w \<in> page ` set (v # vs) then None else look s w)" for w
    using s2(3) [of w] s1(3) [of w] by auto
  then show ?case using s1(1) s2(1,2) by auto
qed simp

end

end
