(* ===== verification/Vmm.thy ===== *)
theory Vmm
  imports Pmm Page_Table Address_Space
begin

text \<open>
  The virtual memory manager, \<open>kernel/system/vmm.c\<close>: four-level page tables in the kernel's
  memory, reached through the higher-half mapping. A \<open>pagemap_t\<close> is its only field, the
  kernel address of the top-level table (\<open>NULL\<close> before \<open>vmm_install\<close>). Loads of \<open>cr3\<close> are
  recorded; \<open>invlpg\<close> is not, the model has no stale translations. \<open>vmm_new_pagemap\<close>, which
  allocates from the heap, and \<open>vmm_pagefault\<close>, which asks for the current process, are with
  the heap and the processes.
\<close>

section \<open>Definitions\<close>

type_synonym pagemap_t = addr

datatype isr_callback = IRQ_INVALID_OPCODE | GPF_FAULT_HANDLER | VMM_PAGEFAULT

record vmm = pmm +
  vmm_lock :: spin_lock_t
  kernel_pagemap :: pagemap_t
  cr3 :: addr
  isr_callbacks :: "u64 \<Rightarrow> isr_callback option"

definition isr_install_handler :: "u64 \<Rightarrow> isr_callback \<Rightarrow> 'a vmm_scheme \<Rightarrow> 'a vmm_scheme" where
  "isr_install_handler isr callback s = s\<lparr>isr_callbacks := (isr_callbacks s)(isr := Some callback)\<rparr>"

text \<open>\<open>table[i]\<close>, for a table of 64-bit entries.\<close>

definition entry :: "mem \<Rightarrow> addr \<Rightarrow> u64 \<Rightarrow> u64" where
  "entry m table i = load64 m (table + 8 * i)"

definition set_entry :: "addr \<Rightarrow> u64 \<Rightarrow> u64 \<Rightarrow> 'a pmm_scheme \<Rightarrow> 'a pmm_scheme" where
  "set_entry table i v s = s\<lparr>mem := store64 (mem s) (table + 8 * i) v\<rparr>"

definition vmm_is_table_empty :: "mem \<Rightarrow> addr \<Rightarrow> bool" where
  "vmm_is_table_empty m table = list_all (\<lambda>i. entry m table (of_nat i) = 0) [0..<512]"

definition vmm_switch_pagemap :: "pagemap_t \<Rightarrow> 'a vmm_scheme \<Rightarrow> 'a vmm_scheme result" where
  "vmm_switch_pagemap pagemap s =
     (if pagemap = NULL then fails (Panic ''invalid pagemap while switching'')
      else ret (s\<lparr>cr3 := pagemap - hhdm s\<rparr>))"

definition vmm_get_next_level ::
  "addr \<Rightarrow> u64 \<Rightarrow> bool \<Rightarrow> u64 \<Rightarrow> 'a vmm_scheme \<Rightarrow> (addr \<times> 'a vmm_scheme) result" where
  "vmm_get_next_level current_level_virt idx allocate alloc_entry_flags s =
     (let e = entry (mem s) current_level_virt idx in
      if e AND PTE_PRESENT \<noteq> 0 then ret (PTE_GET_ADDR e + hhdm s, s)
      else if \<not> allocate then ret (NULL, s)
      else rbind (pmm_allocate s) (\<lambda>(next_level_phys, s).
        if next_level_phys = NULL
        then fails (Panic ''failed to allocate page for vmm_get_next_level'')
        else let next_level_virt = next_level_phys + hhdm s;
                 s = s\<lparr>mem := memset (mem s) next_level_virt 0 PAGE_SIZE\<rparr>;
                 new_entry_flags = (if alloc_entry_flags \<noteq> 0 then alloc_entry_flags
                                    else PTE_PRESENT OR PTE_WRITABLE);
                 s = set_entry current_level_virt idx (next_level_phys OR new_entry_flags) s
             in ret (next_level_virt, s)))"

text \<open>The four table indices of a virtual address.\<close>

definition pml4_idx :: "addr \<Rightarrow> u64" where "pml4_idx virt = drop_bit 39 virt AND 0x1FF"
definition pdpt_idx :: "addr \<Rightarrow> u64" where "pdpt_idx virt = drop_bit 30 virt AND 0x1FF"
definition pd_idx :: "addr \<Rightarrow> u64" where "pd_idx virt = drop_bit 21 virt AND 0x1FF"
definition pt_idx :: "addr \<Rightarrow> u64" where "pt_idx virt = drop_bit 12 virt AND 0x1FF"

definition vmm_map_page ::
  "pagemap_t \<Rightarrow> addr \<Rightarrow> addr \<Rightarrow> u64 \<Rightarrow> 'a vmm_scheme \<Rightarrow> (bool \<times> 'a vmm_scheme) result" where
  "vmm_map_page pagemap virt phys flags s =
     (let virt = virt AND NOT (PAGE_SIZE - 1);
          phys = phys AND NOT (PAGE_SIZE - 1);
          alloc_flags = PTE_PRESENT OR PTE_WRITABLE;
          alloc_flags = (if flags AND PTE_USER \<noteq> 0 then alloc_flags OR PTE_USER else alloc_flags);
          failure = fails (Panic ''vmm_map_page failure'')
      in
      rbind (spin_lock ''vmm_map_page'' (vmm_lock s)) (\<lambda>l.
      let s = s\<lparr>vmm_lock := l\<rparr>; pml4 = pagemap in
      if pml4 = NULL then failure else
      rbind (vmm_get_next_level pml4 (pml4_idx virt) True alloc_flags s) (\<lambda>(pdpt, s).
      if pdpt = NULL then failure else
      rbind (vmm_get_next_level pdpt (pdpt_idx virt) True alloc_flags s) (\<lambda>(pd, s).
      if pd = NULL then failure else
      rbind (vmm_get_next_level pd (pd_idx virt) True alloc_flags s) (\<lambda>(pt, s).
      if pt = NULL then failure else
      let s = set_entry pt (pt_idx virt) (phys OR flags OR PTE_PRESENT) s
      in ret (True, s\<lparr>vmm_lock := spin_unlock (vmm_lock s)\<rparr>))))))"

definition vmm_unmap_page :: "pagemap_t \<Rightarrow> addr \<Rightarrow> 'a vmm_scheme \<Rightarrow> (bool \<times> 'a vmm_scheme) result" where
  "vmm_unmap_page pagemap virt s =
     (if virt mod PAGE_SIZE \<noteq> 0 then fails (Panic ''page not aligned in vmm_unmap_page'') else
      let pml4 = pagemap in
      rbind (vmm_get_next_level pml4 (pml4_idx virt) False 0 s) (\<lambda>(pdpt, s).
      if pdpt = NULL then ret (True, s) else
      let pdpt_entry = entry (mem s) pml4 (pml4_idx virt) in
      rbind (vmm_get_next_level pdpt (pdpt_idx virt) False 0 s) (\<lambda>(pd, s).
      if pd = NULL then ret (True, s) else
      let pd_entry = entry (mem s) pdpt (pdpt_idx virt) in
      rbind (vmm_get_next_level pd (pd_idx virt) False 0 s) (\<lambda>(pt, s).
      if pt = NULL then ret (True, s) else
      let pt_entry = entry (mem s) pd (pd_idx virt) in
      if entry (mem s) pt (pt_idx virt) AND PTE_PRESENT = 0 then ret (True, s) else
      rbind (spin_lock ''vmm_unmap_page'' (vmm_lock s)) (\<lambda>l.
      let s = set_entry pt (pt_idx virt) 0 (s\<lparr>vmm_lock := l\<rparr>) in
      rbind
        (if \<not> vmm_is_table_empty (mem s) pt then ret s else
         let s = set_entry pd (pd_idx virt) 0 s in
         rbind (pmm_free (PTE_GET_ADDR pt_entry) s) (\<lambda>s.
         if \<not> vmm_is_table_empty (mem s) pd then ret s else
         let s = set_entry pdpt (pdpt_idx virt) 0 s in
         rbind (pmm_free (PTE_GET_ADDR pd_entry) s) (\<lambda>s.
         if \<not> vmm_is_table_empty (mem s) pdpt then ret s else
         if pml4_idx virt \<ge> 256 then ret s else
         let s = set_entry pml4 (pml4_idx virt) 0 s in
         pmm_free (PTE_GET_ADDR pdpt_entry) s)))
        (\<lambda>s. ret (True, s\<lparr>vmm_lock := spin_unlock (vmm_lock s)\<rparr>)))))))"

definition vmm_virt_to_phys :: "pagemap_t \<Rightarrow> addr \<Rightarrow> 'a vmm_scheme \<Rightarrow> (addr \<times> 'a vmm_scheme) result" where
  "vmm_virt_to_phys pagemap virt s =
     (let pml4 = pagemap in
      rbind (vmm_get_next_level pml4 (pml4_idx virt) False 0 s) (\<lambda>(pdpt, s).
      if pdpt = NULL then ret (0, s) else
      rbind (vmm_get_next_level pdpt (pdpt_idx virt) False 0 s) (\<lambda>(pd, s).
      if pd = NULL then ret (0, s) else
      rbind (vmm_get_next_level pd (pd_idx virt) False 0 s) (\<lambda>(pt, s).
      if pt = NULL then ret (0, s) else
      let e = entry (mem s) pt (pt_idx virt) in
      if e AND PTE_PRESENT = 0 then ret (0, s) else
      ret (PTE_GET_ADDR e + virt mod PAGE_SIZE, s)))))"

text \<open>The part of the buffer that lies in one page, from \<open>curr_virt\<close> on.\<close>

definition chunk_at :: "addr \<Rightarrow> u64 \<Rightarrow> u64 \<Rightarrow> u64" where
  "chunk_at curr_virt len copied =
     (let page_offset = curr_virt AND (PAGE_SIZE - 1);
          chunk = PAGE_SIZE - page_offset;
          remaining = len - copied
      in if chunk > remaining then remaining else chunk)"

partial_function (option) map_copy_loop ::
  "pagemap_t \<Rightarrow> addr \<Rightarrow> addr \<Rightarrow> u64 \<Rightarrow> u64 \<Rightarrow> 'a vmm_scheme \<Rightarrow> 'a vmm_scheme result" where
  "map_copy_loop pagemap virt buffer len copied s =
     (if copied < len then
        let curr_virt = virt + copied in
        rbind (vmm_virt_to_phys pagemap curr_virt s) (\<lambda>(curr_phys, s).
        if curr_phys = 0 then fails (Panic ''vmm_map_copy: target not mapped'') else
        let chunk = chunk_at curr_virt len copied in
        rbind (memcpy (mem s) (curr_phys + hhdm s) (buffer + copied) chunk) (\<lambda>(_, m).
        map_copy_loop pagemap virt buffer len (copied + chunk) (s\<lparr>mem := m\<rparr>)))
      else ret s)"

definition vmm_map_copy ::
  "pagemap_t \<Rightarrow> addr \<Rightarrow> addr \<Rightarrow> u64 \<Rightarrow> 'a vmm_scheme \<Rightarrow> 'a vmm_scheme result" where
  "vmm_map_copy pagemap virt src len s =
     rbind (spin_lock ''vmm_map_copy'' (vmm_lock s)) (\<lambda>l.
     rbind (map_copy_loop pagemap virt src len 0 (s\<lparr>vmm_lock := l\<rparr>)) (\<lambda>s.
     ret (s\<lparr>vmm_lock := spin_unlock (vmm_lock s)\<rparr>)))"

partial_function (option) map_zero_loop ::
  "pagemap_t \<Rightarrow> addr \<Rightarrow> u64 \<Rightarrow> u64 \<Rightarrow> 'a vmm_scheme \<Rightarrow> 'a vmm_scheme result" where
  "map_zero_loop pagemap virt len cleared s =
     (if cleared < len then
        let curr_virt = virt + cleared in
        rbind (vmm_virt_to_phys pagemap curr_virt s) (\<lambda>(curr_phys, s).
        if curr_phys = 0 then fails (Panic ''vmm_map_zero: target not mapped'') else
        let chunk = chunk_at curr_virt len cleared;
            s = s\<lparr>mem := memset (mem s) (curr_phys + hhdm s) 0 chunk\<rparr>
        in map_zero_loop pagemap virt len (cleared + chunk) s)
      else ret s)"

definition vmm_map_zero :: "pagemap_t \<Rightarrow> addr \<Rightarrow> u64 \<Rightarrow> 'a vmm_scheme \<Rightarrow> 'a vmm_scheme result" where
  "vmm_map_zero pagemap virt len s =
     rbind (spin_lock ''vmm_map_zero'' (vmm_lock s)) (\<lambda>l.
     rbind (map_zero_loop pagemap virt len 0 (s\<lparr>vmm_lock := l\<rparr>)) (\<lambda>s.
     ret (s\<lparr>vmm_lock := spin_unlock (vmm_lock s)\<rparr>)))"

subsection \<open>Initialisation\<close>

text \<open>
  A loop \<open>for (p = from; p < to; p += PAGE_SIZE)\<close> around \<open>vmm_map_page\<close>; the loop variable
  wraps at the top of the address space, so the loop may never end.
\<close>

partial_function (option) map_pages ::
  "pagemap_t \<Rightarrow> (addr \<Rightarrow> addr \<times> addr \<times> u64) \<Rightarrow> string \<Rightarrow> addr \<Rightarrow> addr \<Rightarrow> 'a vmm_scheme \<Rightarrow> 'a vmm_scheme result"
where
  "map_pages pagemap f msg p to s =
     (if p < to then
        (case f p of (virt, phys, flags) \<Rightarrow>
          rbind (vmm_map_page pagemap virt phys flags s) (\<lambda>(ok, s).
          if \<not> ok then fails (Panic msg) else map_pages pagemap f msg (p + PAGE_SIZE) to s))
      else ret s)"

definition kernel_page :: "boot_info \<Rightarrow> addr \<Rightarrow> addr \<times> addr \<times> u64" where
  "kernel_page b p_virt =
     (let p_phys = (p_virt - virtual_base b) + physical_base b;
          flags = PTE_PRESENT;
          data_end_addr = ALIGN_UP (bss_end b) PAGE_SIZE;
          flags =
            (if p_virt \<ge> text_begin b \<and> p_virt < text_end b then flags
             else if p_virt \<ge> rodata_begin b \<and> p_virt < rodata_end b then flags OR PTE_NX
             else if p_virt \<ge> data_begin b \<and> p_virt < data_end_addr
               then flags OR (PTE_WRITABLE OR PTE_NX)
             else flags OR (PTE_WRITABLE OR PTE_NX))
      in (p_virt, p_phys, flags))"

definition map_memmap_entry :: "pagemap_t \<Rightarrow> memmap_entry \<Rightarrow> 'a vmm_scheme \<Rightarrow> 'a vmm_scheme result" where
  "map_memmap_entry pagemap e s =
     (let base = me_base e;
          top = base + me_length e;
          map_base = ALIGN_UP base PAGE_SIZE;
          map_top = top AND NOT (PAGE_SIZE - 1);
          flags = PTE_PRESENT OR PTE_WRITABLE OR PTE_NX;
          ident_map_limit = 0x00100000
      in if map_top \<le> map_base then ret s else
      rbind (map_pages pagemap (\<lambda>p. (p + hhdm s, p, flags)) ''failed to map hhdm page''
               map_base map_top s) (\<lambda>s.
      if map_base < ident_map_limit
      then map_pages pagemap (\<lambda>p. (p, p, flags)) ''failed to identity map low 1mb page''
             map_base (if map_top > ident_map_limit then ident_map_limit else map_top) s
      else ret s))"

fun map_memmap :: "pagemap_t \<Rightarrow> memmap_entry list \<Rightarrow> 'a vmm_scheme \<Rightarrow> 'a vmm_scheme result" where
  "map_memmap pagemap [] s = ret s"
| "map_memmap pagemap (e # es) s = rbind (map_memmap_entry pagemap e s) (map_memmap pagemap es)"

definition vmm_install :: "boot_info \<Rightarrow> 'a vmm_scheme \<Rightarrow> 'a vmm_scheme result" where
  "vmm_install b s =
     rbind (pmm_allocate s) (\<lambda>(pml4_phys, s).
     if pml4_phys = NULL then fails (Panic ''failed to allocate kernel pml4'') else
     let pml4_virt = pml4_phys + hhdm s;
         s = s\<lparr>mem := memset (mem s) pml4_virt 0 PAGE_SIZE\<rparr>;
         s = s\<lparr>kernel_pagemap := pml4_virt\<rparr>;
         kernel_virt_end = ALIGN_UP (bss_end b) PAGE_SIZE
     in
     rbind (map_pages (kernel_pagemap s) (kernel_page b) ''failed to map kernel page''
              (virtual_base b) kernel_virt_end s) (\<lambda>s.
     rbind (map_memmap (kernel_pagemap s) (memmap b) s) (\<lambda>s.
     rbind (vmm_switch_pagemap (kernel_pagemap s) s) (\<lambda>s.
     ret (isr_install_handler 14 VMM_PAGEFAULT s)))))"

section \<open>Table entries in memory\<close>

abbreviation page_aligned :: "addr \<Rightarrow> bool" where
  "page_aligned t \<equiv> 2 ^ 12 dvd unat t"

lemma slot_address:
  assumes "page_aligned t" "i < 512"
  shows "unat (t + 8 * i) = unat t + 8 * unat i" and "8 * unat i + 8 \<le> 4096"
proof -
  have i: "unat i < 512" using assms(2) by (simp add: word_less_nat_alt)
  then show "8 * unat i + 8 \<le> 4096" by simp
  obtain q where q: "unat t = 4096 * q" using assms(1) by auto
  then have "unat t + 4096 \<le> 2 ^ 64" using unat_lt64(1) [of t] by simp
  moreover have "unat (8 * i) = 8 * unat i" using i by (simp add: unat_word_ariths)
  ultimately show "unat (t + 8 * i) = unat t + 8 * unat i" using i by (simp add: unat_add_lt)
qed

lemma slot_inj:
  assumes "page_aligned t" "page_aligned t'" "i < 512" "j < 512" "t + 8 * i = t' + 8 * j"
  shows "t = t' \<and> i = j"
proof -
  note i = slot_address [OF assms(1,3)] and j = slot_address [OF assms(2,4)]
  obtain q r where qr: "unat t = 4096 * q" "unat t' = 4096 * r"
    using assms(1,2) by (auto elim!: dvdE)
  have eq: "4096 * q + 8 * unat i = 4096 * r + 8 * unat j"
    using i(1) j(1) qr unfolding assms(5) by simp
  have "q = (4096 * q + 8 * unat i) div 4096" using i(2) by simp
  also have "\<dots> = r" unfolding eq using j(2) by simp
  finally have "q = r" .
  then show ?thesis using qr eq by (simp add: word_unat_eq_iff)
qed

lemma slot_disjoint:
  assumes "page_aligned t" "page_aligned t'" "i < 512" "j < 512" "(t, i) \<noteq> (t', j)"
  shows "region (t + 8 * i) 8 \<inter> region (t' + 8 * j) 8 = {}"
proof -
  have dvd: "2 ^ 3 dvd unat (x + 8 * k)" if "page_aligned x" "k < 512" for x k :: u64
  proof -
    have "(2::nat) ^ 3 dvd unat x" using that(1) by (rule dvd_trans [rotated]) simp
    then show ?thesis using slot_address(1) [OF that] by (simp add: dvd_add)
  qed
  have "t + 8 * i \<noteq> t' + 8 * j" using slot_inj [OF assms(1-4)] assms(5) by blast
  then show ?thesis
    using aligned_region_disjoint [of 3 "t + 8 * i" "t' + 8 * j"] dvd assms(1-4) by simp
qed

lemma entry_store:
  assumes "page_aligned t" "page_aligned t'" "i < 512" "j < 512"
  shows "entry (store64 m (t + 8 * i) v) t' j = (if t = t' \<and> i = j then v else entry m t' j)"
  using slot_disjoint [OF assms] by (auto simp: entry_def load64_store64_disjoint)

lemma slot_in_page:
  assumes "page_aligned t" "i < 512"
  shows "region (t + 8 * i) 8 \<subseteq> region t (2 ^ 12)"
proof
  fix x assume "x \<in> region (t + 8 * i) 8"
  then obtain k where k: "k < 8" "x = t + 8 * i + of_nat k" by (auto simp: region_def)
  have i: "unat i < 512" using assms(2) by (simp add: word_less_nat_alt)
  have "x = t + of_nat (8 * unat i + k)" using k(2) by (simp add: add.assoc)
  moreover have "8 * unat i + k < 2 ^ 12" using i k(1) by simp
  ultimately show "x \<in> region t (2 ^ 12)" unfolding region_def by blast
qed

lemma entry_outside:
  assumes "page_aligned t" "j < 512" "\<And>x. x \<in> region t (2 ^ 12) \<Longrightarrow> m' x = m x"
  shows "entry m' t j = entry m t j"
  unfolding entry_def using slot_in_page [OF assms(1,2)] assms(3) by (intro load64_cong) blast

lemma entry_zero_page:
  assumes "page_aligned t" "page_aligned g" "j < 512"
  shows "entry (memset m g 0 PAGE_SIZE) t j = (if t = g then 0 else entry m t j)"
proof -
  have m: "memset m g 0 PAGE_SIZE = write_block m g (replicate (2 ^ 12) 0)"
    by (simp add: memset_write_block PAGE_SIZE_def)
  show ?thesis
  proof (cases "t = g")
    case True
    have "memset m g 0 PAGE_SIZE x = 0" if "x \<in> region g (2 ^ 12)" for x
      using that by (simp add: m write_block_def region_iff)
    then have "load64 (memset m g 0 PAGE_SIZE) (t + 8 * j) = 0"
      using slot_in_page [OF assms(1,3)] True by (intro load64_zero) blast
    with True show ?thesis by (simp add: entry_def)
  next
    case False
    have "memset m g 0 PAGE_SIZE x = m x" if "x \<in> region t (2 ^ 12)" for x
      using that aligned_region_disjoint [OF assms(1,2) False]
      unfolding m by (intro write_block_outside) auto
    then have "entry (memset m g 0 PAGE_SIZE) t j = entry m t j" by (rule entry_outside [OF assms(1,3)])
    with False show ?thesis by simp
  qed
qed

lemma vmm_is_table_empty_iff: "vmm_is_table_empty m t \<longleftrightarrow> (\<forall>j<512. entry m t j = 0)"
proof -
  have "(\<forall>i<512. P (of_nat i)) \<longleftrightarrow> (\<forall>j<512. P j)" for P :: "u64 \<Rightarrow> bool"
  proof
    assume a: "\<forall>i<512. P (of_nat i)"
    show "\<forall>j<512. P j"
    proof (intro allI impI)
      fix j :: u64 assume "j < 512"
      then have "unat j < 512" by (simp add: word_less_nat_alt)
      with a have "P (of_nat (unat j))" by blast
      then show "P j" by simp
    qed
  qed (auto simp: word_less_nat_alt unat_of_nat_lt)
  then show ?thesis unfolding vmm_is_table_empty_def by (simp add: list_all_iff Ball_def)
qed

lemma idx_lt: "drop_bit n (v :: u64) AND 0x1FF < 512"
proof -
  have "unat (drop_bit n v AND mask 9) < 512" by (simp only: unat_and_mask) simp
  then show ?thesis by (simp add: word_less_nat_alt mask_eq_exp_minus_1)
qed

lemma table_idx_lt [simp]: "pml4_idx v < 512" "pdpt_idx v < 512" "pd_idx v < 512" "pt_idx v < 512"
  by (simp_all only: pml4_idx_def pdpt_idx_def pd_idx_def pt_idx_def idx_lt)

section \<open>The tables of an address space\<close>

text \<open>
  \<open>tables\<close> are the frames in use, seen through the higher half; the page tables of an address
  space form a tree inside them. The higher half is page aligned and leaves room for every frame
  of the bitmap (32 GiB).
\<close>

definition tables :: "'a pmm_scheme \<Rightarrow> addr set" where
  "tables s = (\<lambda>f. f + hhdm s) ` (managed_frames s - free_frames s)"

definition hhdm_ok :: "'a pmm_scheme \<Rightarrow> bool" where
  "hhdm_ok s \<longleftrightarrow> page_aligned (hhdm s) \<and> unat (hhdm s) + 2 ^ 35 \<le> 2 ^ 64"

abbreviation table_of :: "addr \<Rightarrow> 'a pmm_scheme \<Rightarrow> u64 list \<Rightarrow> addr option" where
  "table_of root s p \<equiv> table_at (entry (mem s)) (hhdm s) root p"

definition pt_inv :: "addr \<Rightarrow> 'a pmm_scheme \<Rightarrow> bool" where
  "pt_inv root s \<longleftrightarrow> pmm_inv s \<and> hhdm_ok s \<and> tree (entry (mem s)) (hhdm s) root (tables s)"

text \<open>What an address space maps: the last-level entry for a virtual address, if present.\<close>

definition vpath :: "addr \<Rightarrow> u64 list" where
  "vpath v = [pml4_idx v, pdpt_idx v, pd_idx v]"

definition pt_lookup :: "addr \<Rightarrow> 'a pmm_scheme \<Rightarrow> addr \<Rightarrow> u64 option" where
  "pt_lookup root s v =
     (case table_of root s (vpath v) of
        None \<Rightarrow> None
      | Some t \<Rightarrow> let e = entry (mem s) t (pt_idx v) in if present e then Some e else None)"

text \<open>Tables an operation on an address space may write: its own ones and the free frames.\<close>

definition footprint :: "addr \<Rightarrow> 'a pmm_scheme \<Rightarrow> addr set" where
  "footprint root s =
     {t. \<exists>q. path_ok q \<and> table_of root s q = Some t} \<union> (\<lambda>f. f + hhdm s) ` free_frames s"

lemma vpath_ok [simp]: "path_ok (vpath v)" "length (vpath v) = 3"
  by (simp_all add: path_ok_def vpath_def)

lemma managed_frame:
  assumes "pmm_inv s" "f \<in> managed_frames s"
  shows "page_aligned f" "unat f < 2 ^ 35" "f \<noteq> 0"
proof -
  have h: "highest_page s < PMM_BITMAP_SIZE * 8" using assms(1) by (simp add: pmm_inv_def)
  obtain i where i: "f = i * PAGE_SIZE" "i \<le> highest_page s"
    using assms(2) by (auto simp: managed_frames_def)
  have u: "unat f = unat i * 4096" using page_address(1) [OF i(2) h] i(1) by simp
  then show "page_aligned f" by simp
  have "unat i < 2 ^ 23"
    using i(2) h by (simp add: word_le_nat_alt word_less_nat_alt PMM_BITMAP_SIZE_def)
  then show "unat f < 2 ^ 35" using u by simp
  show "f \<noteq> 0" using managed_frames_iff [OF assms(1)] assms(2) by blast
qed

lemma frame_table:
  assumes "pmm_inv s" "hhdm_ok s" "f \<in> managed_frames s"
  shows "page_aligned (f + hhdm s)" "f + hhdm s \<noteq> 0" "unat (f + hhdm s) = unat f + unat (hhdm s)"
proof -
  note f = managed_frame [OF assms(1,3)]
  have h: "page_aligned (hhdm s)" "unat (hhdm s) + 2 ^ 35 \<le> 2 ^ 64"
    using assms(2) by (auto simp: hhdm_ok_def)
  then show u: "unat (f + hhdm s) = unat f + unat (hhdm s)"
    using f(2) by (simp add: unat_add_lt)
  show "page_aligned (f + hhdm s)" unfolding u using f(1) h(1) by (rule dvd_add)
  show "f + hhdm s \<noteq> 0" using u f(3) by (metis add_is_0 unat_eq_zero)
qed

lemma tables_aligned:
  assumes "pmm_inv s" "hhdm_ok s" "t \<in> tables s"
  shows "page_aligned t" "t \<noteq> 0"
  using assms frame_table [OF assms(1,2)] by (auto simp: tables_def)

text \<open>The address field of an entry that links a frame is that frame.\<close>

lemma page_aligned_bit: "page_aligned f \<Longrightarrow> n < 12 \<Longrightarrow> \<not> bit f n"
  using bit_unsigned_iff [where 'a = nat and w = f and n = n]
  by (metis bit_take_bit_iff take_bit_eq_0_iff bit_0_eq bot_apply unsigned_word_eqI
      bot_bool_def bit_unsigned_iff possible_bit_nat)

lemma small_bit: "unat (f :: u64) < 2 ^ k \<Longrightarrow> bit f n \<Longrightarrow> n < k"
  by (metis bit_take_bit_iff bit_unsigned_iff take_bit_nat_eq_self possible_bit_nat)

lemma PTE_ADDR_MASK_bits: "bit PTE_ADDR_MASK n \<longleftrightarrow> 12 \<le> n \<and> n < 52"
proof -
  have m: "PTE_ADDR_MASK = mask 52 AND NOT (mask 12)"
    by (simp add: PTE_ADDR_MASK_def mask_eq_exp_minus_1)
  show ?thesis unfolding m by (auto simp: bit_simps)
qed

lemma PTE_GET_ADDR_link:
  assumes "page_aligned f" "unat f < 2 ^ 52" "fl AND PTE_ADDR_MASK = 0"
  shows "PTE_GET_ADDR (f OR fl) = f"
proof -
  have "12 \<le> n \<and> n < 52" if "bit f n" for n
    using page_aligned_bit [OF assms(1), of n] small_bit [OF assms(2) that] that
    by (cases "n < 12") auto
  then have "f AND PTE_ADDR_MASK = f"
    by (intro bit_word_eqI) (auto simp: bit_and_iff PTE_ADDR_MASK_bits)
  then show ?thesis using assms(3) by (simp add: PTE_GET_ADDR_def bit.conj_disj_distrib2)
qed

definition table_flags :: "u64 \<Rightarrow> bool" where
  "table_flags fl \<longleftrightarrow> present fl \<and> fl AND PTE_ADDR_MASK = 0"

lemma table_flags_alloc:
  "table_flags (PTE_PRESENT OR PTE_WRITABLE)" "table_flags ((PTE_PRESENT OR PTE_WRITABLE) OR PTE_USER)"
  by (simp_all add: table_flags_def PTE_PRESENT_def PTE_WRITABLE_def PTE_USER_def PTE_ADDR_MASK_def)

lemma present_or: "present fl \<Longrightarrow> present (f OR fl)"
  by (auto simp: present_bit bit_or_iff)

section \<open>One level of the walk\<close>

lemma next_level_child:
  "child (entry (mem s)) (hhdm s) t i = Some g \<Longrightarrow> vmm_get_next_level t i a fl s = ret (g, s)"
  by (auto simp: child_def vmm_get_next_level_def Let_def split: if_splits)

lemma next_level_none:
  "child (entry (mem s)) (hhdm s) t i = None \<Longrightarrow> vmm_get_next_level t i False fl s = ret (NULL, s)"
  by (auto simp: child_def vmm_get_next_level_def Let_def split: if_splits)

definition link_table :: "addr \<Rightarrow> u64 \<Rightarrow> u64 \<Rightarrow> u64 \<Rightarrow> 'a vmm_scheme \<Rightarrow> 'a vmm_scheme" where
  "link_table t i fl k s =
     (take_page k s)\<lparr>mem := store64 (memset (mem s) (k * PAGE_SIZE + hhdm s) 0 PAGE_SIZE) (t + 8 * i)
       (k * PAGE_SIZE OR fl)\<rparr>"

lemma memset_twice: "memset (memset m a c n) a c n = memset m a c n"
  by (simp add: memset_write_block write_block_def fun_eq_iff)

lemma take_page_fields [simp]:
  "hhdm (take_page k s) = hhdm s" "highest_page (take_page k s) = highest_page s"
  "mem (take_page k s) = memset (mem s) (k * PAGE_SIZE + hhdm s) 0 PAGE_SIZE"
  by (simp_all add: take_page_def)

lemma next_level_alloc:
  assumes "pmm_inv s" "child (entry (mem s)) (hhdm s) t i = None" "table_flags fl"
  shows "vmm_get_next_level t i True fl s =
    (case find_free_page s of
       None \<Rightarrow> fails (Panic ''out of memory in pmm_allocate!'')
     | Some k \<Rightarrow> ret (k * PAGE_SIZE + hhdm s, link_table t i fl k s))"
proof -
  have e: "\<not> present (entry (mem s) t i)" using assms(2) by (auto simp: child_def split: if_splits)
  have fl: "fl \<noteq> 0" using assms(3) by (auto simp: table_flags_def)
  show ?thesis
  proof (cases "find_free_page s")
    case None
    then show ?thesis using e by (simp add: vmm_get_next_level_def Let_def pmm_allocate_eq [OF assms(1)])
  next
    case (Some k)
    have "k * PAGE_SIZE \<in> free_frames s"
      using find_free_page_Some(1) [OF Some] by (simp add: free_frames_def)
    then have "k * PAGE_SIZE \<noteq> 0"
      using free_frames_subset [OF assms(1)] managed_frame(3) [OF assms(1)] by blast
    then show ?thesis
      using e fl Some
      by (simp add: vmm_get_next_level_def Let_def pmm_allocate_eq [OF assms(1)] set_entry_def
          memset_twice link_table_def)
  qed
qed

lemma link_table_fields [simp]:
  "hhdm (link_table t i fl k s) = hhdm s" "vmm_lock (link_table t i fl k s) = vmm_lock s"
  "kernel_pagemap (link_table t i fl k s) = kernel_pagemap s"
  "managed_frames (link_table t i fl k s) = managed_frames s"
  "if_flag (link_table t i fl k s) = if_flag s" "vmm.more (link_table t i fl k s) = vmm.more s"
  by (simp_all add: link_table_def take_page_def managed_frames_def sync_settled_def)

lemma pmm_inv_mem [simp]:
  "pmm_inv (s\<lparr>mem := m\<rparr>) = pmm_inv s" "free_frames (s\<lparr>mem := m\<rparr>) = free_frames s"
  "managed_frames (s\<lparr>mem := m\<rparr>) = managed_frames s" "tables (s\<lparr>mem := m\<rparr>) = tables s"
  "hhdm_ok (s\<lparr>mem := m\<rparr>) = hhdm_ok s" "free_set (s\<lparr>mem := m\<rparr>) = free_set s"
  by (simp_all add: pmm_inv_def free_frames_def free_set_def managed_frames_def tables_def
      hhdm_ok_def irq_inv_def)

lemma pmm_inv_vmm_lock [simp]:
  "pmm_inv (s\<lparr>vmm_lock := l\<rparr>) = pmm_inv s" "free_frames (s\<lparr>vmm_lock := l\<rparr>) = free_frames s"
  "managed_frames (s\<lparr>vmm_lock := l\<rparr>) = managed_frames s" "tables (s\<lparr>vmm_lock := l\<rparr>) = tables s"
  "hhdm_ok (s\<lparr>vmm_lock := l\<rparr>) = hhdm_ok s"
  by (simp_all add: pmm_inv_def free_frames_def free_set_def managed_frames_def tables_def
      hhdm_ok_def irq_inv_def)

lemma link_table_pmm:
  assumes "pmm_inv s" "k \<in> free_set s"
  shows "pmm_inv (link_table t i fl k s)"
    "free_frames (link_table t i fl k s) = free_frames s - {k * PAGE_SIZE}"
  using pmm_inv_take_page(1) [OF assms] free_frames_take_page [OF assms]
  by (simp_all add: link_table_def)

lemma tables_link:
  assumes "pmm_inv s" "k \<in> free_set s"
  shows "tables (link_table t i fl k s) = insert (k * PAGE_SIZE + hhdm s) (tables s)"
proof -
  have "k * PAGE_SIZE \<in> free_frames s" using assms(2) by (simp add: free_frames_def)
  then have "managed_frames s - (free_frames s - {k * PAGE_SIZE}) =
      insert (k * PAGE_SIZE) (managed_frames s - free_frames s)"
    using free_frames_subset [OF assms(1)] by blast
  then show ?thesis by (simp add: tables_def link_table_pmm(2) [OF assms])
qed

lemma free_table_notin:
  assumes "f \<in> free_frames s"
  shows "f + hhdm s \<notin> tables s"
  using assms by (auto simp: tables_def)

lemma link_table_entries:
  assumes "pt_inv root s" "k \<in> free_set s" "t \<in> tables s" "i < 512" "t' \<in> tables (link_table t i fl k s)"
    "j < 512"
  shows "entry (mem (link_table t i fl k s)) t' j =
    (if (t', j) = (t, i) then k * PAGE_SIZE OR fl else if t' = k * PAGE_SIZE + hhdm s then 0
     else entry (mem s) t' j)"
proof -
  let ?f = "k * PAGE_SIZE"
  have inv: "pmm_inv s" "hhdm_ok s" using assms(1) by (auto simp: pt_inv_def)
  have f: "?f \<in> free_frames s" using assms(2) by (simp add: free_frames_def)
  have g: "page_aligned (?f + hhdm s)"
    using frame_table(1) [OF inv] f free_frames_subset [OF inv(1)] by blast
  have t: "page_aligned t" using tables_aligned [OF inv assms(3)] by simp
  have t': "page_aligned t'"
    using assms(5) g tables_aligned(1) [OF inv, of t'] by (auto simp: tables_link [OF inv(1) assms(2)])
  show ?thesis
    unfolding link_table_def
    using entry_store [OF t t' assms(4,6)] entry_zero_page [OF t' g assms(6)] by auto
qed

lemma link_table_tree:
  assumes inv: "pt_inv root s" and k: "k \<in> free_set s" and fl: "table_flags fl"
    and p: "path_ok (p @ [i])" "table_of root s p = Some t"
    and none: "child (entry (mem s)) (hhdm s) t i = None"
  defines "s' \<equiv> link_table t i fl k s" and "g \<equiv> k * PAGE_SIZE + hhdm s"
  shows "pt_inv root s'"
    and "\<And>q. path_ok q \<Longrightarrow> table_of root s' q = (if q = p @ [i] then Some g else table_of root s q)"
proof -
  have pm: "pmm_inv s" and hh: "hhdm_ok s" and tr: "tree (entry (mem s)) (hhdm s) root (tables s)"
    using inv by (auto simp: pt_inv_def)
  have i: "i < 512" and "path_ok p" using p(1) by (auto simp: path_ok_snoc)
  have t: "t \<in> tables s" using treeD(1) [OF tr \<open>path_ok p\<close> p(2)] .
  have f: "k * PAGE_SIZE \<in> free_frames s" using k by (simp add: free_frames_def)
  then have fm: "k * PAGE_SIZE \<in> managed_frames s" using free_frames_subset [OF pm] by blast
  have g_new: "g \<notin> tables s" using free_table_notin [OF f] by (simp add: g_def)
  have tab: "tables s' = insert g (tables s)" using tables_link [OF pm k] by (simp add: s'_def g_def)
  note ent = link_table_entries [OF inv k t i, of _ fl, folded s'_def]
  have e_ti: "entry (mem s') t i = k * PAGE_SIZE OR fl" using ent [of t i] t tab i by simp
  have np: "\<not> present (entry (mem s) t i)" using none by (auto simp: child_def split: if_splits)
  have pr: "present (entry (mem s') t i)" unfolding e_ti using fl present_or by (simp add: table_flags_def)
  have addr: "PTE_GET_ADDR (entry (mem s') t i) + hhdm s = g"
    unfolding e_ti g_def
    using PTE_GET_ADDR_link [of "k * PAGE_SIZE" fl] managed_frame [OF pm fm] fl
    by (simp add: table_flags_def)
  have zero: "\<forall>j<512. entry (mem s') g j = 0"
    using ent [of g] tab g_new t by (auto simp: g_def)
  have same: "\<forall>t'\<in>tables s. \<forall>j<512. (t', j) \<noteq> (t, i) \<longrightarrow> entry (mem s') t' j = entry (mem s) t' j"
  proof (intro ballI allI impI)
    fix t' j assume h: "t' \<in> tables s" "j < 512" "(t', j) \<noteq> (t, i)"
    then have "t' \<noteq> k * PAGE_SIZE + hhdm s" using g_new by (auto simp: g_def)
    with h show "entry (mem s') t' j = entry (mem s) t' j" using ent [of t' j] tab by auto
  qed
  note facts = tr p np g_new pr addr zero same
  have h': "hhdm s' = hhdm s" "hhdm_ok s'" using hh by (simp_all add: s'_def hhdm_ok_def)
  show "pt_inv root s'"
    unfolding pt_inv_def tab h'(1) using tree_link [OF facts] h'(2) link_table_pmm(1) [OF pm k]
    by (simp add: s'_def)
  show "table_of root s' q = (if q = p @ [i] then Some g else table_of root s q)" if "path_ok q" for q
    unfolding h'(1) by (rule table_at_link [OF facts that])
qed

text \<open>
  The part of a mapping operation before its last write: tables may be added, what is mapped
  does not change, and only the address space's tables and free frames are written.
\<close>

definition outside :: "addr set \<Rightarrow> addr \<Rightarrow> bool" where
  "outside F x \<longleftrightarrow> (\<forall>t\<in>F. x \<notin> region t (2 ^ 12))"

definition grows :: "addr \<Rightarrow> 'a vmm_scheme \<Rightarrow> 'a vmm_scheme \<Rightarrow> bool" where
  "grows root s s' \<longleftrightarrow>
     pt_inv root s' \<and> hhdm s' = hhdm s \<and> vmm_lock s' = vmm_lock s \<and>
     kernel_pagemap s' = kernel_pagemap s \<and> if_flag s' = if_flag s \<and> vmm.more s' = vmm.more s \<and>
     managed_frames s' = managed_frames s \<and> free_frames s' \<subseteq> free_frames s \<and>
     (\<forall>q t. path_ok q \<and> table_of root s q = Some t \<longrightarrow> table_of root s' q = Some t) \<and>
     (\<forall>v. pt_lookup root s' v = pt_lookup root s v) \<and>
     footprint root s' \<subseteq> footprint root s \<and>
     (\<forall>x. outside (footprint root s) x \<longrightarrow> mem s' x = mem s x)"

lemma grows_refl: "pt_inv root s \<Longrightarrow> grows root s s"
  by (simp add: grows_def)

lemma outside_mono: "F \<subseteq> G \<Longrightarrow> outside G x \<Longrightarrow> outside F x"
  by (auto simp: outside_def)

lemma grows_trans:
  assumes "grows root s s1" "grows root s1 s2"
  shows "grows root s s2"
proof -
  have fp: "footprint root s1 \<subseteq> footprint root s" "footprint root s2 \<subseteq> footprint root s1"
    "free_frames s1 \<subseteq> free_frames s" "free_frames s2 \<subseteq> free_frames s1"
    using assms by (simp_all add: grows_def)
  have "mem s2 x = mem s x" if "outside (footprint root s) x" for x
    using that outside_mono [OF fp(1) that] assms by (simp add: grows_def)
  moreover have "table_of root s2 q = Some t" if "path_ok q" "table_of root s q = Some t" for q t
  proof -
    have "table_of root s1 q = Some t" using assms(1) that unfolding grows_def by blast
    then show ?thesis using assms(2) that(1) unfolding grows_def by blast
  qed
  ultimately show ?thesis
    using assms subset_trans [OF fp(2,1)] subset_trans [OF fp(4,3)] by (simp add: grows_def)
qed

lemma link_table_lookup:
  assumes inv: "pt_inv root s" and k: "k \<in> free_set s" and fl: "table_flags fl"
    and p: "path_ok (p @ [i])" "table_of root s p = Some t"
    and none: "child (entry (mem s)) (hhdm s) t i = None"
  shows "pt_lookup root (link_table t i fl k s) v = pt_lookup root s v"
proof -
  let ?s = "link_table t i fl k s" and ?g = "k * PAGE_SIZE + hhdm s"
  have pm: "pmm_inv s" and tr: "tree (entry (mem s)) (hhdm s) root (tables s)"
    using inv by (auto simp: pt_inv_def)
  have p': "path_ok p" "length p < 3" "i < 512" using p(1) by (auto simp: path_ok_snoc)
  have t: "t \<in> tables s" using treeD(1) [OF tr p'(1) p(2)] .
  have tab: "tables ?s = insert ?g (tables s)" using tables_link [OF pm k] .
  note ent = link_table_entries [OF inv k t p'(3), of _ fl]
  have at: "table_of root ?s (vpath v) = (if vpath v = p @ [i] then Some ?g else table_of root s (vpath v))"
    by (rule link_table_tree(2) [OF inv k fl p none]) simp
  show ?thesis
  proof (cases "vpath v = p @ [i]")
    case True
    have "?g \<notin> tables s" using k by (intro free_table_notin) (simp add: free_frames_def)
    then have "entry (mem ?s) ?g (pt_idx v) = 0" using ent [of ?g "pt_idx v"] tab t by auto
    moreover have "table_of root s (vpath v) = None" using True p(2) none by (simp add: table_at_snoc)
    ultimately show ?thesis using at True by (simp add: pt_lookup_def)
  next
    case False
    have "entry (mem ?s) t' (pt_idx v) = entry (mem s) t' (pt_idx v)"
      if h: "table_of root s (vpath v) = Some t'" for t'
    proof -
      have t': "t' \<in> tables s" using treeD(1) [OF tr _ h] by simp
      moreover have "t' \<noteq> t" using treeD(2) [OF tr _ h p'(1)] p(2) p'(2) vpath_ok(2) [of v] by auto
      moreover have "t' \<noteq> ?g" using t' free_table_notin k by (auto simp: free_frames_def)
      ultimately show ?thesis using ent [of t' "pt_idx v"] tab by simp
    qed
    then show ?thesis using at False by (auto simp: pt_lookup_def split: option.split)
  qed
qed

lemma link_table_grows:
  assumes inv: "pt_inv root s" and k: "k \<in> free_set s" and fl: "table_flags fl"
    and p: "path_ok (p @ [i])" "table_of root s p = Some t"
    and none: "child (entry (mem s)) (hhdm s) t i = None"
  shows "grows root s (link_table t i fl k s)"
proof -
  let ?s = "link_table t i fl k s" and ?g = "k * PAGE_SIZE + hhdm s"
  have pm: "pmm_inv s" and hh: "hhdm_ok s" and tr: "tree (entry (mem s)) (hhdm s) root (tables s)"
    using inv by (auto simp: pt_inv_def)
  note tree = link_table_tree [OF inv k fl p none]
  have f: "k * PAGE_SIZE \<in> free_frames s" using k by (simp add: free_frames_def)
  have p': "path_ok p" "i < 512" using p(1) by (auto simp: path_ok_snoc)
  have "t \<in> tables s" using treeD(1) [OF tr p'(1) p(2)] .
  then have ta: "page_aligned t" using tables_aligned(1) [OF pm hh] by simp
  have none': "table_of root s (p @ [i]) = None" using p none by (simp add: table_at_snoc)
  have foot: "t \<in> footprint root s" "?g \<in> footprint root s"
    using p(2) p'(1) f by (auto simp: footprint_def)
  have "mem ?s x = mem s x" if "outside (footprint root s) x" for x
  proof -
    have "x \<notin> region (t + 8 * i) 8" "x \<notin> region ?g (2 ^ 12)"
      using that foot slot_in_page [OF ta p'(2)] by (auto simp: outside_def)
    then show ?thesis
      by (simp add: link_table_def store64_outside memset_write_block PAGE_SIZE_def write_block_outside)
  qed
  moreover have "footprint root ?s \<subseteq> footprint root s"
    using tree(2) f link_table_pmm(2) [OF pm k, of t i fl]
    by (auto simp: footprint_def split: if_splits)
  moreover have "table_of root ?s q = Some t'" if "path_ok q" "table_of root s q = Some t'" for q t'
    using tree(2) [OF that(1)] that(2) none' by auto
  ultimately show ?thesis
    using tree(1) link_table_pmm(2) [OF pm k, of t i fl] link_table_lookup [OF assms]
    by (simp add: grows_def)
qed

lemma ensure_level:
  assumes inv: "pt_inv root s" and fl: "table_flags fl"
    and p: "path_ok (p @ [i])" "table_of root s p = Some t"
  obtains (oom) "vmm_get_next_level t i True fl s = fails (Panic ''out of memory in pmm_allocate!'')"
      "free_frames s = {}"
    | (ok) g s' where "vmm_get_next_level t i True fl s = ret (g, s')" "grows root s s'"
      "table_of root s' (p @ [i]) = Some g" "g \<noteq> 0"
      "card (free_frames s) \<le> Suc (card (free_frames s'))"
proof (cases "child (entry (mem s)) (hhdm s) t i")
  case (Some g)
  have pm: "pmm_inv s" "hhdm_ok s" and tr: "tree (entry (mem s)) (hhdm s) root (tables s)"
    using inv by (auto simp: pt_inv_def)
  have at: "table_of root s (p @ [i]) = Some g" using p(2) Some by (simp add: table_at_snoc)
  have "g \<noteq> 0" using tables_aligned(2) [OF pm] treeD(1) [OF tr p(1) at] by blast
  with at show ?thesis
    using ok [OF next_level_child [OF Some] grows_refl [OF inv]] by simp
next
  case None
  have pm: "pmm_inv s" "hhdm_ok s" using inv by (auto simp: pt_inv_def)
  note alloc = next_level_alloc [OF pm(1) None fl]
  show ?thesis
  proof (cases "find_free_page s")
    case None
    then show ?thesis using oom alloc find_free_page_None [of s] by (simp add: free_frames_def)
  next
    case (Some k)
    let ?s = "link_table t i fl k s" and ?g = "k * PAGE_SIZE + hhdm s"
    have k: "k \<in> free_set s" using find_free_page_Some(1) [OF Some] .
    then have f: "k * PAGE_SIZE \<in> free_frames s" by (simp add: free_frames_def)
    show ?thesis
    proof (rule ok)
      show "vmm_get_next_level t i True fl s = ret (?g, ?s)" using alloc Some by simp
      show "grows root s ?s" by (rule link_table_grows [OF inv k fl p None])
      show "table_of root ?s (p @ [i]) = Some ?g"
        using link_table_tree(2) [OF inv k fl p None p(1)] by simp
      show "?g \<noteq> 0" using frame_table(2) [OF pm] f free_frames_subset [OF pm(1)] by blast
      have "finite (free_frames s)" by (simp add: free_frames_def)
      then show "card (free_frames s) \<le> Suc (card (free_frames ?s))"
        using link_table_pmm(2) [OF pm(1) k, of t i fl] f by (simp add: card_Diff_singleton)
    qed
  qed
qed

section \<open>Virtual page numbers\<close>

text \<open>Translation uses bits 12 to 47 of an address: the virtual page number.\<close>

definition vpn :: "addr \<Rightarrow> u64" where
  "vpn v = take_bit 36 (drop_bit 12 v)"

lemma idx_bit: "bit (drop_bit m (v :: u64) AND 0x1FF) n \<longleftrightarrow> n < 9 \<and> bit v (m + n)"
proof -
  have m: "(0x1FF :: u64) = mask 9" by (simp add: mask_eq_exp_minus_1)
  show ?thesis unfolding m using bit_imp_le_length [of v "m + n"] by (auto simp: bit_simps)
qed

lemma bounded_bits_iff:
  "k \<le> 64 \<Longrightarrow> (\<forall>n<64. (n < k \<and> P n) = (n < k \<and> Q n)) \<longleftrightarrow> (\<forall>n<(k::nat). P n \<longleftrightarrow> Q n)"
  using less_le_trans [of _ k 64] by blast

lemma idx_eq_iff:
  "drop_bit m (v :: u64) AND 0x1FF = drop_bit m w AND 0x1FF \<longleftrightarrow> (\<forall>n<9. bit v (m + n) \<longleftrightarrow> bit w (m + n))"
  by (subst bit_eq_iff) (simp add: idx_bit bounded_bits_iff)

lemma vpn_eq_iff: "vpn v = vpn w \<longleftrightarrow> vpath v = vpath w \<and> pt_idx v = pt_idx w"
proof -
  have all: "(\<forall>n<36. P (12 + n)) \<longleftrightarrow>
      (\<forall>n<9. P (39 + n)) \<and> (\<forall>n<9. P (30 + n)) \<and> (\<forall>n<9. P (21 + n)) \<and> (\<forall>n<9. P (12 + n))"
    for P :: "nat \<Rightarrow> bool"
  proof
    assume a: "(\<forall>n<9. P (39 + n)) \<and> (\<forall>n<9. P (30 + n)) \<and> (\<forall>n<9. P (21 + n)) \<and> (\<forall>n<9. P (12 + n))"
    show "\<forall>n<36. P (12 + n)"
    proof (intro allI impI)
      fix n :: nat assume "n < 36"
      then consider "n < 9" | "9 \<le> n" "n < 18" | "18 \<le> n" "n < 27" | "27 \<le> n" "n < 36" by linarith
      then show "P (12 + n)"
      proof cases
        case 2
        then have "n - 9 < 9" by simp
        with a have "P (21 + (n - 9))" by blast
        with 2 show ?thesis by simp
      next
        case 3
        then have "n - 18 < 9" by simp
        with a have "P (30 + (n - 18))" by blast
        with 3 show ?thesis by simp
      next
        case 4
        then have "n - 27 < 9" by simp
        with a have "P (39 + (n - 27))" by blast
        with 4 show ?thesis by simp
      qed (use a in simp)
    qed
  next
    assume a: "\<forall>n<36. P (12 + n)"
    have "P (12 + (27 + n)) \<and> P (12 + (18 + n)) \<and> P (12 + (9 + n)) \<and> P (12 + n)" if "n < 9" for n
      using that a [rule_format, of "27 + n"] a [rule_format, of "18 + n"] a [rule_format, of "9 + n"]
        a [rule_format, of n] by simp
    then show "(\<forall>n<9. P (39 + n)) \<and> (\<forall>n<9. P (30 + n)) \<and> (\<forall>n<9. P (21 + n)) \<and> (\<forall>n<9. P (12 + n))"
      by simp
  qed
  have "vpn v = vpn w \<longleftrightarrow> (\<forall>n<36. bit v (12 + n) \<longleftrightarrow> bit w (12 + n))"
    by (subst bit_eq_iff) (simp add: vpn_def bit_take_bit_iff bit_drop_bit_eq bounded_bits_iff)
  then show ?thesis
    unfolding all [of "\<lambda>n. bit v n \<longleftrightarrow> bit w n"]
    by (simp add: vpath_def pml4_idx_def pdpt_idx_def pd_idx_def pt_idx_def idx_eq_iff)
qed

lemma page_mask: "(PAGE_SIZE - 1 :: u64) = mask 12"
  by (simp add: PAGE_SIZE_def mask_eq_exp_minus_1)

lemma vpn_align: "vpn (v AND NOT (PAGE_SIZE - 1)) = vpn v"
  unfolding page_mask by (rule bit_word_eqI) (auto simp: vpn_def bit_simps)

lemma idx_align:
  "vpath (v AND NOT (PAGE_SIZE - 1)) = vpath v" "pt_idx (v AND NOT (PAGE_SIZE - 1)) = pt_idx v"
  using vpn_align [of v] by (simp_all add: vpn_eq_iff)

lemma idx_align_each:
  "pml4_idx (v AND NOT (PAGE_SIZE - 1)) = pml4_idx v" "pdpt_idx (v AND NOT (PAGE_SIZE - 1)) = pdpt_idx v"
  "pd_idx (v AND NOT (PAGE_SIZE - 1)) = pd_idx v"
  using idx_align(1) [of v] by (simp_all add: vpath_def)

section \<open>Mapping a page\<close>

lemma set_leaf:
  fixes e :: u64
  assumes inv: "pt_inv root s" and pt: "table_of root s (vpath v) = Some t"
  defines "s' \<equiv> set_entry t (pt_idx v) e s"
  shows "pt_inv root s'"
    and "\<And>q. path_ok q \<Longrightarrow> table_of root s' q = table_of root s q"
    and "pt_lookup root s' w =
      (if vpn w = vpn v then if present e then Some e else None else pt_lookup root s w)"
    and "outside (footprint root s) x \<Longrightarrow> mem s' x = mem s x"
    and "\<And>j. j < 512 \<Longrightarrow> entry (mem s') t j = (if j = pt_idx v then e else entry (mem s) t j)"
    and "\<And>t' j. t' \<in> tables s \<Longrightarrow> j < 512 \<Longrightarrow> t' \<noteq> t \<Longrightarrow> entry (mem s') t' j = entry (mem s) t' j"
proof -
  have pm: "pmm_inv s" and hh: "hhdm_ok s" and tr: "tree (entry (mem s)) (hhdm s) root (tables s)"
    using inv by (auto simp: pt_inv_def)
  have t: "t \<in> tables s" using treeD(1) [OF tr _ pt] by simp
  note al = tables_aligned(1) [OF pm hh]
  have ent: "entry (mem s') t' j = (if t' = t \<and> j = pt_idx v then e else entry (mem s) t' j)"
    if "t' \<in> tables s" "j < 512" for t' j
    using entry_store [OF al [OF t] al [OF that(1)] table_idx_lt(4) that(2)]
    by (auto simp: s'_def set_entry_def)
  then have same: "\<forall>t'\<in>tables s. \<forall>j<512. t' \<noteq> t \<longrightarrow> entry (mem s') t' j = entry (mem s) t' j" by simp
  have h': "hhdm s' = hhdm s" by (simp add: s'_def set_entry_def)
  show at: "table_of root s' q = table_of root s q" if "path_ok q" for q
    unfolding h' by (rule table_at_leaf [OF tr _ _ pt same that]) simp_all
  show "pt_inv root s'"
    using tree_cong [OF tr at [unfolded h']] pm hh
    by (simp add: pt_inv_def h') (simp add: s'_def set_entry_def)
  have "entry (mem s') t' (pt_idx w) =
      (if vpn w = vpn v then e else entry (mem s) t' (pt_idx w))"
    if h: "table_of root s (vpath w) = Some t'" for t'
    using ent [OF treeD(1) [OF tr _ h] table_idx_lt(4)] treeD(2) [OF tr _ h, of "vpath v"] h pt
    by (auto simp: vpn_eq_iff)
  then show "pt_lookup root s' w =
      (if vpn w = vpn v then if present e then Some e else None else pt_lookup root s w)"
    using at [of "vpath w"] pt
    by (auto simp: pt_lookup_def vpn_eq_iff split: option.split)
  show "mem s' x = mem s x" if "outside (footprint root s) x"
  proof -
    have "t \<in> footprint root s" using pt by (auto simp: footprint_def intro: exI [of _ "vpath v"])
    then have "x \<notin> region (t + 8 * pt_idx v) 8"
      using that slot_in_page [OF al [OF t] table_idx_lt(4)] by (auto simp: outside_def)
    then show ?thesis by (simp add: s'_def set_entry_def store64_outside)
  qed
  show "entry (mem s') t j = (if j = pt_idx v then e else entry (mem s) t j)" if "j < 512" for j
    using ent [OF t that] by simp
  show "entry (mem s') t' j = entry (mem s) t' j" if "t' \<in> tables s" "j < 512" "t' \<noteq> t" for t' j
    using ent [OF that(1,2)] that(3) by simp
qed

definition vmm_inv :: "pagemap_t \<Rightarrow> 'a vmm_scheme \<Rightarrow> bool" where
  "vmm_inv root s \<longleftrightarrow> pt_inv root s \<and> \<not> latch (vmm_lock s)"

definition leaf_entry :: "addr \<Rightarrow> u64 \<Rightarrow> u64" where
  "leaf_entry phys flags = phys AND NOT (PAGE_SIZE - 1) OR flags OR PTE_PRESENT"

text \<open>The effect of mapping one page.\<close>

definition maps :: "pagemap_t \<Rightarrow> addr \<Rightarrow> u64 \<Rightarrow> 'a vmm_scheme \<Rightarrow> 'a vmm_scheme \<Rightarrow> bool" where
  "maps root v e s s' \<longleftrightarrow>
     vmm_inv root s' \<and> hhdm s' = hhdm s \<and> kernel_pagemap s' = kernel_pagemap s \<and>
     if_flag s' = if_flag s \<and> vmm.more s' = vmm.more s \<and> managed_frames s' = managed_frames s \<and>
     free_frames s' \<subseteq> free_frames s \<and> card (free_frames s) \<le> 3 + card (free_frames s') \<and>
     (\<forall>w. pt_lookup root s' w = (if vpn w = vpn v then Some e else pt_lookup root s w)) \<and>
     footprint root s' \<subseteq> footprint root s \<and>
     (\<forall>x. outside (footprint root s) x \<longrightarrow> mem s' x = mem s x)"

lemma present_leaf [simp]: "present (leaf_entry phys flags)"
  by (simp add: leaf_entry_def present_bit bit_or_iff) (simp add: PTE_PRESENT_def)

lemma pt_inv_lock [simp]: "pt_inv root (s\<lparr>vmm_lock := l\<rparr>) = pt_inv root s"
  by (simp add: pt_inv_def)

lemma views_lock [simp]:
  "pt_lookup root (s\<lparr>vmm_lock := l\<rparr>) = pt_lookup root s"
  "footprint root (s\<lparr>vmm_lock := l\<rparr>) = footprint root s"
  by (simp_all add: pt_lookup_def footprint_def fun_eq_iff split: option.split)

lemma pt_inv_root: "pt_inv root s \<Longrightarrow> root \<noteq> NULL"
  using tables_aligned(2) [of s root] treeD(1) [of "entry (mem s)" "hhdm s" root "tables s" "[]" root]
  by (simp add: pt_inv_def path_ok_def)

lemma growsD:
  assumes "grows root s s'"
  shows "pt_inv root s'" "\<And>q t. path_ok q \<Longrightarrow> table_of root s q = Some t \<Longrightarrow> table_of root s' q = Some t"
  using assms unfolding grows_def by blast+

lemma map_leaf:
  assumes g: "grows root (s\<lparr>vmm_lock := l\<rparr>) s3" and pt: "table_of root s3 (vpath v) = Some t"
    and c: "card (free_frames s) \<le> 3 + card (free_frames s3)" and e: "present e"
  shows "maps root v e s ((set_entry t (pt_idx v) e s3)\<lparr>vmm_lock := unlocked\<rparr>)"
proof -
  let ?s = "set_entry t (pt_idx v) e s3"
  note leaf = set_leaf [OF growsD(1) [OF g] pt, where e = e]
  have fr: "free_frames ?s = free_frames s3" "managed_frames ?s = managed_frames s3" "hhdm ?s = hhdm s3"
    "kernel_pagemap ?s = kernel_pagemap s3" "if_flag ?s = if_flag s3" "vmm.more ?s = vmm.more s3"
    by (simp_all add: set_entry_def)
  have "footprint root ?s = footprint root s3"
    using leaf(2) by (simp add: footprint_def fr cong: conj_cong)
  moreover have "mem ?s x = mem s x" if "outside (footprint root s) x" for x
  proof -
    have "outside (footprint root s3) x"
      using g that by (intro outside_mono [of "footprint root s3" "footprint root s"]) (auto simp: grows_def)
    then have "mem ?s x = mem s3 x" using leaf(4) by blast
    then show ?thesis using g that by (simp add: grows_def)
  qed
  ultimately show ?thesis
    using g c e leaf(1,3) fr by (simp add: maps_def grows_def vmm_inv_def)
qed

lemma map_page_cases:
  assumes inv: "vmm_inv root s"
  obtains (oom) "vmm_map_page root virt phys flags s = fails (Panic ''out of memory in pmm_allocate!'')"
      "card (free_frames s) < 3"
    | (ok) s' where "vmm_map_page root virt phys flags s = ret (True, s')"
      "maps root virt (leaf_entry phys flags) s s'"
proof -
  let ?oom = "fails (Panic ''out of memory in pmm_allocate!'')"
  let ?l = "(vmm_lock s)\<lparr>latch := True, func := Some ''vmm_map_page''\<rparr>"
  let ?s = "s\<lparr>vmm_lock := ?l\<rparr>"
  define fl where "fl = (if flags AND PTE_USER \<noteq> 0 then (PTE_PRESENT OR PTE_WRITABLE) OR PTE_USER
    else PTE_PRESENT OR PTE_WRITABLE)"
  let ?i = "pml4_idx virt" and ?j = "pdpt_idx virt" and ?k = "pd_idx virt"
  have fl: "table_flags fl" using table_flags_alloc by (simp add: fl_def)
  have s: "pt_inv root ?s" "\<not> latch (vmm_lock s)" using inv by (auto simp: vmm_inv_def)
  have root: "root \<noteq> 0" using pt_inv_root [OF s(1)] .
  have okp: "path_ok ([] @ [?i])" "path_ok ([?i] @ [?j])" "path_ok ([?i, ?j] @ [?k])"
    by (simp_all add: path_ok_def)
  note step = vmm_map_page_def Let_def idx_align_each idx_align fl_def [symmetric] spin_lock_simps(1) [OF s(2)]
  show thesis
  proof (cases rule: ensure_level [OF s(1) fl okp(1) table_at.simps(1)])
    case oom1: 1
    then have "vmm_map_page root virt phys flags s = ?oom" using root by (simp add: step)
    moreover have "card (free_frames s) < 3" using oom1(2) by simp
    ultimately show ?thesis by (rule oom)
  next
    case ok1: (2 pdpt s1)
    show ?thesis
    proof (cases rule: ensure_level [OF growsD(1) [OF ok1(2)] fl okp(2) ok1(3) [unfolded append_Nil]])
      case oom2: 1
      then have "vmm_map_page root virt phys flags s = ?oom" using root ok1 by (simp add: step)
      moreover have "card (free_frames s) < 3" using oom2(2) ok1(5) by simp
      ultimately show ?thesis by (rule oom)
    next
      case ok2: (2 pd s2)
      show ?thesis
      proof (cases rule: ensure_level [OF growsD(1) [OF ok2(2)] fl okp(3) ok2(3) [unfolded append.simps]])
        case oom3: 1
        then have "vmm_map_page root virt phys flags s = ?oom" using root ok1 ok2 by (simp add: step)
        moreover have "card (free_frames s) < 3" using oom3(2) ok1(5) ok2(5) by simp
        ultimately show ?thesis by (rule oom)
      next
        case ok3: (2 pt s3)
        have g: "grows root ?s s3" using grows_trans [OF grows_trans [OF ok1(2) ok2(2)] ok3(2)] .
        have pt: "table_of root s3 (vpath virt) = Some pt" using ok3(3) by (simp add: vpath_def)
        have "card (free_frames s) \<le> 3 + card (free_frames s3)" using ok1(5) ok2(5) ok3(5) by simp
        from map_leaf [OF g pt this present_leaf, of phys flags] show ?thesis
          using root ok1 ok2 ok3
          by (intro ok [of "(set_entry pt (pt_idx virt) (leaf_entry phys flags) s3)\<lparr>vmm_lock := unlocked\<rparr>"])
            (simp_all add: step leaf_entry_def set_entry_def)
      qed
    qed
  qed
qed

section \<open>Translation\<close>

lemma next_level_walk:
  "vmm_get_next_level t i False fl s =
     ret (case child (entry (mem s)) (hhdm s) t i of None \<Rightarrow> NULL | Some g \<Rightarrow> g, s)"
  by (simp split: option.split add: next_level_none next_level_child)

lemma pt_inv_table:
  assumes "pt_inv root s" "path_ok p" "table_of root s p = Some t"
  shows "t \<in> tables s" "t \<noteq> NULL" "page_aligned t"
  using assms treeD(1) [of "entry (mem s)" "hhdm s" root "tables s" p t] tables_aligned [of s t]
  by (auto simp: pt_inv_def)

lemma virt_to_phys_lookup:
  assumes inv: "pt_inv root s"
  shows "vmm_virt_to_phys root v s =
    ret (case pt_lookup root s v of None \<Rightarrow> 0 | Some e \<Rightarrow> PTE_GET_ADDR e + v mod PAGE_SIZE, s)"
proof -
  let ?c = "child (entry (mem s)) (hhdm s)"
  have nz: "t \<noteq> 0" if "table_of root s p = Some t" "path_ok p" for p t
    using pt_inv_table(2) [OF inv that(2,1)] .
  have p: "path_ok [pml4_idx v]" "path_ok [pml4_idx v, pdpt_idx v]" "path_ok [pml4_idx v, pdpt_idx v, pd_idx v]"
    by (simp_all add: path_ok_def)
  show ?thesis
  proof (cases "?c root (pml4_idx v)")
    case None
    then show ?thesis by (simp add: vmm_virt_to_phys_def next_level_walk pt_lookup_def vpath_def)
  next
    case s1: (Some pdpt)
    have n1: "pdpt \<noteq> 0" by (rule nz [OF _ p(1)]) (simp add: s1)
    show ?thesis
    proof (cases "?c pdpt (pdpt_idx v)")
      case None
      then show ?thesis using s1 n1 by (simp add: vmm_virt_to_phys_def next_level_walk pt_lookup_def vpath_def)
    next
      case s2: (Some pd)
      have n2: "pd \<noteq> 0" by (rule nz [OF _ p(2)]) (simp add: s1 s2)
      show ?thesis
      proof (cases "?c pd (pd_idx v)")
        case None
        then show ?thesis
          using s1 n1 s2 n2 by (simp add: vmm_virt_to_phys_def next_level_walk pt_lookup_def vpath_def)
      next
        case s3: (Some pt)
        have n3: "pt \<noteq> 0" by (rule nz [OF _ p(3)]) (simp add: s1 s2 s3)
        then show ?thesis
          using s1 n1 s2 n2 s3
          by (simp add: vmm_virt_to_phys_def next_level_walk pt_lookup_def vpath_def Let_def)
      qed
    qed
  qed
qed

section \<open>Unmapping a page\<close>

lemma unlink_frame:
  assumes inv: "pt_inv root s" and g: "table_of root s (p @ [i]) = Some g" "path_ok (p @ [i])"
    and t: "table_of root s p = Some t"
  shows "PTE_GET_ADDR (entry (mem s) t i) \<in> managed_frames s - free_frames s"
    and "PTE_GET_ADDR (entry (mem s) t i) + hhdm s = g"
proof -
  show eq: "PTE_GET_ADDR (entry (mem s) t i) + hhdm s = g"
    using g(1) t by (auto simp: table_at_snoc child_def split: if_splits)
  have "g \<in> tables s" using pt_inv_table(1) [OF inv g(2,1)] .
  then show "PTE_GET_ADDR (entry (mem s) t i) \<in> managed_frames s - free_frames s"
    using eq by (auto simp: tables_def)
qed

lemma give_page_fields [simp]:
  "mem (give_page k s) = mem s" "hhdm (give_page k s) = hhdm s" "if_flag (give_page k s) = if_flag s"
  by (simp_all add: give_page_def)

lemma give_page_vmm_fields [simp]:
  fixes s :: "'a vmm_scheme"
  shows "vmm_lock (give_page k s) = vmm_lock s" "kernel_pagemap (give_page k s) = kernel_pagemap s"
    "vmm.more (give_page k s) = vmm.more s"
  by (simp_all add: give_page_def sync_settled_def)

lemma tables_give:
  assumes "pmm_inv s" "f \<in> managed_frames s - free_frames s"
  shows "tables (give_page (f div PAGE_SIZE) s) = tables s - {f + hhdm s}"
proof -
  have "inj (\<lambda>f. f + hhdm s)" by (simp add: inj_def)
  moreover have "managed_frames s - insert f (free_frames s) = managed_frames s - free_frames s - {f}"
    by blast
  ultimately show ?thesis
    using free_frames_give_page(2) [OF assms] by (simp add: tables_def image_set_diff)
qed

definition unlinked :: "addr \<Rightarrow> u64 \<Rightarrow> 'a vmm_scheme \<Rightarrow> 'a vmm_scheme" where
  "unlinked t i s = give_page (PTE_GET_ADDR (entry (mem s) t i) div PAGE_SIZE) (set_entry t i 0 s)"

lemma unlink_table:
  assumes inv: "pt_inv root s" and g: "table_of root s (p @ [i]) = Some g" "path_ok (p @ [i])"
    and t: "table_of root s p = Some t" and zero: "\<forall>j<512. entry (mem s) g j = 0"
  shows "pmm_free (PTE_GET_ADDR (entry (mem s) t i)) (set_entry t i 0 s) = ret (unlinked t i s)"
    and "pt_inv root (unlinked t i s)"
    and "\<And>q. path_ok q \<Longrightarrow>
      table_of root (unlinked t i s) q = (if q = p @ [i] then None else table_of root s q)"
    and "\<And>t' j. t' \<in> tables s \<Longrightarrow> j < 512 \<Longrightarrow>
      entry (mem (unlinked t i s)) t' j = (if (t', j) = (t, i) then 0 else entry (mem s) t' j)"
    and "free_frames (unlinked t i s) = insert (g - hhdm s) (free_frames s)"
proof -
  let ?f = "PTE_GET_ADDR (entry (mem s) t i)" and ?s = "set_entry t i 0 s"
  note f = unlink_frame [OF inv g t]
  have pm: "pmm_inv s" and hh: "hhdm_ok s" and tr: "tree (entry (mem s)) (hhdm s) root (tables s)"
    using inv by (auto simp: pt_inv_def)
  have p: "path_ok p" "i < 512" using g(2) by (auto simp: path_ok_snoc)
  note t_tab = pt_inv_table [OF inv p(1) t]
  have pm': "pmm_inv ?s" "?f \<in> managed_frames ?s - free_frames ?s"
    using pm f(1) by (simp_all add: set_entry_def)
  show "pmm_free ?f ?s = ret (unlinked t i s)"
    unfolding unlinked_def by (rule pmm_free_ok [OF pm'])
  have m: "mem (unlinked t i s) = mem ?s" "hhdm (unlinked t i s) = hhdm s"
    by (simp_all add: unlinked_def set_entry_def)
  show ent: "entry (mem (unlinked t i s)) t' j = (if (t', j) = (t, i) then 0 else entry (mem s) t' j)"
    if "t' \<in> tables s" "j < 512" for t' j
    using entry_store [OF t_tab(3) tables_aligned(1) [OF pm hh that(1)] p(2) that(2)]
    unfolding m by (auto simp: set_entry_def)
  have tab: "tables (unlinked t i s) = tables s - {g}"
    using tables_give [OF pm'] f(2) by (simp add: unlinked_def set_entry_def)
  have same: "\<forall>t'\<in>tables s. \<forall>j<512. (t', j) \<noteq> (t, i) \<longrightarrow>
      entry (mem (unlinked t i s)) t' j = entry (mem s) t' j"
  proof (intro ballI allI impI)
    fix t' j assume "t' \<in> tables s" "j < 512" "(t', j) \<noteq> (t, i)"
    then show "entry (mem (unlinked t i s)) t' j = entry (mem s) t' j"
      using ent [of t' j] by (simp only: if_False)
  qed
  have z: "entry (mem (unlinked t i s)) t i = 0" using ent [OF t_tab(1) p(2)] by simp
  have "length p < 2 \<longrightarrow> (\<forall>j<512. entry (mem s) g j = 0)" using zero by simp
  note facts = tr g(2) t z g(1) this same
  show "table_of root (unlinked t i s) q = (if q = p @ [i] then None else table_of root s q)"
    if "path_ok q" for q
    unfolding m(2) by (rule table_at_unlink [OF facts that])
  have "pmm_inv (unlinked t i s)" using free_frames_give_page(1) [OF pm'] by (simp add: unlinked_def)
  then show "pt_inv root (unlinked t i s)"
    using tree_unlink [OF facts] hh by (simp add: pt_inv_def tab m(2) hhdm_ok_def)
  show "free_frames (unlinked t i s) = insert (g - hhdm s) (free_frames s)"
  proof -
    have "?f = g - hhdm s" unfolding f(2) [symmetric] by simp
    moreover have "free_frames ?s = free_frames s" by (simp add: set_entry_def)
    ultimately show ?thesis using free_frames_give_page(2) [OF pm'] by (simp only: unlinked_def)
  qed
qed

text \<open>Pruning: empty tables may go back to the frame allocator, nothing mapped changes.\<close>

definition shrinks :: "addr \<Rightarrow> 'a vmm_scheme \<Rightarrow> 'a vmm_scheme \<Rightarrow> bool" where
  "shrinks root s s' \<longleftrightarrow>
     pt_inv root s' \<and> hhdm s' = hhdm s \<and> vmm_lock s' = vmm_lock s \<and>
     kernel_pagemap s' = kernel_pagemap s \<and> if_flag s' = if_flag s \<and> vmm.more s' = vmm.more s \<and>
     managed_frames s' = managed_frames s \<and> free_frames s \<subseteq> free_frames s' \<and>
     (\<forall>v. pt_lookup root s' v = pt_lookup root s v) \<and>
     footprint root s' \<subseteq> footprint root s \<and>
     (\<forall>x. outside (footprint root s) x \<longrightarrow> mem s' x = mem s x)"

lemma shrinks_refl: "pt_inv root s \<Longrightarrow> shrinks root s s"
  by (simp add: shrinks_def)

lemma shrinks_trans:
  assumes "shrinks root s s1" "shrinks root s1 s2"
  shows "shrinks root s s2"
proof -
  have fp: "footprint root s1 \<subseteq> footprint root s" "footprint root s2 \<subseteq> footprint root s1"
    "free_frames s \<subseteq> free_frames s1" "free_frames s1 \<subseteq> free_frames s2"
    using assms by (simp_all add: shrinks_def)
  have "mem s2 x = mem s x" if "outside (footprint root s) x" for x
    using that outside_mono [OF fp(1) that] assms by (simp add: shrinks_def)
  then show ?thesis
    using assms subset_trans [OF fp(2,1)] subset_trans [OF fp(3,4)] by (simp add: shrinks_def)
qed

lemma unlink_shrinks:
  assumes inv: "pt_inv root s" and g: "table_of root s (p @ [i]) = Some g" "path_ok (p @ [i])"
    and t: "table_of root s p = Some t" and zero: "\<forall>j<512. entry (mem s) g j = 0"
  shows "shrinks root s (unlinked t i s)"
proof -
  let ?s = "unlinked t i s"
  have tr: "tree (entry (mem s)) (hhdm s) root (tables s)" using inv by (simp add: pt_inv_def)
  have p: "path_ok p" "length p < 3" "i < 512" using g(2) by (auto simp: path_ok_snoc)
  note un = unlink_table [OF assms]
  have look: "pt_lookup root ?s v = pt_lookup root s v" for v
  proof (cases "vpath v = p @ [i]")
    case True
    then have "table_of root ?s (vpath v) = None" "table_of root s (vpath v) = Some g"
      using un(3) [of "vpath v"] g by simp_all
    then show ?thesis using zero by (simp add: pt_lookup_def)
  next
    case False
    have "entry (mem ?s) t' (pt_idx v) = entry (mem s) t' (pt_idx v)"
      if h: "table_of root s (vpath v) = Some t'" for t'
    proof -
      have "t' \<noteq> t" using treeD(2) [OF tr _ h p(1)] t p(2) vpath_ok(2) [of v] by auto
      then show ?thesis using un(4) [OF treeD(1) [OF tr _ h] table_idx_lt(4)] by simp
    qed
    then show ?thesis using un(3) [of "vpath v"] False by (simp add: pt_lookup_def split: option.split)
  qed
  have h: "hhdm ?s = hhdm s" by (simp add: unlinked_def set_entry_def)
  have "g \<in> footprint root s" "t \<in> footprint root s"
    using g t p(1) by (auto simp: footprint_def)
  then have "footprint root ?s \<subseteq> footprint root s"
    using un(3,5) by (auto simp: footprint_def h split: if_splits)
  moreover have "mem ?s x = mem s x" if "outside (footprint root s) x" for x
  proof -
    have "x \<notin> region (t + 8 * i) 8"
      using that \<open>t \<in> footprint root s\<close> slot_in_page [OF pt_inv_table(3) [OF inv p(1) t] p(3)]
      by (auto simp: outside_def)
    then show ?thesis by (simp add: unlinked_def set_entry_def store64_outside)
  qed
  moreover have "free_frames s \<subseteq> free_frames ?s" using un(5) by blast
  moreover have "vmm_lock ?s = vmm_lock s" "kernel_pagemap ?s = kernel_pagemap s" "if_flag ?s = if_flag s"
    "vmm.more ?s = vmm.more s" "managed_frames ?s = managed_frames s"
    by (simp_all add: unlinked_def set_entry_def)
  ultimately show ?thesis using un(2) look h by (simp add: shrinks_def)
qed

text \<open>One round of pruning: nothing happens, or the table leaves the tree.\<close>

lemma prune_level:
  assumes inv: "pt_inv root s" and g: "table_of root s (p @ [i]) = Some g" "path_ok (p @ [i])"
    and t: "table_of root s p = Some t"
    and rest: "vmm_is_table_empty (mem s) g \<Longrightarrow>
      \<exists>s'. k (unlinked t i s) = ret s' \<and> shrinks root (unlinked t i s) s'"
  shows "\<exists>s'. (if \<not> vmm_is_table_empty (mem s) g then ret s
    else rbind (pmm_free (PTE_GET_ADDR (entry (mem s) t i)) (set_entry t i 0 s)) k) = ret s' \<and>
    shrinks root s s'"
proof (cases "vmm_is_table_empty (mem s) g")
  case True
  then have zero: "\<forall>j<512. entry (mem s) g j = 0" by (simp add: vmm_is_table_empty_iff)
  obtain s' where "k (unlinked t i s) = ret s'" "shrinks root (unlinked t i s) s'"
    using rest [OF True] by blast
  then show ?thesis
    using True unlink_table(1) [OF inv g t zero] shrinks_trans [OF unlink_shrinks [OF inv g t zero]]
    by simp
qed (use inv shrinks_refl in simp)

definition unmaps :: "pagemap_t \<Rightarrow> addr \<Rightarrow> 'a vmm_scheme \<Rightarrow> 'a vmm_scheme \<Rightarrow> bool" where
  "unmaps root v s s' \<longleftrightarrow>
     vmm_inv root s' \<and> hhdm s' = hhdm s \<and> kernel_pagemap s' = kernel_pagemap s \<and>
     if_flag s' = if_flag s \<and> vmm.more s' = vmm.more s \<and> managed_frames s' = managed_frames s \<and>
     free_frames s \<subseteq> free_frames s' \<and>
     (\<forall>w. pt_lookup root s' w = (if vpn w = vpn v then None else pt_lookup root s w)) \<and>
     footprint root s' \<subseteq> footprint root s \<and>
     (\<forall>x. outside (footprint root s) x \<longrightarrow> mem s' x = mem s x)"

lemma table_of_inj:
  assumes "pt_inv root s" "path_ok p" "path_ok q" "table_of root s p = Some t" "table_of root s q = Some t"
  shows "p = q"
  using assms by (auto simp: pt_inv_def tree_def)

lemma pt_lookup_cong: "vpn v = vpn w \<Longrightarrow> pt_lookup root s v = pt_lookup root s w"
  by (simp add: pt_lookup_def vpn_eq_iff split: option.split)

definition prune :: "addr \<Rightarrow> addr \<Rightarrow> addr \<Rightarrow> addr \<Rightarrow> addr \<Rightarrow> u64 \<Rightarrow> u64 \<Rightarrow> u64 \<Rightarrow>
    'a vmm_scheme \<Rightarrow> 'a vmm_scheme result" where
  "prune pml4 pdpt pd pt v pdpt_entry pd_entry pt_entry s =
     (if \<not> vmm_is_table_empty (mem s) pt then ret s else
      rbind (pmm_free (PTE_GET_ADDR pt_entry) (set_entry pd (pd_idx v) 0 s)) (\<lambda>s.
      if \<not> vmm_is_table_empty (mem s) pd then ret s else
      rbind (pmm_free (PTE_GET_ADDR pd_entry) (set_entry pdpt (pdpt_idx v) 0 s)) (\<lambda>s.
      if \<not> vmm_is_table_empty (mem s) pdpt then ret s else
      if pml4_idx v \<ge> 256 then ret s else
      pmm_free (PTE_GET_ADDR pdpt_entry) (set_entry pml4 (pml4_idx v) 0 s))))"

lemma prune_shrinks:
  assumes inv: "pt_inv root s"
    and at: "table_of root s [pml4_idx v] = Some pdpt" "table_of root s [pml4_idx v, pdpt_idx v] = Some pd"
      "table_of root s (vpath v) = Some pt"
  shows "\<exists>s'. prune root pdpt pd pt v (entry (mem s) root (pml4_idx v)) (entry (mem s) pdpt (pdpt_idx v))
      (entry (mem s) pd (pd_idx v)) s = ret s' \<and> shrinks root s s'"
proof -
  let ?i = "pml4_idx v" and ?j = "pdpt_idx v" and ?k = "pd_idx v"
  let ?s1 = "unlinked pd ?k s"
  have p: "path_ok []" "path_ok [?i]" "path_ok [?i, ?j]" "path_ok [?i, ?j, ?k]" by (simp_all add: path_ok_def)
  have at3: "table_of root s ([?i, ?j] @ [?k]) = Some pt" using at(3) by (simp add: vpath_def)
  have p3: "path_ok ([?i, ?j] @ [?k])" "path_ok ([?i] @ [?j])" "path_ok ([] @ [?i])" using p by simp_all
  have ne: "pdpt \<noteq> pd" "root \<noteq> pd" "root \<noteq> pdpt"
    using table_of_inj [OF inv p(2,3) at(1)] table_of_inj [OF inv p(1,3) table_at.simps(1)]
      table_of_inj [OF inv p(1,2) table_at.simps(1)] at(1,2) by auto
  note tab = pt_inv_table(1) [OF inv p(1) table_at.simps(1)] pt_inv_table(1) [OF inv p(2) at(1)]
    pt_inv_table(1) [OF inv p(3) at(2)]
  show ?thesis
    unfolding prune_def
  proof (rule prune_level [OF inv at3 p3(1) at(2)])
    assume "vmm_is_table_empty (mem s) pt"
    then have zero: "\<forall>j<512. entry (mem s) pt j = 0" by (simp add: vmm_is_table_empty_iff)
    note un = unlink_table [OF inv at3 p3(1) at(2) zero]
    have e1: "entry (mem s) pdpt ?j = entry (mem ?s1) pdpt ?j" "entry (mem s) root ?i = entry (mem ?s1) root ?i"
      using un(4) [OF tab(2), of ?j] un(4) [OF tab(1), of ?i] ne by simp_all
    have at1: "table_of root ?s1 ([?i] @ [?j]) = Some pd" "table_of root ?s1 [?i] = Some pdpt"
      using un(3) [OF p(3)] un(3) [OF p(2)] at by simp_all
    let ?s2 = "unlinked pdpt ?j ?s1"
    show "\<exists>s'. (if \<not> vmm_is_table_empty (mem ?s1) pd then ret ?s1 else
        rbind (pmm_free (PTE_GET_ADDR (entry (mem s) pdpt ?j)) (set_entry pdpt ?j 0 ?s1)) (\<lambda>s2.
        if \<not> vmm_is_table_empty (mem s2) pdpt then ret s2 else
        if ?i \<ge> 256 then ret s2 else
        pmm_free (PTE_GET_ADDR (entry (mem s) root ?i)) (set_entry root ?i 0 s2))) = ret s' \<and> shrinks root ?s1 s'"
      unfolding e1
    proof (rule prune_level [OF un(2) at1(1) p3(2) at1(2)])
      assume "vmm_is_table_empty (mem ?s1) pd"
      then have zero1: "\<forall>j<512. entry (mem ?s1) pd j = 0" by (simp add: vmm_is_table_empty_iff)
      note un1 = unlink_table [OF un(2) at1(1) p3(2) at1(2) zero1]
      have "root \<in> tables ?s1" using pt_inv_table(1) [OF un(2) p(1) table_at.simps(1)] .
      then have e2: "entry (mem ?s1) root ?i = entry (mem ?s2) root ?i"
        using un1(4) [of root ?i] ne(3) by simp
      have at2: "table_of root ?s2 ([] @ [?i]) = Some pdpt" "table_of root ?s2 [] = Some root"
        using un1(3) [OF p(2)] at1(2) by simp_all
      show "\<exists>s'. (if \<not> vmm_is_table_empty (mem ?s2) pdpt then ret ?s2 else
          if ?i \<ge> 256 then ret ?s2 else
          pmm_free (PTE_GET_ADDR (entry (mem ?s1) root ?i)) (set_entry root ?i 0 ?s2)) = ret s' \<and>
          shrinks root ?s2 s'"
      proof (cases "?i \<ge> 256")
        case True
        then show ?thesis using shrinks_refl [OF un1(2)] by simp
      next
        case False
        have "\<exists>s'. ret (unlinked root ?i ?s2) = ret s' \<and> shrinks root (unlinked root ?i ?s2) s'"
          if "vmm_is_table_empty (mem ?s2) pdpt"
          using that shrinks_refl [OF unlink_table(2) [OF un1(2) at2(1) p3(3) at2(2)]]
          by (simp add: vmm_is_table_empty_iff)
        from prune_level [where k = ret, OF un1(2) at2(1) p3(3) at2(2) this] show ?thesis
          using False by (simp only: e2 if_False rbind_ret_right)
      qed
    qed
  qed
qed

lemma unmap_absent:
  assumes inv: "pt_inv root s" and v: "v mod PAGE_SIZE = 0" and none: "pt_lookup root s v = None"
  shows "vmm_unmap_page root v s = ret (True, s)"
proof -
  let ?c = "child (entry (mem s)) (hhdm s)"
  have e: "\<not> present (entry (mem s) pt (pt_idx v))" if "table_of root s (vpath v) = Some pt" for pt
    using none that by (auto simp: pt_lookup_def Let_def split: if_splits)
  show ?thesis
    using v e
    by (auto simp: vmm_unmap_page_def next_level_walk vpath_def Let_def split: option.split)
qed

lemma unmap_present:
  assumes inv: "vmm_inv root s" and v: "v mod PAGE_SIZE = 0" and some: "pt_lookup root s v = Some e"
  shows "\<exists>s'. vmm_unmap_page root v s = ret (True, s') \<and> unmaps root v s s'"
proof -
  let ?i = "pml4_idx v" and ?j = "pdpt_idx v" and ?k = "pd_idx v"
  let ?l = "(vmm_lock s)\<lparr>latch := True, func := Some ''vmm_unmap_page''\<rparr>"
  let ?s0 = "s\<lparr>vmm_lock := ?l\<rparr>"
  have pti: "pt_inv root s" and lk: "\<not> latch (vmm_lock s)" using inv by (auto simp: vmm_inv_def)
  obtain pdpt pd pt where
    c: "child (entry (mem s)) (hhdm s) root ?i = Some pdpt" "child (entry (mem s)) (hhdm s) pdpt ?j = Some pd"
      "child (entry (mem s)) (hhdm s) pd ?k = Some pt"
    and e: "present (entry (mem s) pt (pt_idx v))"
    using some by (auto simp: pt_lookup_def vpath_def Let_def split: option.splits if_splits)
  have p: "path_ok [?i]" "path_ok [?i, ?j]" "path_ok (vpath v)"
    by (simp_all add: path_ok_def [of "[_]"] path_ok_def [of "[_, _]"])
  have at: "table_of root s [?i] = Some pdpt" "table_of root s [?i, ?j] = Some pd"
    "table_of root s (vpath v) = Some pt"
    using c by (simp_all add: vpath_def)
  note nz = pt_inv_table(2) [OF pti p(1) at(1)] pt_inv_table(2) [OF pti p(2) at(2)]
    pt_inv_table(2) [OF pti p(3) at(3)]
  let ?s1 = "set_entry pt (pt_idx v) 0 ?s0"
  have pti0: "pt_inv root ?s0" and at0: "table_of root ?s0 (vpath v) = Some pt" using pti at(3) by simp_all
  note leaf = set_leaf [OF pti0 at0, where e = 0]
  have at1: "table_of root ?s1 [?i] = Some pdpt" "table_of root ?s1 [?i, ?j] = Some pd"
    "table_of root ?s1 (vpath v) = Some pt"
    using leaf(2) [OF p(1)] leaf(2) [OF p(2)] leaf(2) [OF p(3)] at by simp_all
  have "path_ok []" by (simp add: path_ok_def)
  have ne: "root \<noteq> pt" "pdpt \<noteq> pt" "pd \<noteq> pt"
    using table_of_inj [OF pti \<open>path_ok []\<close> p(3) table_at.simps(1)]
      table_of_inj [OF pti p(1,3) at(1)] table_of_inj [OF pti p(2,3) at(2)] at(3)
    by (auto simp: vpath_def)
  note tabs = pt_inv_table(1) [OF pti \<open>path_ok []\<close> table_at.simps(1)] pt_inv_table(1) [OF pti p(1) at(1)]
    pt_inv_table(1) [OF pti p(2) at(2)]
  have ent: "entry (mem ?s1) root ?i = entry (mem s) root ?i" "entry (mem ?s1) pdpt ?j = entry (mem s) pdpt ?j"
    "entry (mem ?s1) pd ?k = entry (mem s) pd ?k"
    using leaf(6) [of root ?i] leaf(6) [of pdpt ?j] leaf(6) [of pd ?k] tabs ne by simp_all
  from prune_shrinks [OF leaf(1) at1] obtain s2 where
    s2: "prune root pdpt pd pt v (entry (mem s) root ?i) (entry (mem s) pdpt ?j) (entry (mem s) pd ?k) ?s1 = ret s2"
      "shrinks root ?s1 s2"
    unfolding ent by blast
  have "vmm_unmap_page root v s = ret (True, s2\<lparr>vmm_lock := unlocked\<rparr>)"
  proof -
    have "vmm_unmap_page root v s =
        rbind (prune root pdpt pd pt v (entry (mem s) root ?i) (entry (mem s) pdpt ?j)
          (entry (mem s) pd ?k) ?s1) (\<lambda>s. ret (True, s\<lparr>vmm_lock := spin_unlock (vmm_lock s)\<rparr>))"
      using v nz e lk by (simp add: vmm_unmap_page_def next_level_walk c Let_def prune_def cong: if_cong)
    then show ?thesis by (simp add: s2(1))
  qed
  moreover have "unmaps root v s (s2\<lparr>vmm_lock := unlocked\<rparr>)"
  proof -
    have "footprint root ?s1 = footprint root s"
      using leaf(2) by (simp add: footprint_def set_entry_def cong: conj_cong)
    moreover have "mem s2 x = mem s x" if "outside (footprint root s) x" for x
    proof -
      have "mem s2 x = mem ?s1 x" using s2(2) that calculation by (simp add: shrinks_def)
      also have "\<dots> = mem s x" using leaf(4) that by simp
      finally show ?thesis .
    qed
    moreover have "pt_lookup root ?s1 w = (if vpn w = vpn v then None else pt_lookup root s w)" for w
      using leaf(3) [of w] by simp
    ultimately show ?thesis using s2(2) by (simp add: unmaps_def shrinks_def vmm_inv_def) (simp add: set_entry_def)
  qed
  ultimately show ?thesis by blast
qed

lemma unmap_page_ok:
  assumes inv: "vmm_inv root s" and v: "v mod PAGE_SIZE = 0"
  shows "\<exists>s'. vmm_unmap_page root v s = ret (True, s') \<and> unmaps root v s s'"
proof (cases "pt_lookup root s v")
  case None
  have "pt_lookup root s w = None" if "vpn w = vpn v" for w
    using None pt_lookup_cong [OF that, of root s] by simp
  then have "unmaps root v s s" using inv by (simp add: unmaps_def)
  then show ?thesis using unmap_absent [OF _ v None] inv by (simp add: vmm_inv_def)
qed (rule unmap_present [OF assms])

interpretation space: address_space "vmm_inv root" "pt_lookup root" vpn leaf_entry
  "\<lambda>v. v mod PAGE_SIZE = 0" "vmm_map_page root" "vmm_unmap_page root"
  for root :: pagemap_t
proof
  fix v w p :: addr and f :: u64 and s :: "'a vmm_scheme"
  show "vpn v = vpn w \<Longrightarrow> pt_lookup root s v = pt_lookup root s w" by (rule pt_lookup_cong)
  show "(\<exists>s'. vmm_map_page root v p f s = ret (True, s') \<and> vmm_inv root s' \<and>
      (\<forall>w. pt_lookup root s' w = (if vpn w = vpn v then Some (leaf_entry p f) else pt_lookup root s w))) \<or>
    (\<exists>m. vmm_map_page root v p f s = fails (Panic m))" if "vmm_inv root s"
    by (cases rule: map_page_cases [OF that, of v p f]) (auto simp: maps_def)
  show "\<exists>s'. vmm_unmap_page root v s = ret (True, s') \<and> vmm_inv root s' \<and>
      (\<forall>w. pt_lookup root s' w = (if vpn w = vpn v then None else pt_lookup root s w))"
    if "vmm_inv root s" "v mod PAGE_SIZE = 0"
    using unmap_page_ok [OF that] unfolding unmaps_def by blast
qed

section \<open>What the page tables guarantee\<close>

text \<open>
  C1. \<open>vmm_map_page\<close> on a well-formed address space either panics because the frame
  allocator ran out (which needs fewer than three free frames) or returns true, and then the
  virtual page maps to exactly the given entry, every other page maps to what it did before,
  the tables are well formed again with the lock released, at most three frames were consumed,
  and no byte outside the address space's own tables and the free frames changed.
\<close>

theorem vmm_map_page_correct:
  assumes "vmm_inv root s"
  shows "(vmm_map_page root virt phys flags s = fails (Panic ''out of memory in pmm_allocate!'') \<and>
      card (free_frames s) < 3) \<or>
    (\<exists>s'. vmm_map_page root virt phys flags s = ret (True, s') \<and> vmm_inv root s' \<and>
      (\<forall>w. pt_lookup root s' w =
         (if vpn w = vpn virt then Some (leaf_entry phys flags) else pt_lookup root s w)) \<and>
      free_frames s' \<subseteq> free_frames s \<and> card (free_frames s) \<le> 3 + card (free_frames s') \<and>
      (\<forall>x. outside (footprint root s) x \<longrightarrow> mem s' x = mem s x))"
  by (cases rule: map_page_cases [OF assms, of virt phys flags]) (auto simp: maps_def)


text \<open>
  C7. Unmapping undoes mapping: if a page was not mapped, mapping it and unmapping it leaves
  an address space in which every virtual address maps to what it did at the start.
\<close>

theorem vmm_map_unmap_roundtrip:
  assumes "vmm_inv root s" "virt mod PAGE_SIZE = 0" "pt_lookup root s virt = None"
    "3 \<le> card (free_frames s)"
  shows "\<exists>s1 s2. vmm_map_page root virt phys flags s = ret (True, s1) \<and>
    pt_lookup root s1 virt = Some (leaf_entry phys flags) \<and>
    vmm_unmap_page root virt s1 = ret (True, s2) \<and> vmm_inv root s2 \<and> pt_lookup root s2 = pt_lookup root s"
proof (cases rule: map_page_cases [OF assms(1), of virt phys flags])
  case 1
  then show ?thesis using assms(4) by simp
next
  case (2 s1)
  then show ?thesis using space.map_then_unmap [OF assms(1-3) 2(1)] by blast
qed

lemma PTE_GET_ADDR_leaf:
  assumes "unat phys < 2 ^ 52" "flags AND PTE_ADDR_MASK = 0"
  shows "PTE_GET_ADDR (leaf_entry phys flags) = phys AND NOT (PAGE_SIZE - 1)"
proof -
  let ?p = "phys AND NOT (PAGE_SIZE - 1)"
  have "unat ?p = unat phys div 2 ^ 12 * 2 ^ 12" unfolding page_mask by (rule unat_and_not_mask)
  then have "page_aligned ?p" "unat ?p < 2 ^ 52" using assms(1) by auto
  moreover have "(flags OR PTE_PRESENT) AND PTE_ADDR_MASK = 0"
    using assms(2) by (simp add: bit.conj_disj_distrib2) (simp add: PTE_PRESENT_def PTE_ADDR_MASK_def)
  ultimately show ?thesis unfolding leaf_entry_def by (rule PTE_GET_ADDR_link)
qed

text \<open>
  Translation after mapping: once a page is mapped to a physical address below
  \<open>2 ^ 52\<close> with flags outside the address field, \<open>vmm_virt_to_phys\<close> of any address in that
  page is the physical page plus the offset in the page, and translations of all other
  addresses are as before.
\<close>

theorem vmm_map_translate:
  assumes "vmm_inv root s" "vmm_map_page root virt phys flags s = ret (b, s')"
    "unat phys < 2 ^ 52" "flags AND PTE_ADDR_MASK = 0"
  shows "vmm_virt_to_phys root w s' =
    (if vpn w = vpn virt then ret ((phys AND NOT (PAGE_SIZE - 1)) + w mod PAGE_SIZE, s')
     else rbind (vmm_virt_to_phys root w s) (\<lambda>(p, _). ret (p, s')))"
proof (cases rule: map_page_cases [OF assms(1), of virt phys flags])
  case 1
  then show ?thesis using assms(2) by simp
next
  case (2 s1)
  then have s': "maps root virt (leaf_entry phys flags) s s'" using assms(2) by simp
  then have "pt_inv root s" "pt_inv root s'" using assms(1) by (auto simp: maps_def vmm_inv_def)
  then show ?thesis
    using s' virt_to_phys_lookup [of root s w] virt_to_phys_lookup [of root s' w]
      PTE_GET_ADDR_leaf [OF assms(3,4)]
    by (simp add: maps_def)
qed

end
