(* ===== verification/Vmm_Copy.thy ===== *)
theory Vmm_Copy
  imports Vmm
begin

text \<open>
  Writing through an address space: \<open>vmm_map_copy\<close> and \<open>vmm_map_zero\<close> fill a virtual range page
  by page through the higher half. The theorems say that afterwards every byte of the range,
  translated by the page tables, holds what it should and every other byte of memory is
  unchanged.
\<close>

section \<open>The bytes behind a virtual range\<close>

definition frame_addr :: "pagemap_t \<Rightarrow> 'a pmm_scheme \<Rightarrow> addr \<Rightarrow> addr" where
  "frame_addr root s v = (case pt_lookup root s v of Some e \<Rightarrow> PTE_GET_ADDR e | None \<Rightarrow> 0)"

definition phys_view :: "pagemap_t \<Rightarrow> 'a pmm_scheme \<Rightarrow> addr \<Rightarrow> addr" where
  "phys_view root s v = frame_addr root s v + v mod PAGE_SIZE + hhdm s"

definition reach :: "pagemap_t \<Rightarrow> 'a pmm_scheme \<Rightarrow> addr set" where
  "reach root s = {t. \<exists>q. path_ok q \<and> table_of root s q = Some t}"

text \<open>
  A range that may be filled: every page is mapped to a frame of the allocator that is not one of
  the tables, and different pages to different frames.
\<close>

definition data_range :: "pagemap_t \<Rightarrow> 'a pmm_scheme \<Rightarrow> addr \<Rightarrow> nat \<Rightarrow> bool" where
  "data_range root s virt n \<longleftrightarrow>
     (\<forall>i<n. frame_addr root s (virt + of_nat i) \<in> managed_frames s \<and>
        frame_addr root s (virt + of_nat i) + hhdm s \<notin> reach root s) \<and>
     (\<forall>i<n. \<forall>j<n. frame_addr root s (virt + of_nat i) = frame_addr root s (virt + of_nat j) \<longrightarrow>
        vpn (virt + of_nat i) = vpn (virt + of_nat j))"

lemma frame_addr_lookup:
  assumes "pmm_inv s" "frame_addr root s v \<in> managed_frames s"
  obtains e where "pt_lookup root s v = Some e" "frame_addr root s v = PTE_GET_ADDR e"
  using assms managed_frame(3) [OF assms] by (auto simp: frame_addr_def split: option.splits)

lemma page_mod: "v mod PAGE_SIZE = v AND mask 12" "unat (v mod PAGE_SIZE) = unat v mod 4096"
  for v :: u64
proof -
  show u: "unat (v mod PAGE_SIZE) = unat v mod 4096" by (simp add: PAGE_SIZE_def unat_mod_distrib)
  have "unat (v AND mask 12) = unat v mod 2 ^ 12" by (rule unat_and_mask)
  then show "v mod PAGE_SIZE = v AND mask 12" using u by (simp add: word_unat_eq_iff)
qed

text \<open>Moving inside a page.\<close>

lemma within_page:
  assumes "unat v mod 4096 + k < 4096"
  shows "vpn (v + of_nat k) = vpn v" and "(v + of_nat k) mod PAGE_SIZE = v mod PAGE_SIZE + of_nat k"
proof -
  define q r where "q = unat v div 4096" and "r = unat v mod 4096"
  have v: "unat v = 4096 * q + r" by (simp add: q_def r_def)
  have r: "r + k < 4096" and k: "k < 4096" using assms by (simp_all add: r_def)
  have "q < 2 ^ 52" using unat_lt64(1) [of v] v by simp
  then have lt: "unat v + k < 2 ^ 64" using v r by simp
  have u: "unat (v + of_nat k) = 4096 * q + (r + k)"
    using lt k v by (simp add: unat_add_lt unat_of_nat_lt)
  have d: "unat (drop_bit 12 x) = unat x div 4096" for x :: u64
    by (simp add: drop_bit_eq_div unat_div_distrib)
  have "drop_bit 12 (v + of_nat k) = drop_bit 12 v"
    using r by (simp only: word_unat_eq_iff d u v) simp
  then show "vpn (v + of_nat k) = vpn v" by (simp add: vpn_def)
  have "unat (v mod PAGE_SIZE + of_nat k) = r + k"
    using r k by (simp add: unat_add_lt unat_of_nat_lt page_mod(2) r_def)
  moreover have "unat ((v + of_nat k) mod PAGE_SIZE) = r + k"
    using r by (simp add: page_mod(2) u)
  ultimately show "(v + of_nat k) mod PAGE_SIZE = v mod PAGE_SIZE + of_nat k"
    by (simp add: word_unat_eq_iff)
qed

lemma phys_view_within:
  "unat v mod 4096 + k < 4096 \<Longrightarrow> phys_view root s (v + of_nat k) = phys_view root s v + of_nat k"
  using within_page [of v k] pt_lookup_cong [of "v + of_nat k" v root s]
  by (simp add: phys_view_def frame_addr_def algebra_simps)

lemma phys_view_page:
  assumes "unat v mod 4096 + n \<le> 4096"
  shows "region (phys_view root s v) n \<subseteq> region (frame_addr root s v + hhdm s) (2 ^ 12)"
proof
  fix x assume "x \<in> region (phys_view root s v) n"
  then obtain i where i: "i < n" "x = phys_view root s v + of_nat i" by (auto simp: region_def)
  have "v mod PAGE_SIZE = of_nat (unat v mod 4096)" by (simp flip: page_mod(2))
  then have "x = frame_addr root s v + hhdm s + of_nat (unat v mod 4096 + i)"
    using i(2) by (simp add: phys_view_def)
  moreover have "unat v mod 4096 + i < 2 ^ 12" using i(1) assms by simp
  ultimately show "x \<in> region (frame_addr root s v + hhdm s) (2 ^ 12)" unfolding region_def by blast
qed

lemma PTE_GET_ADDR_aligned: "page_aligned (PTE_GET_ADDR e)"
proof -
  have "PTE_GET_ADDR e = PTE_GET_ADDR e AND NOT (mask 12)"
    by (rule bit_word_eqI) (auto simp: PTE_GET_ADDR_def bit_simps PTE_ADDR_MASK_bits)
  then have "unat (PTE_GET_ADDR e) = unat (PTE_GET_ADDR e) div 2 ^ 12 * 2 ^ 12"
    using unat_and_not_mask [of "PTE_GET_ADDR e" 12] by simp
  then show ?thesis by (metis dvd_triv_right)
qed

section \<open>Writing data frames\<close>

lemma write_elsewhere:
  assumes inv: "pt_inv root s" and m: "\<And>t x. t \<in> reach root s \<Longrightarrow> x \<in> region t (2 ^ 12) \<Longrightarrow> m x = mem s x"
  shows "pt_inv root (s\<lparr>mem := m\<rparr>)" "\<And>v. pt_lookup root (s\<lparr>mem := m\<rparr>) v = pt_lookup root s v"
    "reach root (s\<lparr>mem := m\<rparr>) = reach root s"
proof -
  let ?R = "reach root s"
  have pm: "pmm_inv s" and hh: "hhdm_ok s" and tr: "tree (entry (mem s)) (hhdm s) root (tables s)"
    using inv by (auto simp: pt_inv_def)
  have trR: "tree (entry (mem s)) (hhdm s) root ?R" using tr by (auto simp: tree_def reach_def)
  have ent: "entry m t j = entry (mem s) t j" if "t \<in> ?R" "j < 512" for t j
  proof -
    have "page_aligned t" using that(1) pt_inv_table(3) [OF inv] by (auto simp: reach_def)
    then show ?thesis using m [OF that(1)] by (intro entry_outside [OF _ that(2)]) blast+
  qed
  have at: "table_at (entry m) (hhdm s) root q = table_of root s q" if "path_ok q" for q
    by (rule table_at_agree [OF trR ent that])
  show "reach root (s\<lparr>mem := m\<rparr>) = ?R" using at by (simp add: reach_def cong: conj_cong)
  have "tree (entry m) (hhdm s) root (tables s)" by (rule tree_cong [OF tr at])
  then show "pt_inv root (s\<lparr>mem := m\<rparr>)" using pm hh by (simp add: pt_inv_def)
  show "pt_lookup root (s\<lparr>mem := m\<rparr>) v = pt_lookup root s v" for v
  proof (cases "table_of root s (vpath v)")
    case None
    then show ?thesis using at [of "vpath v"] by (simp add: pt_lookup_def)
  next
    case (Some t)
    then have "t \<in> ?R" by (auto simp: reach_def intro: exI [of _ "vpath v"])
    then show ?thesis using at [of "vpath v"] Some ent [of t "pt_idx v"] by (simp add: pt_lookup_def)
  qed
qed

lemma write_data_frames:
  assumes inv: "pt_inv root s" and f: "\<And>f. f \<in> F \<Longrightarrow> f \<in> managed_frames s \<and> f + hhdm s \<notin> reach root s"
    and m: "\<And>x. (\<And>f. f \<in> F \<Longrightarrow> x \<notin> region (f + hhdm s) (2 ^ 12)) \<Longrightarrow> m x = mem s x"
  shows "pt_inv root (s\<lparr>mem := m\<rparr>)" "\<And>v. pt_lookup root (s\<lparr>mem := m\<rparr>) v = pt_lookup root s v"
    "reach root (s\<lparr>mem := m\<rparr>) = reach root s"
proof -
  have pm: "pmm_inv s" and hh: "hhdm_ok s" using inv by (auto simp: pt_inv_def)
  have keep: "m x = mem s x" if t: "t \<in> reach root s" and x: "x \<in> region t (2 ^ 12)" for t x
  proof (rule m)
    fix g assume g: "g \<in> F"
    have "page_aligned t" using t pt_inv_table(3) [OF inv] by (auto simp: reach_def)
    moreover have "t \<noteq> g + hhdm s" "g \<in> managed_frames s" using t f [OF g] by auto
    ultimately have "region t (2 ^ 12) \<inter> region (g + hhdm s) (2 ^ 12) = {}"
      using aligned_region_disjoint [OF _ frame_table(1) [OF pm hh]] by simp
    then show "x \<notin> region (g + hhdm s) (2 ^ 12)" using x by blast
  qed
  show "pt_inv root (s\<lparr>mem := m\<rparr>)" "\<And>v. pt_lookup root (s\<lparr>mem := m\<rparr>) v = pt_lookup root s v"
    "reach root (s\<lparr>mem := m\<rparr>) = reach root s"
    using write_elsewhere [OF inv keep] by simp_all
qed

lemma write_data_frame:
  assumes "pt_inv root s" "f \<in> managed_frames s" "f + hhdm s \<notin> reach root s"
    and "\<And>x. x \<notin> region (f + hhdm s) (2 ^ 12) \<Longrightarrow> m x = mem s x"
  shows "pt_inv root (s\<lparr>mem := m\<rparr>)" "\<And>v. pt_lookup root (s\<lparr>mem := m\<rparr>) v = pt_lookup root s v"
    "reach root (s\<lparr>mem := m\<rparr>) = reach root s"
  using write_data_frames [OF assms(1), of "{f}" m] assms(2-4) by simp_all

lemma views_mem:
  assumes "\<And>v. pt_lookup root (s\<lparr>mem := m\<rparr>) v = pt_lookup root s v" "reach root (s\<lparr>mem := m\<rparr>) = reach root s"
  shows "frame_addr root (s\<lparr>mem := m\<rparr>) v = frame_addr root s v"
    "phys_view root (s\<lparr>mem := m\<rparr>) v = phys_view root s v"
    "data_range root (s\<lparr>mem := m\<rparr>) virt n = data_range root s virt n"
  using assms by (simp_all add: frame_addr_def phys_view_def data_range_def)

text \<open>The bytes of a range are set to \<open>bs\<close> from position \<open>c\<close> on, and nothing else changes.\<close>

definition filled :: "pagemap_t \<Rightarrow> 'a pmm_scheme \<Rightarrow> addr \<Rightarrow> u8 list \<Rightarrow> nat \<Rightarrow> mem \<Rightarrow> bool" where
  "filled root s virt bs c m \<longleftrightarrow>
     (\<forall>i. c \<le> i \<and> i < length bs \<longrightarrow> m (phys_view root s (virt + of_nat i)) = bs ! i) \<and>
     (\<forall>x. x \<notin> (\<lambda>i. phys_view root s (virt + of_nat i)) ` {c..<length bs} \<longrightarrow> m x = mem s x)"

lemma chunk_at:
  assumes "unat c < unat len"
  shows "unat (chunk_at v len c) = min (4096 - unat v mod 4096) (unat len - unat c)"
    and "0 < unat (chunk_at v len c)" and "unat v mod 4096 + unat (chunk_at v len c) \<le> 4096"
    and "unat c + unat (chunk_at v len c) \<le> unat len"
proof -
  have off: "unat (v AND (PAGE_SIZE - 1)) = unat v mod 4096"
    unfolding page_mask using unat_and_mask [of v 12] by simp
  have "unat (PAGE_SIZE :: u64) = 4096" by (simp add: PAGE_SIZE_def)
  then have ch: "unat (PAGE_SIZE - (v AND (PAGE_SIZE - 1))) = 4096 - unat v mod 4096"
    using off by (subst unat_sub) (simp_all add: word_le_nat_alt less_imp_le)
  have rem: "unat (len - c) = unat len - unat c"
    using assms by (intro unat_sub) (simp add: word_le_nat_alt)
  show c: "unat (chunk_at v len c) = min (4096 - unat v mod 4096) (unat len - unat c)"
    by (simp add: chunk_at_def Let_def word_less_nat_alt ch rem min_def)
  show "0 < unat (chunk_at v len c)" using assms by (simp add: c)
  have "unat v mod 4096 < 4096" by simp
  then show "unat v mod 4096 + unat (chunk_at v len c) \<le> 4096" unfolding c by linarith
  show "unat c + unat (chunk_at v len c) \<le> unat len" unfolding c using assms by linarith
qed

lemma data_range_view:
  assumes inv: "pt_inv root s" and dr: "data_range root s virt n" and i: "i < n"
  shows "vmm_virt_to_phys root (virt + of_nat i) s =
      ret (frame_addr root s (virt + of_nat i) + (virt + of_nat i) mod PAGE_SIZE, s)"
    and "frame_addr root s (virt + of_nat i) + (virt + of_nat i) mod PAGE_SIZE \<noteq> 0"
    and "phys_view root s (virt + of_nat i) \<noteq> 0"
proof -
  let ?v = "virt + of_nat i"
  have pm: "pmm_inv s" and hh: "hhdm_ok s" using inv by (auto simp: pt_inv_def)
  have f: "frame_addr root s ?v \<in> managed_frames s" using dr i by (simp add: data_range_def)
  obtain e where e: "pt_lookup root s ?v = Some e" "frame_addr root s ?v = PTE_GET_ADDR e"
    using frame_addr_lookup [OF pm f] by blast
  then show "vmm_virt_to_phys root ?v s = ret (frame_addr root s ?v + ?v mod PAGE_SIZE, s)"
    using virt_to_phys_lookup [OF inv, of ?v] by simp
  note fr = managed_frame [OF pm f] frame_table [OF pm hh f]
  have off: "unat (?v mod PAGE_SIZE) < 4096" by (simp add: page_mod(2))
  have h: "unat (hhdm s) + 2 ^ 35 \<le> 2 ^ 64" using hh by (simp add: hhdm_ok_def)
  obtain q where q: "unat (frame_addr root s ?v) = 4096 * q" using fr(1) by auto
  then have "q < 2 ^ 23" using fr(2) by simp
  then have room: "unat (frame_addr root s ?v) + 4096 \<le> 2 ^ 35" using q by simp
  have u: "unat (frame_addr root s ?v + ?v mod PAGE_SIZE) =
      unat (frame_addr root s ?v) + unat (?v mod PAGE_SIZE)"
    using off room by (intro unat_add_lt) simp
  have nz: "0 < unat (frame_addr root s ?v)" using fr(3) by (simp add: unat_gt_0)
  show "frame_addr root s ?v + ?v mod PAGE_SIZE \<noteq> 0" using u nz by (metis add_is_0 less_numeral_extra(3) unat_0)
  have "unat (phys_view root s ?v) = unat (frame_addr root s ?v) + unat (?v mod PAGE_SIZE) + unat (hhdm s)"
    unfolding phys_view_def using u h off room by (subst unat_add_lt) simp_all
  then show "phys_view root s ?v \<noteq> 0" using nz by (metis add_is_0 less_numeral_extra(3) unat_0)
qed

lemma take_bit_48_eq:
  assumes "vpn v = vpn w" "v AND mask 12 = w AND mask 12"
  shows "take_bit 48 v = take_bit 48 w"
proof (rule bit_word_eqI)
  fix n
  have lo: "bit v n \<longleftrightarrow> bit w n" if "n < 12"
    using arg_cong [OF assms(2), of "\<lambda>x. bit x n"] that by (simp add: bit_simps)
  have hi: "bit v n \<longleftrightarrow> bit w n" if "12 \<le> n" "n < 48"
  proof -
    have "n - 12 < 36" using that by linarith
    then show ?thesis using arg_cong [OF assms(1), of "\<lambda>x. bit x (n - 12)"] that by (simp add: vpn_def bit_simps)
  qed
  show "bit (take_bit 48 v) n = bit (take_bit 48 w) n"
    using lo hi by (cases "n < 12") (auto simp: bit_simps)
qed

text \<open>Different addresses of the range are different bytes of memory.\<close>

lemma data_range_inj:
  assumes inv: "pt_inv root s" and dr: "data_range root s virt n" and ij: "i < n" "j < n" "n \<le> 2 ^ 48"
    and eq: "phys_view root s (virt + of_nat i) = phys_view root s (virt + of_nat j)"
  shows "i = j"
proof -
  let ?f = "\<lambda>k. frame_addr root s (virt + of_nat k)" and ?o = "\<lambda>k. unat (virt + of_nat k) mod 4096"
  have pm: "pmm_inv s" and hh: "hhdm_ok s" using inv by (auto simp: pt_inv_def)
  have al: "page_aligned (?f k)" "unat (?f k) < 2 ^ 35" if "k < n" for k
    using dr that managed_frame [OF pm, of "?f k"] by (auto simp: data_range_def)
  have u: "unat (?f k + (virt + of_nat k) mod PAGE_SIZE) = unat (?f k) + ?o k" if "k < n" for k
  proof -
    have "unat ((virt + of_nat k) mod PAGE_SIZE) = ?o k" by (rule page_mod(2))
    moreover have "?o k < 4096" by simp
    ultimately show ?thesis using al(2) [OF that] by (subst unat_add_lt) simp_all
  qed
  have "?f i + (virt + of_nat i) mod PAGE_SIZE = ?f j + (virt + of_nat j) mod PAGE_SIZE"
    using eq by (simp add: phys_view_def)
  then have sum: "unat (?f i) + ?o i = unat (?f j) + ?o j" using u [OF ij(1)] u [OF ij(2)] by simp
  obtain q r where qr: "unat (?f i) = 4096 * q" "unat (?f j) = 4096 * r"
    using al(1) [OF ij(1)] al(1) [OF ij(2)] by (auto elim!: dvdE)
  have "q = (4096 * q + ?o i) div 4096" by simp
  also have "\<dots> = (4096 * r + ?o j) div 4096" using sum qr by simp
  also have "\<dots> = r" by simp
  finally have "?f i = ?f j" "?o i = ?o j" using sum qr by (simp_all add: word_unat_eq_iff)
  then have "vpn (virt + of_nat i) = vpn (virt + of_nat j)" using dr ij(1,2) unfolding data_range_def by blast
  moreover have "(virt + of_nat i) AND mask 12 = (virt + of_nat j) AND mask 12"
    using \<open>?o i = ?o j\<close> page_mod [of "virt + of_nat i"] page_mod [of "virt + of_nat j"]
    by (metis word_unat_eq_iff)
  ultimately have tb: "take_bit 48 (virt + of_nat i) = take_bit 48 (virt + of_nat j)"
    by (rule take_bit_48_eq)
  have u48: "unat (take_bit 48 (virt + of_nat k)) = (unat virt + k) mod 2 ^ 48" if "k < n" for k
  proof -
    have "unat (virt + of_nat k) = (unat virt + k) mod 2 ^ 64"
      using that ij(3) by (simp add: unat_word_ariths unat_of_nat_lt)
    moreover have "((unat virt + k) mod 2 ^ 64) mod 2 ^ 48 = (unat virt + k) mod 2 ^ 48"
      by (rule mod_mod_cancel) (simp add: le_imp_power_dvd)
    moreover have "unat (take_bit 48 (virt + of_nat k)) = unat (virt + of_nat k) mod 2 ^ 48"
      by (subst unsigned_take_bit_eq) (simp only: take_bit_eq_mod)
    ultimately show ?thesis by simp
  qed
  have "(unat virt + i) mod 2 ^ 48 = (unat virt + j) mod 2 ^ 48"
    using u48 [OF ij(1)] u48 [OF ij(2)] unfolding tb by simp
  then show ?thesis by (rule mod_add_cancel_nat) (use ij in linarith)+
qed

lemma fill_chunk:
  assumes inv: "pt_inv root s" and dr: "data_range root s virt (length bs)"
    and len: "length bs \<le> 2 ^ 48" and c: "c < length bs"
    and n: "unat (virt + of_nat c) mod 4096 + n \<le> 4096" "c + n \<le> length bs"
  defines "m \<equiv> write_block (mem s) (phys_view root s (virt + of_nat c)) (take n (drop c bs))"
  shows "pt_inv root (s\<lparr>mem := m\<rparr>)" "\<And>v. pt_lookup root (s\<lparr>mem := m\<rparr>) v = pt_lookup root s v"
    "reach root (s\<lparr>mem := m\<rparr>) = reach root s"
    and "filled root (s\<lparr>mem := m\<rparr>) virt bs (c + n) m' \<Longrightarrow> filled root s virt bs c m'"
proof -
  let ?v = "virt + of_nat c" and ?pv = "phys_view root s"
  let ?f = "frame_addr root s ?v"
  have f: "?f \<in> managed_frames s" "?f + hhdm s \<notin> reach root s" using dr c by (auto simp: data_range_def)
  have bl: "length (take n (drop c bs)) = n" using n(2) by simp
  have n64: "n \<le> 2 ^ 64" using n(2) len by simp
  have out: "m x = mem s x" if "x \<notin> region (?pv ?v) n" for x
    unfolding m_def using that n64 bl by (intro write_block_outside) simp_all
  have sub: "region (?pv ?v) n \<subseteq> region (?f + hhdm s) (2 ^ 12)" by (rule phys_view_page [OF n(1)])
  have out': "m x = mem s x" if "x \<notin> region (?f + hhdm s) (2 ^ 12)" for x
    using out that sub by blast
  note wf = write_data_frame [OF inv f out']
  show "pt_inv root (s\<lparr>mem := m\<rparr>)" "\<And>v. pt_lookup root (s\<lparr>mem := m\<rparr>) v = pt_lookup root s v"
    "reach root (s\<lparr>mem := m\<rparr>) = reach root s"
    using wf by blast+
  have view: "phys_view root (s\<lparr>mem := m\<rparr>) v = ?pv v" for v
    using views_mem(2) [OF wf(2,3)] .
  have in_page: "?pv (virt + of_nat (c + k)) = ?pv ?v + of_nat k" if "k < n" for k
    using phys_view_within [of ?v k root s] that n(1) by (simp add: add.assoc)
  assume fl: "filled root (s\<lparr>mem := m\<rparr>) virt bs (c + n) m'"
  show "filled root s virt bs c m'"
    unfolding filled_def
  proof (intro conjI allI impI)
    fix i assume i: "c \<le> i \<and> i < length bs"
    show "m' (?pv (virt + of_nat i)) = bs ! i"
    proof (cases "c + n \<le> i")
      case True
      then show ?thesis using fl i by (simp add: filled_def view)
    next
      case False
      then obtain k where k: "i = c + k" "k < n" using i by (metis le_Suc_ex nat_add_left_cancel_less not_le)
      have "?pv (virt + of_nat i) \<notin> (\<lambda>j. ?pv (virt + of_nat j)) ` {c + n..<length bs}"
      proof
        assume "?pv (virt + of_nat i) \<in> (\<lambda>j. ?pv (virt + of_nat j)) ` {c + n..<length bs}"
        then obtain j where j: "c + n \<le> j" "j < length bs" "?pv (virt + of_nat i) = ?pv (virt + of_nat j)"
          by auto
        show False using data_range_inj [OF inv dr _ _ len, of i j] i j k by simp
      qed
      then have "m' (?pv (virt + of_nat i)) = m (?pv (virt + of_nat i))" using fl by (simp add: filled_def view)
      also have "\<dots> = take n (drop c bs) ! k"
        unfolding k(1) in_page [OF k(2)] m_def using k(2) n(2) len
        by (simp add: write_block_def unat_of_nat_lt)
      also have "\<dots> = bs ! i" using k n(2) by simp
      finally show ?thesis .
    qed
  next
    fix x assume x: "x \<notin> (\<lambda>i. ?pv (virt + of_nat i)) ` {c..<length bs}"
    then have "x \<notin> (\<lambda>i. ?pv (virt + of_nat i)) ` {c + n..<length bs}" by auto
    then have "m' x = m x" using fl by (simp add: filled_def view)
    moreover have "x \<notin> region (?pv ?v) n"
    proof
      assume "x \<in> region (?pv ?v) n"
      then obtain k where k: "k < n" "x = ?pv ?v + of_nat k" by (auto simp: region_def)
      then have "x = ?pv (virt + of_nat (c + k))" using in_page by simp
      then show False using x k(1) n(2) by (auto intro: image_eqI [of _ _ "c + k"])
    qed
    ultimately show "m' x = mem s x" using out by simp
  qed
qed

section \<open>The two loops\<close>

lemma filled_end: "filled root s virt bs c m \<longleftrightarrow> m = mem s" if "length bs \<le> c"
  using that by (auto simp: filled_def)

lemma map_zero_loop_fills:
  assumes "pt_inv root s" "data_range root s virt (unat len)" "unat len \<le> 2 ^ 48" "unat c \<le> unat len"
  shows "\<exists>m. map_zero_loop root virt len c s = ret (s\<lparr>mem := m\<rparr>) \<and>
    filled root s virt (replicate (unat len) 0) (unat c) m"
  using assms
proof (induction "unat len - unat c" arbitrary: c s rule: less_induct)
  case less
  let ?bs = "replicate (unat len) (0 :: u8)" and ?v = "virt + c"
  show ?case
  proof (cases "unat c < unat len")
    case False
    then have "filled root s virt ?bs (unat c) (mem s)" by (simp add: filled_end)
    then show ?thesis
      using False by (subst map_zero_loop.simps) (auto simp: word_less_nat_alt intro: exI [of _ "mem s"])
  next
    case True
    define n where "n = unat (chunk_at ?v len c)"
    note ch = chunk_at [OF True, of ?v, folded n_def]
    have vc: "?v = virt + of_nat (unat c)" by simp
    have c': "unat (c + chunk_at ?v len c) = unat c + n"
      using ch(1) True unat_lt64(1) [of len] by (simp add: n_def unat_add_lt)
    define m where "m = write_block (mem s) (phys_view root s ?v) (take n (drop (unat c) ?bs))"
    have n': "unat (virt + of_nat (unat c)) mod 4096 + n \<le> 4096" "unat c + n \<le> length ?bs"
      using ch(3,4) by simp_all
    note fill = fill_chunk [where bs = ?bs and c = "unat c" and n = n, OF less.prems(1) _ _ _ n',
        folded vc, folded m_def]
    have dr: "data_range root s virt (length ?bs)" "length ?bs \<le> 2 ^ 48" "unat c < length ?bs"
      using less.prems True by simp_all
    note view = data_range_view [OF less.prems(1,2) True, folded vc]
    have bytes: "take n (drop (unat c) ?bs) = replicate n 0" using ch(4) by (simp add: min_def)
    have "memset (mem s) (frame_addr root s ?v + ?v mod PAGE_SIZE + hhdm s) 0 (chunk_at ?v len c) = m"
      unfolding m_def bytes by (simp add: memset_write_block phys_view_def n_def)
    then have step: "map_zero_loop root virt len c s =
        map_zero_loop root virt len (c + chunk_at ?v len c) (s\<lparr>mem := m\<rparr>)"
      using True view(1,2) by (subst map_zero_loop.simps) (simp add: Let_def word_less_nat_alt)
    have "\<exists>m'. map_zero_loop root virt len (c + chunk_at ?v len c) (s\<lparr>mem := m\<rparr>) = ret (s\<lparr>mem := m, mem := m'\<rparr>) \<and>
        filled root (s\<lparr>mem := m\<rparr>) virt ?bs (unat (c + chunk_at ?v len c)) m'"
    proof (rule less.hyps)
      show "unat len - unat (c + chunk_at ?v len c) < unat len - unat c" using ch(2) True by (simp add: c' n_def)
      show "pt_inv root (s\<lparr>mem := m\<rparr>)" by (rule fill(1) [OF dr])
      show "data_range root (s\<lparr>mem := m\<rparr>) virt (unat len)"
        using views_mem(3) [OF fill(2,3) [OF dr]] less.prems(2) by simp
      show "unat (c + chunk_at ?v len c) \<le> unat len" using n' by (simp add: c')
    qed (rule less.prems(3))
    then show ?thesis
      unfolding step c' using fill(4) [OF dr] by auto
  qed
qed

text \<open>The source of a copy: readable without wrapping, and apart from the frames written.\<close>

definition source_ok :: "pagemap_t \<Rightarrow> 'a pmm_scheme \<Rightarrow> addr \<Rightarrow> addr \<Rightarrow> nat \<Rightarrow> bool" where
  "source_ok root s virt src n \<longleftrightarrow> src \<noteq> 0 \<and> unat src + n \<le> 2 ^ 64 \<and>
     (\<forall>i<n. region src n \<inter> region (frame_addr root s (virt + of_nat i) + hhdm s) (2 ^ 12) = {})"

lemma map_copy_loop_fills:
  assumes "pt_inv root s" "data_range root s virt (unat len)" "unat len \<le> 2 ^ 48" "unat c \<le> unat len"
    "source_ok root s virt src (unat len)" "bs = read_block (mem s) src (unat len)"
  shows "\<exists>m. map_copy_loop root virt src len c s = ret (s\<lparr>mem := m\<rparr>) \<and>
    filled root s virt bs (unat c) m"
  using assms
proof (induction "unat len - unat c" arbitrary: c s rule: less_induct)
  case less
  let ?v = "virt + c"
  have lbs: "length bs = unat len" using less.prems(6) by simp
  show ?case
  proof (cases "unat c < unat len")
    case False
    then have "filled root s virt bs (unat c) (mem s)" by (simp add: filled_end lbs)
    then show ?thesis
      using False by (subst map_copy_loop.simps) (auto simp: word_less_nat_alt intro: exI [of _ "mem s"])
  next
    case True
    define n where "n = unat (chunk_at ?v len c)"
    note ch = chunk_at [OF True, of ?v, folded n_def]
    have vc: "?v = virt + of_nat (unat c)" by simp
    have c': "unat (c + chunk_at ?v len c) = unat c + n"
      using ch(1) True unat_lt64(1) [of len] by (simp add: n_def unat_add_lt)
    define m where "m = write_block (mem s) (phys_view root s ?v) (take n (drop (unat c) bs))"
    have n': "unat (virt + of_nat (unat c)) mod 4096 + n \<le> 4096" "unat c + n \<le> length bs"
      using ch(3,4) by (simp_all add: lbs)
    note fill = fill_chunk [where bs = bs and c = "unat c" and n = n, OF less.prems(1) _ _ _ n',
        folded vc, folded m_def]
    have dr: "data_range root s virt (length bs)" "length bs \<le> 2 ^ 48" "unat c < length bs"
      using less.prems True by (simp_all add: lbs)
    note view = data_range_view [OF less.prems(1,2) True, folded vc]
    have src: "src \<noteq> 0" "unat src + unat len \<le> 2 ^ 64"
      "region src (unat len) \<inter> region (frame_addr root s ?v + hhdm s) (2 ^ 12) = {}"
      using less.prems(5) True unfolding source_ok_def vc by blast+
    have part: "region (src + c) n \<subseteq> region src (unat len)"
    proof
      fix x assume "x \<in> region (src + c) n"
      then obtain i where i: "i < n" "x = src + of_nat (unat c + i)" by (auto simp: region_def add.assoc)
      then have "unat c + i < unat len" using ch(4) by linarith
      with i(2) show "x \<in> region src (unat len)" unfolding region_def by blast
    qed
    have "unat (src + c) = unat src + unat c" using src(2) True by (simp add: unat_add_lt)
    then have nz: "src + c \<noteq> 0" using src(1) by (metis add_is_0 unat_eq_zero)
    have "region (src + c) n \<inter> region (phys_view root s ?v) n = {}"
      using part src(3) phys_view_page [of ?v n root s] ch(3) by blast
    then have cp: "memcpy (mem s) (phys_view root s ?v) (src + c) (chunk_at ?v len c) =
        ret (phys_view root s ?v, write_block (mem s) (phys_view root s ?v) (read_block (mem s) (src + c) n))"
      using memcpy_disjoint [of "phys_view root s ?v" "src + c" "chunk_at ?v len c"] view(3) nz ch(2)
      by (simp add: n_def word_less_nat_alt)
    have bytes: "take n (drop (unat c) bs) = read_block (mem s) (src + c) n"
      using ch(4) by (intro nth_equalityI) (simp_all add: less.prems(6) add.assoc)
    have step: "map_copy_loop root virt src len c s =
        map_copy_loop root virt src len (c + chunk_at ?v len c) (s\<lparr>mem := m\<rparr>)"
      using True view(1,2) cp
      by (subst map_copy_loop.simps) (simp add: Let_def word_less_nat_alt phys_view_def m_def bytes)
    have fr: "frame_addr root (s\<lparr>mem := m\<rparr>) w = frame_addr root s w" for w
      using views_mem(1) [OF fill(2,3) [OF dr]] .
    have "m x = mem s x" if "x \<in> region src (unat len)" for x
    proof -
      have "x \<notin> region (phys_view root s ?v) n"
        using that src(3) phys_view_page [of ?v n root s] ch(3) by blast
      then show ?thesis using ch(4) unat_lt64(2) [of len]
        unfolding m_def bytes by (intro write_block_outside) auto
    qed
    then have bs: "bs = read_block m src (unat len)"
      unfolding less.prems(6) by (intro read_block_cong) simp
    have "\<exists>m'. map_copy_loop root virt src len (c + chunk_at ?v len c) (s\<lparr>mem := m\<rparr>) = ret (s\<lparr>mem := m, mem := m'\<rparr>) \<and>
        filled root (s\<lparr>mem := m\<rparr>) virt bs (unat (c + chunk_at ?v len c)) m'"
    proof (rule less.hyps)
      show "unat len - unat (c + chunk_at ?v len c) < unat len - unat c" using ch(2) True by (simp add: c' n_def)
      show "pt_inv root (s\<lparr>mem := m\<rparr>)" by (rule fill(1) [OF dr])
      show "data_range root (s\<lparr>mem := m\<rparr>) virt (unat len)"
        using views_mem(3) [OF fill(2,3) [OF dr]] less.prems(2) by simp
      show "unat (c + chunk_at ?v len c) \<le> unat len" using n' by (simp add: c' lbs)
      show "source_ok root (s\<lparr>mem := m\<rparr>) virt src (unat len)"
        using less.prems(5) by (simp add: source_ok_def fr)
      show "bs = read_block (mem (s\<lparr>mem := m\<rparr>)) src (unat len)" using bs by simp
    qed (rule less.prems(3))
    then show ?thesis
      unfolding step c' using fill(4) [OF dr] by auto
  qed
qed

section \<open>What the copy operations guarantee\<close>

lemma views_vmm_lock [simp]:
  "frame_addr root (s\<lparr>vmm_lock := l\<rparr>) = frame_addr root s" "phys_view root (s\<lparr>vmm_lock := l\<rparr>) = phys_view root s"
  "reach root (s\<lparr>vmm_lock := l\<rparr>) = reach root s"
  "data_range root (s\<lparr>vmm_lock := l\<rparr>) virt n = data_range root s virt n"
  "source_ok root (s\<lparr>vmm_lock := l\<rparr>) virt src n = source_ok root s virt src n"
  "filled root (s\<lparr>vmm_lock := l\<rparr>) virt bs c m = filled root s virt bs c m"
  by (simp_all add: frame_addr_def phys_view_def reach_def data_range_def source_ok_def filled_def fun_eq_iff)

lemma map_copy_fills:
  assumes "vmm_inv root s" "data_range root s virt (unat len)" "unat len \<le> 2 ^ 48"
    "source_ok root s virt src (unat len)"
  shows "\<exists>m. vmm_map_copy root virt src len s = ret (s\<lparr>mem := m, vmm_lock := unlocked\<rparr>) \<and>
    (\<forall>i<unat len. m (phys_view root s (virt + of_nat i)) = mem s (src + of_nat i)) \<and>
    (\<forall>x. x \<notin> (\<lambda>i. phys_view root s (virt + of_nat i)) ` {..<unat len} \<longrightarrow> m x = mem s x)"
proof -
  let ?s = "s\<lparr>vmm_lock := (vmm_lock s)\<lparr>latch := True, func := Some ''vmm_map_copy''\<rparr>\<rparr>"
  have "pt_inv root ?s" "\<not> latch (vmm_lock s)" using assms(1) by (auto simp: vmm_inv_def)
  from map_copy_loop_fills [of root ?s virt len 0 src, OF this(1) _ assms(3) _ _ refl] this assms(2,4)
  obtain m where m: "map_copy_loop root virt src len 0 ?s = ret (?s\<lparr>mem := m\<rparr>)"
    "filled root s virt (read_block (mem s) src (unat len)) 0 m"
    by auto
  have "vmm_map_copy root virt src len s = ret (s\<lparr>mem := m, vmm_lock := unlocked\<rparr>)"
    using m(1) \<open>\<not> latch (vmm_lock s)\<close> by (simp add: vmm_map_copy_def)
  moreover have "m (phys_view root s (virt + of_nat i)) = mem s (src + of_nat i)" if "i < unat len" for i
    using m(2) that by (simp add: filled_def)
  moreover have "m x = mem s x"
    if "x \<notin> (\<lambda>i. phys_view root s (virt + of_nat i)) ` {..<unat len}" for x
    using m(2) that by (simp add: filled_def atLeast0LessThan)
  ultimately show ?thesis by blast
qed

text \<open>
  C3. \<open>vmm_map_copy\<close> into a range whose pages are mapped to distinct data frames returns, and
  afterwards the byte behind every virtual address of the range, found through the page tables,
  is the corresponding source byte, wherever the range crosses page boundaries; every other byte
  of memory is unchanged and the lock is free again.
\<close>

theorem vmm_map_copy_correct:
  assumes "vmm_inv root s" "data_range root s virt (unat len)" "unat len \<le> 2 ^ 48"
    "source_ok root s virt src (unat len)"
  shows "\<exists>m. vmm_map_copy root virt src len s = ret (s\<lparr>mem := m, vmm_lock := unlocked\<rparr>) \<and>
    (\<forall>i<unat len. m (phys_view root s (virt + of_nat i)) = mem s (src + of_nat i)) \<and>
    (\<forall>x. x \<notin> (\<lambda>i. phys_view root s (virt + of_nat i)) ` {..<unat len} \<longrightarrow> m x = mem s x)"
  using assms by (rule map_copy_fills)

lemma map_zero_fills:
  assumes "vmm_inv root s" "data_range root s virt (unat len)" "unat len \<le> 2 ^ 48"
  shows "\<exists>m. vmm_map_zero root virt len s = ret (s\<lparr>mem := m, vmm_lock := unlocked\<rparr>) \<and>
    (\<forall>i<unat len. m (phys_view root s (virt + of_nat i)) = 0) \<and>
    (\<forall>x. x \<notin> (\<lambda>i. phys_view root s (virt + of_nat i)) ` {..<unat len} \<longrightarrow> m x = mem s x)"
proof -
  let ?s = "s\<lparr>vmm_lock := (vmm_lock s)\<lparr>latch := True, func := Some ''vmm_map_zero''\<rparr>\<rparr>"
  have "pt_inv root ?s" "\<not> latch (vmm_lock s)" using assms(1) by (auto simp: vmm_inv_def)
  from map_zero_loop_fills [of root ?s virt len 0, OF this(1) _ assms(3)] this assms(2)
  obtain m where m: "map_zero_loop root virt len 0 ?s = ret (?s\<lparr>mem := m\<rparr>)"
    "filled root s virt (replicate (unat len) 0) 0 m"
    by auto
  have "vmm_map_zero root virt len s = ret (s\<lparr>mem := m, vmm_lock := unlocked\<rparr>)"
    using m(1) \<open>\<not> latch (vmm_lock s)\<close> by (simp add: vmm_map_zero_def)
  moreover have "m (phys_view root s (virt + of_nat i)) = 0" if "i < unat len" for i
    using m(2) that by (simp add: filled_def)
  moreover have "m x = mem s x"
    if "x \<notin> (\<lambda>i. phys_view root s (virt + of_nat i)) ` {..<unat len}" for x
    using m(2) that by (simp add: filled_def atLeast0LessThan)
  ultimately show ?thesis by blast
qed

text \<open>
  \<open>vmm_map_zero\<close> likewise sets exactly the bytes behind the range to zero.
\<close>

theorem vmm_map_zero_correct:
  assumes "vmm_inv root s" "data_range root s virt (unat len)" "unat len \<le> 2 ^ 48"
  shows "\<exists>m. vmm_map_zero root virt len s = ret (s\<lparr>mem := m, vmm_lock := unlocked\<rparr>) \<and>
    (\<forall>i<unat len. m (phys_view root s (virt + of_nat i)) = 0) \<and>
    (\<forall>x. x \<notin> (\<lambda>i. phys_view root s (virt + of_nat i)) ` {..<unat len} \<longrightarrow> m x = mem s x)"
  using assms by (rule map_zero_fills)

section \<open>A concrete address space\<close>

text \<open>
  Eight frames: frame 1 holds an empty top-level table, frame 2 is in use as data, frames 3 to 7
  are free.
\<close>

definition vmm_example :: vmm where
  "vmm_example = \<lparr>if_flag = True, sync_depth = 0, sync_was_enabled = False,
     mem = (\<lambda>_. 0), hhdm = 0xFFFF800000000000, bitmap = (\<lambda>i. if i = 0 then 7 else 0xFF),
     highest_page = 7, used_pages = 0, free_pages = 5, total_ram_pages = 5, pmm_lock = unlocked,
     vmm_lock = unlocked, kernel_pagemap = 0xFFFF800000001000, cr3 = 0x1000, isr_callbacks = (\<lambda>_. None)\<rparr>"

abbreviation "root_example \<equiv> 0xFFFF800000001000 :: pagemap_t"

lemma word_le_7: "(i :: u64) \<le> 7 \<longleftrightarrow> i \<in> {0, 1, 2, 3, 4, 5, 6, 7}"
proof -
  have "unat i \<le> 7 \<longleftrightarrow> unat i \<in> {0, 1, 2, 3, 4, 5, 6, 7}" by auto
  then show ?thesis by (simp add: word_le_nat_alt word_unat_eq_iff)
qed

lemma free_set_vmm_example: "free_set vmm_example = {3, 4, 5, 6, 7}"
proof -
  let ?bm = "\<lambda>i :: u64. if i = 0 then 7 else 0xFF :: u8"
  have "BITMAP_GET ?bm 0" "BITMAP_GET ?bm 1" "BITMAP_GET ?bm 2" "\<not> BITMAP_GET ?bm 3"
    "\<not> BITMAP_GET ?bm 4" "\<not> BITMAP_GET ?bm 5" "\<not> BITMAP_GET ?bm 6" "\<not> BITMAP_GET ?bm 7"
    by (simp_all add: BITMAP_GET_def)
  then show ?thesis
    unfolding free_set_def vmm_example_def pmm.simps word_le_7 by blast
qed

lemma pmm_inv_vmm_example: "pmm_inv vmm_example"
  using free_set_vmm_example
  by (simp add: pmm_inv_def) (simp add: vmm_example_def PMM_BITMAP_SIZE_def irq_inv_def)

lemma free_frames_vmm_example: "free_frames vmm_example = {0x3000, 0x4000, 0x5000, 0x6000, 0x7000}"
  by (simp add: free_frames_def free_set_vmm_example PAGE_SIZE_def)

lemma managed_vmm_example: "0x1000 \<in> managed_frames vmm_example" "0x2000 \<in> managed_frames vmm_example"
proof -
  have "highest_page vmm_example = 7" by (simp add: vmm_example_def)
  then show "0x1000 \<in> managed_frames vmm_example" "0x2000 \<in> managed_frames vmm_example"
    by (simp_all add: managed_frames_iff [OF pmm_inv_vmm_example] PAGE_SIZE_def)
qed

lemma table_of_vmm_example: "table_of root vmm_example p = (if p = [] then Some root else None)"
proof -
  have "entry (mem vmm_example) t i = 0" for t i
    by (simp add: entry_def vmm_example_def load64_zero)
  then have "child (entry (mem vmm_example)) (hhdm vmm_example) t i = None" for t i
    by (simp add: child_def)
  then show ?thesis by (cases p) auto
qed

lemma vmm_inv_example: "vmm_inv root_example vmm_example"
proof -
  have h: "hhdm vmm_example = 0xFFFF800000000000" "vmm_lock vmm_example = unlocked"
    by (simp_all add: vmm_example_def)
  have "0x1000 \<in> managed_frames vmm_example - free_frames vmm_example"
    using managed_vmm_example by (simp add: free_frames_vmm_example)
  then have "0x1000 + hhdm vmm_example \<in> tables vmm_example" unfolding tables_def by (rule imageI)
  then have "root_example \<in> tables vmm_example" by (simp add: h(1))
  then have "tree (entry (mem vmm_example)) (hhdm vmm_example) root_example (tables vmm_example)"
    by (intro treeI) (simp_all add: table_of_vmm_example split: if_splits)
  moreover have "hhdm_ok vmm_example" by (simp add: hhdm_ok_def h(1))
  ultimately show ?thesis
    using pmm_inv_vmm_example h(2) by (simp add: vmm_inv_def pt_inv_def)
qed

lemma card_free_vmm_example: "card (free_frames vmm_example) = 5"
  by (simp add: free_frames_vmm_example)

theorem vmm_map_page_correct_witness:
  "\<exists>s'. vmm_map_page root_example 0x400000 0x2000 PTE_WRITABLE vmm_example = ret (True, s') \<and>
    pt_lookup root_example s' 0x400000 = Some (leaf_entry 0x2000 PTE_WRITABLE)"
  using vmm_map_page_correct [OF vmm_inv_example, of "0x400000" "0x2000" PTE_WRITABLE] card_free_vmm_example
  by auto


lemma lookup_vmm_example: "pt_lookup root vmm_example v = None"
  by (simp only: pt_lookup_def table_of_vmm_example) (simp add: vpath_def)

theorem vmm_map_unmap_roundtrip_witness:
  "\<exists>s1 s2. vmm_map_page root_example 0x400000 0x2000 PTE_WRITABLE vmm_example = ret (True, s1) \<and>
    vmm_unmap_page root_example 0x400000 s1 = ret (True, s2) \<and>
    pt_lookup root_example s2 = pt_lookup root_example vmm_example"
  using vmm_map_unmap_roundtrip [OF vmm_inv_example, of "0x400000" "0x2000" PTE_WRITABLE]
  by (auto simp: PAGE_SIZE_def card_free_vmm_example lookup_vmm_example)

text \<open>The same address space with page \<open>0x400000\<close> mapped to the data frame.\<close>

lemma mapped_example:
  obtains s where "vmm_map_page root_example 0x400000 0x2000 PTE_WRITABLE vmm_example = ret (True, s)"
    "maps root_example 0x400000 (leaf_entry 0x2000 PTE_WRITABLE) vmm_example s"
  using map_page_cases [OF vmm_inv_example, of "0x400000" "0x2000" PTE_WRITABLE] card_free_vmm_example by auto

lemma mapped_example_data:
  assumes "maps root_example 0x400000 (leaf_entry 0x2000 PTE_WRITABLE) vmm_example s"
  shows "data_range root_example s 0x400000 16"
    and "\<And>i. i < 16 \<Longrightarrow> frame_addr root_example s (0x400000 + of_nat i) = 0x2000"
    and "hhdm s = 0xFFFF800000000000"
proof -
  have same: "vpn (0x400000 + of_nat i) = vpn 0x400000" if "i < 16" for i
    using within_page(1) [of "0x400000" i] that by simp
  have "PTE_GET_ADDR (leaf_entry 0x2000 PTE_WRITABLE) = 0x2000"
    by (simp add: leaf_entry_def PTE_GET_ADDR_def PTE_ADDR_MASK_def PTE_WRITABLE_def PTE_PRESENT_def PAGE_SIZE_def)
  then show fr: "frame_addr root_example s (0x400000 + of_nat i) = 0x2000" if "i < 16" for i
    using assms same [OF that] by (simp add: maps_def frame_addr_def)
  show h: "hhdm s = 0xFFFF800000000000" using assms by (simp add: maps_def vmm_example_def)
  have reach: "t = root_example" if "path_ok q" "table_of root_example vmm_example q = Some t" for q t
    using that(2) by (simp add: table_of_vmm_example split: if_splits)
  have he: "hhdm vmm_example = 0xFFFF800000000000" by (simp add: vmm_example_def)
  have "0x2000 + hhdm vmm_example \<notin> footprint root_example vmm_example"
  proof
    assume "0x2000 + hhdm vmm_example \<in> footprint root_example vmm_example"
    then consider "0x2000 + hhdm vmm_example = root_example" | "0x2000 \<in> free_frames vmm_example"
      unfolding footprint_def by (auto dest: reach)
    then show False by cases (simp_all add: he free_frames_vmm_example)
  qed
  moreover have "reach root_example s \<subseteq> footprint root_example s" by (auto simp: reach_def footprint_def)
  moreover have "footprint root_example s \<subseteq> footprint root_example vmm_example" "hhdm s = hhdm vmm_example"
    using assms by (simp_all add: maps_def)
  ultimately have "0x2000 + hhdm s \<notin> reach root_example s" by auto
  moreover have "0x2000 \<in> managed_frames s" using assms managed_vmm_example(2) by (simp add: maps_def)
  ultimately show "data_range root_example s 0x400000 16"
    using fr same by (simp add: data_range_def)
qed

theorem vmm_map_translate_witness:
  "\<exists>s. vmm_map_page root_example 0x400000 0x2000 PTE_WRITABLE vmm_example = ret (True, s) \<and>
    vmm_virt_to_phys root_example 0x400123 s = ret (0x2123, s)"
proof -
  obtain s where s: "vmm_map_page root_example 0x400000 0x2000 PTE_WRITABLE vmm_example = ret (True, s)"
    using mapped_example by blast
  have "vpn 0x400123 = vpn 0x400000" using within_page(1) [of "0x400000" "0x123"] by simp
  then show ?thesis
    using vmm_map_translate [OF vmm_inv_example s, of "0x400123"] s
    by (simp add: PTE_WRITABLE_def PTE_ADDR_MASK_def PAGE_SIZE_def)
qed

theorem vmm_map_zero_correct_witness:
  "\<exists>(s :: vmm) m. vmm_map_zero root_example 0x400000 16 s = ret (s\<lparr>mem := m, vmm_lock := unlocked\<rparr>) \<and>
    (\<forall>i<16. m (0xFFFF800000002000 + of_nat i) = 0)"
proof -
  obtain s where s: "maps root_example 0x400000 (leaf_entry 0x2000 PTE_WRITABLE) vmm_example s"
    using mapped_example by blast
  note d = mapped_example_data [OF s]
  have inv: "vmm_inv root_example s" using s by (simp add: maps_def)
  have "phys_view root_example s (0x400000 + of_nat i) = 0xFFFF800000002000 + of_nat i" if "i < 16" for i
    using d(2) [OF that] d(3) within_page(2) [of "0x400000" i] that by (simp add: phys_view_def PAGE_SIZE_def)
  moreover obtain m where "vmm_map_zero root_example 0x400000 16 s = ret (s\<lparr>mem := m, vmm_lock := unlocked\<rparr>)"
    "\<forall>i<16. m (phys_view root_example s (0x400000 + of_nat i)) = 0"
    using vmm_map_zero_correct [OF inv, of "0x400000" 16] d(1) by auto
  ultimately show ?thesis by (intro exI [of _ s] exI [of _ m]) simp
qed

theorem vmm_map_copy_correct_witness:
  "\<exists>(s :: vmm) m. vmm_map_copy root_example 0x400000 0x1000 16 s = ret (s\<lparr>mem := m, vmm_lock := unlocked\<rparr>) \<and>
    (\<forall>i<16. m (phys_view root_example s (0x400000 + of_nat i)) = mem s (0x1000 + of_nat i))"
proof -
  obtain s where s: "maps root_example 0x400000 (leaf_entry 0x2000 PTE_WRITABLE) vmm_example s"
    using mapped_example by blast
  note d = mapped_example_data [OF s]
  have inv: "vmm_inv root_example s" using s by (simp add: maps_def)
  have "region 0x1000 16 \<inter> region 0xFFFF800000002000 (2 ^ 12) = {}"
  proof -
    have "region 0x1000 16 \<subseteq> region 0x1000 (2 ^ 12)" unfolding region_def by auto
    moreover have "region 0x1000 (2 ^ 12) \<inter> region 0xFFFF800000002000 (2 ^ 12) = {}"
      by (rule aligned_region_disjoint) simp_all
    ultimately show ?thesis by blast
  qed
  then have "source_ok root_example s 0x400000 0x1000 16"
    using d(2,3) by (simp add: source_ok_def)
  then obtain m where "vmm_map_copy root_example 0x400000 0x1000 16 s = ret (s\<lparr>mem := m, vmm_lock := unlocked\<rparr>)"
    "\<forall>i<16. m (phys_view root_example s (0x400000 + of_nat i)) = mem s (0x1000 + of_nat i)"
    using vmm_map_copy_correct [OF inv, of "0x400000" 16 "0x1000"] d(1) by auto
  then show ?thesis by (intro exI [of _ s] exI [of _ m]) simp
qed

end
