(* ===== verification/Kheap.thy ===== *)
theory Kheap
  imports Vmm
begin

text \<open>
  The kernel heap, \<open>kernel/system/heap.c\<close>: a free list of blocks that starts at a fixed virtual
  address and grows by whole pages. A \<open>heap_block_t\<close> is two words at its address, the size and
  the next free block; an allocated block keeps its size in the first word and the payload starts
  16 bytes after it. \<open>malloc\<close> and \<open>free\<close> of the kernel's C library are \<open>kmalloc\<close> and \<open>kfree\<close>.
  Heap addresses and the higher-half addresses of the frames behind them are different places of
  the model's memory; nothing in the heap goes through the latter.
\<close>

section \<open>Definitions\<close>

definition KERNEL_HEAP_START :: addr where
  "KERNEL_HEAP_START = 0xFFFF810000000000"

definition KERNEL_INITIAL_PAGES :: u64 where
  "KERNEL_INITIAL_PAGES = 256"

definition MIN_ALLOC_SIZE :: u64 where
  "MIN_ALLOC_SIZE = 16"

definition HEAP_ALIGNMENT :: u64 where
  "HEAP_ALIGNMENT = 16"

definition ALIGN_UP_HEAP :: "u64 \<Rightarrow> u64" where
  "ALIGN_UP_HEAP sz = (sz + HEAP_ALIGNMENT - 1) AND NOT (HEAP_ALIGNMENT - 1)"

record heap = vmm +
  heap_start :: addr
  heap_size :: u64
  heap_head :: addr
  heap_lock :: spin_lock_t

text \<open>The fields \<open>size\<close> and \<open>next\<close> of a \<open>heap_block_t\<close>.\<close>

definition hb_size :: "mem \<Rightarrow> addr \<Rightarrow> u64" where
  "hb_size m b = load64 m b"

definition hb_next :: "mem \<Rightarrow> addr \<Rightarrow> addr" where
  "hb_next m b = load64 m (b + 8)"

definition set_size :: "addr \<Rightarrow> u64 \<Rightarrow> 'a heap_scheme \<Rightarrow> 'a heap_scheme" where
  "set_size b v s = s\<lparr>mem := store64 (mem s) b v\<rparr>"

definition set_next :: "addr \<Rightarrow> addr \<Rightarrow> 'a heap_scheme \<Rightarrow> 'a heap_scheme" where
  "set_next b v s = s\<lparr>mem := store64 (mem s) (b + 8) v\<rparr>"

text \<open>\<open>while (cur && cur < base)\<close>, the search for the place of a block in the list.\<close>

partial_function (option) heap_scan :: "mem \<Rightarrow> addr \<Rightarrow> addr \<Rightarrow> addr \<Rightarrow> (addr \<times> addr) result" where
  "heap_scan m base prev cur =
     (if cur \<noteq> NULL \<and> cur < base then heap_scan m base cur (hb_next m cur)
      else ret (prev, cur))"

text \<open>Link a block after \<open>prev\<close>, merge it with the next one, then with \<open>prev\<close>.\<close>

definition heap_insert :: "addr \<Rightarrow> addr \<Rightarrow> 'a heap_scheme \<Rightarrow> 'a heap_scheme" where
  "heap_insert prev blk s =
     (let s = (if prev = NULL then (set_next blk (heap_head s) s)\<lparr>heap_head := blk\<rparr>
               else set_next prev blk (set_next blk (hb_next (mem s) prev) s));
          nxt = hb_next (mem s) blk;
          s = (if nxt \<noteq> NULL \<and> blk + hb_size (mem s) blk = nxt
               then set_next blk (hb_next (mem s) nxt)
                      (set_size blk (hb_size (mem s) blk + hb_size (mem s) nxt) s)
               else s)
      in if prev \<noteq> NULL \<and> prev + hb_size (mem s) prev = blk
         then set_next prev (hb_next (mem s) blk)
                (set_size prev (hb_size (mem s) prev + hb_size (mem s) blk) s)
         else s)"

fun heap_map_pages :: "nat list \<Rightarrow> addr \<Rightarrow> 'a heap_scheme \<Rightarrow> 'a heap_scheme result" where
  "heap_map_pages [] base s = ret s"
| "heap_map_pages (i # js) base s =
     rbind (pmm_allocate s) (\<lambda>(phys, s).
     if phys = NULL then fails (Panic ''heap: failed to allocate page for heap expansion'') else
     let virt = base + of_nat i * PAGE_SIZE in
     rbind (vmm_map_page (kernel_pagemap s) virt phys (PTE_PRESENT OR PTE_WRITABLE OR PTE_NX) s) (\<lambda>(ok, s).
     if \<not> ok then fails (Panic ''heap: vmm_map_page failed during heap expansion'')
     else heap_map_pages js base s))"

definition heap_expand_pages :: "u64 \<Rightarrow> 'a heap_scheme \<Rightarrow> (bool \<times> 'a heap_scheme) result" where
  "heap_expand_pages pages s =
     (if pages = 0 then ret (False, s) else
      let base = heap_start s + heap_size s;
          new_region_size = pages * PAGE_SIZE
      in
      rbind (ASSERT (heap_start s AND (PAGE_SIZE - 1) = 0)) (\<lambda>_.
      rbind (ASSERT (heap_size s AND (PAGE_SIZE - 1) = 0)) (\<lambda>_.
      rbind (heap_map_pages [0..<unat pages] base s) (\<lambda>s.
      let s = set_next base NULL (set_size base new_region_size s) in
      rbind (if heap_head s = NULL then ret (s\<lparr>heap_head := base\<rparr>)
             else rbind (heap_scan (mem s) base NULL (heap_head s)) (\<lambda>(prev, _).
                  ret (heap_insert prev base s))) (\<lambda>s.
      ret (True, s\<lparr>heap_size := heap_size s + new_region_size\<rparr>))))))"

definition heap_install :: "'a heap_scheme \<Rightarrow> 'a heap_scheme result" where
  "heap_install s =
     (if heap_start s \<noteq> NULL then fails (Panic ''heap_install called multiple times'') else
      let s = s\<lparr>heap_start := KERNEL_HEAP_START, heap_size := 0\<rparr> in
      rbind (heap_expand_pages KERNEL_INITIAL_PAGES s) (\<lambda>(ok, s).
      if \<not> ok then fails (Panic ''heap: failed to allocate the initial kernel heap'')
      else ret s))"

definition header_sz :: u64 where
  "header_sz = ALIGN_UP_HEAP 8"

text \<open>Take \<open>total_sz\<close> bytes of the free block \<open>cur\<close>, or all of it when the rest is too small.\<close>

definition heap_take :: "u64 \<Rightarrow> addr \<Rightarrow> addr \<Rightarrow> 'a heap_scheme \<Rightarrow> 'a heap_scheme" where
  "heap_take total_sz prev cur s =
     (let s = (if hb_size (mem s) cur \<ge> total_sz + MIN_ALLOC_SIZE
               then let new_block = cur + total_sz;
                        s = set_size new_block (hb_size (mem s) cur - total_sz) s;
                        s = set_next new_block (hb_next (mem s) cur) s;
                        s = set_size cur total_sz s
                    in if prev = NULL then s\<lparr>heap_head := new_block\<rparr> else set_next prev new_block s
               else if prev = NULL then s\<lparr>heap_head := hb_next (mem s) cur\<rparr>
                    else set_next prev (hb_next (mem s) cur) s)
      in set_size cur (hb_size (mem s) cur) s)"

partial_function (option) kmalloc_loop ::
  "u64 \<Rightarrow> addr \<Rightarrow> addr \<Rightarrow> 'a heap_scheme \<Rightarrow> (addr \<times> 'a heap_scheme) result" where
  "kmalloc_loop total_sz prev cur s =
     (if cur \<noteq> NULL then
        (if hb_size (mem s) cur \<ge> total_sz
         then let s = heap_take total_sz prev cur s
              in ret (cur + header_sz, s\<lparr>heap_lock := spin_unlock (heap_lock s)\<rparr>)
         else kmalloc_loop total_sz cur (hb_next (mem s) cur) s)
      else
        rbind (heap_expand_pages 16 s) (\<lambda>(ok, s).
        rbind (if ok then ret s else
               rbind (heap_expand_pages 1 s) (\<lambda>(ok, s).
               if ok then ret s else fails (Panic ''out of memory''))) (\<lambda>s.
        kmalloc_loop total_sz NULL (heap_head s) s)))"

definition kmalloc :: "u64 \<Rightarrow> 'a heap_scheme \<Rightarrow> (addr \<times> 'a heap_scheme) result" where
  "kmalloc sz s =
     (if sz = 0 then ret (NULL, s) else
      let payload = ALIGN_UP_HEAP sz;
          total_sz = payload + header_sz;
          total_sz = (if total_sz < MIN_ALLOC_SIZE then MIN_ALLOC_SIZE else total_sz)
      in
      rbind (spin_lock ''kmalloc'' (heap_lock s)) (\<lambda>l.
      kmalloc_loop total_sz NULL (heap_head s) (s\<lparr>heap_lock := l\<rparr>)))"

definition kmalloc_phys :: "u64 \<Rightarrow> bool \<Rightarrow> 'a heap_scheme \<Rightarrow> (addr \<times> addr \<times> 'a heap_scheme) result" where
  "kmalloc_phys sz want_phys s =
     (if sz = 0 then ret (NULL, 0, s) else
      rbind (kmalloc sz s) (\<lambda>(virt_addr, s).
      rbind (ASSERT (virt_addr \<noteq> NULL)) (\<lambda>_.
      if want_phys then
        rbind (vmm_virt_to_phys (kernel_pagemap s) virt_addr s) (\<lambda>(phys, s).
        rbind (ASSERT (phys \<noteq> 0)) (\<lambda>_. ret (virt_addr, phys, s)))
      else ret (virt_addr, 0, s))))"

definition kfree :: "addr \<Rightarrow> 'a heap_scheme \<Rightarrow> 'a heap_scheme result" where
  "kfree ptr s =
     (if ptr = NULL then ret s else
      let block_start = ptr - header_sz;
          block_size = load64 (mem s) block_start
      in
      if block_start < heap_start s \<or> block_start \<ge> heap_start s + heap_size s
        then fails (Panic ''pointer out of bound!'')
      else if block_size < MIN_ALLOC_SIZE then fails (Panic ''invalid block size!'')
      else if block_start AND (HEAP_ALIGNMENT - 1) \<noteq> 0 then fails (Panic ''alignment error!'')
      else
      rbind (spin_lock ''kfree'' (heap_lock s)) (\<lambda>l.
      let s = s\<lparr>heap_lock := l\<rparr> in
      rbind (heap_scan (mem s) block_start NULL (heap_head s)) (\<lambda>(prev, _).
      let s = heap_insert prev block_start (set_size block_start block_size s)
      in ret (s\<lparr>heap_lock := spin_unlock (heap_lock s)\<rparr>))))"

section \<open>Block headers\<close>

abbreviation blk_aligned :: "addr \<Rightarrow> bool" where
  "blk_aligned b \<equiv> 16 dvd unat b"

lemma blk_next_word:
  assumes "blk_aligned b"
  shows "unat (b + 8) = unat b + 8"
proof -
  obtain q where q: "unat b = 16 * q" using assms by auto
  then have "q < 2 ^ 60" using unat_lt64(1) [of b] by simp
  then show ?thesis using q by (simp add: unat_add_lt)
qed

lemma blk_words:
  assumes "blk_aligned a" "blk_aligned b"
  shows "a \<noteq> b \<Longrightarrow> region a 8 \<inter> region b 8 = {}"
    and "a \<noteq> b \<Longrightarrow> region (a + 8) 8 \<inter> region (b + 8) 8 = {}"
    and "region a 8 \<inter> region (b + 8) 8 = {}" and "region (a + 8) 8 \<inter> region b 8 = {}"
proof -
  have al: "2 ^ 3 dvd unat x" "2 ^ 3 dvd unat (x + 8)" if "blk_aligned x" for x
  proof -
    have "(8 :: nat) dvd unat x" using that by (rule dvd_trans [rotated]) simp
    then show "2 ^ 3 dvd unat x" "2 ^ 3 dvd unat (x + 8)" using blk_next_word [OF that] by simp_all
  qed
  have ne: "x \<noteq> y + 8" if "blk_aligned x" "blk_aligned y" for x y
  proof
    assume "x = y + 8"
    then have "unat x = unat y + 8" using blk_next_word [OF that(2)] by simp
    then have "(16 :: nat) dvd unat y + 8" using that(1) by simp
    then have "(16 :: nat) dvd 8" using that(2) by (metis dvd_add_right_iff)
    then show False by simp
  qed
  show "a \<noteq> b \<Longrightarrow> region a 8 \<inter> region b 8 = {}"
    using aligned_region_disjoint [of 3 a b] al assms by simp
  show "a \<noteq> b \<Longrightarrow> region (a + 8) 8 \<inter> region (b + 8) 8 = {}"
    using aligned_region_disjoint [of 3 "a + 8" "b + 8"] al assms by simp
  have cross: "region x 8 \<inter> region (y + 8) 8 = {}" if "blk_aligned x" "blk_aligned y" for x y
    using aligned_region_disjoint [of 3 x "y + 8"] al(1) [OF that(1)] al(2) [OF that(2)] ne [OF that] by simp
  show "region a 8 \<inter> region (b + 8) 8 = {}" by (rule cross [OF assms])
  show "region (a + 8) 8 \<inter> region b 8 = {}" using cross [OF assms(2,1)] by (simp add: Int_commute)
qed

lemma header_store [simp]:
  assumes "blk_aligned a" "blk_aligned b"
  shows "hb_size (store64 m a v) b = (if a = b then v else hb_size m b)"
    and "hb_next (store64 m a v) b = hb_next m b"
    and "hb_size (store64 m (a + 8) v) b = hb_size m b"
    and "hb_next (store64 m (a + 8) v) b = (if a = b then v else hb_next m b)"
  using blk_words [OF assms] by (auto simp: hb_size_def hb_next_def load64_store64_disjoint)

lemma set_fields [simp]:
  "heap_head (set_size b v s) = heap_head s" "heap_head (set_next b v s) = heap_head s"
  "mem (set_size b v s) = store64 (mem s) b v" "mem (set_next b v s) = store64 (mem s) (b + 8) v"
  "heap_start (set_size b v s) = heap_start s" "heap_start (set_next b v s) = heap_start s"
  "heap_size (set_size b v s) = heap_size s" "heap_size (set_next b v s) = heap_size s"
  "heap_lock (set_size b v s) = heap_lock s" "heap_lock (set_next b v s) = heap_lock s"
  by (simp_all add: set_size_def set_next_def)

section \<open>The free list\<close>

text \<open>\<open>seg m p xs q\<close>: following \<open>next\<close> from \<open>p\<close> visits the blocks \<open>xs\<close> and arrives at \<open>q\<close>.\<close>

fun seg :: "mem \<Rightarrow> addr \<Rightarrow> (addr \<times> u64) list \<Rightarrow> addr \<Rightarrow> bool" where
  "seg m p [] q \<longleftrightarrow> p = q"
| "seg m p ((a, sz) # xs) q \<longleftrightarrow> p = a \<and> a \<noteq> 0 \<and> hb_size m a = sz \<and> seg m (hb_next m a) xs q"

definition blocks_ok :: "(addr \<times> u64) list \<Rightarrow> bool" where
  "blocks_ok xs \<longleftrightarrow> distinct (map fst xs) \<and> (\<forall>a\<in>fst ` set xs. blk_aligned a)"

lemma blocks_ok_simps [simp]:
  "blocks_ok []"
  "blocks_ok ((a, sz) # xs) \<longleftrightarrow> blk_aligned a \<and> a \<notin> fst ` set xs \<and> blocks_ok xs"
  "blocks_ok (xs @ ys) \<longleftrightarrow> blocks_ok xs \<and> blocks_ok ys \<and> fst ` set xs \<inter> fst ` set ys = {}"
  by (auto simp: blocks_ok_def)

lemma seg_append: "seg m p (xs @ ys) q \<longleftrightarrow> (\<exists>r. seg m p xs r \<and> seg m r ys q)"
  by (induction xs arbitrary: p) (auto split: prod.splits)

lemma seg_store:
  assumes "blocks_ok xs" "blk_aligned b" "b \<notin> fst ` set xs"
  shows "seg (store64 m b v) p xs q = seg m p xs q" "seg (store64 m (b + 8) v) p xs q = seg m p xs q"
proof -
  show "seg (store64 m b v) p xs q = seg m p xs q"
    using assms by (induction xs arbitrary: p) auto
  show "seg (store64 m (b + 8) v) p xs q = seg m p xs q"
    using assms by (induction xs arbitrary: p) auto
qed

lemma seg_mem:
  assumes "blocks_ok xs" "\<And>a x. a \<in> fst ` set xs \<Longrightarrow> x \<in> region a 16 \<Longrightarrow> m' x = m x"
  shows "seg m' p xs q = seg m p xs q"
  using assms
proof (induction xs arbitrary: p)
  case (Cons y xs)
  obtain a sz where y: "y = (a, sz)" by (cases y)
  have sub: "region a 8 \<subseteq> region a 16" "region (a + 8) 8 \<subseteq> region a 16"
  proof -
    show "region a 8 \<subseteq> region a 16" by (auto simp: region_def)
    show "region (a + 8) 8 \<subseteq> region a 16"
    proof
      fix x assume "x \<in> region (a + 8) 8"
      then obtain k where "k < 8" "x = a + of_nat (8 + k)" by (auto simp: region_def add.assoc)
      then show "x \<in> region a 16" unfolding region_def by (intro image_eqI [of _ _ "8 + k"]) auto
    qed
  qed
  have "hb_size m' a = hb_size m a" "hb_next m' a = hb_next m a"
    unfolding hb_size_def hb_next_def using Cons.prems(2) [of a] sub
    by (auto simp: y intro!: load64_cong)
  moreover have "seg m' (hb_next m a) xs q = seg m (hb_next m a) xs q"
    using Cons.prems by (intro Cons.IH) (auto simp: y)
  ultimately show ?case by (simp add: y)
qed simp

lemma seg_head: "seg m p xs q \<Longrightarrow> xs \<noteq> [] \<Longrightarrow> p = fst (hd xs) \<and> p \<noteq> 0"
  by (cases xs) auto

lemma heap_scan_seg:
  assumes "seg m p xs q" "seg m q ys 0" "\<forall>a\<in>fst ` set xs. a < base" "\<forall>a\<in>fst ` set ys. base \<le> a"
  shows "heap_scan m base prev p = ret (if xs = [] then prev else fst (last xs), q)"
  using assms
proof (induction xs arbitrary: p prev)
  case Nil
  then have "p = 0 \<or> \<not> p < base" using seg_head [of m p ys 0] by (cases ys) auto
  then show ?case using Nil.prems by (subst heap_scan.simps) auto
next
  case (Cons y xs)
  obtain a sz where y: "y = (a, sz)" by (cases y)
  have "heap_scan m base a (hb_next m a) = ret (if xs = [] then a else fst (last xs), q)"
    using Cons.prems by (intro Cons.IH) (auto simp: y)
  then show ?case using Cons.prems by (subst heap_scan.simps) (auto simp: y)
qed

text \<open>What linking and merging do to the list of free blocks.\<close>

definition merge_next :: "addr \<Rightarrow> u64 \<Rightarrow> (addr \<times> u64) list \<Rightarrow> (addr \<times> u64) list" where
  "merge_next b sz ys =
     (case ys of (c, sz') # ys' \<Rightarrow> if b + sz = c then (b, sz + sz') # ys' else (b, sz) # ys
      | [] \<Rightarrow> [(b, sz)])"

definition merge_prev :: "(addr \<times> u64) list \<Rightarrow> (addr \<times> u64) list \<Rightarrow> (addr \<times> u64) list" where
  "merge_prev xs ys =
     (if xs \<noteq> [] \<and> fst (last xs) + snd (last xs) = fst (hd ys)
      then butlast xs @ (fst (last xs), snd (last xs) + snd (hd ys)) # tl ys else xs @ ys)"

lemma merge_next_Cons: "\<exists>sz' ys'. merge_next b sz ys = (b, sz') # ys' \<and> fst ` set ys' \<subseteq> fst ` set ys"
  by (auto simp: merge_next_def split: list.split)

lemma seg_link:
  assumes ok: "blocks_ok (xs @ (b, sz) # ys)" and b: "b \<noteq> 0"
    and seg: "seg (mem s) (heap_head s) xs q" "seg (mem s) q ys 0" and sz: "hb_size (mem s) b = sz"
  defines "prev \<equiv> (if xs = [] then NULL else fst (last xs))"
  defines "s1 \<equiv> (if prev = NULL then (set_next b (heap_head s) s)\<lparr>heap_head := b\<rparr>
    else set_next prev b (set_next b (hb_next (mem s) prev) s))"
  shows "seg (mem s1) (heap_head s1) (xs @ (b, sz) # ys) 0"
proof (cases "xs = []")
  case True
  then show ?thesis using assms by (auto simp: seg_store prev_def)
next
  case False
  then obtain xs' a v where xs: "xs = xs' @ [(a, v)]" by (metis prod.exhaust rev_exhaust)
  then have prev: "prev = a" "a \<noteq> 0" using seg(1) by (auto simp: prev_def seg_append)
  have "hb_next (mem s) a = q" using seg(1) by (auto simp: xs seg_append)
  then show ?thesis
    using ok b seg sz prev by (auto simp: s1_def xs seg_append seg_store)
qed

lemma seg_merge_next:
  assumes ok: "blocks_ok (xs @ (b, sz) # ys)"
    and seg: "seg (mem s) (heap_head s) (xs @ (b, sz) # ys) 0"
  defines "nxt \<equiv> hb_next (mem s) b"
  defines "s1 \<equiv> (if nxt \<noteq> NULL \<and> b + hb_size (mem s) b = nxt
    then set_next b (hb_next (mem s) nxt) (set_size b (hb_size (mem s) b + hb_size (mem s) nxt) s) else s)"
  shows "seg (mem s1) (heap_head s1) (xs @ merge_next b sz ys) 0"
proof (cases ys)
  case Nil
  then show ?thesis using assms by (auto simp: merge_next_def seg_append)
next
  case (Cons y ys')
  obtain c v where y: "y = (c, v)" by (cases y)
  have h: "hb_size (mem s) b = sz" "nxt = c" "c \<noteq> 0" "hb_size (mem s) c = v" "b \<noteq> 0"
    using seg by (auto simp: Cons y seg_append nxt_def)
  show ?thesis
    using ok seg h
    by (auto simp: s1_def Cons y seg_append merge_next_def seg_store)
qed

lemma seg_merge_prev:
  assumes ok: "blocks_ok (xs @ (b, sz) # ys)"
    and seg: "seg (mem s) (heap_head s) (xs @ (b, sz) # ys) 0"
  defines "prev \<equiv> (if xs = [] then NULL else fst (last xs))"
  defines "s1 \<equiv> (if prev \<noteq> NULL \<and> prev + hb_size (mem s) prev = b
    then set_next prev (hb_next (mem s) b) (set_size prev (hb_size (mem s) prev + hb_size (mem s) b) s) else s)"
  shows "seg (mem s1) (heap_head s1) (merge_prev xs ((b, sz) # ys)) 0"
proof (cases "xs = []")
  case True
  then show ?thesis using assms by (auto simp: merge_prev_def prev_def)
next
  case False
  then obtain xs' a v where xs: "xs = xs' @ [(a, v)]" by (metis prod.exhaust rev_exhaust)
  have h: "prev = a" "a \<noteq> 0" "hb_size (mem s) a = v" "hb_size (mem s) b = sz" "b \<noteq> 0"
    using seg by (auto simp: xs prev_def seg_append)
  show ?thesis
    using ok seg h by (auto simp: s1_def xs seg_append merge_prev_def seg_store)
qed

lemma heap_insert_seg:
  assumes ok: "blocks_ok (xs @ (b, sz) # ys)" and b: "b \<noteq> 0"
    and seg: "seg (mem s) (heap_head s) xs q" "seg (mem s) q ys 0" and sz: "hb_size (mem s) b = sz"
  defines "s' \<equiv> heap_insert (if xs = [] then NULL else fst (last xs)) b s"
  shows "seg (mem s') (heap_head s') (merge_prev xs (merge_next b sz ys)) 0"
proof -
  obtain sz' ys' where mn: "merge_next b sz ys = (b, sz') # ys'" "fst ` set ys' \<subseteq> fst ` set ys"
    using merge_next_Cons by blast
  note s1 = seg_link [OF ok b seg sz]
  note s2 = seg_merge_next [OF ok s1]
  have ok2: "blocks_ok (xs @ (b, sz') # ys')"
  proof (cases ys)
    case Nil
    then show ?thesis using ok mn(1) by (simp add: merge_next_def)
  next
    case (Cons y zs)
    obtain c v where y: "y = (c, v)" by (cases y)
    have "ys' = (if b + sz = c then zs else ys)" using mn(1) by (simp add: merge_next_def Cons y split: if_splits)
    then show ?thesis using ok by (simp add: Cons y split: if_splits)
  qed
  note s3 = seg_merge_prev [OF ok2 s2 [unfolded mn(1)]]
  show ?thesis unfolding s'_def heap_insert_def Let_def mn(1) by (rule s3)
qed

end
