(* ===== verification/Tiling.thy ===== *)
theory Tiling
  imports Prelude
begin

text \<open>
  The abstract heap: a range of addresses cut into consecutive tiles, each with a size and a mark
  for used tiles. First-fit allocation, release with merging, and growth at the end, with the
  properties the kernel heap inherits.
\<close>

type_synonym tile = "nat \<times> bool"

section \<open>Definitions\<close>

definition extent :: "tile list \<Rightarrow> nat" where
  "extent T = sum_list (map fst T)"

text \<open>The tiles with their addresses, from \<open>b\<close> on.\<close>

fun placed :: "nat \<Rightarrow> tile list \<Rightarrow> (nat \<times> nat \<times> bool) list" where
  "placed b [] = []"
| "placed b ((sz, u) # T) = (b, sz, u) # placed (b + sz) T"

fun no_adjacent :: "tile list \<Rightarrow> bool" where
  "no_adjacent ((_, u) # (sz, v) # T) \<longleftrightarrow> (u \<or> v) \<and> no_adjacent ((sz, v) # T)"
| "no_adjacent _ \<longleftrightarrow> True"

text \<open>First fit: the offset of the tile and the new tiling.\<close>

fun tile_alloc :: "nat \<Rightarrow> tile list \<Rightarrow> (nat \<times> tile list) option" where
  "tile_alloc n [] = None"
| "tile_alloc n ((sz, u) # T) =
     (if \<not> u \<and> n \<le> sz
      then Some (0, if n + 16 \<le> sz then (n, True) # (sz - n, False) # T else (sz, True) # T)
      else case tile_alloc n T of None \<Rightarrow> None | Some (k, T') \<Rightarrow> Some (sz + k, (sz, u) # T'))"

fun coalesce :: "tile list \<Rightarrow> tile list" where
  "coalesce ((a, False) # (b, False) # T) = coalesce ((a + b, False) # T)"
| "coalesce (x # T) = x # coalesce T"
| "coalesce [] = []"

text \<open>Release of the used tile at an offset.\<close>

fun tile_mark :: "nat \<Rightarrow> tile list \<Rightarrow> tile list option" where
  "tile_mark k [] = None"
| "tile_mark k ((sz, u) # T) =
     (if k = 0 then if u then Some ((sz, False) # T) else None
      else if k < sz then None
      else map_option ((#) (sz, u)) (tile_mark (k - sz) T))"

definition tile_free :: "nat \<Rightarrow> tile list \<Rightarrow> tile list option" where
  "tile_free k T = map_option coalesce (tile_mark k T)"

definition tile_grow :: "nat \<Rightarrow> tile list \<Rightarrow> tile list" where
  "tile_grow n T = coalesce (T @ [(n, False)])"

definition sizes_ok :: "tile list \<Rightarrow> bool" where
  "sizes_ok T \<longleftrightarrow> (\<forall>t\<in>set T. 16 dvd fst t \<and> 0 < fst t)"

section \<open>Laws\<close>

lemma extent_simps [simp]:
  "extent [] = 0" "extent ((sz, u) # T) = sz + extent T" "extent (T @ T') = extent T + extent T'"
  by (simp_all add: extent_def)

lemma placed_append [simp]: "placed b (T @ T') = placed b T @ placed (b + extent T) T'"
  by (induction b T rule: placed.induct) (auto simp: add.assoc)

lemma sizes_ok_simps [simp]:
  "sizes_ok []" "sizes_ok ((sz, u) # T) \<longleftrightarrow> 16 dvd sz \<and> 0 < sz \<and> sizes_ok T"
  "sizes_ok (T @ T') \<longleftrightarrow> sizes_ok T \<and> sizes_ok T'"
  by (auto simp: sizes_ok_def)

lemma extent_dvd: "sizes_ok T \<Longrightarrow> 16 dvd extent T"
  by (induction T) auto

lemma no_adjacent_Cons:
  "no_adjacent ((sz, u) # T) \<longleftrightarrow> no_adjacent T \<and> (T = [] \<or> u \<or> snd (hd T))"
  by (cases T) auto

lemma no_adjacent_append:
  "no_adjacent (T @ T') \<longleftrightarrow> no_adjacent T \<and> no_adjacent T' \<and>
     (T = [] \<or> T' = [] \<or> snd (last T) \<or> snd (hd T'))"
proof (induction T)
  case (Cons t T)
  then show ?case by (cases t, cases T) (auto simp: no_adjacent_Cons)
qed auto

text \<open>Where a free tile meets its neighbours.\<close>

definition join_next :: "nat \<Rightarrow> tile list \<Rightarrow> tile list" where
  "join_next sz T = (case T of (sz', False) # T' \<Rightarrow> (sz + sz', False) # T' | _ \<Rightarrow> (sz, False) # T)"

definition join_prev :: "tile list \<Rightarrow> tile list \<Rightarrow> tile list" where
  "join_prev T T' =
     (if T \<noteq> [] \<and> \<not> snd (last T) then butlast T @ (fst (last T) + fst (hd T'), False) # tl T' else T @ T')"

lemma join_next_cases:
  obtains (free) sz' T' where "T = (sz', False) # T'" "join_next sz T = (sz + sz', False) # T'"
  | (used) "T = [] \<or> snd (hd T)" "join_next sz T = (sz, False) # T"
proof (cases T)
  case Nil
  then show ?thesis using used by (simp add: join_next_def)
next
  case (Cons t T')
  obtain sz' u where t: "t = (sz', u)" by (cases t)
  show ?thesis
  proof (cases u)
    case True
    then show ?thesis using used Cons t by (simp add: join_next_def)
  next
    case False
    then show ?thesis using free [of sz' T'] Cons t by (simp add: join_next_def)
  qed
qed

lemma coalesce_used: "coalesce ((sz, True) # T) = (sz, True) # coalesce T"
  by (cases T) auto

lemma coalesce_free:
  "coalesce ((sz, False) # T) =
     (case T of (sz', False) # T' \<Rightarrow> coalesce ((sz + sz', False) # T') | _ \<Rightarrow> (sz, False) # coalesce T)"
  by (cases T) (auto split: bool.split)

lemma coalesce_id: "no_adjacent T \<Longrightarrow> coalesce T = T"
proof (induction T)
  case (Cons t T)
  obtain sz u where t: "t = (sz, u)" by (cases t)
  show ?case
  proof (cases u)
    case True
    then show ?thesis using Cons by (simp add: t coalesce_used no_adjacent_Cons)
  next
    case False
    then show ?thesis
      using Cons by (cases T) (auto simp: t coalesce_free no_adjacent_Cons split: bool.splits)
  qed
qed simp

lemma coalesce_join_next:
  assumes "no_adjacent T"
  shows "coalesce ((sz, False) # T) = join_next sz T"
proof (cases T sz rule: join_next_cases)
  case (free sz' T')
  then have "no_adjacent ((sz + sz', False) # T')" using assms by (simp add: no_adjacent_Cons)
  then show ?thesis using free coalesce_id by simp
next
  case used
  then have "no_adjacent ((sz, False) # T)" using assms by (auto simp: no_adjacent_Cons)
  then show ?thesis using used coalesce_id by simp
qed

lemma coalesce_after_used:
  "no_adjacent T \<Longrightarrow> T = [] \<or> snd (last T) \<Longrightarrow> coalesce (T @ T') = T @ coalesce T'"
proof (induction T)
  case (Cons t T)
  obtain sz u where t: "t = (sz, u)" by (cases t)
  have IH: "coalesce (T @ T') = T @ coalesce T'" using Cons by (auto simp: t no_adjacent_Cons split: if_splits)
  show ?case
  proof (cases u)
    case True
    then show ?thesis using IH by (simp add: t coalesce_used)
  next
    case False
    then obtain sz' T'' where "T = (sz', True) # T''"
      using Cons.prems by (cases T) (auto simp: t no_adjacent_Cons)
    then show ?thesis using IH False by (simp add: t coalesce_free)
  qed
qed simp

lemma coalesce_join:
  assumes "no_adjacent T" "no_adjacent T'"
  shows "coalesce (T @ (sz, False) # T') = join_prev T (join_next sz T')"
proof (cases "T = [] \<or> snd (last T)")
  case True
  then have "join_prev T (join_next sz T') = T @ join_next sz T'" by (auto simp: join_prev_def)
  then show ?thesis
    using coalesce_after_used [OF assms(1) True] coalesce_join_next [OF assms(2)] by simp
next
  case False
  then obtain T0 a where T: "T = T0 @ [(a, False)]" by (cases T rule: rev_cases) auto
  have T0: "no_adjacent T0" "T0 = [] \<or> snd (last T0)" using assms(1) by (auto simp: T no_adjacent_append)
  have "coalesce (T @ (sz, False) # T') = T0 @ coalesce ((a + sz, False) # T')"
    using coalesce_after_used [OF T0, of "(a, False) # (sz, False) # T'"] by (simp add: T)
  then show ?thesis
    unfolding coalesce_join_next [OF assms(2)]
    by (cases T') (auto simp: T join_prev_def join_next_def split: bool.split)
qed

lemma join_prev_simps: "join_prev [] T' = T'" "snd (last T) \<Longrightarrow> join_prev T T' = T @ T'"
  "join_prev (T @ [(a, False)]) ((sz, u) # T') = T @ (a + sz, False) # T'"
  by (auto simp: join_prev_def)

lemma coalesce_ok [simp]: "extent (coalesce T) = extent T" "sizes_ok T \<Longrightarrow> sizes_ok (coalesce T)"
  by (induction T rule: coalesce.induct) auto

lemma coalesce_hd: "T \<noteq> [] \<Longrightarrow> coalesce T \<noteq> [] \<and> snd (hd (coalesce T)) = snd (hd T)"
  by (induction T rule: coalesce.induct) auto

lemma coalesce_Cons:
  "u \<or> T = [] \<or> snd (hd T) \<Longrightarrow> coalesce ((sz, u) # T) = (sz, u) # coalesce T"
  by (cases T; cases u) (auto simp: coalesce_used)

text \<open>Induction along the merging.\<close>

lemma coalesce_induct [case_names Nil keep merge]:
  assumes "P []"
    and "\<And>sz u T. u \<or> T = [] \<or> snd (hd T) \<Longrightarrow> P T \<Longrightarrow> P ((sz, u) # T)"
    and "\<And>sz sz' T. P ((sz + sz', False) # T) \<Longrightarrow> P ((sz, False) # (sz', False) # T)"
  shows "P T"
proof (induction "length T" arbitrary: T rule: less_induct)
  case less
  show ?case
  proof (cases T)
    case (Cons t T')
    obtain sz u where t: "t = (sz, u)" by (cases t)
    show ?thesis
    proof (cases "u \<or> T' = [] \<or> snd (hd T')")
      case True
      then show ?thesis using assms(2) less [of T'] Cons t by simp
    next
      case False
      then obtain sz' T'' where "T' = (sz', False) # T''" by (cases T') auto
      then show ?thesis using assms(3) less [of "(sz + sz', False) # T''"] Cons t False by simp
    qed
  qed (simp add: assms(1))
qed

lemma no_adjacent_coalesce: "no_adjacent (coalesce T)"
proof (induction T rule: coalesce_induct)
  case (keep sz u T)
  then show ?case using coalesce_hd [of T] by (cases "T = []") (auto simp: coalesce_Cons no_adjacent_Cons)
qed auto

lemma placed_coalesce:
  "(a, n, True) \<in> set (placed b (coalesce T)) \<longleftrightarrow> (a, n, True) \<in> set (placed b T)"
proof (induction T arbitrary: b rule: coalesce_induct)
  case (keep sz u T)
  then show ?case by (auto simp: coalesce_Cons)
qed (auto simp: add.assoc)

subsection \<open>Allocation\<close>

lemma tile_alloc_None: "tile_alloc n T = None \<longleftrightarrow> (\<forall>t\<in>set T. snd t \<or> fst t < n)"
  by (induction T) (auto split: option.splits if_splits)

lemma tile_alloc_split:
  "tile_alloc n T = Some (k, T') \<Longrightarrow>
   \<exists>T1 sz T2. T = T1 @ (sz, False) # T2 \<and> k = extent T1 \<and> n \<le> sz \<and> (\<forall>t\<in>set T1. snd t \<or> fst t < n) \<and>
     T' = T1 @ (if n + 16 \<le> sz then [(n, True), (sz - n, False)] else [(sz, True)]) @ T2"
proof (induction T arbitrary: k T')
  case (Cons t T)
  obtain sz u where t: "t = (sz, u)" by (cases t)
  show ?case
  proof (cases "\<not> u \<and> n \<le> sz")
    case True
    then show ?thesis using Cons.prems by (intro exI [of _ "[]"]) (auto simp: t)
  next
    case False
    then obtain k' T'' where k: "tile_alloc n T = Some (k', T'')" "k = sz + k'" "T' = (sz, u) # T''"
      using Cons.prems by (auto simp: t split: if_splits option.splits)
    from Cons.IH [OF k(1)] obtain T1 sz1 T2 where
      "T = T1 @ (sz1, False) # T2" "k' = extent T1" "n \<le> sz1" "\<forall>t\<in>set T1. snd t \<or> fst t < n"
      "T'' = T1 @ (if n + 16 \<le> sz1 then [(n, True), (sz1 - n, False)] else [(sz1, True)]) @ T2"
      by blast
    then show ?thesis using k(2,3) False by (intro exI [of _ "t # T1"]) (auto simp: t)
  qed
qed simp

lemma tile_alloc_keeps:
  assumes "tile_alloc n T = Some (k, T')" "sizes_ok T" "no_adjacent T" "16 dvd n" "0 < n"
  shows "extent T' = extent T" "sizes_ok T'" "no_adjacent T'"
proof -
  obtain T1 sz T2 where s: "T = T1 @ (sz, False) # T2" "n \<le> sz"
    "T' = T1 @ (if n + 16 \<le> sz then [(n, True), (sz - n, False)] else [(sz, True)]) @ T2"
    using tile_alloc_split [OF assms(1)] by blast
  show "extent T' = extent T" using s by auto
  show "sizes_ok T'" using s assms by (auto intro: dvd_diff_nat)
  show "no_adjacent T'" using s assms(3) by (auto simp: no_adjacent_append no_adjacent_Cons)
qed

subsection \<open>Release\<close>

lemma tile_mark_split:
  assumes "sizes_ok T"
  shows "tile_mark k T = Some T' \<longleftrightarrow>
    (\<exists>T1 sz T2. T = T1 @ (sz, True) # T2 \<and> k = extent T1 \<and> T' = T1 @ (sz, False) # T2)"
  using assms
proof (induction T arbitrary: k T')
  case (Cons t T)
  obtain sz u where t: "t = (sz, u)" by (cases t)
  have sz: "0 < sz" "sizes_ok T" using Cons.prems by (auto simp: t)
  note IH = Cons.IH [OF sz(2)]
  show ?case
  proof
    assume a: "tile_mark k (t # T) = Some T'"
    show "\<exists>T1 sz T2. t # T = T1 @ (sz, True) # T2 \<and> k = extent T1 \<and> T' = T1 @ (sz, False) # T2"
    proof (cases "k = 0")
      case True
      then show ?thesis using a by (intro exI [of _ "[]"]) (auto simp: t split: if_splits)
    next
      case False
      then obtain T'' where T'': "sz \<le> k" "tile_mark (k - sz) T = Some T''" "T' = t # T''"
        using a by (auto simp: t split: if_splits)
      then obtain T1 s1 T2 where "T = T1 @ (s1, True) # T2" "k - sz = extent T1" "T'' = T1 @ (s1, False) # T2"
        using IH by blast
      then show ?thesis using T'' by (intro exI [of _ "t # T1"]) (auto simp: t)
    qed
  next
    assume "\<exists>T1 sz T2. t # T = T1 @ (sz, True) # T2 \<and> k = extent T1 \<and> T' = T1 @ (sz, False) # T2"
    then obtain T1 s1 T2 where s: "t # T = T1 @ (s1, True) # T2" "k = extent T1" "T' = T1 @ (s1, False) # T2"
      by blast
    show "tile_mark k (t # T) = Some T'"
    proof (cases T1)
      case Nil
      then show ?thesis using s by (simp add: t)
    next
      case (Cons t1 T1')
      then have "tile_mark (k - sz) T = Some (T1' @ (s1, False) # T2)"
        by (intro IH [THEN iffD2] exI [of _ T1'] exI [of _ s1] exI [of _ T2]) (use s in \<open>auto simp: t\<close>)
      then show ?thesis using s sz Cons by (auto simp: t)
    qed
  qed
qed simp

end
