(* ===== verification/Kheap_Refine.thy ===== *)
theory Kheap_Refine
  imports Kheap Tiling
begin

text \<open>
  The kernel heap implements the tiling: the free list in memory is the list of free tiles in
  address order, every used tile has its size in its header, and \<open>kmalloc\<close>, \<open>kfree\<close> and the
  growth of the heap are first-fit allocation, release with merging and growth of the tiling.
\<close>

section \<open>Blocks of a tiling\<close>

fun frees :: "nat \<Rightarrow> tile list \<Rightarrow> (addr \<times> u64) list" where
  "frees b [] = []"
| "frees b ((sz, u) # T) = (if u then [] else [(of_nat b, of_nat sz)]) @ frees (b + sz) T"

definition shape :: "nat \<Rightarrow> tile list \<Rightarrow> bool" where
  "shape b T \<longleftrightarrow> 16 dvd b \<and> 0 < b \<and> sizes_ok T \<and> b + extent T < 2 ^ 64"

lemma shape_Cons [simp]: "shape b ((sz, u) # T) \<longleftrightarrow> 0 < b \<and> 16 dvd b \<and> 16 dvd sz \<and> 0 < sz \<and> shape (b + sz) T"
  by (auto simp: shape_def)

lemma shape_append [simp]: "shape b (T @ T') \<longleftrightarrow> shape b T \<and> shape (b + extent T) T'"
  using extent_dvd by (auto simp: shape_def)

lemma frees_append [simp]: "frees b (T @ T') = frees b T @ frees (b + extent T) T'"
  by (induction b T rule: frees.induct) (auto simp: add.assoc)

lemma unat_blk: "shape b T \<Longrightarrow> unat (of_nat b :: u64) = b"
  by (simp add: shape_def unat_of_nat_lt)

lemma frees_addr:
  assumes "shape b T" "x \<in> fst ` set (frees b T)"
  shows "b \<le> unat x" "unat x < b + extent T" "16 dvd unat x" "x \<noteq> 0"
proof -
  have "b \<le> unat x \<and> unat x < b + extent T \<and> 16 dvd unat x \<and> x \<noteq> 0"
    using assms
  proof (induction b T rule: frees.induct)
    case (2 b sz u T)
    then have b: "unat (of_nat b :: u64) = b" "0 < b" "16 dvd b" "0 < sz"
      using unat_blk [of b "(sz, u) # T"] by auto
    show ?case
    proof (cases "x \<in> fst ` set (frees (b + sz) T)")
      case True
      then show ?thesis using 2 by auto
    next
      case False
      then have "x = of_nat b" using 2(3) by (auto split: if_splits)
      then show ?thesis using b by (auto simp: word_unat_eq_iff)
    qed
  qed simp
  then show "b \<le> unat x" "unat x < b + extent T" "16 dvd unat x" "x \<noteq> 0" by blast+
qed

lemma blocks_ok_frees: "shape b T \<Longrightarrow> blocks_ok (frees b T)"
proof (induction b T rule: frees.induct)
  case (2 b sz u T)
  then have "of_nat b \<notin> fst ` set (frees (b + sz) T)"
    using frees_addr(1) [of "b + sz" T "of_nat b"] unat_blk [of b "(sz, u) # T"] by auto
  then show ?case using 2 unat_blk [of b "(sz, u) # T"] by auto
qed simp

lemma region_nat:
  assumes "a + n \<le> 2 ^ 64" "n < 2 ^ 64"
  shows "x \<in> region (of_nat a) n \<longleftrightarrow> a \<le> unat x \<and> unat x < a + n"
proof
  assume "x \<in> region (of_nat a) n"
  then obtain i where i: "i < n" "x = of_nat (a + i)" by (auto simp: region_def)
  then show "a \<le> unat x \<and> unat x < a + n" using assms(1) by (simp add: unat_of_nat_lt del: of_nat_add)
next
  assume "a \<le> unat x \<and> unat x < a + n"
  then have "x = of_nat a + of_nat (unat x - a)" "unat x - a < n" by (simp add: of_nat_diff, linarith)
  then show "x \<in> region (of_nat a) n" unfolding region_def by blast
qed

lemma placed_range:
  assumes "(a, sz, u) \<in> set (placed b T)" "sizes_ok T"
  shows "b \<le> a" "a + sz \<le> b + extent T" "16 dvd sz" "0 < sz" "16 dvd b \<Longrightarrow> 16 dvd a"
proof -
  have "b \<le> a \<and> a + sz \<le> b + extent T \<and> 16 dvd sz \<and> 0 < sz \<and> (16 dvd b \<longrightarrow> 16 dvd a)"
    using assms by (induction b T rule: placed.induct) auto
  then show "b \<le> a" "a + sz \<le> b + extent T" "16 dvd sz" "0 < sz" "16 dvd b \<Longrightarrow> 16 dvd a" by blast+
qed

lemma placed_disjoint:
  "(a, sz, u) \<in> set (placed b T) \<Longrightarrow> (a', sz', u') \<in> set (placed b T) \<Longrightarrow> sizes_ok T \<Longrightarrow>
   (a, sz, u) = (a', sz', u') \<or> a + sz \<le> a' \<or> a' + sz' \<le> a"
proof (induction b T rule: placed.induct)
  case (2 b s0 u0 T)
  then show ?case using placed_range(1) [of a sz u "b + s0" T] placed_range(1) [of a' sz' u' "b + s0" T] by auto
qed simp

section \<open>Merging in the list and in the tiling\<close>

lemma frees_join_next:
  assumes "shape b ((sz, u) # T)" "no_adjacent T"
  shows "merge_next (of_nat b) (of_nat sz) (frees (b + sz) T) = frees b (join_next sz T)"
proof (cases T sz rule: join_next_cases)
  case (free sz' T')
  then show ?thesis by (simp add: merge_next_def add.assoc)
next
  case used
  have "of_nat b + of_nat sz \<notin> fst ` set (frees (b + sz) T)"
  proof
    assume *: "of_nat b + of_nat sz \<in> fst ` set (frees (b + sz) T)"
    then obtain s1 T1 where T: "T = (s1, True) # T1" using used(1) by (cases T) auto
    have "unat (of_nat (b + sz) :: u64) = b + sz" using assms(1) by (intro unat_blk [of _ T]) simp
    moreover have "b + sz + s1 \<le> unat (of_nat (b + sz) :: u64)"
      using frees_addr(1) [of "b + sz + s1" T1 "of_nat (b + sz)"] * assms(1) by (simp add: T)
    ultimately show False using assms(1) T by simp
  qed
  then show ?thesis
    using used(2) by (cases "frees (b + sz) T") (auto simp: merge_next_def)
qed

lemma frees_placed:
  "(x, y) \<in> set (frees b T) \<longleftrightarrow> (\<exists>a s. x = of_nat a \<and> y = of_nat s \<and> (a, s, False) \<in> set (placed b T))"
  by (induction b T rule: frees.induct) auto

lemma frees_join_prev:
  assumes "shape b (T @ (sz, False) # T')"
  shows "merge_prev (frees b T) (frees (b + extent T) ((sz, False) # T')) =
    frees b (join_prev T ((sz, False) # T'))"
proof (cases T rule: rev_cases)
  case Nil
  then show ?thesis by (simp add: merge_prev_def join_prev_def)
next
  case (snoc T0 t)
  obtain s u where t: "t = (s, u)" by (cases t)
  show ?thesis
  proof (cases u)
    case False
    then show ?thesis by (simp add: snoc t merge_prev_def join_prev_def add.assoc)
  next
    case True
    have ne: "x + y \<noteq> of_nat (b + extent T)" if xy: "(x, y) \<in> set (frees b T)" for x y
    proof
      assume eq: "x + y = of_nat (b + extent T)"
      obtain a s' where a: "x = of_nat a" "y = of_nat s'" "(a, s', False) \<in> set (placed b T0)"
        using xy True by (auto simp: snoc t frees_placed)
      have sh: "sizes_ok T0" "b + extent T < 2 ^ 64" "0 < s" using assms by (auto simp: snoc t shape_def)
      have le: "a + s' \<le> b + extent T0" using placed_range(2) [OF a(3) sh(1)] .
      have "of_nat (a + s') = (of_nat (b + extent T) :: u64)" using eq a by simp
      moreover have "a + s' < 2 ^ LENGTH(64)" "b + extent T < 2 ^ LENGTH(64)"
        using le sh(2) by (auto simp: snoc t)
      ultimately have "a + s' = b + extent T" by (rule of_nat_inj_lt)
      then show False using le sh(3) by (simp add: snoc t)
    qed
    have "\<not> (frees b T \<noteq> [] \<and> fst (last (frees b T)) + snd (last (frees b T)) = of_nat (b + extent T))"
      using ne [of "fst (last (frees b T))" "snd (last (frees b T))"] last_in_set [of "frees b T"] by auto
    then have "merge_prev (frees b T) (frees (b + extent T) ((sz, False) # T')) =
        frees b T @ frees (b + extent T) ((sz, False) # T')"
      unfolding merge_prev_def by (subst if_not_P) simp_all
    then show ?thesis using True by (simp add: snoc t join_prev_def add.assoc)
  qed
qed

section \<open>The state of the heap\<close>

definition heap_base :: "'a heap_scheme \<Rightarrow> nat" where
  "heap_base s = unat (heap_start s)"

text \<open>
  \<open>heap_rel T s\<close>: the tiling \<open>T\<close> is laid out from \<open>heap_start\<close>, has no two free neighbours and
  covers \<open>heap_size\<close> bytes; the list in memory is its free tiles and the used ones carry their size.
\<close>

definition heap_rel :: "tile list \<Rightarrow> 'a heap_scheme \<Rightarrow> bool" where
  "heap_rel T s \<longleftrightarrow>
     shape (heap_base s) T \<and> no_adjacent T \<and> extent T = unat (heap_size s) \<and>
     seg (mem s) (heap_head s) (frees (heap_base s) T) 0 \<and>
     (\<forall>a sz. (a, sz, True) \<in> set (placed (heap_base s) T) \<longrightarrow> hb_size (mem s) (of_nat a) = of_nat sz)"

text \<open>
  The heap lies above the higher-half view of the frames, starts on a page, and even with every
  free frame added to it stays below the top of the address space.
\<close>

definition heap_room :: "'a heap_scheme \<Rightarrow> bool" where
  "heap_room s \<longleftrightarrow>
     unat (hhdm s) + 2 ^ 35 \<le> heap_base s \<and> heap_base s + 2 ^ 36 \<le> 2 ^ 64 \<and> 4096 dvd heap_base s \<and>
     4096 dvd unat (heap_size s) \<and> unat (heap_size s) + 4096 * card (free_frames s) \<le> 2 ^ 35"

definition heap_inv :: "tile list \<Rightarrow> 'a heap_scheme \<Rightarrow> bool" where
  "heap_inv T s \<longleftrightarrow>
     vmm_inv (kernel_pagemap s) s \<and> heap_rel T s \<and> heap_room s \<and> \<not> latch (heap_lock s)"

lemma header_sz_16 [simp]: "header_sz = 16"
  by (simp add: header_sz_def ALIGN_UP_HEAP_def HEAP_ALIGNMENT_def)

text \<open>The headers an operation writes.\<close>

definition hdr :: "addr \<Rightarrow> addr set" where
  "hdr b = region b 16"

lemma store64_header:
  assumes "x \<notin> hdr b"
  shows "store64 m b v x = m x" "store64 m (b + 8) v x = m x"
proof -
  have "region b 8 \<subseteq> region b 16" by (auto simp: region_def)
  moreover have "region (b + 8) 8 \<subseteq> region b 16"
  proof
    fix y assume "y \<in> region (b + 8) 8"
    then obtain k where "k < 8" "y = b + of_nat (8 + k)" by (auto simp: region_def add.assoc)
    then show "y \<in> region b 16" unfolding region_def by (intro image_eqI [of _ _ "8 + k"]) auto
  qed
  ultimately show "store64 m b v x = m x" "store64 m (b + 8) v x = m x"
    using assms by (auto simp: hdr_def intro!: store64_outside)
qed

lemma heap_insert_outside:
  "x \<notin> hdr blk \<Longrightarrow> prev = NULL \<or> x \<notin> hdr prev \<Longrightarrow> mem (heap_insert prev blk s) x = mem s x"
  by (auto simp: heap_insert_def Let_def store64_header)

lemma heap_insert_fields [simp]:
  "heap_start (heap_insert prev blk s) = heap_start s" "heap_size (heap_insert prev blk s) = heap_size s"
  "heap_lock (heap_insert prev blk s) = heap_lock s"
  by (simp_all add: heap_insert_def Let_def)

text \<open>The list operations change nothing but memory and the head of the list.\<close>

definition list_change :: "'a heap_scheme \<Rightarrow> 'a heap_scheme \<Rightarrow> bool" where
  "list_change s s' \<longleftrightarrow> (\<exists>m h. s' = s\<lparr>mem := m, heap_head := h\<rparr>)"

lemma update_mem_head: "s\<lparr>heap_head := h, mem := m\<rparr> = s\<lparr>mem := m, heap_head := h\<rparr>"
  for s :: "'a heap_scheme"
  by (cases s rule: heap.cases_scheme) simp

lemma list_change_intros:
  "list_change s s"
  "list_change s s1 \<Longrightarrow> list_change s (set_size b v s1)"
  "list_change s s1 \<Longrightarrow> list_change s (set_next b v s1)"
  "list_change s s1 \<Longrightarrow> list_change s (s1\<lparr>heap_head := h\<rparr>)"
proof -
  show "list_change s s"
    unfolding list_change_def by (intro exI [of _ "mem s"] exI [of _ "heap_head s"]) simp
qed (force simp: list_change_def set_size_def set_next_def update_mem_head)+

lemma list_change_if:
  "list_change s a \<Longrightarrow> list_change s b \<Longrightarrow> list_change s (if c then a else b)"
  by simp

lemma heap_insert_change: "list_change s (heap_insert prev blk s)"
  unfolding heap_insert_def Let_def by (intro list_change_if list_change_intros)

lemma heap_take_change: "list_change s (heap_take n prev cur s)"
  unfolding heap_take_def Let_def by (intro list_change_if list_change_intros)

lemma list_change_fields:
  assumes "list_change s s'"
  shows "heap_start s' = heap_start s" "heap_size s' = heap_size s" "heap_lock s' = heap_lock s"
    "hhdm s' = hhdm s" "free_frames s' = free_frames s" "managed_frames s' = managed_frames s"
    "kernel_pagemap s' = kernel_pagemap s" "vmm_lock s' = vmm_lock s" "pmm_inv s' = pmm_inv s"
    "hhdm_ok s' = hhdm_ok s" "tables s' = tables s" "if_flag s' = if_flag s"
  using assms
  by (auto simp: list_change_def pmm_inv_def free_frames_def free_set_def managed_frames_def tables_def
      hhdm_ok_def irq_inv_def)

text \<open>Writes above the higher-half view do not touch the page tables.\<close>

lemma frame_below:
  assumes "pmm_inv s" "hhdm_ok s" "f \<in> managed_frames s" "x \<in> region (f + hhdm s) (2 ^ 12)"
  shows "unat x < unat (hhdm s) + 2 ^ 35"
proof -
  obtain q where q: "unat f = 4096 * q" using managed_frame(1) [OF assms(1,3)] by auto
  then have "q < 2 ^ 23" using managed_frame(2) [OF assms(1,3)] by simp
  then have f: "unat f + 4096 \<le> 2 ^ 35" using q by simp
  have h: "unat (hhdm s) + 2 ^ 35 \<le> 2 ^ 64" using assms(2) by (simp add: hhdm_ok_def)
  obtain i where i: "i < 4096" "x = f + hhdm s + of_nat i" using assms(4) by (auto simp: region_def)
  have "unat x = unat f + unat (hhdm s) + i"
    unfolding i(2) using frame_table(3) [OF assms(1-3)] i(1) f h
    by (subst unat_add_lt) (simp_all add: unat_of_nat_lt)
  then show ?thesis using i(1) f by simp
qed

lemma vmm_inv_list_change:
  assumes inv: "vmm_inv root s" and ch: "list_change s s'" and hi: "unat (hhdm s) + 2 ^ 35 \<le> b"
    and m: "\<And>x. unat x < b \<Longrightarrow> mem s' x = mem s x"
  shows "vmm_inv root s'" "pt_lookup root s' v = pt_lookup root s v"
proof -
  note fields = list_change_fields [OF ch]
  have pt: "pt_inv root s" and pm: "pmm_inv s" and hh: "hhdm_ok s"
    and tr: "tree (entry (mem s)) (hhdm s) root (tables s)"
    using inv by (auto simp: vmm_inv_def pt_inv_def)
  have ent: "entry (mem s') t i = entry (mem s) t i" if h: "t \<in> tables s" "i < 512" for t i
  proof -
    obtain f where f: "t = f + hhdm s" "f \<in> managed_frames s" using h(1) by (auto simp: tables_def)
    show ?thesis
      using frame_below [OF pm hh f(2)] hi m
      by (intro entry_outside [OF tables_aligned(1) [OF pm hh h(1)] h(2)]) (force simp: f(1))
  qed
  note at = table_at_agree [OF tr ent]
  have tr': "tree (entry (mem s')) (hhdm s) root (tables s)" using tree_agree [OF tr ent] .
  then show "vmm_inv root s'" using inv fields by (simp add: vmm_inv_def pt_inv_def)
  show "pt_lookup root s' v = pt_lookup root s v"
  proof (cases "table_of root s (vpath v)")
    case None
    then show ?thesis using at [of "vpath v"] fields(4) by (simp add: pt_lookup_def)
  next
    case (Some t)
    then show ?thesis
      using at [of "vpath v"] fields(4) ent [OF treeD(1) [OF tr _ Some] table_idx_lt(4)]
      by (simp add: pt_lookup_def)
  qed
qed

section \<open>Release\<close>

lemma split_shape:
  assumes "shape b (T1 @ (sz, u) # T2)"
  defines "a \<equiv> b + extent T1"
  shows "shape b T1" "shape a ((sz, u) # T2)" "unat (of_nat a :: u64) = a" "blk_aligned (of_nat a)"
    "unat (of_nat sz :: u64) = sz" "16 \<le> sz" "of_nat a \<noteq> (0 :: u64)" "a + sz < 2 ^ 64" "16 dvd sz" "16 dvd a" "b \<le> a"
proof -
  show "shape b T1" and sh: "shape a ((sz, u) # T2)" using assms by simp_all
  then show u: "unat (of_nat a :: u64) = a" using unat_blk by blast
  have d: "16 dvd a" "16 dvd sz" "0 < sz" "0 < a" using sh by simp_all
  then show "blk_aligned (of_nat a)" "16 \<le> sz" "16 dvd sz" "16 dvd a" using u by (auto dest: dvd_imp_le)
  have "shape (a + sz) T2" using sh by simp
  then show lt: "a + sz < 2 ^ 64" by (auto simp: shape_def)
  then show "unat (of_nat sz :: u64) = sz" by (simp add: unat_of_nat_lt)
  show "of_nat a \<noteq> (0 :: u64)" using u d(4) by (metis less_numeral_extra(3) unat_0)
  show "b \<le> a" by (simp add: a_def)
qed

lemma frees_bounds:
  assumes "shape b (T1 @ (sz, u) # T2)"
  shows "\<forall>x\<in>fst ` set (frees b T1). x < of_nat (b + extent T1)"
    and "\<forall>x\<in>fst ` set (frees (b + extent T1 + sz) T2). of_nat (b + extent T1) < x"
proof -
  note s = split_shape [OF assms]
  show "\<forall>x\<in>fst ` set (frees b T1). x < of_nat (b + extent T1)"
    using frees_addr(2) [OF s(1)] s(3) by (auto simp: word_less_nat_alt simp del: of_nat_add)
  have "shape (b + extent T1 + sz) T2" using s(2) by simp
  then show "\<forall>x\<in>fst ` set (frees (b + extent T1 + sz) T2). of_nat (b + extent T1) < x"
    using frees_addr(1) [of "b + extent T1 + sz" T2] s(3,6)
    by (fastforce simp: word_less_nat_alt simp del: of_nat_add)
qed

text \<open>Linking a block of memory that is a tile of its own into the list.\<close>

lemma heap_insert_tile:
  assumes sh: "shape b (T1 @ (sz, False) # T2)" and adj: "no_adjacent T1" "no_adjacent T2"
    and seg: "seg (mem s) (heap_head s) (frees b T1) q" "seg (mem s) q (frees (b + extent T1 + sz) T2) 0"
    and size: "hb_size (mem s) (of_nat (b + extent T1)) = of_nat sz"
  defines "prev \<equiv> (if frees b T1 = [] then NULL else fst (last (frees b T1)))"
  defines "s' \<equiv> heap_insert prev (of_nat (b + extent T1)) s"
  shows "heap_scan (mem s) (of_nat (b + extent T1)) NULL (heap_head s) = ret (prev, q)"
    and "seg (mem s') (heap_head s') (frees b (coalesce (T1 @ (sz, False) # T2))) 0"
    and "\<And>x. x \<notin> hdr (of_nat (b + extent T1)) \<Longrightarrow> \<forall>y\<in>fst ` set (frees b T1). x \<notin> hdr y \<Longrightarrow> mem s' x = mem s x"
proof -
  let ?a = "b + extent T1"
  note sp = split_shape [OF sh] and bd = frees_bounds [OF sh]
  have shT2: "shape (?a + sz) T2" using sp(2) by simp
  show "heap_scan (mem s) (of_nat ?a) NULL (heap_head s) = ret (prev, q)"
    using heap_scan_seg [OF seg, of "of_nat ?a" NULL] bd unfolding prev_def by (auto simp: less_imp_le)
  have ok: "blocks_ok (frees b T1 @ (of_nat ?a, of_nat sz) # frees (?a + sz) T2)"
    using blocks_ok_frees [OF sh] by (simp del: of_nat_add)
  have "seg (mem s') (heap_head s')
      (merge_prev (frees b T1) (merge_next (of_nat ?a) (of_nat sz) (frees (?a + sz) T2))) 0"
    unfolding s'_def prev_def by (rule heap_insert_seg [OF ok sp(7) seg size])
  also have "merge_next (of_nat ?a) (of_nat sz) (frees (?a + sz) T2) = frees ?a (join_next sz T2)"
    by (rule frees_join_next [OF sp(2) adj(2)])
  also have "merge_prev (frees b T1) \<dots> = frees b (coalesce (T1 @ (sz, False) # T2))"
  proof -
    obtain sz' T' where j: "join_next sz T2 = (sz', False) # T'"
      by (cases T2 sz rule: join_next_cases) auto
    have "shape ?a (join_next sz T2)"
      using sp(2) by (cases T2 sz rule: join_next_cases) (auto simp: add.assoc)
    then have "shape b (T1 @ (sz', False) # T')" using sp(1) j by simp
    from frees_join_prev [OF this] show ?thesis
      unfolding coalesce_join [OF adj] j by simp
  qed
  finally show "seg (mem s') (heap_head s') (frees b (coalesce (T1 @ (sz, False) # T2))) 0" .
  show "mem s' x = mem s x" if "x \<notin> hdr (of_nat ?a)" "\<forall>y\<in>fst ` set (frees b T1). x \<notin> hdr y" for x
    unfolding s'_def
  proof (rule heap_insert_outside [OF that(1)])
    show "prev = NULL \<or> x \<notin> hdr prev" using that(2) last_in_set [of "frees b T1"] by (auto simp: prev_def)
  qed
qed

text \<open>Bytes of the used tiles of \<open>T\<close>, header and payload.\<close>

definition kept :: "nat \<Rightarrow> tile list \<Rightarrow> mem \<Rightarrow> mem \<Rightarrow> bool" where
  "kept b T m m' \<longleftrightarrow>
     (\<forall>a sz x. (a, sz, True) \<in> set (placed b T) \<and> x \<in> region (of_nat a) sz \<longrightarrow> m' x = m x)"

lemma tile_region:
  assumes "(a, sz, u) \<in> set (placed b T)" "shape b T"
  shows "x \<in> region (of_nat a) sz \<longleftrightarrow> a \<le> unat x \<and> unat x < a + sz"
    and "x \<in> hdr (of_nat a) \<Longrightarrow> a \<le> unat x \<and> unat x < a + sz"
proof -
  have r: "b \<le> a" "a + sz \<le> b + extent T" "16 dvd sz" "0 < sz" "b + extent T < 2 ^ 64" "0 < b"
    using placed_range [OF assms(1)] assms(2) by (auto simp: shape_def)
  then show "x \<in> region (of_nat a) sz \<longleftrightarrow> a \<le> unat x \<and> unat x < a + sz"
    by (intro region_nat) auto
  have "16 \<le> sz" using r(3,4) by (rule dvd_imp_le)
  then show "x \<in> hdr (of_nat a) \<Longrightarrow> a \<le> unat x \<and> unat x < a + sz"
    using region_nat [of a 16 x] r by (auto simp: hdr_def)
qed

lemma hb_size_kept:
  assumes "kept b T m m'" "(a, sz, True) \<in> set (placed b T)" "shape b T"
  shows "hb_size m' (of_nat a) = hb_size m (of_nat a)"
proof -
  have "16 dvd sz" "0 < sz" using placed_range(3,4) [OF assms(2)] assms(3) by (auto simp: shape_def)
  then have "8 \<le> sz" by (auto dest: dvd_imp_le)
  then have "region (of_nat a) 8 \<subseteq> region (of_nat a :: u64) sz" by (auto simp: region_def)
  then show ?thesis
    unfolding hb_size_def using assms(1,2) by (intro load64_cong) (auto simp: kept_def)
qed

lemma free_header_apart:
  assumes "y \<in> fst ` set (frees b T)" "shape b T" "(a, sz, True) \<in> set (placed b T)" "x \<in> region (of_nat a) sz"
  shows "x \<notin> hdr y"
proof
  assume x: "x \<in> hdr y"
  obtain a' sz' where a': "y = of_nat a'" "(a', sz', False) \<in> set (placed b T)"
    using assms(1) by (auto simp: frees_placed)
  have "a' \<le> unat x \<and> unat x < a' + sz'" using tile_region(2) [OF a'(2) assms(2)] x a'(1) by blast
  moreover have "a \<le> unat x \<and> unat x < a + sz" using tile_region(1) [OF assms(3,2)] assms(4) by blast
  moreover have "sizes_ok T" using assms(2) by (simp add: shape_def)
  ultimately show False using placed_disjoint [OF a'(2) assms(3)] by auto
qed

lemma free_header_low:
  assumes "y \<in> fst ` set (frees b T)" "shape b T" "x \<in> hdr y"
  shows "b \<le> unat x"
proof -
  obtain a' sz' where a': "y = of_nat a'" "(a', sz', False) \<in> set (placed b T)"
    using assms(1) by (auto simp: frees_placed)
  have "a' \<le> unat x" using tile_region(2) [OF a'(2) assms(2)] assms(3) a'(1) by blast
  moreover have "b \<le> a'" using placed_range(1) [OF a'(2)] assms(2) by (simp add: shape_def)
  ultimately show ?thesis by simp
qed

lemma list_change_trans: "list_change s s1 \<Longrightarrow> list_change s1 s2 \<Longrightarrow> list_change s s2"
  by (force simp: list_change_def update_mem_head)

lemma heap_lock_views [simp]:
  fixes s :: "'a heap_scheme"
  shows "vmm_inv root (s\<lparr>heap_lock := l\<rparr>) = vmm_inv root s"
    "free_frames (s\<lparr>heap_lock := l\<rparr>) = free_frames s" "heap_base (s\<lparr>heap_lock := l\<rparr>) = heap_base s"
    "heap_room (s\<lparr>heap_lock := l\<rparr>) = heap_room s" "heap_rel T (s\<lparr>heap_lock := l\<rparr>) = heap_rel T s"
  by (simp_all add: vmm_inv_def pt_inv_def pmm_inv_def free_frames_def free_set_def managed_frames_def
      tables_def hhdm_ok_def irq_inv_def heap_base_def heap_room_def heap_rel_def)

lemma heap_room_change:
  assumes "list_change s s'"
  shows "heap_room s' = heap_room s" "heap_base s' = heap_base s"
  using list_change_fields [OF assms] by (simp_all add: heap_room_def heap_base_def)

lemma kfree_tile:
  assumes inv: "heap_inv (T1 @ (sz, True) # T2) s"
  defines "T' \<equiv> coalesce (T1 @ (sz, False) # T2)"
  shows "\<exists>s'. kfree (of_nat (heap_base s + extent T1) + 16) s = ret s' \<and> heap_inv T' s' \<and>
    kept (heap_base s) T' (mem s) (mem s') \<and> heap_start s' = heap_start s"
proof -
  let ?b = "heap_base s" and ?T = "T1 @ (sz, True) # T2"
  let ?a = "?b + extent T1" and ?l = "(heap_lock s)\<lparr>latch := True, func := Some ''kfree''\<rparr>"
  let ?s1 = "set_size (of_nat ?a) (of_nat sz) (s\<lparr>heap_lock := ?l\<rparr>)"
  have rel: "heap_rel ?T s" and room: "heap_room s" and vm: "vmm_inv (kernel_pagemap s) s" and lk: "\<not> latch (heap_lock s)"
    using inv by (auto simp: heap_inv_def)
  have sh: "shape ?b ?T" and adj: "no_adjacent ?T" and ext: "extent ?T = unat (heap_size s)"
    and sg: "seg (mem s) (heap_head s) (frees ?b ?T) 0"
    and us: "\<And>a z. (a, z, True) \<in> set (placed ?b ?T) \<Longrightarrow> hb_size (mem s) (of_nat a) = of_nat z"
    using rel by (auto simp: heap_rel_def)
  note sp = split_shape [OF sh]
  have sh': "shape ?b (T1 @ (sz, False) # T2)" using sh by simp
  have adj': "no_adjacent T1" "no_adjacent T2" using adj by (auto simp: no_adjacent_append no_adjacent_Cons)
  have size: "hb_size (mem s) (of_nat ?a) = of_nat sz" using us [of ?a sz] by simp
  obtain q where q: "seg (mem s) (heap_head s) (frees ?b T1) q" "seg (mem s) q (frees (?a + sz) T2) 0"
    using sg by (auto simp: seg_append)
  have ok: "blocks_ok (frees ?b T1 @ (of_nat ?a, of_nat sz) # frees (?a + sz) T2)"
    using blocks_ok_frees [OF sh'] by (simp del: of_nat_add)
  have seg1: "seg (mem ?s1) (heap_head ?s1) (frees ?b T1) q" "seg (mem ?s1) q (frees (?a + sz) T2) 0"
    using q ok by (simp_all add: seg_store del: of_nat_add)
  have size1: "hb_size (mem ?s1) (of_nat ?a) = of_nat sz" using sp(4) by (simp del: of_nat_add)
  define prev where "prev = (if frees ?b T1 = [] then NULL else fst (last (frees ?b T1)))"
  note ins = heap_insert_tile [OF sh' adj' seg1 size1, folded prev_def]
  have scan: "heap_scan (mem s) (of_nat ?a) NULL (heap_head s) = ret (prev, q)"
    using heap_scan_seg [OF q, of "of_nat ?a" NULL] frees_bounds [OF sh] unfolding prev_def
    by (auto simp: less_imp_le)
  let ?s2 = "heap_insert prev (of_nat ?a) ?s1"
  have "kfree (of_nat ?a + 16) s = ret (?s2\<lparr>heap_lock := unlocked\<rparr>)"
  proof -
    have st: "heap_start s = of_nat ?b" by (simp add: heap_base_def)
    have sz': "heap_start s + heap_size s = of_nat (?b + extent ?T)" by (simp only: st of_nat_add ext) simp
    have top: "unat (of_nat (?b + extent ?T) :: u64) = ?b + extent ?T"
      using sh by (intro unat_of_nat_lt) (auto simp: shape_def)
    have al: "of_nat ?a AND (HEAP_ALIGNMENT - 1) = (0 :: u64)"
    proof -
      have "unat (of_nat ?a AND mask 4 :: u64) = unat (of_nat ?a :: u64) mod 2 ^ 4" by (rule unat_and_mask)
      then have "(of_nat ?a AND mask 4 :: u64) = 0" using sp(4) by (simp add: word_unat_eq_iff mod_eq_0_iff_dvd del: of_nat_add)
      then show ?thesis by (simp add: HEAP_ALIGNMENT_def mask_eq_exp_minus_1)
    qed
    have lo: "\<not> of_nat ?a < heap_start s" using sp(3,11) by (simp add: word_less_nat_alt heap_base_def del: of_nat_add)
    have hi: "\<not> heap_start s + heap_size s \<le> of_nat ?a"
      unfolding sz' using sp(3,6) top by (simp add: word_le_nat_alt del: of_nat_add)
    have mn: "\<not> (of_nat sz :: u64) < MIN_ALLOC_SIZE" using sp(5,6) by (simp add: MIN_ALLOC_SIZE_def word_less_nat_alt)
    have ld: "load64 (mem s) (of_nat ?a) = of_nat sz" using size by (simp add: hb_size_def)
    have nz: "of_nat ?a + 16 \<noteq> (0 :: u64)"
    proof -
      have "unat (of_nat ?a + 16 :: u64) = ?a + 16" using sp(3,6,8) by (simp add: unat_add_lt del: of_nat_add)
      then show ?thesis by (metis add_is_0 unat_0 zero_neq_numeral)
    qed
    have "mem (s\<lparr>heap_lock := ?l\<rparr>) = mem s" "heap_head (s\<lparr>heap_lock := ?l\<rparr>) = heap_head s" by simp_all
    then show ?thesis
      using lo hi mn al nz lk scan
      by (simp add: kfree_def Let_def ld del: of_nat_add)
  qed
  moreover have "heap_inv T' (?s2\<lparr>heap_lock := unlocked\<rparr>) \<and> kept ?b T' (mem s) (mem ?s2)"
  proof -
    have ch: "list_change (s\<lparr>heap_lock := ?l\<rparr>) ?s2"
      by (rule list_change_trans [OF list_change_intros(2) [OF list_change_intros(1)] heap_insert_change])
    note fields = list_change_fields [OF ch] heap_room_change [OF ch]
    have out: "mem ?s2 x = mem s x" if "x \<notin> hdr (of_nat ?a)" "\<forall>y\<in>fst ` set (frees ?b T1). x \<notin> hdr y" for x
      using ins(3) [OF that] store64_header(1) [OF that(1)] by (simp del: of_nat_add)
    have a_in: "(?a, sz, True) \<in> set (placed ?b ?T)" by simp
    have low: "mem ?s2 x = mem s x" if "unat x < ?b" for x
    proof (rule out)
      show "x \<notin> hdr (of_nat ?a)" using tile_region(2) [OF a_in sh, of x] that by auto
      show "\<forall>y\<in>fst ` set (frees ?b T1). x \<notin> hdr y" using free_header_low [OF _ sp(1), of _ x] that by fastforce
    qed
    have old: "(a, z, True) \<in> set (placed ?b ?T) \<and> a \<noteq> ?a" if "(a, z, True) \<in> set (placed ?b T')" for a z
    proof -
      have "(a, z, True) \<in> set (placed ?b (T1 @ (sz, False) # T2))" using that by (simp add: T'_def placed_coalesce)
      moreover have "(?a, sz, False) \<in> set (placed ?b (T1 @ (sz, False) # T2))" by simp
      ultimately show ?thesis
        using placed_disjoint [of a z True ?b "T1 @ (sz, False) # T2" ?a sz False] sh' sp(6)
          placed_range(4) [of a z True ?b "T1 @ (sz, False) # T2"]
        by (auto simp: shape_def)
    qed
    have kept: "kept ?b T' (mem s) (mem ?s2)"
      unfolding kept_def
    proof (intro allI impI, elim conjE)
      fix a z x assume az: "(a, z, True) \<in> set (placed ?b T')" and x: "x \<in> region (of_nat a) z"
      have in_T: "(a, z, True) \<in> set (placed ?b ?T)" "a \<noteq> ?a" using old [OF az] by auto
      show "mem ?s2 x = mem s x"
      proof (rule out)
        show "x \<notin> hdr (of_nat ?a)"
          using tile_region(2) [OF a_in sh, of x] tile_region(1) [OF in_T(1) sh, of x] x in_T(2)
            placed_disjoint [OF a_in in_T(1)] sh by (auto simp: shape_def)
        show "\<forall>y\<in>fst ` set (frees ?b T1). x \<notin> hdr y"
          using free_header_apart [OF _ sh in_T(1) x] by simp
      qed
    qed
    have shT': "shape ?b T'" using sh' by (simp add: shape_def T'_def)
    have "heap_rel T' ?s2"
      unfolding heap_rel_def fields(14)
    proof (intro conjI allI impI)
      show "extent T' = unat (heap_size ?s2)" using ext fields(2) by (simp add: T'_def)
      show "seg (mem ?s2) (heap_head ?s2) (frees (heap_base (s\<lparr>heap_lock := ?l\<rparr>)) T') 0"
        using ins(2) by (simp add: T'_def)
      fix a z assume az: "(a, z, True) \<in> set (placed (heap_base (s\<lparr>heap_lock := ?l\<rparr>)) T')"
      then have az': "(a, z, True) \<in> set (placed ?b T')" by simp
      have "hb_size (mem ?s2) (of_nat a) = hb_size (mem s) (of_nat a)" by (rule hb_size_kept [OF kept az' shT'])
      also have "\<dots> = of_nat z" using us old [OF az'] by blast
      finally show "hb_size (mem ?s2) (of_nat a) = of_nat z" .
    qed (use shT' no_adjacent_coalesce in \<open>simp_all add: T'_def\<close>)
    moreover have "vmm_inv (kernel_pagemap ?s2) ?s2"
      using vmm_inv_list_change(1) [OF _ ch, of "kernel_pagemap s" ?b] vm low room fields(7)
      by (simp add: heap_room_def)
    moreover have "heap_room ?s2" using fields(13) room by simp
    ultimately show ?thesis using kept by (simp add: heap_inv_def)
  qed
  ultimately show ?thesis by (intro exI [of _ "?s2\<lparr>heap_lock := unlocked\<rparr>"]) simp
qed

section \<open>Growth\<close>

lemma vmm_inv_take_page:
  fixes s :: "'a vmm_scheme"
  assumes inv: "vmm_inv root s" and k: "k \<in> free_set s"
  shows "vmm_inv root (take_page k s)"
proof -
  have pm: "pmm_inv s" and hh: "hhdm_ok s" and tr: "tree (entry (mem s)) (hhdm s) root (tables s)"
    using inv by (auto simp: vmm_inv_def pt_inv_def)
  let ?s = "take_page k s" and ?g = "k * PAGE_SIZE + hhdm s"
  have f: "k * PAGE_SIZE \<in> free_frames s" using k by (simp add: free_frames_def)
  then have fm: "k * PAGE_SIZE \<in> managed_frames s" using free_frames_subset [OF pm] by blast
  have ent: "entry (mem ?s) t i = entry (mem s) t i" if "t \<in> tables s" "i < 512" for t i
  proof -
    have "t \<noteq> ?g" using free_table_notin [OF f] that(1) by auto
    then show ?thesis
      using entry_zero_page [OF tables_aligned(1) [OF pm hh that(1)] frame_table(1) [OF pm hh fm] that(2)] by simp
  qed
  have "tables s \<subseteq> tables ?s"
    using free_frames_take_page [OF pm k] by (auto simp: tables_def)
  then have "tree (entry (mem ?s)) (hhdm ?s) root (tables ?s)"
    using tree_agree [OF tr ent] by (auto simp: tree_def)
  moreover have "hhdm_ok ?s" "vmm_lock ?s = vmm_lock s"
    using hh by (simp_all add: hhdm_ok_def) (simp add: take_page_def sync_settled_def)
  ultimately show ?thesis
    using inv pmm_inv_take_page(1) [OF pm k] by (simp add: vmm_inv_def pt_inv_def)
qed

text \<open>What an operation below the heap may not change.\<close>

definition same_heap :: "nat \<Rightarrow> 'a heap_scheme \<Rightarrow> 'a heap_scheme \<Rightarrow> bool" where
  "same_heap b s s' \<longleftrightarrow>
     vmm.more s' = vmm.more s \<and> hhdm s' = hhdm s \<and> kernel_pagemap s' = kernel_pagemap s \<and>
     (\<forall>x. b \<le> unat x \<longrightarrow> mem s' x = mem s x)"

lemma same_heap_trans: "same_heap b s s1 \<Longrightarrow> same_heap b s1 s2 \<Longrightarrow> same_heap b s s2"
  by (simp add: same_heap_def)

lemma same_heap_fields:
  assumes "same_heap b s s'"
  shows "heap_start s' = heap_start s" "heap_size s' = heap_size s" "heap_head s' = heap_head s"
    "heap_lock s' = heap_lock s" "heap_base s' = heap_base s"
proof -
  have "vmm.more s' = vmm.more s" using assms by (simp add: same_heap_def)
  then show "heap_start s' = heap_start s" "heap_size s' = heap_size s" "heap_head s' = heap_head s"
    "heap_lock s' = heap_lock s" "heap_base s' = heap_base s"
    by (cases s rule: heap.cases_scheme, cases s' rule: heap.cases_scheme, simp add: heap_base_def)+
qed

lemma footprint_below:
  assumes "pt_inv root s" "unat (hhdm s) + 2 ^ 35 \<le> b" "b \<le> unat x"
  shows "outside (footprint root s) x"
  unfolding outside_def
proof
  fix t assume "t \<in> footprint root s"
  have pm: "pmm_inv s" and hh: "hhdm_ok s" using assms(1) by (auto simp: pt_inv_def)
  from \<open>t \<in> footprint root s\<close> obtain f where f: "f \<in> managed_frames s" "t = f + hhdm s"
    using pt_inv_table(1) [OF assms(1)] free_frames_subset [OF pm] by (auto simp: footprint_def tables_def)
  show "x \<notin> region t (2 ^ 12)"
  proof
    assume "x \<in> region t (2 ^ 12)"
    then have "unat x < unat (hhdm s) + 2 ^ 35" using frame_below [OF pm hh f(1)] by (simp only: f(2))
    then show False using assms(2,3) by linarith
  qed
qed

lemma heap_map_pages_ok:
  fixes s :: "'a heap_scheme"
  assumes "vmm_inv (kernel_pagemap s) s" "unat (hhdm s) + 2 ^ 35 \<le> b"
  shows "(\<exists>s'. heap_map_pages js base s = ret s' \<and> vmm_inv (kernel_pagemap s') s' \<and> same_heap b s s' \<and>
      card (free_frames s') + length js \<le> card (free_frames s)) \<or>
    (\<exists>m. heap_map_pages js base s = fails (Panic m))"
  using assms
proof (induction js arbitrary: s)
  case Nil
  then show ?case by (simp add: same_heap_def)
next
  case (Cons j js)
  let ?root = "kernel_pagemap s"
  have pm: "pmm_inv s" and hh: "hhdm_ok s" using Cons.prems(1) by (auto simp: vmm_inv_def pt_inv_def)
  show ?case
  proof (cases "find_free_page s")
    case None
    then show ?thesis by (simp add: pmm_allocate_eq [OF pm])
  next
    case (Some k)
    let ?s1 = "take_page k s" and ?f = "k * PAGE_SIZE"
    let ?virt = "base + of_nat j * PAGE_SIZE" and ?fl = "PTE_PRESENT OR PTE_WRITABLE OR PTE_NX"
    have k: "k \<in> free_set s" using find_free_page_Some(1) [OF Some] .
    then have f: "?f \<in> free_frames s" by (simp add: free_frames_def)
    then have fm: "?f \<in> managed_frames s" using free_frames_subset [OF pm] by blast
    have alloc: "pmm_allocate s = ret (?f, ?s1)" "?f \<noteq> 0"
      using Some managed_frame(3) [OF pm fm] by (simp_all add: pmm_allocate_eq [OF pm])
    have inv1: "vmm_inv ?root ?s1" by (rule vmm_inv_take_page [OF Cons.prems(1) k])
    have kp: "kernel_pagemap ?s1 = ?root" "vmm.more ?s1 = vmm.more s"
      by (simp_all add: take_page_def sync_settled_def)
    have low: "mem ?s1 x = mem s x" if "b \<le> unat x" for x
    proof -
      have "x \<notin> region (?f + hhdm s) (2 ^ 12)" using frame_below [OF pm hh fm] that Cons.prems(2) by fastforce
      then show ?thesis by (simp add: memset_write_block PAGE_SIZE_def write_block_outside)
    qed
    have sh1: "same_heap b s ?s1" using kp low by (simp add: same_heap_def)
    have "finite (free_frames s)" by (simp add: free_frames_def)
    then have c1: "Suc (card (free_frames ?s1)) = card (free_frames s)"
      unfolding free_frames_take_page [OF pm k] using f by (rule card.remove [symmetric])
    show ?thesis
    proof (cases rule: map_page_cases [OF inv1, of ?virt ?f ?fl])
      case 1
      then show ?thesis using alloc kp by simp
    next
      case (2 s2)
      have sh2: "same_heap b ?s1 s2"
        using 2(2) footprint_below [OF _ _, of ?root ?s1 b] inv1 Cons.prems(2)
        by (auto simp: same_heap_def maps_def vmm_inv_def)
      then have sh: "same_heap b s s2" using same_heap_trans [OF sh1] by blast
      have c2: "card (free_frames s2) \<le> card (free_frames ?s1)"
        using 2(2) by (intro card_mono) (auto simp: maps_def free_frames_def)
      have "kernel_pagemap s2 = ?root" "hhdm s2 = hhdm s" using sh by (simp_all add: same_heap_def)
      moreover have "vmm_inv ?root s2" using 2(2) by (simp only: maps_def)
      ultimately have inv2: "vmm_inv (kernel_pagemap s2) s2" "unat (hhdm s2) + 2 ^ 35 \<le> b"
        using Cons.prems(2) by (simp_all only:)
      have step: "heap_map_pages (j # js) base s = heap_map_pages js base s2"
        using alloc 2(1) kp by simp
      from Cons.IH [OF inv2] show ?thesis
        unfolding step using same_heap_trans [OF sh] c1 c2 by fastforce
    qed
  qed
qed

lemma frees_Nil_used: "frees b T = [] \<Longrightarrow> T = [] \<or> snd (last T)"
  by (induction b T rule: frees.induct) (auto split: if_splits)

lemma aligned_start:
  assumes "4096 dvd unat (a :: u64)"
  shows "a AND (PAGE_SIZE - 1) = 0"
proof -
  have "unat (a AND mask 12) = unat a mod 2 ^ 12" by (rule unat_and_mask)
  then show ?thesis using assms unfolding page_mask by (simp add: word_unat_eq_iff mod_eq_0_iff_dvd)
qed

text \<open>The new region becomes the last block of the list.\<close>

definition append_block :: "addr \<Rightarrow> u64 \<Rightarrow> 'a heap_scheme \<Rightarrow> 'a heap_scheme result" where
  "append_block base n s =
     (let s = set_next base NULL (set_size base n s) in
      if heap_head s = NULL then ret (s\<lparr>heap_head := base\<rparr>)
      else rbind (heap_scan (mem s) base NULL (heap_head s)) (\<lambda>(prev, _). ret (heap_insert prev base s)))"

lemma append_block_seg:
  assumes sh: "shape b (T @ [(n, False)])" and adj: "no_adjacent T" and seg: "seg (mem s) (heap_head s) (frees b T) 0"
  defines "a \<equiv> of_nat (b + extent T)"
  shows "\<exists>s'. append_block a (of_nat n) s = ret s' \<and> list_change s s' \<and>
    seg (mem s') (heap_head s') (frees b (tile_grow n T)) 0 \<and>
    (\<forall>x. x \<notin> hdr a \<and> (\<forall>y\<in>fst ` set (frees b T). x \<notin> hdr y) \<longrightarrow> mem s' x = mem s x)"
proof -
  let ?s1 = "set_next a NULL (set_size a (of_nat n) s)"
  note sp = split_shape [OF sh]
  have ok: "blocks_ok (frees b T @ [(a, of_nat n)])" using blocks_ok_frees [OF sh] by (simp add: a_def)
  then have a: "blk_aligned a" "a \<notin> fst ` set (frees b T)" "blocks_ok (frees b T)" by auto
  have seg1: "seg (mem ?s1) (heap_head ?s1) (frees b T) 0" using seg a by (simp add: seg_store)
  have hd1: "hb_size (mem ?s1) a = of_nat n" "hb_next (mem ?s1) a = 0" using a by simp_all
  have ch1: "list_change s ?s1" by (intro list_change_intros)
  have out1: "mem ?s1 x = mem s x" if "x \<notin> hdr a" for x using store64_header [OF that] by simp
  have grow: "tile_grow n T = coalesce (T @ [(n, False)])" by (simp add: tile_grow_def)
  show ?thesis
  proof (cases "heap_head s = NULL")
    case True
    then have none: "frees b T = []" using seg seg_head [of "mem s" "heap_head s" "frees b T" 0] by (cases "frees b T") auto
    have "coalesce (T @ [(n, False)]) = T @ [(n, False)]"
      using coalesce_after_used [OF adj frees_Nil_used [OF none], of "[(n, False)]"] by simp
    then have "seg (mem ?s1) a (frees b (tile_grow n T)) 0"
      using hd1 sp(7) by (simp add: grow none a_def)
    moreover have "append_block a (of_nat n) s = ret (?s1\<lparr>heap_head := a\<rparr>)"
      using True by (simp add: append_block_def Let_def)
    ultimately show ?thesis
      using list_change_intros(4) [OF ch1] out1 by (intro exI [of _ "?s1\<lparr>heap_head := a\<rparr>"]) simp
  next
    case False
    have seg2: "seg (mem ?s1) 0 (frees (b + extent T + n) []) 0" by simp
    have "no_adjacent []" by simp
    note ins = heap_insert_tile [OF sh adj this seg1 seg2, folded a_def, OF hd1(1)]
    let ?prev = "if frees b T = [] then NULL else fst (last (frees b T))"
    let ?s2 = "heap_insert ?prev a ?s1"
    have "append_block a (of_nat n) s = ret ?s2" using False ins(1) by (simp add: append_block_def Let_def)
    moreover have "list_change s ?s2" by (rule list_change_trans [OF ch1 heap_insert_change])
    moreover have "mem ?s2 x = mem s x" if "x \<notin> hdr a" "\<forall>y\<in>fst ` set (frees b T). x \<notin> hdr y" for x
      using ins(3) [OF that] out1 [OF that(1)] by simp
    ultimately show ?thesis using ins(2) by (intro exI [of _ ?s2]) (simp add: grow)
  qed
qed

end
