(* ===== verification/Block_Allocator.thy ===== *)
theory Block_Allocator
  imports Prelude
begin

text \<open>
  The contract between the kernel heap and its callers: a locale with an allocation and a release
  operation over a set of live blocks, and what a caller that only releases blocks it owns gets.
\<close>

datatype request = Alloc u64 | Release nat

text \<open>
  A caller: it keeps the pointers it owns, newest first, and asks for blocks or gives one back.
\<close>

fun client_run ::
  "(u64 \<Rightarrow> 's \<Rightarrow> (addr \<times> 's) result) \<Rightarrow> (addr \<Rightarrow> 's \<Rightarrow> 's result) \<Rightarrow> request list \<Rightarrow>
   addr list \<Rightarrow> 's \<Rightarrow> (addr list \<times> 's) result" where
  "client_run alloc release [] ps s = ret (ps, s)"
| "client_run alloc release (Alloc sz # rs) ps s =
     rbind (alloc sz s) (\<lambda>(p, s). client_run alloc release rs (p # ps) s)"
| "client_run alloc release (Release i # rs) ps s =
     (if i < length ps
      then rbind (release (ps ! i) s) (client_run alloc release rs (take i ps @ drop (Suc i) ps))
      else client_run alloc release rs ps s)"

fun request_ok :: "request \<Rightarrow> bool" where
  "request_ok (Alloc sz) \<longleftrightarrow> sz \<noteq> 0 \<and> unat sz + 32 \<le> 2 ^ 64"
| "request_ok (Release i) \<longleftrightarrow> True"

text \<open>
  The blocks of \<open>L\<close>, as pairs of a pointer and a length, are live in \<open>s\<close>.
\<close>

locale block_allocator =
  fixes live :: "(addr \<times> nat) set \<Rightarrow> 's \<Rightarrow> bool"
    and bytes :: "'s \<Rightarrow> mem"
    and alloc :: "u64 \<Rightarrow> 's \<Rightarrow> (addr \<times> 's) result"
    and release :: "addr \<Rightarrow> 's \<Rightarrow> 's result"
  assumes live_apart: "live L s \<Longrightarrow> (p, n) \<in> L \<Longrightarrow> (q, k) \<in> L \<Longrightarrow> (p, n) \<noteq> (q, k) \<Longrightarrow>
      region p n \<inter> region q k = {}"
    and live_nonempty: "live L s \<Longrightarrow> (p, n) \<in> L \<Longrightarrow> 0 < n"
    and alloc_law: "live L s \<Longrightarrow> request_ok (Alloc sz) \<Longrightarrow>
      (\<exists>m. alloc sz s = fails (Panic m)) \<or>
      (\<exists>p n s'. alloc sz s = ret (p, s') \<and> unat sz \<le> n \<and> (p, n) \<notin> L \<and> live (insert (p, n) L) s' \<and>
         (\<forall>(q, k)\<in>L. \<forall>x\<in>region q k. bytes s' x = bytes s x))"
    and release_law: "live L s \<Longrightarrow> (p, n) \<in> L \<Longrightarrow>
      \<exists>s'. release p s = ret s' \<and> live (L - {(p, n)}) s' \<and>
         (\<forall>(q, k)\<in>L - {(p, n)}. \<forall>x\<in>region q k. bytes s' x = bytes s x)"
begin

lemma live_distinct_start:
  assumes "live L s" "(p, n) \<in> L" "(q, k) \<in> L" "(p, n) \<noteq> (q, k)"
  shows "p \<noteq> q"
proof
  assume "p = q"
  then have "p \<in> region p n \<inter> region q k"
    using live_nonempty [OF assms(1,2)] live_nonempty [OF assms(1,3)]
    unfolding region_def by (auto intro!: image_eqI [of _ _ 0])
  then show False using live_apart [OF assms] by blast
qed

lemma run_ok:
  "live (set B) s \<Longrightarrow> distinct B \<Longrightarrow> \<forall>r\<in>set rs. request_ok r \<Longrightarrow>
   (\<exists>m. client_run alloc release rs (map fst B) s = fails (Panic m)) \<or>
   (\<exists>B' s'. client_run alloc release rs (map fst B) s = ret (map fst B', s') \<and> distinct B' \<and> live (set B') s')"
proof (induction rs arbitrary: B s)
  case Nil
  then show ?case by auto
next
  case (Cons r rs)
  show ?case
  proof (cases r)
    case (Alloc sz)
    then have "request_ok (Alloc sz)" using Cons.prems(3) by simp
    from alloc_law [OF Cons.prems(1) this] show ?thesis
    proof (elim disjE exE conjE)
      fix m assume "alloc sz s = fails (Panic m)"
      then show ?thesis using Alloc by simp
    next
      fix p n s1 assume s1: "alloc sz s = ret (p, s1)" "(p, n) \<notin> set B" "live (insert (p, n) (set B)) s1"
      have "live (set ((p, n) # B)) s1" "distinct ((p, n) # B)" "\<forall>r\<in>set rs. request_ok r"
        using s1 Cons.prems by simp_all
      from Cons.IH [OF this] show ?thesis using Alloc s1(1) by simp
    qed
  next
    case (Release i)
    show ?thesis
    proof (cases "i < length B")
      case False
      then show ?thesis using Release Cons.IH [OF Cons.prems(1,2)] Cons.prems(3) by simp
    next
      case True
      let ?B = "take i B @ drop (Suc i) B"
      obtain p n where pn: "B ! i = (p, n)" by (cases "B ! i")
      have B: "B = take i B @ (p, n) # drop (Suc i) B" using True pn by (metis id_take_nth_drop)
      have "distinct (take i B @ (p, n) # drop (Suc i) B)" using Cons.prems(2) B by simp
      then have d: "distinct ?B" "(p, n) \<notin> set ?B" by simp_all
      have "set B = insert (p, n) (set ?B)" by (subst B) auto
      then have set_B: "set ?B = set B - {(p, n)}" using d(2) by auto
      have "(p, n) \<in> set B" using True pn by (metis nth_mem)
      from release_law [OF Cons.prems(1) this] obtain s1 where
        s1: "release p s = ret s1" "live (set ?B) s1" unfolding set_B by blast
      have "client_run alloc release (r # rs) (map fst B) s = client_run alloc release rs (map fst ?B) s1"
        using True pn s1(1) Release by (simp add: take_map drop_map)
      then show ?thesis using Cons.IH [OF s1(2) d(1)] Cons.prems(3) by simp
    qed
  qed
qed

end

end
