(* ===== verification/Kheap_Alloc.thy ===== *)
theory Kheap_Alloc
  imports Kheap_Refine Block_Allocator
begin

text \<open>
  Growth of the kernel heap and \<open>kmalloc\<close> as first-fit allocation in the tiling. The search
  terminates because every expansion consumes free frames; when they run out the kernel panics.
\<close>

section \<open>Growth of the heap\<close>

lemma heap_size_views [simp]:
  fixes s :: "'a heap_scheme"
  shows "vmm_inv root (s\<lparr>heap_size := n\<rparr>) = vmm_inv root s"
    "free_frames (s\<lparr>heap_size := n\<rparr>) = free_frames s" "heap_base (s\<lparr>heap_size := n\<rparr>) = heap_base s"
  by (simp_all add: vmm_inv_def pt_inv_def pmm_inv_def free_frames_def free_set_def managed_frames_def
      tables_def hhdm_ok_def irq_inv_def heap_base_def)

lemma heap_expand_pages_eq:
  "n \<noteq> 0 \<Longrightarrow> heap_start s AND (PAGE_SIZE - 1) = 0 \<Longrightarrow> heap_size s AND (PAGE_SIZE - 1) = 0 \<Longrightarrow>
   heap_expand_pages n s =
     rbind (heap_map_pages [0..<unat n] (heap_start s + heap_size s) s) (\<lambda>s1.
     rbind (append_block (heap_start s + heap_size s) (n * PAGE_SIZE) s1) (\<lambda>s2.
     ret (True, s2\<lparr>heap_size := heap_size s2 + n * PAGE_SIZE\<rparr>)))"
  by (simp add: heap_expand_pages_def append_block_def Let_def)

lemma same_heap_rel:
  assumes "same_heap (heap_base s) s s'" "heap_rel T s"
  shows "heap_rel T s'"
proof -
  note f = same_heap_fields [OF assms(1)]
  have m: "mem s' x = mem s x" if "heap_base s \<le> unat x" for x
    using assms(1) that by (simp add: same_heap_def)
  have sh: "shape (heap_base s) T" using assms(2) by (simp add: heap_rel_def)
  have "seg (mem s') (heap_head s) (frees (heap_base s) T) 0 = seg (mem s) (heap_head s) (frees (heap_base s) T) 0"
    using free_header_low [OF _ sh] m by (intro seg_mem [OF blocks_ok_frees [OF sh]]) (auto simp: hdr_def)
  moreover have "kept (heap_base s) T (mem s) (mem s')"
    unfolding kept_def
  proof (intro allI impI, elim conjE)
    fix a z x assume az: "(a, z, True) \<in> set (placed (heap_base s) T)" "x \<in> region (of_nat a) z"
    have "a \<le> unat x" using tile_region(1) [OF az(1) sh, of x] az(2) by blast
    moreover have "heap_base s \<le> a" using placed_range(1) [OF az(1)] sh by (simp add: shape_def)
    ultimately show "mem s' x = mem s x" by (intro m) simp
  qed
  ultimately show ?thesis
    using assms(2) f hb_size_kept [OF _ _ sh] by (simp add: heap_rel_def)
qed

lemma heap_grow_rel:
  assumes rel: "heap_rel T s" and room: "heap_base s + extent T + n < 2 ^ 64" and n: "16 dvd n" "0 < n"
    and vm: "vmm_inv (kernel_pagemap s) s" and hi: "unat (hhdm s) + 2 ^ 35 \<le> heap_base s"
  shows "\<exists>s1. append_block (of_nat (heap_base s + extent T)) (of_nat n) s = ret s1 \<and> list_change s s1 \<and>
    heap_rel (tile_grow n T) (s1\<lparr>heap_size := heap_size s + of_nat n\<rparr>) \<and>
    kept (heap_base s) T (mem s) (mem s1) \<and> vmm_inv (kernel_pagemap s) s1"
proof -
  let ?b = "heap_base s" and ?a = "heap_base s + extent T"
  have sh: "shape ?b T" and adj: "no_adjacent T" and ext: "extent T = unat (heap_size s)"
    and sg: "seg (mem s) (heap_head s) (frees ?b T) 0"
    and us: "\<And>a z. (a, z, True) \<in> set (placed ?b T) \<Longrightarrow> hb_size (mem s) (of_nat a) = of_nat z"
    using rel by (auto simp: heap_rel_def)
  have sh': "shape ?b (T @ [(n, False)])" using sh room n by (auto simp: shape_def extent_dvd)
  from append_block_seg [OF sh' adj sg] obtain s1 where s1:
    "append_block (of_nat ?a) (of_nat n) s = ret s1" "list_change s s1"
    "seg (mem s1) (heap_head s1) (frees ?b (tile_grow n T)) 0"
    and out: "\<And>x. x \<notin> hdr (of_nat ?a) \<Longrightarrow> \<forall>y\<in>fst ` set (frees ?b T). x \<notin> hdr y \<Longrightarrow> mem s1 x = mem s x"
    by blast
  have a_in: "(?a, n, False) \<in> set (placed ?b (T @ [(n, False)]))" by simp
  have low: "mem s1 x = mem s x" if "unat x < ?b" for x
    using tile_region(2) [OF a_in sh', of x] free_header_low [OF _ sh, of _ x] that
    by (intro out) force+
  have kept: "kept ?b T (mem s) (mem s1)"
    unfolding kept_def
  proof (intro allI impI, elim conjE)
    fix a z x assume az: "(a, z, True) \<in> set (placed ?b T)" and x: "x \<in> region (of_nat a) z"
    have "unat x < ?a"
      using tile_region(1) [OF az sh, of x] x placed_range(2) [OF az] sh by (simp add: shape_def)
    then show "mem s1 x = mem s x"
      using tile_region(2) [OF a_in sh', of x] free_header_apart [OF _ sh az x]
      by (intro out) auto
  qed
  note f = list_change_fields [OF s1(2)] heap_room_change [OF s1(2)]
  have "heap_rel (tile_grow n T) (s1\<lparr>heap_size := heap_size s + of_nat n\<rparr>)"
    unfolding heap_rel_def heap_size_views(3) f(14)
  proof (intro conjI allI impI)
    show "shape ?b (tile_grow n T)" using sh' by (simp add: shape_def tile_grow_def)
    show "no_adjacent (tile_grow n T)" by (simp add: tile_grow_def no_adjacent_coalesce)
    have "unat (of_nat n :: u64) = n" using room by (intro unat_of_nat_lt) simp
    then show "extent (tile_grow n T) = unat (heap_size (s1\<lparr>heap_size := heap_size s + of_nat n\<rparr>))"
      using room by (simp add: tile_grow_def ext unat_add_lt)
    fix a z assume "(a, z, True) \<in> set (placed ?b (tile_grow n T))"
    then have az: "(a, z, True) \<in> set (placed ?b T)" by (auto simp: tile_grow_def placed_coalesce)
    then show "hb_size (mem (s1\<lparr>heap_size := heap_size s + of_nat n\<rparr>)) (of_nat a) = of_nat z"
      using hb_size_kept [OF kept az sh] us by simp
  qed (use s1(3) in simp)
  moreover have "vmm_inv (kernel_pagemap s) s1"
    using vmm_inv_list_change(1) [OF vm s1(2) hi low] .
  ultimately show ?thesis using s1(1,2) kept by blast
qed

lemma heap_expand_ok:
  assumes vm: "vmm_inv (kernel_pagemap s) s" and rel: "heap_rel T s" and room: "heap_room s" and n: "n \<noteq> 0"
  shows "(\<exists>m. heap_expand_pages n s = fails (Panic m)) \<or>
    (\<exists>s'. heap_expand_pages n s = ret (True, s') \<and> vmm_inv (kernel_pagemap s') s' \<and>
       heap_rel (tile_grow (4096 * unat n) T) s' \<and> heap_room s' \<and> heap_lock s' = heap_lock s \<and>
       heap_start s' = heap_start s \<and> kept (heap_base s) T (mem s) (mem s') \<and>
       card (free_frames s') + unat n \<le> card (free_frames s))"
proof -
  let ?b = "heap_base s" and ?js = "[0..<unat n]" and ?base = "heap_start s + heap_size s"
  have r: "unat (hhdm s) + 2 ^ 35 \<le> ?b" "?b + 2 ^ 36 \<le> 2 ^ 64" "4096 dvd ?b" "4096 dvd unat (heap_size s)"
    "unat (heap_size s) + 4096 * card (free_frames s) \<le> 2 ^ 35"
    using room by (simp_all add: heap_room_def)
  have eq: "heap_expand_pages n s = rbind (heap_map_pages ?js ?base s) (\<lambda>s1.
     rbind (append_block ?base (n * PAGE_SIZE) s1) (\<lambda>s2. ret (True, s2\<lparr>heap_size := heap_size s2 + n * PAGE_SIZE\<rparr>)))"
    using r by (intro heap_expand_pages_eq n aligned_start) (simp_all add: heap_base_def)
  from heap_map_pages_ok [OF vm r(1), of ?js ?base] show ?thesis
  proof (elim disjE exE conjE)
    fix m assume "heap_map_pages ?js ?base s = fails (Panic m)"
    then show ?thesis by (simp add: eq)
  next
    fix s1 assume s1: "heap_map_pages ?js ?base s = ret s1" "vmm_inv (kernel_pagemap s1) s1"
      "same_heap ?b s s1" "card (free_frames s1) + length ?js \<le> card (free_frames s)"
    note f = same_heap_fields [OF s1(3)]
    have n': "4096 * unat n \<le> 2 ^ 35" using s1(4) r(5) by simp
    have np: "0 < unat n" using n by (simp add: unat_gt_0)
    have rel1: "heap_rel T s1" by (rule same_heap_rel [OF s1(3) rel])
    have ext: "extent T = unat (heap_size s)" using rel by (simp add: heap_rel_def)
    have hh: "hhdm s1 = hhdm s" "kernel_pagemap s1 = kernel_pagemap s" using s1(3) by (simp_all add: same_heap_def)
    have bnd: "heap_base s1 + extent T + 4096 * unat n < 2 ^ 64" using f(5) ext r(2,5) s1(4) by simp
    have at: "?base = of_nat (heap_base s1 + extent T)" by (simp add: f heap_base_def ext)
    have sz: "n * PAGE_SIZE = of_nat (4096 * unat n)" by (simp add: PAGE_SIZE_def)
    have dv: "16 dvd 4096 * unat n" by simp
    have hi1: "unat (hhdm s1) + 2 ^ 35 \<le> heap_base s1" using r(1) f hh by simp
    have p: "0 < 4096 * unat n" using np by simp
    from heap_grow_rel [OF rel1 bnd dv p s1(2) hi1]
    obtain s2 where s2: "append_block ?base (n * PAGE_SIZE) s1 = ret s2" "list_change s1 s2"
      "heap_rel (tile_grow (4096 * unat n) T) (s2\<lparr>heap_size := heap_size s1 + n * PAGE_SIZE\<rparr>)"
      "kept (heap_base s1) T (mem s1) (mem s2)" "vmm_inv (kernel_pagemap s1) s2"
      unfolding at sz by blast
    note g = list_change_fields [OF s2(2)] heap_room_change [OF s2(2)]
    let ?s3 = "s2\<lparr>heap_size := heap_size s1 + n * PAGE_SIZE\<rparr>"
    have "heap_expand_pages n s = ret (True, ?s3)" using s1(1) s2(1) g(2) by (simp add: eq)
    moreover have "kept ?b T (mem s) (mem ?s3)"
    proof -
      have sh: "shape ?b T" using rel by (simp add: heap_rel_def)
      have "mem s1 x = mem s x" if az: "(a, z, True) \<in> set (placed ?b T)" "x \<in> region (of_nat a) z" for a z x
      proof -
        have "?b \<le> unat x"
          using tile_region(1) [OF az(1) sh, of x] az placed_range(1) [OF az(1)] sh by (auto simp: shape_def)
        then show ?thesis using s1(3) by (simp add: same_heap_def)
      qed
      then show ?thesis using s2(4) f(5) by (auto simp: kept_def)
    qed
    moreover have "heap_room ?s3"
    proof -
      have sz3: "unat (heap_size s1 + n * PAGE_SIZE) = unat (heap_size s) + 4096 * unat n"
      proof -
        have "unat (of_nat (4096 * unat n) :: u64) = 4096 * unat n" using n' by (intro unat_of_nat_lt) simp
        then show ?thesis unfolding sz f(2) using n' r(5) by (simp add: unat_add_lt del: of_nat_mult)
      qed
      have "4096 dvd unat (heap_size s) + 4096 * unat n" using r(4) by (rule dvd_add) simp
      then show ?thesis
        unfolding heap_room_def using sz3 g f hh r s1(4) by (auto simp: heap_base_def)
    qed
    moreover have "vmm_inv (kernel_pagemap ?s3) ?s3" using s2(5) g(7) by simp
    moreover have "card (free_frames ?s3) + unat n \<le> card (free_frames s)" using g(5) s1(4) by simp
    moreover have "heap_lock ?s3 = heap_lock s" "heap_start ?s3 = heap_start s" using g f by simp_all
    ultimately show ?thesis using s2(3) by blast
  qed
qed

section \<open>First fit\<close>

lemma seg_take_split:
  fixes n v :: u64
  assumes ok: "blocks_ok (xs @ (c, sz) # ys)" and seg: "seg (mem s) (heap_head s) (xs @ (c, sz) # ys) 0"
    and nb: "blk_aligned nb" "nb \<notin> fst ` set (xs @ (c, sz) # ys)" "nb \<noteq> 0"
  defines "prev \<equiv> (if xs = [] then NULL else fst (last xs))"
  defines "s1 \<equiv> set_size c n (set_next nb (hb_next (mem (set_size nb v s)) c) (set_size nb v s))"
  defines "s2 \<equiv> (if prev = NULL then s1\<lparr>heap_head := nb\<rparr> else set_next prev nb s1)"
  shows "seg (mem s2) (heap_head s2) (xs @ (nb, v) # ys) 0" "hb_size (mem s2) c = n"
proof -
  have "seg (mem s2) (heap_head s2) (xs @ (nb, v) # ys) 0 \<and> hb_size (mem s2) c = n"
  proof (cases "xs = []")
    case True
    then show ?thesis using assms by (auto simp: seg_store prev_def s2_def s1_def)
  next
    case False
    then obtain xs' a w where xs: "xs = xs' @ [(a, w)]" by (metis prod.exhaust rev_exhaust)
    then have "prev = a" "a \<noteq> 0" using seg by (auto simp: prev_def seg_append)
    moreover have "nb \<notin> fst ` set xs'" "nb \<notin> fst ` set ys" "nb \<noteq> a" "nb \<noteq> c" using nb(2) by (auto simp: xs)
    ultimately show ?thesis using ok seg nb(1,3) by (auto simp: s2_def s1_def xs seg_append seg_store)
  qed
  then show "seg (mem s2) (heap_head s2) (xs @ (nb, v) # ys) 0" "hb_size (mem s2) c = n" by auto
qed

lemma seg_take_all:
  assumes ok: "blocks_ok (xs @ (c, sz) # ys)" and seg: "seg (mem s) (heap_head s) (xs @ (c, sz) # ys) 0"
  defines "prev \<equiv> (if xs = [] then NULL else fst (last xs))"
  defines "s1 \<equiv> (if prev = NULL then s\<lparr>heap_head := hb_next (mem s) c\<rparr> else set_next prev (hb_next (mem s) c) s)"
  shows "seg (mem s1) (heap_head s1) (xs @ ys) 0" "hb_size (mem s1) c = sz"
proof -
  have "seg (mem s1) (heap_head s1) (xs @ ys) 0 \<and> hb_size (mem s1) c = sz"
  proof (cases "xs = []")
    case True
    then show ?thesis using assms by (auto simp: prev_def s1_def)
  next
    case False
    then obtain xs' a w where xs: "xs = xs' @ [(a, w)]" by (metis prod.exhaust rev_exhaust)
    then have "prev = a" "a \<noteq> 0" using seg by (auto simp: prev_def seg_append)
    then show ?thesis using ok seg by (auto simp: s1_def xs seg_append seg_store)
  qed
  then show "seg (mem s1) (heap_head s1) (xs @ ys) 0" "hb_size (mem s1) c = sz" by auto
qed

lemma heap_take_outside:
  assumes "x \<notin> hdr cur" "prev = NULL \<or> x \<notin> hdr prev" "hb_size (mem s) cur \<ge> n + MIN_ALLOC_SIZE \<Longrightarrow> x \<notin> hdr (cur + n)"
  shows "mem (heap_take n prev cur s) x = mem s x"
  using assms by (auto simp: heap_take_def Let_def store64_header)

lemma heap_take_tile:
  assumes sh: "shape b (T1 @ (sz, False) # T2)"
    and seg: "seg (mem s) (heap_head s) (frees b (T1 @ (sz, False) # T2)) 0"
    and n: "n \<le> sz" "16 dvd n" "0 < n"
  defines "a \<equiv> b + extent T1" and "prev \<equiv> (if frees b T1 = [] then NULL else fst (last (frees b T1)))"
    and "R \<equiv> (if n + 16 \<le> sz then [(n, True), (sz - n, False)] else [(sz, True)])"
  defines "s' \<equiv> heap_take (of_nat n) prev (of_nat a) s"
  shows "seg (mem s') (heap_head s') (frees b (T1 @ R @ T2)) 0"
    and "hb_size (mem s') (of_nat a) = of_nat (fst (hd R))"
    and "\<And>x. x \<notin> region (of_nat a) sz \<Longrightarrow> \<forall>y\<in>fst ` set (frees b T1). x \<notin> hdr y \<Longrightarrow> mem s' x = mem s x"
proof -
  note sp = split_shape [OF sh, folded a_def] and bd = frees_bounds [OF sh, folded a_def]
  have ok: "blocks_ok (frees b T1 @ (of_nat a, of_nat sz) # frees (a + sz) T2)"
    using blocks_ok_frees [OF sh] by (simp add: a_def)
  have sg: "seg (mem s) (heap_head s) (frees b T1 @ (of_nat a, of_nat sz) # frees (a + sz) T2) 0"
    using seg by (simp add: a_def)
  have cur: "hb_size (mem s) (of_nat a) = of_nat sz" using sg by (auto simp: seg_append)
  have a16: "16 \<le> a" using sp(2,10) by (auto dest: dvd_imp_le)
  have un: "unat (of_nat n :: u64) = n" using n(1) sp(8) by (intro unat_of_nat_lt) simp
  have split_iff: "of_nat n + MIN_ALLOC_SIZE \<le> (of_nat sz :: u64) \<longleftrightarrow> n + 16 \<le> sz"
  proof -
    have "unat (of_nat n + 16 :: u64) = n + 16" using un n(1) sp(8) a16 by (simp add: unat_add_lt)
    then show ?thesis using sp(5) by (simp add: word_le_nat_alt MIN_ALLOC_SIZE_def)
  qed
  have T1R: "frees b (T1 @ R @ T2) = frees b T1 @
      (if n + 16 \<le> sz then [(of_nat a + of_nat n, of_nat sz - of_nat n)] else []) @ frees (a + sz) T2"
    using n(1) by (auto simp: R_def a_def of_nat_diff)
  have a_in: "(a, sz, False) \<in> set (placed b (T1 @ (sz, False) # T2))" by (simp add: a_def)
  have "seg (mem s') (heap_head s') (frees b (T1 @ R @ T2)) 0 \<and> hb_size (mem s') (of_nat a) = of_nat (fst (hd R))"
  proof (cases "n + 16 \<le> sz")
    case True
    let ?nb = "of_nat a + of_nat n :: u64"
    have unb: "unat ?nb = a + n" using sp(3,8) un n(1) by (simp add: unat_add_lt)
    have nb: "blk_aligned ?nb" using unb sp(10) n(2) by simp
    have nz: "?nb \<noteq> 0" using unb n(3) by (metis add_is_0 less_numeral_extra(3) unat_0)
    have notin: "?nb \<notin> fst ` set (frees b T1 @ (of_nat a, of_nat sz) # frees (a + sz) T2)"
    proof -
      have "x < of_nat a" if "x \<in> fst ` set (frees b T1)" for x using bd(1) that by blast
      moreover have "unat (of_nat a :: u64) \<le> unat ?nb" using unb sp(3) by simp
      moreover have "a + sz \<le> unat x" if "x \<in> fst ` set (frees (a + sz) T2)" for x
        using frees_addr(1) [OF _ that] sp(2) by simp
      ultimately show ?thesis using unb n(3) True sp(3) by (force simp: word_less_nat_alt)
    qed
    note r = seg_take_split [OF ok sg nb notin nz, of "of_nat n" "of_nat sz - of_nat n", folded prev_def]
    have okx: "blocks_ok (frees b T1 @ (?nb, of_nat sz - of_nat n) # frees (a + sz) T2)" using ok nb notin by auto
    have an: "of_nat a \<notin> fst ` set (frees b T1 @ (?nb, of_nat sz - of_nat n) # frees (a + sz) T2)"
      using ok notin by auto
    define s1 where "s1 = set_size (of_nat a) (of_nat n) (set_next ?nb
      (hb_next (mem (set_size ?nb (of_nat sz - of_nat n) s)) (of_nat a)) (set_size ?nb (of_nat sz - of_nat n) s))"
    define s2 where "s2 = (if prev = NULL then s1\<lparr>heap_head := ?nb\<rparr> else set_next prev ?nb s1)"
    have "s' = set_size (of_nat a) (hb_size (mem s2) (of_nat a)) s2"
      using True split_iff by (simp add: s'_def heap_take_def Let_def cur s1_def s2_def)
    then show ?thesis
      unfolding T1R using True r [folded s1_def, folded s2_def] seg_store(1) [OF okx sp(4) an] sp(4)
      by (simp add: R_def)
  next
    case False
    note r = seg_take_all [OF ok sg, folded prev_def]
    have okx: "blocks_ok (frees b T1 @ frees (a + sz) T2)" using ok by auto
    have an: "of_nat a \<notin> fst ` set (frees b T1 @ frees (a + sz) T2)" using ok by auto
    define s2 where "s2 = (if prev = NULL then s\<lparr>heap_head := hb_next (mem s) (of_nat a)\<rparr>
      else set_next prev (hb_next (mem s) (of_nat a)) s)"
    have "s' = set_size (of_nat a) (hb_size (mem s2) (of_nat a)) s2"
      using False split_iff by (simp add: s'_def heap_take_def Let_def cur s2_def)
    then show ?thesis
      unfolding T1R using False r [folded s2_def] seg_store(1) [OF okx sp(4) an] sp(4) by (simp add: R_def)
  qed
  then show "seg (mem s') (heap_head s') (frees b (T1 @ R @ T2)) 0"
    and "hb_size (mem s') (of_nat a) = of_nat (fst (hd R))" by auto
  show "mem s' x = mem s x" if x: "x \<notin> region (of_nat a) sz" "\<forall>y\<in>fst ` set (frees b T1). x \<notin> hdr y" for x
    unfolding s'_def
  proof (rule heap_take_outside)
    show "x \<notin> hdr (of_nat a)" using tile_region [OF a_in sh, of x] x(1) by blast
    show "prev = NULL \<or> x \<notin> hdr prev" using x(2) last_in_set [of "frees b T1"] by (auto simp: prev_def)
    assume "of_nat n + MIN_ALLOC_SIZE \<le> hb_size (mem s) (of_nat a)"
    then have le: "n + 16 \<le> sz" using split_iff cur by simp
    have "x \<in> region (of_nat a) sz" if h: "x \<in> hdr (of_nat a + of_nat n)"
    proof -
      obtain i where "i < 16" "x = of_nat a + of_nat (n + i)" using h by (auto simp: hdr_def region_def add.assoc)
      then show ?thesis using le unfolding region_def by (intro image_eqI [of _ _ "n + i"]) auto
    qed
    then show "x \<notin> hdr (of_nat a + of_nat n)" using x(1) by blast
  qed
qed

text \<open>\<open>heap_ready\<close>: the heap invariant without the lock, as it holds inside the critical section.\<close>

definition heap_ready :: "tile list \<Rightarrow> 'a heap_scheme \<Rightarrow> bool" where
  "heap_ready T s \<longleftrightarrow> vmm_inv (kernel_pagemap s) s \<and> heap_rel T s \<and> heap_room s"

lemma heap_inv_ready: "heap_inv T s \<longleftrightarrow> heap_ready T s \<and> \<not> latch (heap_lock s)"
  by (auto simp: heap_inv_def heap_ready_def)

lemma heap_take_ready:
  assumes r: "heap_ready (T1 @ (sz, False) # T2) s" and n: "n \<le> sz" "16 dvd n" "0 < n"
  defines "b \<equiv> heap_base s"
  defines "prev \<equiv> (if frees b T1 = [] then NULL else fst (last (frees b T1)))"
    and "R \<equiv> (if n + 16 \<le> sz then [(n, True), (sz - n, False)] else [(sz, True)])"
  defines "s' \<equiv> heap_take (of_nat n) prev (of_nat (b + extent T1)) s"
  shows "heap_ready (T1 @ R @ T2) s'" "kept b (T1 @ (sz, False) # T2) (mem s) (mem s')" "heap_start s' = heap_start s"
proof -
  let ?T = "T1 @ (sz, False) # T2" and ?a = "b + extent T1"
  have vm: "vmm_inv (kernel_pagemap s) s" and room: "heap_room s" and sh: "shape b ?T" and adj: "no_adjacent ?T"
    and ext: "extent ?T = unat (heap_size s)" and sg: "seg (mem s) (heap_head s) (frees b ?T) 0"
    and us: "\<And>a z. (a, z, True) \<in> set (placed b ?T) \<Longrightarrow> hb_size (mem s) (of_nat a) = of_nat z"
    using r by (auto simp: heap_ready_def heap_rel_def b_def)
  note tk = heap_take_tile [OF sh sg n, folded prev_def R_def, folded s'_def]
  have ch: "list_change s s'" unfolding s'_def by (rule heap_take_change)
  note f = list_change_fields [OF ch] heap_room_change [OF ch]
  show "heap_start s' = heap_start s" by (rule f(1))
  have a_in: "(?a, sz, False) \<in> set (placed b ?T)" by simp
  have shT1: "shape b T1" using split_shape(1) [OF sh] .
  have szs: "sizes_ok ?T" using sh by (simp add: shape_def)
  have low: "mem s' x = mem s x" if "unat x < b" for x
    using tile_region(1) [OF a_in sh, of x] free_header_low [OF _ shT1, of _ x] that
    by (intro tk(3)) force+
  show kept: "kept b ?T (mem s) (mem s')"
    unfolding kept_def
  proof (intro allI impI, elim conjE)
    fix a z x assume az: "(a, z, True) \<in> set (placed b ?T)" and x: "x \<in> region (of_nat a) z"
    show "mem s' x = mem s x"
    proof (rule tk(3))
      show "x \<notin> region (of_nat ?a) sz"
        using tile_region(1) [OF a_in sh, of x] tile_region(1) [OF az sh, of x] x placed_disjoint [OF a_in az szs]
        by auto
      show "\<forall>y\<in>fst ` set (frees b T1). x \<notin> hdr y" using free_header_apart [OF _ sh az x] by simp
    qed
  qed
  have ext': "extent (T1 @ R @ T2) = extent ?T" using n by (simp add: R_def)
  have "sizes_ok (T1 @ R @ T2)" using szs n by (auto simp: R_def intro: dvd_diff_nat)
  then have sh': "shape b (T1 @ R @ T2)" using sh ext' by (simp add: shape_def)
  have "hb_size (mem s') (of_nat a) = of_nat z" if az: "(a, z, True) \<in> set (placed b (T1 @ R @ T2))" for a z
  proof (cases "(a, z) = (?a, fst (hd R))")
    case True
    then show ?thesis using tk(2) by simp
  next
    case False
    then have old: "(a, z, True) \<in> set (placed b ?T)" using az n by (auto simp: R_def split: if_splits)
    then show ?thesis using hb_size_kept [OF kept old sh] us by simp
  qed
  then have "heap_rel (T1 @ R @ T2) s'"
    using sh' ext' ext tk(1) f adj n
    by (auto simp: heap_rel_def b_def R_def no_adjacent_append no_adjacent_Cons)
  moreover have "unat (hhdm s) + 2 ^ 35 \<le> b" using room by (simp add: heap_room_def b_def)
  ultimately show "heap_ready (T1 @ R @ T2) s'"
    using vmm_inv_list_change(1) [OF vm ch _ low] room f by (simp add: heap_ready_def)
qed

lemma kmalloc_loop_skip:
  assumes "seg (mem s) p xs q" "\<forall>x\<in>set xs. snd x < n"
  shows "kmalloc_loop n prev p s = kmalloc_loop n (if xs = [] then prev else fst (last xs)) q s"
  using assms
proof (induction xs arbitrary: p prev)
  case (Cons y xs)
  obtain a v where y: "y = (a, v)" by (cases y)
  have "kmalloc_loop n prev p s = kmalloc_loop n a (hb_next (mem s) a) s"
    using Cons.prems by (subst kmalloc_loop.simps) (auto simp: y not_le)
  also have "\<dots> = kmalloc_loop n (if xs = [] then a else fst (last xs)) q s"
    using Cons.prems by (intro Cons.IH) (auto simp: y)
  finally show ?case by (simp add: y)
qed simp

lemma frees_small:
  assumes "shape b T" "\<forall>t\<in>set T. snd t \<or> fst t < n" "n < 2 ^ 64"
  shows "\<forall>x\<in>set (frees b T). snd x < of_nat n"
proof (intro ballI)
  fix x assume "x \<in> set (frees b T)"
  then obtain a z where z: "snd x = of_nat z" "(a, z, False) \<in> set (placed b T)"
    using frees_placed [of "fst x" "snd x" b T] by auto
  have "(z, False) \<in> set T" using z(2) by (induction b T rule: placed.induct) auto
  then have "z < n" using assms(2) by force
  then show "snd x < of_nat n" using z(1) assms(3) by (simp add: word_less_nat_alt unat_of_nat_lt)
qed

text \<open>A block that fits is taken.\<close>

lemma kmalloc_loop_found:
  assumes r: "heap_ready T s" and al: "tile_alloc n T = Some (k, T')" and n: "16 dvd n" "0 < n"
  shows "\<exists>s'. kmalloc_loop (of_nat n) NULL (heap_head s) s = ret (of_nat (heap_base s + k) + 16, s') \<and>
    heap_inv T' s' \<and> kept (heap_base s) T (mem s) (mem s') \<and> heap_start s' = heap_start s"
proof -
  let ?b = "heap_base s"
  obtain T1 sz T2 where T: "T = T1 @ (sz, False) # T2" "k = extent T1" "n \<le> sz" "\<forall>t\<in>set T1. snd t \<or> fst t < n"
    "T' = T1 @ (if n + 16 \<le> sz then [(n, True), (sz - n, False)] else [(sz, True)]) @ T2"
    using tile_alloc_split [OF al] by blast
  let ?prev = "if frees ?b T1 = [] then NULL else fst (last (frees ?b T1))" and ?a = "?b + extent T1"
  let ?s1 = "heap_take (of_nat n) ?prev (of_nat ?a) s"
  have sh: "shape ?b (T1 @ (sz, False) # T2)" and sg: "seg (mem s) (heap_head s) (frees ?b T) 0"
    using r by (auto simp: heap_ready_def heap_rel_def T(1))
  note sp = split_shape [OF sh]
  have n64: "n < 2 ^ 64" using T(3) sp(8) by simp
  have sg': "seg (mem s) (heap_head s) (frees ?b T1) (of_nat ?a)" "hb_size (mem s) (of_nat ?a) = of_nat sz"
    using sg by (auto simp: T(1) seg_append)
  have fit: "of_nat n \<le> (of_nat sz :: u64)" using T(3) sp(5) n64 by (simp add: word_le_nat_alt unat_of_nat_lt)
  have "kmalloc_loop (of_nat n) NULL (heap_head s) s = kmalloc_loop (of_nat n) ?prev (of_nat ?a) s"
    using kmalloc_loop_skip [OF sg'(1) frees_small [OF sp(1) T(4) n64], of NULL] .
  also have "\<dots> = ret (of_nat ?a + 16, ?s1\<lparr>heap_lock := unlocked\<rparr>)"
    using sp(7) fit sg'(2) by (subst kmalloc_loop.simps) (simp add: Let_def del: of_nat_add)
  finally have run: "kmalloc_loop (of_nat n) NULL (heap_head s) s = ret (of_nat ?a + 16, ?s1\<lparr>heap_lock := unlocked\<rparr>)" .
  note tk = heap_take_ready [OF r [unfolded T(1)] T(3) n]
  have "heap_inv T' (?s1\<lparr>heap_lock := unlocked\<rparr>)"
    using tk(1) by (simp add: heap_inv_ready heap_ready_def T(5))
  then show ?thesis
    using run tk(2,3) by (intro exI [of _ "?s1\<lparr>heap_lock := unlocked\<rparr>"]) (simp add: T(1,2))
qed

lemma kept_trans:
  assumes "kept b T m m1" "kept b T1 m1 m2" "\<And>a z. (a, z, True) \<in> set (placed b T) \<Longrightarrow> (a, z, True) \<in> set (placed b T1)"
  shows "kept b T m m2"
  using assms unfolding kept_def by metis

lemma tile_grow_used: "(a, z, True) \<in> set (placed b T) \<Longrightarrow> (a, z, True) \<in> set (placed b (tile_grow n T))"
  by (simp add: tile_grow_def placed_coalesce)

text \<open>
  The tiling after expanding by 16 pages as often as first fit needs, with \<open>j\<close> expansions.
\<close>

definition grown :: "nat \<Rightarrow> tile list \<Rightarrow> tile list" where
  "grown j T = (tile_grow (16 * 4096) ^^ j) T"

lemma kmalloc_loop_ok:
  assumes "heap_ready T s" "16 dvd n" "0 < n" "n < 2 ^ 64"
  shows "(\<exists>m. kmalloc_loop (of_nat n) NULL (heap_head s) s = fails (Panic m)) \<or>
    (\<exists>j k T' s'. kmalloc_loop (of_nat n) NULL (heap_head s) s = ret (of_nat (heap_base s + k) + 16, s') \<and>
       tile_alloc n (grown j T) = Some (k, T') \<and> (\<forall>i<j. tile_alloc n (grown i T) = None) \<and>
       heap_inv T' s' \<and> kept (heap_base s) T (mem s) (mem s') \<and> heap_start s' = heap_start s)"
  using assms(1)
proof (induction "card (free_frames s)" arbitrary: s T rule: less_induct)
  case less
  show ?case
  proof (cases "tile_alloc n T")
    case (Some r)
    obtain k T' where r: "r = (k, T')" by (cases r)
    from kmalloc_loop_found [OF less.prems Some [unfolded r] assms(2,3)] Some r show ?thesis
      by - (rule disjI2, rule exI [of _ 0], auto simp: grown_def)
  next
    case None
    have sg: "seg (mem s) (heap_head s) (frees (heap_base s) T) 0" and sh: "shape (heap_base s) T"
      and vm: "vmm_inv (kernel_pagemap s) s" "heap_rel T s" "heap_room s"
      using less.prems by (auto simp: heap_ready_def heap_rel_def)
    have "\<forall>t\<in>set T. snd t \<or> fst t < n" using None tile_alloc_None by blast
    note skip = kmalloc_loop_skip [OF sg frees_small [OF sh this assms(4)], of NULL]
    have "(16 :: u64) \<noteq> 0" by simp
    from heap_expand_ok [OF vm this] show ?thesis
    proof (elim disjE exE conjE)
      fix m assume "heap_expand_pages 16 s = fails (Panic m)"
      then show ?thesis unfolding skip by (subst kmalloc_loop.simps) simp
    next
      fix s1 assume s1: "heap_expand_pages 16 s = ret (True, s1)" "vmm_inv (kernel_pagemap s1) s1"
        "heap_rel (tile_grow (4096 * unat (16 :: u64)) T) s1" "heap_room s1" "heap_start s1 = heap_start s"
        "kept (heap_base s) T (mem s) (mem s1)" "card (free_frames s1) + unat (16 :: u64) \<le> card (free_frames s)"
      let ?T = "tile_grow (16 * 4096) T"
      have run: "kmalloc_loop (of_nat n) NULL (heap_head s) s = kmalloc_loop (of_nat n) NULL (heap_head s1) s1"
        unfolding skip by (subst kmalloc_loop.simps) (simp add: s1(1))
      have b: "heap_base s1 = heap_base s" using s1(5) by (simp add: heap_base_def)
      have gr: "grown (Suc j) T = grown j ?T" for j by (simp only: grown_def funpow_Suc_right comp_def)
      have "heap_ready ?T s1" using s1 by (simp add: heap_ready_def)
      moreover have "card (free_frames s1) < card (free_frames s)" using s1(7) by simp
      ultimately consider (fails) m where "kmalloc_loop (of_nat n) NULL (heap_head s1) s1 = fails (Panic m)"
        | (ok) j k T' s' where "kmalloc_loop (of_nat n) NULL (heap_head s1) s1 = ret (of_nat (heap_base s1 + k) + 16, s')"
          "tile_alloc n (grown j ?T) = Some (k, T')" "\<forall>i<j. tile_alloc n (grown i ?T) = None"
          "heap_inv T' s'" "kept (heap_base s1) ?T (mem s1) (mem s')" "heap_start s' = heap_start s1"
        using less.hyps [of s1 ?T] by blast
      then show ?thesis
      proof cases
        case fails
        then show ?thesis using run by simp
      next
        case ok
        have "kept (heap_base s) T (mem s) (mem s')"
          using kept_trans [OF s1(6) ok(5) [unfolded b]] tile_grow_used by blast
        moreover have "\<forall>i<Suc j. tile_alloc n (grown i T) = None"
        proof (intro allI impI)
          fix i assume "i < Suc j"
          then show "tile_alloc n (grown i T) = None"
            using ok(3) None gr by (cases i) (auto simp: grown_def)
        qed
        ultimately show ?thesis
          using run ok(1,2,4,6) s1(5) b gr by - (rule disjI2, rule exI [of _ "Suc j"], auto)
      qed
    qed
  qed
qed

section \<open>The allocator\<close>

text \<open>Bytes of the block that serves a request: the payload rounded up to 16, and the header.\<close>

definition block_bytes :: "u64 \<Rightarrow> nat" where
  "block_bytes sz = (unat sz + 15) div 16 * 16 + 16"

lemma block_bytes_ok: "16 dvd block_bytes sz" "0 < block_bytes sz" "unat sz + 16 \<le> block_bytes sz"
  by (simp_all add: block_bytes_def)

lemma kmalloc_total:
  assumes "unat sz + 32 \<le> 2 ^ 64"
  shows "ALIGN_UP_HEAP sz + header_sz = of_nat (block_bytes sz)" "block_bytes sz < 2 ^ 64"
    "\<not> ALIGN_UP_HEAP sz + header_sz < MIN_ALLOC_SIZE"
proof -
  have u: "unat (sz + 15) = unat sz + 15" using assms by (simp add: unat_add_lt)
  have "unat (ALIGN_UP_HEAP sz) = unat (sz + 15) div 2 ^ 4 * 2 ^ 4"
    using unat_and_not_mask [of "sz + 15" 4] by (simp add: ALIGN_UP_HEAP_def HEAP_ALIGNMENT_def mask_eq_exp_minus_1 add.commute)
  then have a: "unat (ALIGN_UP_HEAP sz) + 16 = block_bytes sz" by (simp add: u block_bytes_def)
  have le: "(unat sz + 15) div 16 * 16 \<le> unat sz + 15" by simp
  then show lt: "block_bytes sz < 2 ^ 64" using assms unfolding block_bytes_def by linarith
  have "unat (ALIGN_UP_HEAP sz + header_sz) = block_bytes sz"
    using a lt by (simp add: unat_add_lt)
  then show "ALIGN_UP_HEAP sz + header_sz = of_nat (block_bytes sz)"
    using lt by (simp add: word_unat_eq_iff unat_of_nat_lt)
  show "\<not> ALIGN_UP_HEAP sz + header_sz < MIN_ALLOC_SIZE"
    using \<open>unat (ALIGN_UP_HEAP sz + header_sz) = block_bytes sz\<close> block_bytes_ok(3) [of sz]
    by (simp add: word_less_nat_alt MIN_ALLOC_SIZE_def)
qed

lemma kmalloc_eq:
  assumes "sz \<noteq> 0" "unat sz + 32 \<le> 2 ^ 64" "\<not> latch (heap_lock s)"
  shows "kmalloc sz s = kmalloc_loop (of_nat (block_bytes sz)) NULL (heap_head s)
    (s\<lparr>heap_lock := (heap_lock s)\<lparr>latch := True, func := Some ''kmalloc''\<rparr>\<rparr>)"
  using assms kmalloc_total [OF assms(2)] by (simp add: kmalloc_def Let_def)

lemma kmalloc_tile:
  assumes inv: "heap_inv T s" and sz: "sz \<noteq> 0" "unat sz + 32 \<le> 2 ^ 64"
  shows "(\<exists>m. kmalloc sz s = fails (Panic m) \<and> tile_alloc (block_bytes sz) T = None) \<or>
    (\<exists>j k T' s'. kmalloc sz s = ret (of_nat (heap_base s + k) + 16, s') \<and>
       tile_alloc (block_bytes sz) (grown j T) = Some (k, T') \<and>
       (\<forall>i<j. tile_alloc (block_bytes sz) (grown i T) = None) \<and>
       heap_inv T' s' \<and> kept (heap_base s) T (mem s) (mem s') \<and> heap_start s' = heap_start s)"
proof -
  let ?s = "s\<lparr>heap_lock := (heap_lock s)\<lparr>latch := True, func := Some ''kmalloc''\<rparr>\<rparr>"
  let ?n = "block_bytes sz"
  have lk: "\<not> latch (heap_lock s)" and rd: "heap_ready T ?s"
    using inv by (simp_all add: heap_inv_def heap_ready_def)
  have eq: "kmalloc sz s = kmalloc_loop (of_nat ?n) NULL (heap_head ?s) ?s" using kmalloc_eq [OF sz lk] by simp
  show ?thesis
  proof (cases "tile_alloc ?n T")
    case None
    then show ?thesis
      using kmalloc_loop_ok [OF rd block_bytes_ok(1,2) kmalloc_total(2) [OF sz(2)]] unfolding eq by simp
  next
    case (Some r)
    then obtain k T' where r: "tile_alloc ?n T = Some (k, T')" by (cases r) auto
    from kmalloc_loop_found [OF rd r block_bytes_ok(1,2)] r show ?thesis
      unfolding eq by - (rule disjI2, rule exI [of _ 0], auto simp: grown_def)
  qed
qed

section \<open>Used tiles\<close>

definition used_tiles :: "nat \<Rightarrow> tile list \<Rightarrow> (nat \<times> nat) set" where
  "used_tiles b T = {(a, z). (a, z, True) \<in> set (placed b T)}"

lemma used_tiles_simps [simp]:
  "used_tiles b [] = {}"
  "used_tiles b ((z, u) # T) = (if u then {(b, z)} else {}) \<union> used_tiles (b + z) T"
  "used_tiles b (T @ T') = used_tiles b T \<union> used_tiles (b + extent T) T'"
  by (auto simp: used_tiles_def)

lemma used_tiles_coalesce [simp]: "used_tiles b (coalesce T) = used_tiles b T"
  by (simp add: used_tiles_def placed_coalesce)

lemma used_tiles_grown [simp]: "used_tiles b (grown j T) = used_tiles b T"
  unfolding grown_def by (induction j) (simp_all add: tile_grow_def)

lemma used_tiles_bounds:
  assumes "sizes_ok T" "(a, z) \<in> used_tiles b T"
  shows "b \<le> a" "a + z \<le> b + extent T" "0 < z"
  using placed_range [of a z True b T] assms by (simp_all add: used_tiles_def)

lemma tile_alloc_used:
  assumes "tile_alloc n T = Some (k, T')" "sizes_ok T"
  shows "\<exists>z\<ge>n. used_tiles b T' = insert (b + k, z) (used_tiles b T) \<and> (b + k, z) \<notin> used_tiles b T"
proof -
  obtain T1 sz T2 where T: "T = T1 @ (sz, False) # T2" "k = extent T1" "n \<le> sz"
    "T' = T1 @ (if n + 16 \<le> sz then [(n, True), (sz - n, False)] else [(sz, True)]) @ T2"
    using tile_alloc_split [OF assms(1)] by blast
  have szs: "sizes_ok T1" "sizes_ok T2" "0 < sz" using assms(2) by (auto simp: T(1))
  have "(b + k, z) \<notin> used_tiles b T" for z
    using used_tiles_bounds [OF szs(1), of "b + k" z b] used_tiles_bounds [OF szs(2), of "b + k" z "b + k + sz"] szs(3)
    by (auto simp: T(1,2))
  then show ?thesis
    using T(3) by (intro exI [of _ "if n + 16 \<le> sz then n else sz"]) (auto simp: T(1,2,4) add.assoc)
qed

lemma tile_free_split:
  assumes "sizes_ok T" "(b + k, z) \<in> used_tiles b T"
  shows "\<exists>T1 T2. T = T1 @ (z, True) # T2 \<and> k = extent T1"
  using assms
proof (induction T arbitrary: b k)
  case (Cons t T)
  obtain z0 u where t: "t = (z0, u)" by (cases t)
  show ?case
  proof (cases "u \<and> k = 0 \<and> z = z0")
    case True
    then have "t # T = [] @ (z, True) # T \<and> k = extent []" by (simp add: t)
    then show ?thesis by blast
  next
    case False
    then have m: "(b + k, z) \<in> used_tiles (b + z0) T" using Cons.prems by (auto simp: t split: if_splits)
    then have le: "z0 \<le> k" using used_tiles_bounds(1) [OF _ m] Cons.prems(1) by (simp add: t)
    then have "(b + z0 + (k - z0), z) \<in> used_tiles (b + z0) T" using m by simp
    from Cons.IH [OF _ this] Cons.prems(1) obtain T1 T2 where "T = T1 @ (z, True) # T2" "k - z0 = extent T1"
      by (auto simp: t)
    then have "t # T = (t # T1) @ (z, True) # T2 \<and> k = extent (t # T1)" using le by (simp add: t)
    then show ?thesis by blast
  qed
qed simp

lemma tile_free_used:
  assumes "sizes_ok (T1 @ (z, True) # T2)"
  shows "used_tiles b (coalesce (T1 @ (z, False) # T2)) = used_tiles b (T1 @ (z, True) # T2) - {(b + extent T1, z)}"
proof -
  have s: "sizes_ok T1" "sizes_ok T2" "0 < z" using assms by auto
  then show ?thesis
    using used_tiles_bounds [OF s(1), of "b + extent T1" z b]
      used_tiles_bounds [OF s(2), of "b + extent T1" z "b + extent T1 + z"]
    by auto
qed

section \<open>The heap is a block allocator\<close>

text \<open>The pointer and the payload length of a used tile.\<close>

definition payload :: "nat \<times> nat \<Rightarrow> addr \<times> nat" where
  "payload = (\<lambda>(a, z). (of_nat a + 16, z - 16))"

definition heap_live :: "(addr \<times> nat) set \<Rightarrow> 'a heap_scheme \<Rightarrow> bool" where
  "heap_live L s \<longleftrightarrow>
     (\<exists>T. heap_inv T s \<and> (\<forall>(a, z)\<in>used_tiles (heap_base s) T. 16 < z) \<and>
          L = payload ` used_tiles (heap_base s) T)"

lemma payload_region:
  assumes "shape b T" "(a, z) \<in> used_tiles b T" "16 < z"
  shows "x \<in> region (fst (payload (a, z))) (snd (payload (a, z))) \<longleftrightarrow> a + 16 \<le> unat x \<and> unat x < a + z"
    and "unat (fst (payload (a, z))) = a + 16" "snd (payload (a, z)) = z - 16"
proof -
  have "a + z < 2 ^ 64" using used_tiles_bounds(2) [of T a z b] assms by (auto simp: shape_def)
  then have "x \<in> region (of_nat (a + 16)) (z - 16) \<longleftrightarrow> a + 16 \<le> unat x \<and> unat x < a + 16 + (z - 16)"
    by (intro region_nat) (use assms(3) in auto)
  then show "x \<in> region (fst (payload (a, z))) (snd (payload (a, z))) \<longleftrightarrow> a + 16 \<le> unat x \<and> unat x < a + z"
    using assms(3) by (simp add: payload_def)
  have "unat (of_nat (a + 16) :: u64) = a + 16" using \<open>a + z < 2 ^ 64\<close> assms(3) by (intro unat_of_nat_lt) simp
  then show "unat (fst (payload (a, z))) = a + 16" by (simp add: payload_def)
  show "snd (payload (a, z)) = z - 16" by (simp add: payload_def)
qed

lemma payload_inj:
  assumes "shape b T" "\<forall>(a, z)\<in>used_tiles b T. 16 < z"
  shows "inj_on payload (used_tiles b T)"
proof (rule inj_onI)
  fix x y assume xy: "x \<in> used_tiles b T" "y \<in> used_tiles b T" "payload x = payload y"
  obtain a z a' z' where e: "x = (a, z)" "y = (a', z')" by (cases x, cases y)
  have z: "16 < z" "16 < z'" using assms(2) xy e by auto
  have "a + 16 = a' + 16" "z - 16 = z' - 16"
    using payload_region(2,3) [OF assms(1), of a z] payload_region(2,3) [OF assms(1), of a' z'] xy e z by simp_all
  then show "x = y" using z e by simp
qed

lemma kept_payload:
  assumes "kept b T m m'" "shape b T" "(a, z) \<in> used_tiles b T" "16 < z"
  shows "\<forall>x\<in>region (fst (payload (a, z))) (snd (payload (a, z))). m' x = m x"
proof
  fix x assume "x \<in> region (fst (payload (a, z))) (snd (payload (a, z)))"
  then have r: "a + 16 \<le> unat x" "unat x < a + z" using payload_region(1) [OF assms(2-4)] by simp_all
  have "(a, z, True) \<in> set (placed b T)" using assms(3) by (simp add: used_tiles_def)
  then have "x \<in> region (of_nat a) z" using tile_region(1) [OF _ assms(2)] r by fastforce
  then show "m' x = m x" using assms(1) \<open>(a, z, True) \<in> set (placed b T)\<close> by (auto simp: kept_def)
qed

lemma kept_payloads:
  assumes "kept b T m m'" "shape b T" "\<forall>(a, z)\<in>used_tiles b T. 16 < z"
  shows "\<forall>(q, k)\<in>payload ` used_tiles b T. \<forall>x\<in>region q k. m' x = m x"
proof (intro ballI, clarify)
  fix q k a z x assume az: "(a, z) \<in> used_tiles b T" "(q, k) = payload (a, z)" "x \<in> region q k"
  have "16 < z" using assms(3) az(1) by auto
  from kept_payload [OF assms(1,2) az(1) this] show "m' x = m x"
    using az(3) unfolding az(2) [symmetric] by simp
qed

lemma heap_live_alloc:
  assumes inv: "heap_live L s" and sz: "sz \<noteq> 0" "unat sz + 32 \<le> 2 ^ 64"
  shows "(\<exists>m. kmalloc sz s = fails (Panic m)) \<or>
    (\<exists>p n s'. kmalloc sz s = ret (p, s') \<and> unat sz \<le> n \<and> (p, n) \<notin> L \<and> heap_live (insert (p, n) L) s' \<and>
       (\<forall>(q, k)\<in>L. \<forall>x\<in>region q k. mem s' x = mem s x))"
proof -
  obtain T where T: "heap_inv T s" "\<forall>(a, z)\<in>used_tiles (heap_base s) T. 16 < z"
    "L = payload ` used_tiles (heap_base s) T"
    using inv by (auto simp: heap_live_def)
  let ?b = "heap_base s" and ?n = "block_bytes sz"
  have shT: "shape ?b T" using T(1) by (simp add: heap_inv_def heap_rel_def)
  from kmalloc_tile [OF T(1) sz] show ?thesis
  proof (elim disjE exE conjE)
    fix m assume "kmalloc sz s = fails (Panic m)"
    then show ?thesis by blast
  next
    fix j k T' s'
    assume r: "kmalloc sz s = ret (of_nat (?b + k) + 16, s')" "tile_alloc ?n (grown j T) = Some (k, T')"
      "heap_inv T' s'" "kept ?b T (mem s) (mem s')" "heap_start s' = heap_start s"
    have b': "heap_base s' = ?b" using r(5) by (simp add: heap_base_def)
    have sg: "sizes_ok (grown j T)"
    proof -
      have "sizes_ok T" using shT by (simp add: shape_def)
      then show ?thesis unfolding grown_def by (induction j) (simp_all add: tile_grow_def)
    qed
    obtain z where z: "?n \<le> z" "used_tiles ?b T' = insert (?b + k, z) (used_tiles ?b T)"
      "(?b + k, z) \<notin> used_tiles ?b T"
      using tile_alloc_used [OF r(2) sg, of ?b] by auto
    have "unat sz + 16 \<le> z" using block_bytes_ok(3) [of sz] z(1) by simp
    moreover have "0 < unat sz" using sz(1) by (simp add: unat_gt_0)
    ultimately have z16: "16 < z" "unat sz \<le> z - 16" by simp_all
    have big: "\<forall>(a, z)\<in>used_tiles ?b T'. 16 < z" using z(2) z16 T(2) by auto
    have "shape ?b T'" using r(3) b' by (simp add: heap_inv_def heap_rel_def)
    from payload_inj [OF this big] have "payload (?b + k, z) \<notin> L" using z(2,3) by (auto simp: T(3) inj_on_def)
    moreover have "heap_live (insert (payload (?b + k, z)) L) s'"
      unfolding heap_live_def b' using r(3) big z(2) T(3) by (intro exI [of _ T']) auto
    moreover have "\<forall>(q, k)\<in>L. \<forall>x\<in>region q k. mem s' x = mem s x"
      unfolding T(3) by (rule kept_payloads [OF r(4) shT T(2)])
    ultimately show ?thesis
      using r(1) z16(2) by (intro disjI2 exI [of _ "z - 16"] exI [of _ s'] exI [of _ "of_nat (?b + k) + 16"])
        (simp add: payload_def)
  qed
qed

lemma heap_live_release:
  assumes inv: "heap_live L s" and p: "(p, n) \<in> L"
  shows "\<exists>s'. kfree p s = ret s' \<and> heap_live (L - {(p, n)}) s' \<and>
    (\<forall>(q, k)\<in>L - {(p, n)}. \<forall>x\<in>region q k. mem s' x = mem s x)"
proof -
  obtain T where T: "heap_inv T s" "\<forall>(a, z)\<in>used_tiles (heap_base s) T. 16 < z"
    "L = payload ` used_tiles (heap_base s) T"
    using inv by (auto simp: heap_live_def)
  let ?b = "heap_base s"
  have shT: "shape ?b T" using T(1) by (simp add: heap_inv_def heap_rel_def)
  then have szs: "sizes_ok T" by (simp add: shape_def)
  obtain a z where az: "(a, z) \<in> used_tiles ?b T" "(p, n) = payload (a, z)" using p T(3) by auto
  then obtain k where k: "a = ?b + k" using used_tiles_bounds(1) [OF szs az(1)] le_Suc_ex by blast
  then obtain T1 T2 where sp: "T = T1 @ (z, True) # T2" "k = extent T1"
    using tile_free_split [OF szs] az(1) by blast
  let ?T' = "coalesce (T1 @ (z, False) # T2)"
  have "p = of_nat (?b + extent T1) + 16" using az(2) k sp(2) by (simp add: payload_def)
  with kfree_tile [OF T(1) [unfolded sp(1)]] obtain s' where s': "kfree p s = ret s'" "heap_inv ?T' s'"
    "kept ?b ?T' (mem s) (mem s')" "heap_start s' = heap_start s" by auto
  have b': "heap_base s' = ?b" using s'(4) by (simp add: heap_base_def)
  have us: "used_tiles ?b ?T' = used_tiles ?b T - {(a, z)}"
    using tile_free_used [OF szs [unfolded sp(1)], of ?b] sp k by simp
  have L': "L - {(p, n)} = payload ` used_tiles ?b ?T'"
    unfolding us T(3) az(2) using inj_on_image_set_diff [OF payload_inj [OF shT T(2)], of "used_tiles ?b T" "{(a, z)}"] az(1)
    by simp
  have "heap_live (L - {(p, n)}) s'"
    unfolding heap_live_def L' b' using s'(2) us T(2) by (intro exI [of _ ?T']) auto
  moreover have "\<forall>(q, k)\<in>L - {(p, n)}. \<forall>x\<in>region q k. mem s' x = mem s x"
  proof -
    have "shape ?b ?T'" using s'(2) b' by (simp add: heap_inv_def heap_rel_def)
    moreover have "\<forall>(a, z)\<in>used_tiles ?b ?T'. 16 < z" unfolding us using T(2) by blast
    ultimately show ?thesis unfolding L' by (rule kept_payloads [OF s'(3)])
  qed
  ultimately show ?thesis using s'(1) by blast
qed

interpretation kheap: block_allocator heap_live mem kmalloc kfree
proof (unfold_locales, goal_cases)
  case (1 L s p n q k)
  then obtain T a z a' z' where T: "heap_inv T s" "\<forall>(a, z)\<in>used_tiles (heap_base s) T. 16 < z"
    "(a, z) \<in> used_tiles (heap_base s) T" "(a', z') \<in> used_tiles (heap_base s) T"
    "(p, n) = payload (a, z)" "(q, k) = payload (a', z')"
    by (auto simp: heap_live_def)
  have sh: "shape (heap_base s) T" using T(1) by (simp add: heap_inv_def heap_rel_def)
  have ne: "(a, z) \<noteq> (a', z')" using T(5,6) 1(4) by auto
  have z: "16 < z" "16 < z'" using T(2-4) by auto
  have "a + z \<le> a' \<or> a' + z' \<le> a"
    using placed_disjoint [of a z True "heap_base s" T a' z' True] T(3,4) ne sh by (auto simp: used_tiles_def shape_def)
  moreover have "region p n = {x. a + 16 \<le> unat x \<and> unat x < a + z}"
    using payload_region(1) [OF sh T(3) z(1)] unfolding T(5) [symmetric] fst_conv snd_conv by blast
  moreover have "region q k = {x. a' + 16 \<le> unat x \<and> unat x < a' + z'}"
    using payload_region(1) [OF sh T(4) z(2)] unfolding T(6) [symmetric] fst_conv snd_conv by blast
  ultimately show ?case by auto
next
  case (2 L s p n)
  then show ?case by (auto simp: heap_live_def payload_def)
next
  case (3 L s sz)
  then have "sz \<noteq> 0" "unat sz + 32 \<le> 2 ^ 64" by simp_all
  then show ?case by (rule heap_live_alloc [OF 3(1)])
next
  case (4 L s p n)
  then show ?case by (rule heap_live_release)
qed

end
