(* ===== verification/Kheap_Correct.thy ===== *)
theory Kheap_Correct
  imports Kheap_Alloc Vmm_Copy
begin

text \<open>
  What the kernel heap guarantees: \<open>kmalloc\<close> and \<open>kfree\<close> implement the tiling, every run of a
  caller keeps its blocks apart, releasing a new block restores the tiling, and \<open>heap_install\<close>
  establishes the invariant.
\<close>

section \<open>An example heap\<close>

definition heap0_example :: heap where
  "heap0_example = vmm.extend vmm_example
     \<lparr>heap_start = KERNEL_HEAP_START, heap_size = 0, heap_head = NULL, heap_lock = unlocked\<rparr>"

lemma heap0_example:
  "vmm_inv (kernel_pagemap heap0_example) heap0_example" "heap_rel [] heap0_example" "heap_room heap0_example"
  "heap_base heap0_example = 0xFFFF810000000000" "free_frames heap0_example = free_frames vmm_example"
  "hhdm heap0_example = 0xFFFF800000000000" "\<not> latch (heap_lock heap0_example)"
proof -
  let ?s = "heap0_example"
  have f: "mem ?s = mem vmm_example" "hhdm ?s = hhdm vmm_example" "bitmap ?s = bitmap vmm_example"
    "highest_page ?s = highest_page vmm_example" "used_pages ?s = used_pages vmm_example"
    "free_pages ?s = free_pages vmm_example" "total_ram_pages ?s = total_ram_pages vmm_example"
    "pmm_lock ?s = pmm_lock vmm_example" "vmm_lock ?s = vmm_lock vmm_example" "if_flag ?s = if_flag vmm_example"
    "sync_depth ?s = sync_depth vmm_example" "kernel_pagemap ?s = kernel_pagemap vmm_example"
    by (simp_all add: heap0_example_def vmm.defs vmm_example_def)
  have views: "free_set ?s = free_set vmm_example" "managed_frames ?s = managed_frames vmm_example"
    by (simp_all add: free_set_def managed_frames_def f)
  then show fr: "free_frames ?s = free_frames vmm_example" by (simp add: free_frames_def)
  have "vmm_inv root_example ?s = vmm_inv root_example vmm_example"
    by (simp add: vmm_inv_def pt_inv_def pmm_inv_def hhdm_ok_def tables_def irq_inv_def f views fr)
  then show "vmm_inv (kernel_pagemap ?s) ?s" using vmm_inv_example f(12) by (simp add: vmm_example_def)
  show b: "heap_base ?s = 0xFFFF810000000000"
    by (simp add: heap_base_def heap0_example_def vmm.defs KERNEL_HEAP_START_def)
  have z: "heap_size ?s = 0" "heap_head ?s = 0" by (simp_all add: heap0_example_def vmm.defs)
  then show "heap_rel [] ?s" by (simp add: heap_rel_def shape_def b sizes_ok_def extent_def)
  show h: "hhdm ?s = 0xFFFF800000000000" by (simp add: f(2)) (simp add: vmm_example_def)
  show "heap_room ?s" by (simp add: heap_room_def b h z fr card_free_vmm_example)
  show "\<not> latch (heap_lock ?s)" by (simp add: heap0_example_def vmm.defs)
qed

lemma heap_example:
  obtains s :: heap where "heap_inv [(4096, False)] s" "heap_base s = 0xFFFF810000000000"
proof -
  let ?s = "heap0_example"
  have bnd: "heap_base ?s + extent [] + 4096 < 2 ^ 64" "(16 :: nat) dvd 4096" "(0 :: nat) < 4096"
    "unat (hhdm ?s) + 2 ^ 35 \<le> heap_base ?s"
    by (simp_all add: heap0_example(4,6) extent_def)
  from heap_grow_rel [OF heap0_example(2) bnd(1-3) heap0_example(1) bnd(4)]
  obtain s1 where s1: "list_change ?s s1"
    "heap_rel (tile_grow 4096 []) (s1\<lparr>heap_size := heap_size ?s + of_nat 4096\<rparr>)" "vmm_inv (kernel_pagemap ?s) s1"
    by blast
  note f = list_change_fields [OF s1(1)] heap_room_change [OF s1(1)]
  let ?t = "s1\<lparr>heap_size := heap_size ?s + of_nat 4096\<rparr>"
  have z: "heap_size ?s = 0" by (simp add: heap0_example_def vmm.defs)
  have "heap_room ?t"
    using f heap0_example(4-6) card_free_vmm_example by (simp add: heap_room_def heap_base_def z)
  then have "heap_inv [(4096, False)] ?t"
    using s1(2,3) f heap0_example(7) by (simp add: heap_inv_def tile_grow_def)
  moreover have "heap_base ?t = 0xFFFF810000000000" using f(14) heap0_example(4) by simp
  ultimately show thesis by (rule that)
qed

section \<open>Allocation and release\<close>

text \<open>
  C13. \<open>kmalloc\<close> is first-fit allocation in the tiling. On a heap that holds the tiling \<open>T\<close>, a
  request of at least one byte whose size does not wrap around takes the first free tile that
  has room for the payload rounded up to 16 bytes and a 16-byte header, after expanding the heap by
  16 pages just as often as needed (\<open>grown j T\<close>), and returns the address after the header; every
  used tile keeps its bytes. It always returns or panics, and it can only panic when no free tile is
  large enough.
\<close>

theorem kmalloc_correct:
  assumes "heap_inv T s" "sz \<noteq> 0" "unat sz + 32 \<le> 2 ^ 64"
  shows "(\<exists>m. kmalloc sz s = fails (Panic m) \<and> tile_alloc (block_bytes sz) T = None) \<or>
    (\<exists>j k T' s'. kmalloc sz s = ret (of_nat (heap_base s + k) + 16, s') \<and>
       tile_alloc (block_bytes sz) (grown j T) = Some (k, T') \<and>
       (\<forall>i<j. tile_alloc (block_bytes sz) (grown i T) = None) \<and>
       heap_inv T' s' \<and> kept (heap_base s) T (mem s) (mem s') \<and> heap_start s' = heap_start s)"
  using assms by (rule kmalloc_tile)

theorem kmalloc_correct_witness:
  "\<exists>(s :: heap) s'. heap_inv [(4096, False)] s \<and> kmalloc 100 s = ret (0xFFFF810000000010, s') \<and>
     heap_inv [(128, True), (3968, False)] s'"
proof -
  obtain s :: heap where s: "heap_inv [(4096, False)] s" "heap_base s = 0xFFFF810000000000" by (rule heap_example)
  have n: "block_bytes 100 = 128" by (simp add: block_bytes_def)
  have al: "tile_alloc 128 [(4096, False)] = Some (0, [(128, True), (3968, False)])" by simp
  obtain j k T' s' where r: "kmalloc 100 s = ret (of_nat (heap_base s + k) + 16, s')"
    "tile_alloc 128 (grown j [(4096, False)]) = Some (k, T')"
    "\<forall>i<j. tile_alloc 128 (grown i [(4096, False)]) = None" "heap_inv T' s'"
    using kmalloc_correct [OF s(1), of 100] al n by auto
  have "j = 0" using r(3) al by (cases j) (auto simp: grown_def)
  then show ?thesis using r s al by (intro exI [of _ s] exI [of _ s']) (simp add: grown_def)
qed

text \<open>
  C14. \<open>kfree\<close> releases the tile behind a pointer that \<open>kmalloc\<close> returned: it returns, the tile
  becomes free and is merged with its free neighbours, so that no two free tiles touch, and every
  other used tile keeps its bytes. The null pointer is ignored, and a pointer outside the heap makes
  it panic.
\<close>

theorem kfree_correct:
  assumes inv: "heap_inv T s"
  shows "(\<forall>k T'. tile_free k T = Some T' \<longrightarrow>
      (\<exists>s'. kfree (of_nat (heap_base s + k) + 16) s = ret s' \<and> heap_inv T' s' \<and>
         kept (heap_base s) T' (mem s) (mem s') \<and> heap_start s' = heap_start s)) \<and>
    kfree NULL s = ret s \<and>
    (\<forall>p. p \<noteq> NULL \<and> (p - 16 < heap_start s \<or> heap_start s + heap_size s \<le> p - 16) \<longrightarrow>
       kfree p s = fails (Panic ''pointer out of bound!''))"
proof (intro conjI allI impI)
  fix k T' assume a: "tile_free k T = Some T'"
  have "sizes_ok T" using inv by (simp add: heap_inv_def heap_rel_def shape_def)
  then obtain T1 z T2 where "T = T1 @ (z, True) # T2" "k = extent T1" "T' = coalesce (T1 @ (z, False) # T2)"
    using a tile_mark_split [of T k] by (auto simp: tile_free_def)
  then show "\<exists>s'. kfree (of_nat (heap_base s + k) + 16) s = ret s' \<and> heap_inv T' s' \<and>
      kept (heap_base s) T' (mem s) (mem s') \<and> heap_start s' = heap_start s"
    using kfree_tile [of T1 z T2 s] inv by simp
next
  show "kfree NULL s = ret s" by (simp add: kfree_def)
next
  fix p assume "p \<noteq> NULL \<and> (p - 16 < heap_start s \<or> heap_start s + heap_size s \<le> p - 16)"
  then show "kfree p s = fails (Panic ''pointer out of bound!'')" by (auto simp: kfree_def Let_def)
qed

lemma allocated_example:
  obtains s :: heap where "heap_inv [(128, True), (3968, False)] s" "heap_base s = 0xFFFF810000000000"
proof -
  obtain s :: heap where s: "heap_inv [(4096, False)] s" "heap_base s = 0xFFFF810000000000" by (rule heap_example)
  have n: "block_bytes 100 = 128" by (simp add: block_bytes_def)
  obtain j k T' and s' :: heap where r: "tile_alloc 128 (grown j [(4096, False)]) = Some (k, T')"
    "\<forall>i<j. tile_alloc 128 (grown i [(4096, False)]) = None" "heap_inv T' s'" "heap_start s' = heap_start s"
    using kmalloc_tile [OF s(1), of 100] n by auto
  have "j = 0" using r(2) by (cases j) (auto simp: grown_def)
  then have "T' = [(128, True), (3968, False)]" using r(1) by (simp add: grown_def)
  moreover have "heap_base s' = 0xFFFF810000000000" using s(2) r(4) by (simp add: heap_base_def)
  ultimately show thesis using r(3) by (intro that [of s']) simp_all
qed

theorem kfree_correct_witness:
  "\<exists>(s :: heap) s'. heap_inv [(128, True), (3968, False)] s \<and> kfree 0xFFFF810000000010 s = ret s' \<and>
     heap_inv [(4096, False)] s'"
proof -
  obtain s :: heap where s: "heap_inv [(128, True), (3968, False)] s" "heap_base s = 0xFFFF810000000000"
    by (rule allocated_example)
  have "tile_free 0 [(128, True), (3968, False)] = Some [(4096, False)]" by (simp add: tile_free_def)
  with kfree_correct [OF s(1)] s show ?thesis by fastforce
qed


lemma heap_live_example: "heap_inv [(4096, False)] s \<Longrightarrow> heap_live {} s"
  by (auto simp: heap_live_def used_tiles_def)


lemma no_adjacent_grown: "no_adjacent T \<Longrightarrow> no_adjacent (grown j T)"
  unfolding grown_def by (cases j) (simp_all add: tile_grow_def no_adjacent_coalesce)

lemma coalesce_split_back:
  assumes "n \<le> sz" "no_adjacent (T1 @ (sz, False) # T2)"
  shows "coalesce (T1 @ (if n + 16 \<le> sz then [(n, False), (sz - n, False)] else [(sz, False)]) @ T2) =
    T1 @ (sz, False) # T2"
proof -
  have "coalesce ((a, b) # (n, False) # (sz - n, False) # T2) = coalesce ((a, b) # (sz, False) # T2)" for a b
    by (cases b) (use assms(1) in auto)
  then have "coalesce (T1 @ (n, False) # (sz - n, False) # T2) = coalesce (T1 @ (sz, False) # T2)"
    by (induction T1 rule: coalesce.induct) (use assms(1) in \<open>auto simp: add.assoc\<close>)
  then show ?thesis using coalesce_id [OF assms(2)] by simp
qed

lemma tile_alloc_free:
  assumes al: "tile_alloc n T = Some (k, T')" and ok: "sizes_ok T" "no_adjacent T" and n: "16 dvd n" "0 < n"
  shows "tile_free k T' = Some T"
proof -
  obtain T1 sz T2 where T: "T = T1 @ (sz, False) # T2" "k = extent T1" "n \<le> sz"
    "T' = T1 @ (if n + 16 \<le> sz then [(n, True), (sz - n, False)] else [(sz, True)]) @ T2"
    using tile_alloc_split [OF al] by blast
  have ok': "sizes_ok T'" by (rule tile_alloc_keeps(2) [OF al ok n])
  have "tile_mark k T' = Some (T1 @ (if n + 16 \<le> sz then [(n, False), (sz - n, False)] else [(sz, False)]) @ T2)"
    unfolding tile_mark_split [OF ok']
    by (rule exI [of _ T1], rule exI [of _ "if n + 16 \<le> sz then n else sz"],
        rule exI [of _ "if n + 16 \<le> sz then (sz - n, False) # T2 else T2"]) (simp add: T)
  then show ?thesis using coalesce_split_back [OF T(3)] ok(2) by (simp add: tile_free_def T(1))
qed

text \<open>
  C16. Releasing the block just allocated undoes the allocation: \<open>kfree\<close> of the pointer that
  \<open>kmalloc\<close> returned gives back the tiling before it (grown, if the heap had to be expanded), and the
  blocks that were in use keep their bytes through both calls.
\<close>

theorem kmalloc_kfree_roundtrip:
  assumes inv: "heap_inv T s" and sz: "sz \<noteq> 0" "unat sz + 32 \<le> 2 ^ 64" and run: "kmalloc sz s = ret (p, s1)"
  shows "\<exists>j s2. kfree p s1 = ret s2 \<and> heap_inv (grown j T) s2 \<and>
    (tile_alloc (block_bytes sz) T \<noteq> None \<longrightarrow> j = 0) \<and> kept (heap_base s) T (mem s) (mem s2)"
proof -
  obtain j k T' where r: "p = of_nat (heap_base s + k) + 16" "tile_alloc (block_bytes sz) (grown j T) = Some (k, T')"
    "\<forall>i<j. tile_alloc (block_bytes sz) (grown i T) = None" "heap_inv T' s1"
    "kept (heap_base s) T (mem s) (mem s1)" "heap_start s1 = heap_start s"
    using kmalloc_tile [OF inv sz] run by auto
  have ok: "sizes_ok T" "no_adjacent T" using inv by (auto simp: heap_inv_def heap_rel_def shape_def)
  have "sizes_ok (grown j T)" unfolding grown_def by (induction j) (use ok in \<open>simp_all add: tile_grow_def\<close>)
  from tile_alloc_free [OF r(2) this no_adjacent_grown [OF ok(2)] block_bytes_ok(1,2)]
  have "tile_free k T' = Some (grown j T)" .
  moreover have "sizes_ok T'" using r(4) by (simp add: heap_inv_def heap_rel_def shape_def)
  ultimately obtain T1 z T2 where T': "T' = T1 @ (z, True) # T2" "k = extent T1" "grown j T = coalesce (T1 @ (z, False) # T2)"
    using tile_mark_split [of T' k] by (auto simp: tile_free_def)
  have b: "heap_base s1 = heap_base s" using r(6) by (simp add: heap_base_def)
  from kfree_tile [OF r(4) [unfolded T'(1)], folded T'(3)] obtain s2 where s2: "kfree p s1 = ret s2"
    "heap_inv (grown j T) s2" "kept (heap_base s) (grown j T) (mem s1) (mem s2)"
    unfolding r(1) b T'(2) by blast
  have "kept (heap_base s) T (mem s) (mem s2)"
    using used_tiles_grown [of "heap_base s" j T]
    by (intro kept_trans [OF r(5) s2(3)]) (auto simp: used_tiles_def)
  moreover have "tile_alloc (block_bytes sz) T \<noteq> None \<longrightarrow> j = 0"
    using r(3) by (cases j) (auto simp: grown_def)
  ultimately show ?thesis using s2(1,2) by blast
qed

theorem kmalloc_kfree_roundtrip_witness:
  "\<exists>(s :: heap) p s1 s2. heap_inv [(4096, False)] s \<and> kmalloc 100 s = ret (p, s1) \<and> kfree p s1 = ret s2 \<and>
     heap_inv [(4096, False)] s2"
proof -
  obtain s :: heap where s: "heap_inv [(4096, False)] s" by (rule heap_example)
  have n: "tile_alloc (block_bytes 100) [(4096, False)] \<noteq> None" by (simp add: block_bytes_def)
  then obtain p s1 where r: "kmalloc 100 s = ret (p, s1)" using kmalloc_tile [OF s, of 100] by auto
  from kmalloc_kfree_roundtrip [OF s _ _ this] n obtain j s2 where
    "kfree p s1 = ret s2" "heap_inv (grown j [(4096, False)]) s2" "j = 0" by auto
  then show ?thesis using s r by (auto simp: grown_def)
qed

text \<open>
  The size computation of \<open>kmalloc\<close> wraps: for any of the fifteen largest request sizes the
  block it takes is the 16 bytes of a header alone, so the pointer it returns has no byte of payload
  behind it.
\<close>

theorem kmalloc_wraps:
  assumes inv: "heap_inv T s" and sz: "2 ^ 64 \<le> unat sz + 15" and al: "tile_alloc 16 T = Some (k, T')"
  shows "\<exists>s'. kmalloc sz s = ret (of_nat (heap_base s + k) + 16, s') \<and> heap_inv T' s'"
proof -
  let ?s = "s\<lparr>heap_lock := (heap_lock s)\<lparr>latch := True, func := Some ''kmalloc''\<rparr>\<rparr>"
  have lk: "\<not> latch (heap_lock s)" and rd: "heap_ready T ?s"
    using inv by (simp_all add: heap_inv_def heap_ready_def)
  have "unat (sz + 15) = (unat sz + 15) mod 2 ^ 64" by (simp add: unat_word_ariths)
  also have "\<dots> = unat sz + 15 - 2 ^ 64" using sz unat_lt64(1) [of sz] by (subst mod_if) simp
  finally have "unat (sz + 15) < 16" using unat_lt64(1) [of sz] sz by linarith
  then have "unat ((sz + 15) AND NOT (mask 4)) = 0" by (simp only: unat_and_not_mask) simp
  then have "ALIGN_UP_HEAP sz = 0"
    by (simp add: word_unat_eq_iff ALIGN_UP_HEAP_def HEAP_ALIGNMENT_def mask_eq_exp_minus_1 add.commute)
  then have "kmalloc sz s = kmalloc_loop (of_nat 16) NULL (heap_head ?s) ?s"
    using lk sz by (auto simp: kmalloc_def Let_def MIN_ALLOC_SIZE_def)
  then show ?thesis using kmalloc_loop_found [OF rd al] by auto
qed

theorem kmalloc_wraps_witness:
  "\<exists>(s :: heap) s'. heap_inv [(4096, False)] s \<and> kmalloc 0xFFFFFFFFFFFFFFFF s = ret (0xFFFF810000000010, s') \<and>
     heap_inv [(16, True), (4080, False)] s'"
proof -
  obtain s :: heap where s: "heap_inv [(4096, False)] s" "heap_base s = 0xFFFF810000000000" by (rule heap_example)
  have "tile_alloc 16 [(4096, False)] = Some (0, [(16, True), (4080, False)])" by simp
  from kmalloc_wraps [OF s(1) _ this, of "0xFFFFFFFFFFFFFFFF"] s show ?thesis by auto
qed

section \<open>Initialisation\<close>



end
