(* ===== verification/Machine.thy ===== *)
theory Machine
  imports Kheap
begin

text \<open>
  The processor and its tables: port input and output (\<open>cpu/io.h\<close>), the global descriptor table and
  the task state segment (\<open>gdt.c\<close>), the interrupt descriptor table (\<open>idt.c\<close>), the exception gates
  (\<open>isr.c\<close>), the interrupt controller, timer and handler chains (\<open>irq.c\<close>), model-specific registers
  (\<open>msr.c\<close>) and processor features (\<open>features.c\<close>). The devices behind the ports and the processor's
  identification are parameters; the addresses the linker chooses are a parameter record.
\<close>

section \<open>Definitions\<close>

subsection \<open>Ports\<close>

datatype port_op = Outb u16 u8 | Outw u16 u16 | Outl u16 u32 | Inb u16 | Inw u16 | Inl u16

text \<open>A device answers a read of a port by what has been done to the ports before.\<close>

type_synonym device = "port_op list \<Rightarrow> u16 \<Rightarrow> u32"

subsection \<open>Tables\<close>

record gdt_entry =
  gdt_limit_low :: u16
  gdt_base_low :: u16
  gdt_base_middle :: u8
  gdt_access :: u8
  gdt_limit_high :: "4 word"
  gdt_granularity :: "4 word"
  gdt_base_high :: u8

record tss_entry =
  tss_rsp0 :: u64
  tss_rsp1 :: u64
  tss_rsp2 :: u64
  tss_ist :: "u64 list"
  tss_io_map_base :: u16

record idt_entry =
  idt_base_low :: u16
  idt_selector :: u16
  idt_ist :: u8
  idt_flags :: u8
  idt_base_middle :: u16
  idt_base_high :: u32
  idt_reserved :: u32

record table_ptr =
  ptr_limit :: u16
  ptr_base :: u64

text \<open>Addresses the linker assigns: the tables, the stacks of \<open>gdt.c\<close> and the interrupt stubs.\<close>

record link_syms =
  gdt_entries_addr :: addr
  gdt_tss_addr :: addr
  df_stack :: addr
  nmi_stack :: addr
  kernel_stack :: addr
  idt_entries_addr :: addr
  isr_stub_addr :: "nat \<Rightarrow> addr"
  irq_stub_addr :: "nat \<Rightarrow> addr"

datatype irq_routine = PIT_HANDLER | PROCESS_SCHEDULE | KEYBOARD_HANDLER

record cpu_tables =
  gdt_entries :: "nat \<Rightarrow> gdt_entry"
  gdt_tss :: tss_entry
  gdtr :: table_ptr
  code_selector :: u16
  data_selector :: u16
  task_register :: u16
  idt_entries :: "u8 \<Rightarrow> idt_entry"
  idtr :: table_ptr

record machine = heap +
  port_log :: "port_op list"
  tabs :: cpu_tables
  irqs :: "nat \<Rightarrow> addr"
  irq_routines :: "nat \<Rightarrow> irq_routine option"
  irq_description :: "nat \<Rightarrow> string option"
  ticks :: u64
  msrs :: "u64 \<Rightarrow> u64"
  cr0 :: u64
  cr4 :: u64

definition outb :: "u16 \<Rightarrow> u8 \<Rightarrow> 'a machine_scheme \<Rightarrow> 'a machine_scheme" where
  "outb port v s = s\<lparr>port_log := port_log s @ [Outb port v]\<rparr>"

definition outb_w :: "u16 \<Rightarrow> u16 \<Rightarrow> 'a machine_scheme \<Rightarrow> 'a machine_scheme" where
  "outb_w port v s = s\<lparr>port_log := port_log s @ [Outw port v]\<rparr>"

definition outb_l :: "u16 \<Rightarrow> u32 \<Rightarrow> 'a machine_scheme \<Rightarrow> 'a machine_scheme" where
  "outb_l port v s = s\<lparr>port_log := port_log s @ [Outl port v]\<rparr>"

definition inb :: "device \<Rightarrow> u16 \<Rightarrow> 'a machine_scheme \<Rightarrow> u8 \<times> 'a machine_scheme" where
  "inb dev port s = (ucast (dev (port_log s) port), s\<lparr>port_log := port_log s @ [Inb port]\<rparr>)"

definition inb_l :: "device \<Rightarrow> u16 \<Rightarrow> 'a machine_scheme \<Rightarrow> u32 \<times> 'a machine_scheme" where
  "inb_l dev port s = (dev (port_log s) port, s\<lparr>port_log := port_log s @ [Inl port]\<rparr>)"

subsection \<open>Global descriptor table and task state segment\<close>

definition zero_gdt_entry :: gdt_entry where
  "zero_gdt_entry = \<lparr>gdt_limit_low = 0, gdt_base_low = 0, gdt_base_middle = 0, gdt_access = 0,
     gdt_limit_high = 0, gdt_granularity = 0, gdt_base_high = 0\<rparr>"

definition gdt_set_gate ::
  "u8 \<Rightarrow> u64 \<Rightarrow> u64 \<Rightarrow> u8 \<Rightarrow> u8 \<Rightarrow> cpu_tables \<Rightarrow> cpu_tables result" where
  "gdt_set_gate idx base limit access granularity s =
     (if unat idx \<ge> 9 then fails (Bad_Access ''gdt.entries'') else
      ret (s\<lparr>gdt_entries := (gdt_entries s)(unat idx :=
        zero_gdt_entry\<lparr>gdt_access := access, gdt_granularity := ucast granularity\<rparr>)\<rparr>))"

definition write_tss :: "link_syms \<Rightarrow> u32 \<Rightarrow> cpu_tables \<Rightarrow> cpu_tables result" where
  "write_tss syms num s =
     (if unat num + 1 \<ge> 9 then fails (Bad_Access ''gdt.entries'') else
      let base = gdt_tss_addr syms;
          limit = 104 - 1 :: u64;
          e = (gdt_entries s (unat num))\<lparr>
            gdt_base_low := ucast (base AND 0xFFFF),
            gdt_base_middle := ucast (drop_bit 16 base AND 0xFF),
            gdt_base_high := ucast (drop_bit 24 base AND 0xFF),
            gdt_limit_low := ucast limit,
            gdt_limit_high := ucast (drop_bit 16 limit AND 0x0F),
            gdt_granularity := 0,
            gdt_access := 0x89\<rparr>;
          hi0 = ucast (drop_bit 32 base) :: u32;
          e' = zero_gdt_entry\<lparr>gdt_limit_low := ucast hi0, gdt_base_low := ucast (drop_bit 16 hi0)\<rparr>
      in ret (s\<lparr>gdt_entries := (gdt_entries s)(unat num := e, unat num + 1 := e'),
                gdt_tss := \<lparr>tss_rsp0 = kernel_stack syms + 4096, tss_rsp1 = 0, tss_rsp2 = 0,
                  tss_ist = [df_stack syms + 4096, nmi_stack syms + 4096, 0, 0, 0, 0, 0],
                  tss_io_map_base = 0\<rparr>\<rparr>))"

definition tss_set_stack :: "u64 \<Rightarrow> cpu_tables \<Rightarrow> cpu_tables" where
  "tss_set_stack stack s = s\<lparr>gdt_tss := (gdt_tss s)\<lparr>tss_rsp0 := stack\<rparr>\<rparr>"

text \<open>\<open>lgdt\<close> and the reload of the segment registers; \<open>ltr\<close>.\<close>

definition gdt_flush :: "table_ptr \<Rightarrow> cpu_tables \<Rightarrow> cpu_tables" where
  "gdt_flush p s = s\<lparr>gdtr := p, code_selector := 0x08, data_selector := 0x10\<rparr>"

definition tss_flush :: "cpu_tables \<Rightarrow> cpu_tables" where
  "tss_flush s = s\<lparr>task_register := 0x30\<rparr>"

definition gdt_install :: "link_syms \<Rightarrow> cpu_tables \<Rightarrow> cpu_tables result" where
  "gdt_install syms s =
     (let gdtp = \<lparr>ptr_limit = 9 * 8 - 1, ptr_base = gdt_entries_addr syms\<rparr> in
      rbind (gdt_set_gate 0 0 0 0 0 s) (\<lambda>s.
      rbind (gdt_set_gate 1 0 0 0x9A 0xA s) (\<lambda>s.
      rbind (gdt_set_gate 2 0 0 0x92 0xC s) (\<lambda>s.
      rbind (gdt_set_gate 3 0 0 0xFA 0xC s) (\<lambda>s.
      rbind (gdt_set_gate 4 0 0 0xF2 0xC s) (\<lambda>s.
      rbind (gdt_set_gate 5 0 0 0xFA 0xA s) (\<lambda>s.
      rbind (write_tss syms 6 s) (\<lambda>s.
      ret (tss_flush (gdt_flush gdtp s))))))))))"

subsection \<open>Interrupt descriptor table\<close>

definition idt_set_gate ::
  "u8 \<Rightarrow> addr \<Rightarrow> u16 \<Rightarrow> u8 \<Rightarrow> cpu_tables \<Rightarrow> cpu_tables" where
  "idt_set_gate num base segment_selector flags s =
     s\<lparr>idt_entries := (idt_entries s)(num := \<lparr>
       idt_base_low = ucast (base AND 0xFFFF),
       idt_selector = segment_selector,
       idt_ist = 0,
       idt_flags = flags,
       idt_base_middle = ucast (drop_bit 16 base AND 0xFFFF),
       idt_base_high = ucast (drop_bit 32 base AND 0xFFFFFFFF),
       idt_reserved = 0\<rparr>)\<rparr>"

definition idt_install :: "link_syms \<Rightarrow> cpu_tables \<Rightarrow> cpu_tables" where
  "idt_install syms s =
     s\<lparr>idt_entries := (\<lambda>_. \<lparr>idt_base_low = 0, idt_selector = 0, idt_ist = 0, idt_flags = 0,
          idt_base_middle = 0, idt_base_high = 0, idt_reserved = 0\<rparr>),
       idtr := \<lparr>ptr_limit = 256 * 16 - 1, ptr_base = idt_entries_addr syms\<rparr>\<rparr>"

subsection \<open>Exceptions\<close>

definition isr_uninstall_handler :: "u64 \<Rightarrow> 'a vmm_scheme \<Rightarrow> 'a vmm_scheme" where
  "isr_uninstall_handler isr s = s\<lparr>isr_callbacks := (isr_callbacks s)(isr := None)\<rparr>"

text \<open>The array \<open>isrs\<close> after the \<open>ISR_SET\<close> macros: 33 elements, the last one still zero.\<close>

definition isrs :: "link_syms \<Rightarrow> (u8 \<times> addr) list" where
  "isrs syms = map (\<lambda>i. (of_nat i, isr_stub_addr syms i)) [0..<32] @ [(0, 0)]"

definition isr_install :: "link_syms \<Rightarrow> 'a machine_scheme \<Rightarrow> 'a machine_scheme" where
  "isr_install syms s =
     (let s = s\<lparr>tabs := idt_set_gate 6 (isr_stub_addr syms 6) 0x08 0x8E (tabs s)\<rparr>;
          s = isr_install_handler 6 IRQ_INVALID_OPCODE s;
          s = s\<lparr>tabs := idt_set_gate 13 (isr_stub_addr syms 13) 0x08 0x8E (tabs s)\<rparr>;
          s = isr_install_handler 13 GPF_FAULT_HANDLER s;
          s = s\<lparr>tabs := idt_set_gate 14 (isr_stub_addr syms 14) 0x08 0x8E (tabs s)\<rparr>
      in s\<lparr>tabs := fold (\<lambda>(idx, stub). idt_set_gate idx stub 0x08 0x8E) (isrs syms) (tabs s)\<rparr>)"

subsection \<open>Interrupt controller and timer\<close>

definition IRQ_CHAIN_SIZE :: nat where "IRQ_CHAIN_SIZE = 16"
definition IRQ_CHAIN_DEPTH :: nat where "IRQ_CHAIN_DEPTH = 4"

definition irq_get_handler :: "nat \<Rightarrow> nat \<Rightarrow> 'a machine_scheme \<Rightarrow> string option" where
  "irq_get_handler irq chain s =
     (if irq \<ge> IRQ_CHAIN_SIZE then None
      else if chain \<ge> IRQ_CHAIN_DEPTH then None
      else irq_description s (IRQ_CHAIN_SIZE * chain + irq))"

fun install_in_chain ::
  "nat list \<Rightarrow> nat \<Rightarrow> irq_routine \<Rightarrow> string \<Rightarrow> 'a machine_scheme \<Rightarrow> 'a machine_scheme" where
  "install_in_chain [] irq handler description s = s"
| "install_in_chain (i # js) irq handler description s =
     (if irq_routines s (i * IRQ_CHAIN_SIZE + irq) \<noteq> None
      then install_in_chain js irq handler description s
      else s\<lparr>irq_routines := (irq_routines s)(i * IRQ_CHAIN_SIZE + irq := Some handler),
             irq_description := (irq_description s)(i * IRQ_CHAIN_SIZE + irq := Some description)\<rparr>)"

definition irq_install_handler ::
  "nat \<Rightarrow> irq_routine \<Rightarrow> string \<Rightarrow> 'a machine_scheme \<Rightarrow> 'a machine_scheme" where
  "irq_install_handler irq handler description s =
     install_in_chain [0..<IRQ_CHAIN_DEPTH] irq handler description s"

definition irq_remap :: "'a machine_scheme \<Rightarrow> 'a machine_scheme" where
  "irq_remap s =
     (let s = outb 0x20 0x11 s;
          s = outb 0xA0 0x11 s;
          s = outb 0x21 0x20 s;
          s = outb 0xA1 0x28 s;
          s = outb 0x21 0x04 s;
          s = outb 0xA1 0x02 s;
          s = outb 0x21 0x01 s;
          s = outb 0xA1 0x01 s
      in s)"

definition irq_setup_gates :: "'a machine_scheme \<Rightarrow> 'a machine_scheme" where
  "irq_setup_gates s =
     s\<lparr>tabs := fold (\<lambda>i. idt_set_gate (32 + of_nat i) (irqs s i) 0x08 0x8E) [0..<IRQ_CHAIN_SIZE] (tabs s)\<rparr>"

definition pit_divisor :: u16 where
  "pit_divisor = of_nat ((1193182 + 1000 div 2) div 1000)"

definition irq_install :: "link_syms \<Rightarrow> 'a machine_scheme \<Rightarrow> 'a machine_scheme" where
  "irq_install syms s =
     (let s = irq_remap s;
          s = s\<lparr>irqs := irq_stub_addr syms\<rparr>;
          s = irq_setup_gates s;
          s = int_disable s;
          s = outb 0x43 0x36 s;
          s = outb 0x40 (ucast (pit_divisor AND 0xFF)) s;
          s = outb 0x40 (ucast (drop_bit 8 pit_divisor)) s;
          s = int_enable s;
          s = irq_install_handler 0 PIT_HANDLER ''pit counter'' s;
          s = irq_install_handler 0 PROCESS_SCHEDULE ''process scheduling'' s
      in s)"

definition irq_ack :: "nat \<Rightarrow> 'a machine_scheme \<Rightarrow> 'a machine_scheme" where
  "irq_ack irq_no s =
     (let s = (if irq_no \<ge> 8 then outb 0xA0 0x20 s else s)
      in outb 0x20 0x20 s)"

definition pit_handler :: "'a machine_scheme \<Rightarrow> 'a machine_scheme" where
  "pit_handler s = s\<lparr>ticks := ticks s + 1\<rparr>"

subsection \<open>Model-specific registers and features\<close>

definition MSR_FS_BASE :: u64 where "MSR_FS_BASE = 0xC0000100"
definition MSR_USER_GS_BASE :: u64 where "MSR_USER_GS_BASE = 0xC0000101"

text \<open>The processor passes the two halves of a register in \<open>EDX\<close> and \<open>EAX\<close>.\<close>

definition wrmsr :: "u64 \<Rightarrow> u64 \<Rightarrow> 'a machine_scheme \<Rightarrow> 'a machine_scheme" where
  "wrmsr msr v s =
     (let low = ucast (v AND 0xFFFFFFFF) :: u32;
          high = ucast (drop_bit 32 v) :: u32
      in s\<lparr>msrs := (msrs s)(msr := push_bit 32 (ucast high) OR ucast low)\<rparr>)"

definition rdmsr :: "u64 \<Rightarrow> 'a machine_scheme \<Rightarrow> u64" where
  "rdmsr msr s =
     (let low = ucast (msrs s msr) :: u32;
          high = ucast (drop_bit 32 (msrs s msr)) :: u32
      in push_bit 32 (ucast high) OR ucast low)"

record cpuid_info =
  eax :: u32
  ebx :: u32
  ecx :: u32
  edx :: u32

type_synonym cpuid = "u32 \<Rightarrow> u32 \<Rightarrow> cpuid_info"

definition cpuid_has_sse :: "cpuid \<Rightarrow> bool" where
  "cpuid_has_sse cpuid \<longleftrightarrow> edx (cpuid 1 0) AND push_bit 25 1 \<noteq> 0"

definition cpuid_has_fsgsbase :: "cpuid \<Rightarrow> bool" where
  "cpuid_has_fsgsbase cpuid \<longleftrightarrow> ebx (cpuid 7 0) AND push_bit 0 1 \<noteq> 0"

definition setup_cr0 :: "'a machine_scheme \<Rightarrow> 'a machine_scheme" where
  "setup_cr0 s = s\<lparr>cr0 := (cr0 s AND NOT (push_bit 2 1)) OR push_bit 1 1\<rparr>"

definition setup_cr4 :: "'a machine_scheme \<Rightarrow> 'a machine_scheme" where
  "setup_cr4 s = s\<lparr>cr4 := (cr4 s OR push_bit 9 1) OR push_bit 10 1\<rparr>"

definition cpu_features_install :: "cpuid \<Rightarrow> 'a machine_scheme \<Rightarrow> 'a machine_scheme result" where
  "cpu_features_install cpuid s =
     (if \<not> cpuid_has_fsgsbase cpuid then fails (Panic ''cpu does not support FSGSBASE instructions!'') else
      let s = s\<lparr>cr4 := cr4 s OR push_bit 16 1\<rparr> in
      if \<not> cpuid_has_sse cpuid then fails (Panic ''cpu does not support SSE!'')
      else ret (setup_cr4 (setup_cr0 s)))"

section \<open>What the tables say\<close>

text \<open>How the processor reads a descriptor, a gate and a selector.\<close>

definition selected :: "u16 \<Rightarrow> cpu_tables \<Rightarrow> gdt_entry" where
  "selected sel s = gdt_entries s (unat (drop_bit 3 sel))"

definition present :: "gdt_entry \<Rightarrow> bool" where "present e \<longleftrightarrow> bit (gdt_access e) 7"
definition dpl :: "gdt_entry \<Rightarrow> u8" where "dpl e = drop_bit 5 (gdt_access e) AND 3"
definition code_segment :: "gdt_entry \<Rightarrow> bool" where "code_segment e \<longleftrightarrow> bit (gdt_access e) 4 \<and> bit (gdt_access e) 3"
definition data_segment :: "gdt_entry \<Rightarrow> bool" where "data_segment e \<longleftrightarrow> bit (gdt_access e) 4 \<and> \<not> bit (gdt_access e) 3"
definition long_mode :: "gdt_entry \<Rightarrow> bool" where "long_mode e \<longleftrightarrow> bit (gdt_granularity e) 1"

text \<open>The base of a system descriptor is spread over two entries.\<close>

definition system_base :: "gdt_entry \<Rightarrow> gdt_entry \<Rightarrow> u64" where
  "system_base e e' =
     ucast (gdt_base_low e) OR push_bit 16 (ucast (gdt_base_middle e)) OR push_bit 24 (ucast (gdt_base_high e)) OR
     push_bit 32 (ucast (gdt_limit_low e') OR push_bit 16 (ucast (gdt_base_low e')))"

definition system_limit :: "gdt_entry \<Rightarrow> u32" where
  "system_limit e = ucast (gdt_limit_low e) OR push_bit 16 (ucast (gdt_limit_high e))"

definition gate_offset :: "idt_entry \<Rightarrow> addr" where
  "gate_offset e = ucast (idt_base_low e) OR push_bit 16 (ucast (idt_base_middle e)) OR push_bit 32 (ucast (idt_base_high e))"

lemma split_32: "push_bit 32 (ucast (ucast (drop_bit 32 v) :: u32)) OR ucast (ucast v :: u32) = (v :: u64)"
  by (rule bit_word_eqI) (auto simp: bit_simps)

lemma mask_consts: "(0xFF :: u64) = mask 8" "(0xFFFF :: u64) = mask 16" "(0xFFFFFFFF :: u64) = mask 32"
  by (simp_all add: mask_eq_exp_minus_1)

lemma rdmsr_wrmsr: "rdmsr r (wrmsr q v s) = (if r = q then v else rdmsr r s)"
proof -
  have "(ucast (v AND 0xFFFFFFFF) :: u32) = ucast v"
    unfolding mask_consts by (rule bit_word_eqI) (auto simp: bit_simps)
  then show ?thesis by (simp add: rdmsr_def wrmsr_def Let_def split_32)
qed

lemma gate_offset_set:
  "gate_offset (idt_entries (idt_set_gate n base sel fl s) n) = base"
proof -
  have "ucast (ucast (base AND 0xFFFF) :: u16) OR
      push_bit 16 (ucast (ucast (drop_bit 16 base AND 0xFFFF) :: u16)) OR
      push_bit 32 (ucast (ucast (drop_bit 32 base AND 0xFFFFFFFF) :: u32)) = base" (is "?w = base")
  proof (rule bit_word_eqI)
    fix n assume n: "n < LENGTH(64)"
    consider "n < 16" | "16 \<le> n" "n < 32" | "32 \<le> n" by linarith
    then show "bit ?w n \<longleftrightarrow> bit base n" unfolding mask_consts using n by cases (simp_all add: bit_simps less_diff_conv2)
  qed
  then show ?thesis by (simp add: gate_offset_def idt_set_gate_def)
qed

lemma idt_set_gate_other: "m \<noteq> n \<Longrightarrow> idt_entries (idt_set_gate n base sel fl s) m = idt_entries s m"
  by (simp add: idt_set_gate_def)

lemma tss_base_split:
  "ucast (ucast (b AND 0xFFFF) :: u16) OR push_bit 16 (ucast (ucast (drop_bit 16 b AND 0xFF) :: u8)) OR
   push_bit 24 (ucast (ucast (drop_bit 24 b AND 0xFF) :: u8)) OR
   push_bit 32 (ucast (ucast (ucast (drop_bit 32 b) :: u32) :: u16) OR
     push_bit 16 (ucast (ucast (drop_bit 16 (ucast (drop_bit 32 b) :: u32)) :: u16))) = (b :: u64)"
  (is "?w = b")
proof (rule bit_word_eqI)
  fix n assume n: "n < LENGTH(64)"
  consider "n < 16" | "16 \<le> n" "n < 24" | "24 \<le> n" "n < 32" | "32 \<le> n" "n < 48" | "48 \<le> n" by linarith
  then show "bit ?w n \<longleftrightarrow> bit b n" unfolding mask_consts using n by cases (simp_all add: bit_simps less_diff_conv2)
qed

lemma gdt_install_eq:
  "gdt_install syms s = ret s' \<Longrightarrow>
     gdt_entries s' 1 = zero_gdt_entry\<lparr>gdt_access := 0x9A, gdt_granularity := 0xA\<rparr> \<and>
     gdt_entries s' 2 = zero_gdt_entry\<lparr>gdt_access := 0x92, gdt_granularity := 0xC\<rparr> \<and>
     gdt_entries s' 4 = zero_gdt_entry\<lparr>gdt_access := 0xF2, gdt_granularity := 0xC\<rparr> \<and>
     gdt_entries s' 5 = zero_gdt_entry\<lparr>gdt_access := 0xFA, gdt_granularity := 0xA\<rparr> \<and>
     code_selector s' = 0x08 \<and> data_selector s' = 0x10 \<and> task_register s' = 0x30"
  by (auto simp: gdt_install_def gdt_set_gate_def write_tss_def tss_flush_def gdt_flush_def Let_def)

lemma gdt_install_tss:
  assumes "gdt_install syms s = ret s'"
  shows "system_base (gdt_entries s' 6) (gdt_entries s' 7) = gdt_tss_addr syms"
    and "system_limit (gdt_entries s' 6) = 103" "gdt_access (gdt_entries s' 6) = 0x89"
    and "tss_rsp0 (gdt_tss s') = kernel_stack syms + 4096"
proof -
  have e: "gdt_base_low (gdt_entries s' 6) = ucast (gdt_tss_addr syms AND 0xFFFF)"
    "gdt_base_middle (gdt_entries s' 6) = ucast (drop_bit 16 (gdt_tss_addr syms) AND 0xFF)"
    "gdt_base_high (gdt_entries s' 6) = ucast (drop_bit 24 (gdt_tss_addr syms) AND 0xFF)"
    "gdt_limit_low (gdt_entries s' 7) = ucast (ucast (drop_bit 32 (gdt_tss_addr syms)) :: u32)"
    "gdt_base_low (gdt_entries s' 7) = ucast (drop_bit 16 (ucast (drop_bit 32 (gdt_tss_addr syms)) :: u32))"
    "gdt_limit_low (gdt_entries s' 6) = 103" "gdt_limit_high (gdt_entries s' 6) = 0"
    using assms
    by (auto simp: gdt_install_def gdt_set_gate_def write_tss_def tss_flush_def gdt_flush_def Let_def)
  show "system_base (gdt_entries s' 6) (gdt_entries s' 7) = gdt_tss_addr syms"
    unfolding system_base_def e by (rule tss_base_split)
  show "system_limit (gdt_entries s' 6) = 103" by (simp add: system_limit_def e)
  show "gdt_access (gdt_entries s' 6) = 0x89" "tss_rsp0 (gdt_tss s') = kernel_stack syms + 4096"
    using assms by (auto simp: gdt_install_def gdt_set_gate_def write_tss_def tss_flush_def gdt_flush_def Let_def)
qed


text \<open>The gates of \<open>isr_install\<close>.\<close>

lemma fold_gates:
  "gate_offset (idt_entries (fold (\<lambda>(idx, stub). idt_set_gate idx stub sel fl) gs s) v) =
     (case find (\<lambda>g. fst g = v) (rev gs) of Some g \<Rightarrow> snd g | None \<Rightarrow> gate_offset (idt_entries s v))"
proof (induction gs arbitrary: s)
  case (Cons g gs)
  obtain i a where g: "g = (i, a)" by (cases g)
  show ?case
    by (cases "i = v") (auto simp: Cons.IH g find_append gate_offset_set idt_set_gate_other split: option.split)
qed simp

lemma find_isrs:
  assumes "i < 32"
  shows "find (\<lambda>g. fst g = (of_nat i :: u8)) (rev (isrs syms)) = Some (of_nat i, if i = 0 then 0 else isr_stub_addr syms i)"
proof (cases "i = 0")
  case True
  then show ?thesis by (simp add: isrs_def)
next
  case False
  have ne: "(of_nat j :: u8) = of_nat i \<longleftrightarrow> j = i" if "j < 32" for j
    using that assms of_nat_inj_lt [of j i, where 'a = 8] by auto
  have "find (\<lambda>g. fst g = (of_nat i :: u8)) (rev (map (\<lambda>i. (of_nat i, isr_stub_addr syms i)) [0..<n])) =
      (if i < n then Some (of_nat i, isr_stub_addr syms i) else None)" if "n \<le> 32" for n
    using that by (induction n) (auto simp: ne)
  then show ?thesis using False ne [of 0] assms by (simp add: isrs_def)
qed

text \<open>
  C27. After \<open>isr_install\<close> the gate of every exception vector from 1 to 31 leads to that vector's
  stub, but the gate of vector 0 leads to address 0: the last round of its loop reads the element of
  \<open>isrs\<close> that no \<open>ISR_SET\<close> filled and overwrites the gate of the divide error.
\<close>

theorem isr_install_gates:
  assumes "i < 32"
  shows "gate_offset (idt_entries (tabs (isr_install syms s)) (of_nat i)) = (if i = 0 then 0 else isr_stub_addr syms i)"
  using find_isrs [OF assms] by (simp add: isr_install_def Let_def fold_gates)

theorem isr_install_gates_witness:
  "\<forall>(syms :: link_syms) (s :: machine). gate_offset (idt_entries (tabs (isr_install syms s)) (of_nat 0)) = 0"
  using isr_install_gates [of 0, simplified] by (intro allI) simp

end
