(* ===== verification/Asm.thy ===== *)
theory Asm
  imports Prelude
begin

text \<open>
  The assembly of the kernel's entry and exit paths as lists of instructions with their effect on
  the registers and the memory: the interrupt stubs of \<open>isr_asm.S\<close> and \<open>irq_asm.S\<close>, the system
  call trap of \<open>syscall.S\<close> and the context switch of \<open>process.S\<close>. The C code they call is any
  state change between the two halves of a stub.
\<close>

section \<open>Definitions\<close>

datatype reg =
  RAX | RBX | RCX | RDX | RSI | RDI | RBP | RSP | R8 | R9 | R10 | R11 | R12 | R13 | R14 | R15 | RFLAGS

record asm =
  areg :: "reg \<Rightarrow> u64"
  amem :: mem
  gs_base :: u64
  kernel_gs_base :: u64
  arip :: addr

datatype instr =
  Push reg | Push_Imm u64 | Pop reg | Mov reg reg
| Store reg reg
| Load reg reg
| Store_Gs reg u64
| Load_Gs u64 reg
| Add_Rsp u64 | Swapgs | Cli | Ret

text \<open>Operands are written in the order of the source, from left to right.\<close>

fun exec :: "instr \<Rightarrow> asm \<Rightarrow> asm" where
  "exec (Push r) a =
     (let sp = areg a RSP - 8 in a\<lparr>areg := (areg a)(RSP := sp), amem := store64 (amem a) sp (areg a r)\<rparr>)"
| "exec (Push_Imm v) a =
     (let sp = areg a RSP - 8 in a\<lparr>areg := (areg a)(RSP := sp), amem := store64 (amem a) sp v\<rparr>)"
| "exec (Pop r) a =
     (let sp = areg a RSP in a\<lparr>areg := (areg a)(RSP := sp + 8, r := load64 (amem a) sp)\<rparr>)"
| "exec (Mov r q) a = a\<lparr>areg := (areg a)(q := areg a r)\<rparr>"
| "exec (Store r q) a = a\<lparr>amem := store64 (amem a) (areg a q) (areg a r)\<rparr>"
| "exec (Load r q) a = a\<lparr>areg := (areg a)(q := load64 (amem a) (areg a r))\<rparr>"
| "exec (Store_Gs r k) a = a\<lparr>amem := store64 (amem a) (gs_base a + k) (areg a r)\<rparr>"
| "exec (Load_Gs k r) a = a\<lparr>areg := (areg a)(r := load64 (amem a) (gs_base a + k))\<rparr>"
| "exec (Add_Rsp v) a = a\<lparr>areg := (areg a)(RSP := areg a RSP + v)\<rparr>"
| "exec Swapgs a = a\<lparr>gs_base := kernel_gs_base a, kernel_gs_base := gs_base a\<rparr>"
| "exec Cli a = a\<lparr>areg := (areg a)(RFLAGS := areg a RFLAGS AND NOT 0x200)\<rparr>"
| "exec Ret a =
     (let sp = areg a RSP in a\<lparr>areg := (areg a)(RSP := sp + 8), arip := load64 (amem a) sp\<rparr>)"

definition run :: "instr list \<Rightarrow> asm \<Rightarrow> asm" where
  "run p a = fold exec p a"

text \<open>The macros \<open>ISR_NOERR\<close> and \<open>ISR_ERR\<close> and their uses, up to the jump to \<open>isr_common\<close>.\<close>

definition ISR_NOERR :: "u64 \<Rightarrow> instr list" where
  "ISR_NOERR number = [Cli, Push_Imm 0, Push_Imm number]"

definition ISR_ERR :: "u64 \<Rightarrow> instr list" where
  "ISR_ERR number = [Cli, Push_Imm number]"

definition isr_stub :: "u64 \<Rightarrow> instr list" where
  "isr_stub n = (if n \<in> {8, 10, 11, 12, 13, 14} then ISR_ERR n else ISR_NOERR n)"

definition irq_stub :: "u64 \<Rightarrow> instr list" where
  "irq_stub i = [Cli, Push_Imm 0, Push_Imm (32 + i)]"

text \<open>\<open>isr_common\<close> before and after the call of \<open>isr_handler\<close>.\<close>

definition isr_common_enter :: "instr list" where
  "isr_common_enter =
     [Push RAX, Push RBX, Push RCX, Push RDX, Push RSI, Push RDI, Push RBP,
      Push R8, Push R9, Push R10, Push R11, Push R12, Push R13, Push R14, Push R15, Push RFLAGS,
      Mov RSP RDI]"

definition isr_common_leave :: "instr list" where
  "isr_common_leave =
     [Pop RFLAGS,
      Pop R15, Pop R14, Pop R13, Pop R12, Pop R11, Pop R10, Pop R9, Pop R8,
      Pop RBP, Pop RDI, Pop RSI, Pop RDX, Pop RCX, Pop RBX, Pop RAX,
      Add_Rsp 16]"

definition irq_common_enter :: "instr list" where
  "irq_common_enter =
     [Push RAX, Push RBX, Push RCX, Push RDX, Push RSI, Push RDI, Push RBP,
      Push R8, Push R9, Push R10, Push R11, Push R12, Push R13, Push R14, Push R15, Push RFLAGS,
      Mov RSP RDI]"

definition irq_common_leave :: "instr list" where
  "irq_common_leave =
     [Pop RFLAGS,
      Pop R15, Pop R14, Pop R13, Pop R12, Pop R11, Pop R10, Pop R9, Pop R8,
      Pop RBP, Pop RDI, Pop RSI, Pop RDX, Pop RCX, Pop RBX, Pop RAX,
      Add_Rsp 16]"

text \<open>\<open>syscall_trap\<close> before and after the call of \<open>syscall_handler\<close>.\<close>

definition syscall_trap_enter :: "instr list" where
  "syscall_trap_enter =
     [Swapgs, Store_Gs RSP 8, Load_Gs 0 RSP,
      Push RAX, Push RBX, Push RCX, Push RDX, Push RSI, Push RDI, Push RBP,
      Push R8, Push R9, Push R10, Push R11, Push R12, Push R13, Push R14, Push R15,
      Mov RSP RDI]"

definition syscall_trap_leave :: "instr list" where
  "syscall_trap_leave =
     [Pop R15, Pop R14, Pop R13, Pop R12, Pop R11, Pop R10, Pop R9, Pop R8,
      Pop RBP, Pop RDI, Pop RSI, Pop RDX, Pop RCX, Pop RBX, Pop RAX,
      Store_Gs RSP 0, Load_Gs 8 RSP, Swapgs]"

text \<open>\<open>process_switch(prev, next)\<close>, with \<open>prev\<close> in \<open>RDI\<close> and \<open>next\<close> in \<open>RSI\<close>.\<close>

definition process_switch :: "instr list" where
  "process_switch =
     [Push RBP, Push RBX, Push R12, Push R13, Push R14, Push R15,
      Store RSP RDI, Load RSI RSP,
      Pop R15, Pop R14, Pop R13, Pop R12, Pop RBX, Pop RBP,
      Ret]"

text \<open>
  The first code of a new process, up to the call of \<open>process_entry\<close> or \<open>process_user_entry\<close>, and \<open>switch_to_user\<close>
  of \<open>user.S\<close> up to its \<open>iretq\<close>, which takes the instruction pointer, the code segment, the flags, the stack pointer
  and the stack segment from the stack.
\<close>

definition kernel_trampoline :: "instr list" where
  "kernel_trampoline = [Mov R15 RDI]"

definition user_trampoline :: "instr list" where
  "user_trampoline = [Mov R15 RDI, Mov R14 RSI]"

definition switch_to_user :: "instr list" where
  "switch_to_user = [Push_Imm 0x23, Push RSI, Push_Imm 0x200, Push_Imm 0x2B, Push RDI]"

text \<open>The layout of \<open>regs_t\<close>: the saved registers from its start, eight bytes each.\<close>

definition regs_t_layout :: "reg list" where
  "regs_t_layout =
     [RFLAGS, R15, R14, R13, R12, R11, R10, R9, R8, RBP, RDI, RSI, RDX, RCX, RBX, RAX]"

section \<open>Runs of pushes and pops\<close>

lemma run_simps [simp]: "run [] a = a" "run (i # p) a = run p (exec i a)" "run (p @ q) a = run q (run p a)"
  by (simp_all add: run_def)

text \<open>\<open>slots m sp vs\<close>: the words \<open>vs\<close> stand in memory from \<open>sp\<close> upwards.\<close>

fun slots :: "mem \<Rightarrow> addr \<Rightarrow> u64 list \<Rightarrow> bool" where
  "slots m sp [] \<longleftrightarrow> True"
| "slots m sp (v # vs) \<longleftrightarrow> load64 m sp = v \<and> slots m (sp + 8) vs"

lemma slots_nth: "slots m sp vs \<Longrightarrow> i < length vs \<Longrightarrow> load64 m (sp + 8 * of_nat i) = vs ! i"
proof (induction vs arbitrary: sp i)
  case (Cons v vs)
  show ?case
  proof (cases i)
    case (Suc j)
    then have "load64 m (sp + 8 + 8 * of_nat j) = vs ! j" using Cons by auto
    then show ?thesis by (simp add: Suc algebra_simps)
  qed (use Cons.prems in simp)
qed simp

lemma slots_append: "slots m sp (vs @ ws) \<longleftrightarrow> slots m sp vs \<and> slots m (sp + 8 * of_nat (length vs)) ws"
  by (induction vs arbitrary: sp) (auto simp: algebra_simps)

lemma region_offset_disjoint:
  fixes a :: addr
  assumes "i + j \<le> 2 ^ 64"
  shows "region a i \<inter> region (a + of_nat i) j = {}"
proof (rule ccontr)
  assume "region a i \<inter> region (a + of_nat i) j \<noteq> {}"
  then obtain x where "x \<in> region a i" "x \<in> region (a + of_nat i) j" by blast
  then obtain k l where "k < i" "l < j" "x = a + of_nat k" "x = a + of_nat i + of_nat l"
    unfolding region_def by blast
  then have "of_nat k = (of_nat (i + l) :: u64)" by (simp add: add.assoc)
  moreover have "k < 2 ^ LENGTH(64)" "i + l < 2 ^ LENGTH(64)" using \<open>k < i\<close> \<open>l < j\<close> assms by auto
  ultimately have "k = i + l" by (rule of_nat_inj_lt)
  then show False using \<open>k < i\<close> by simp
qed

lemma slots_cong:
  "(\<And>x. x \<in> region sp (8 * length vs) \<Longrightarrow> m' x = m x) \<Longrightarrow> slots m' sp vs = slots m sp vs"
proof (induction vs arbitrary: sp)
  case (Cons v vs)
  have sub: "region sp 8 \<subseteq> region sp (8 * length (v # vs))" by (auto simp: region_def)
  have "region (sp + 8) (8 * length vs) \<subseteq> region sp (8 * length (v # vs))"
  proof
    fix x assume "x \<in> region (sp + 8) (8 * length vs)"
    then obtain k where "k < 8 * length vs" "x = sp + of_nat (8 + k)" by (auto simp: region_def add.assoc)
    then show "x \<in> region sp (8 * length (v # vs))"
      unfolding region_def by (intro image_eqI [of _ _ "8 + k"]) auto
  qed
  then have "slots m' (sp + 8) vs = slots m (sp + 8) vs" using Cons.prems by (intro Cons.IH) blast
  moreover have "load64 m' sp = load64 m sp" using Cons.prems sub by (intro load64_cong) blast
  ultimately show ?case by simp
qed simp

lemma slots_push:
  assumes "slots m sp vs" "length vs < 2 ^ 60"
  shows "slots (store64 m (sp - 8) v) (sp - 8) (v # vs)"
proof -
  have "region (sp - 8) 8 \<inter> region (sp - 8 + of_nat 8) (8 * length vs) = {}"
    using assms(2) by (intro region_offset_disjoint) simp
  then have dis: "region (sp - 8) 8 \<inter> region sp (8 * length vs) = {}" by simp
  have "store64 m (sp - 8) v x = m x" if "x \<in> region sp (8 * length vs)" for x
    using dis that by (intro store64_outside) blast
  then have "slots (store64 m (sp - 8) v) sp vs = slots m sp vs" by (rule slots_cong)
  then show ?thesis using assms(1) by simp
qed

lemma run_push:
  assumes "RSP \<notin> set rs" "slots (amem a) (areg a RSP) vs" "length rs + length vs < 2 ^ 60"
  defines "a' \<equiv> run (map Push rs) a"
  shows "slots (amem a') (areg a RSP - 8 * of_nat (length rs)) (rev (map (areg a) rs) @ vs)"
    and "areg a' = (areg a)(RSP := areg a RSP - 8 * of_nat (length rs))"
    and "gs_base a' = gs_base a" "kernel_gs_base a' = kernel_gs_base a"
proof -
  have "slots (amem (run (map Push rs) a)) (areg a RSP - 8 * of_nat (length rs)) (rev (map (areg a) rs) @ vs) \<and>
    areg (run (map Push rs) a) = (areg a)(RSP := areg a RSP - 8 * of_nat (length rs)) \<and>
    gs_base (run (map Push rs) a) = gs_base a \<and> kernel_gs_base (run (map Push rs) a) = kernel_gs_base a"
    using assms(1-3)
  proof (induction rs arbitrary: a vs)
    case (Cons r rs)
    let ?a = "exec (Push r) a"
    have rsp: "r \<noteq> RSP" "RSP \<notin> set rs" using Cons.prems(1) by auto
    have sl: "slots (amem ?a) (areg ?a RSP) (areg a r # vs)"
      using slots_push [OF Cons.prems(2)] Cons.prems(3) by (simp add: Let_def)
    have len: "length rs + length (areg a r # vs) < 2 ^ 60" using Cons.prems(3) by simp
    have eq: "map (areg ?a) rs = map (areg a) rs" using rsp by (auto simp: Let_def)
    have a: "areg ?a = (areg a)(RSP := areg a RSP - 8)" "gs_base ?a = gs_base a" "kernel_gs_base ?a = kernel_gs_base a"
      by (simp_all add: Let_def)
    have sp: "areg a RSP - 8 - 8 * of_nat (length rs) = areg a RSP - 8 * of_nat (length (r # rs))"
      by (simp add: algebra_simps)
    have st: "run (map Push (r # rs)) a = run (map Push rs) ?a" by simp
    have rv: "rev (map (areg a) (r # rs)) @ vs = rev (map (areg a) rs) @ areg a r # vs" by simp
    note IH = Cons.IH [OF rsp(2) sl len, unfolded eq, unfolded a fun_upd_same fun_upd_upd sp]
    show ?case unfolding st rv by (rule IH)
  qed simp
  then show "slots (amem a') (areg a RSP - 8 * of_nat (length rs)) (rev (map (areg a) rs) @ vs)"
    and "areg a' = (areg a)(RSP := areg a RSP - 8 * of_nat (length rs))"
    and "gs_base a' = gs_base a" "kernel_gs_base a' = kernel_gs_base a" by (simp_all add: a'_def)
qed

lemma run_push_mem:
  assumes "x \<notin> region (areg a RSP - 8 * of_nat (length rs)) (8 * length rs)" "RSP \<notin> set rs"
  shows "amem (run (map Push rs) a) x = amem a x"
  using assms
proof (induction rs arbitrary: a)
  case (Cons r rs)
  let ?n = "length rs" and ?a = "exec (Push r) a"
  have sp: "areg ?a RSP - 8 * of_nat ?n = areg a RSP - 8 * of_nat (length (r # rs))"
    by (simp add: Let_def algebra_simps)
  have sub: "region (areg a RSP - 8 * of_nat (length (r # rs))) (8 * ?n) \<subseteq>
      region (areg a RSP - 8 * of_nat (length (r # rs))) (8 * length (r # rs))" by (auto simp: region_def)
  have "region (areg a RSP - 8) 8 \<subseteq> region (areg a RSP - 8 * of_nat (length (r # rs))) (8 * length (r # rs))"
  proof
    fix y assume "y \<in> region (areg a RSP - 8) 8"
    then obtain k where "k < 8" "y = areg a RSP - 8 * of_nat (length (r # rs)) + of_nat (8 * ?n + k)"
      by (auto simp: region_def algebra_simps)
    then show "y \<in> region (areg a RSP - 8 * of_nat (length (r # rs))) (8 * length (r # rs))"
      unfolding region_def by (intro image_eqI [of _ _ "8 * ?n + k"]) auto
  qed
  then have "amem ?a x = amem a x" using Cons.prems(1) by (auto simp: Let_def intro!: store64_outside)
  moreover have "amem (run (map Push rs) ?a) x = amem ?a x"
    using Cons.prems sub unfolding sp [symmetric] by (intro Cons.IH) auto
  ultimately show ?case by simp
qed simp

lemma run_pop:
  assumes "RSP \<notin> set rs" "distinct rs" "slots (amem a) (areg a RSP) vs" "length vs = length rs"
  shows "run (map Pop rs) a =
    a\<lparr>areg := (\<lambda>q. if q = RSP then areg a RSP + 8 * of_nat (length rs)
                     else case map_of (zip rs vs) q of Some v \<Rightarrow> v | None \<Rightarrow> areg a q)\<rparr>"
  using assms
proof (induction rs arbitrary: a vs)
  case Nil
  then show ?case by (cases a) (simp add: fun_eq_iff)
next
  case (Cons r rs)
  obtain v ws where vs: "vs = v # ws" using Cons.prems(4) by (cases vs) auto
  let ?a = "exec (Pop r) a"
  have r: "r \<noteq> RSP" "RSP \<notin> set rs" "r \<notin> set rs" "distinct rs" using Cons.prems(1,2) by auto
  have sl: "slots (amem ?a) (areg ?a RSP) ws" "load64 (amem a) (areg a RSP) = v"
    using Cons.prems(3) r(1) by (auto simp: vs Let_def)
  have len: "length ws = length rs" using Cons.prems(4) by (simp add: vs)
  have none: "map_of (zip rs ws) r = None" using r(3) len by (simp add: map_of_zip_is_None)
  have st: "run (map Pop (r # rs)) a = run (map Pop rs) ?a" by simp
  have a: "areg ?a = (areg a)(RSP := areg a RSP + 8, r := v)" using sl(2) by (simp add: Let_def)
  have upd: "?a\<lparr>areg := f\<rparr> = a\<lparr>areg := f\<rparr>" for f by (simp add: Let_def)
  have sp: "areg a RSP + 8 + 8 * of_nat (length rs) = areg a RSP + 8 * of_nat (length (r # rs))"
    by (simp add: algebra_simps)
  show ?case
    unfolding st Cons.IH [OF r(2,4) sl(1) len] upd a
    using r(1) none sp by (intro arg_cong [of _ _ "\<lambda>f. a\<lparr>areg := f\<rparr>"]) (auto simp: vs fun_eq_iff split: option.split)
qed

section \<open>Interrupt frames\<close>

lemma push_list:
  "isr_common_enter = map Push (rev regs_t_layout) @ [Mov RSP RDI]"
  "isr_common_leave = map Pop regs_t_layout @ [Add_Rsp 16]"
  "irq_common_enter = isr_common_enter" "irq_common_leave = isr_common_leave"
  by (simp_all add: isr_common_enter_def isr_common_leave_def irq_common_enter_def irq_common_leave_def regs_t_layout_def)

lemma layout_ok: "RSP \<notin> set regs_t_layout" "distinct regs_t_layout" "length regs_t_layout = 16"
  by (simp_all add: regs_t_layout_def)

lemma common_enter:
  assumes "slots (amem a) (areg a RSP) vs" "length vs < 100"
  defines "b \<equiv> run isr_common_enter a"
  shows "areg b = (areg a)(RSP := areg a RSP - 128, RDI := areg a RSP - 128)"
    and "slots (amem b) (areg a RSP - 128) (map (areg a) regs_t_layout @ vs)"
proof -
  have rsp: "RSP \<notin> set (rev regs_t_layout)" and len: "length (rev regs_t_layout) + length vs < 2 ^ 60"
    using layout_ok assms(2) by simp_all
  note push = run_push [OF rsp assms(1) len]
  show "areg b = (areg a)(RSP := areg a RSP - 128, RDI := areg a RSP - 128)"
    using push(2) layout_ok(3) by (simp add: b_def push_list)
  show "slots (amem b) (areg a RSP - 128) (map (areg a) regs_t_layout @ vs)"
    using push(1) layout_ok(3) by (simp add: b_def push_list rev_map)
qed

lemma common_leave:
  assumes "slots (amem c) (areg c RSP) (map R regs_t_layout)"
  shows "areg (run isr_common_leave c) = R(RSP := areg c RSP + 144)" "amem (run isr_common_leave c) = amem c"
proof -
  have len: "length (map R regs_t_layout) = length regs_t_layout" by simp
  have all: "q \<in> set regs_t_layout \<or> q = RSP" for q by (cases q) (simp_all add: regs_t_layout_def)
  have look: "map_of (zip rs (map R rs)) q = (if q \<in> set rs then Some (R q) else None)" for rs q
    by (induction rs) auto
  note pop = run_pop [OF layout_ok(1,2) assms len]
  show "areg (run isr_common_leave c) = R(RSP := areg c RSP + 144)"
    using all layout_ok(3) by (auto simp: push_list pop look fun_eq_iff)
  show "amem (run isr_common_leave c) = amem c" by (simp add: push_list pop)
qed

text \<open>
  The registers an interrupt saves (interrupts are masked first), the error code in the frame, and
  the stack pointer behind it.
\<close>

definition has_error :: "u64 \<Rightarrow> bool" where
  "has_error n \<longleftrightarrow> n \<in> {8, 10, 11, 12, 13, 14}"

definition masked_regs :: "asm \<Rightarrow> reg \<Rightarrow> u64" where
  "masked_regs a = (areg a)(RFLAGS := areg a RFLAGS AND NOT 0x200)"

definition isr_error :: "u64 \<Rightarrow> asm \<Rightarrow> u64" where
  "isr_error n a = (if has_error n then load64 (amem a) (areg a RSP) else 0)"

definition frame_top :: "u64 \<Rightarrow> asm \<Rightarrow> addr" where
  "frame_top n a = areg a RSP + (if has_error n then 8 else 0)"

lemma isr_stub_frame:
  "areg (run (isr_stub n) a) = (masked_regs a)(RSP := frame_top n a - 16)"
  "slots (amem (run (isr_stub n) a)) (frame_top n a - 16) [n, isr_error n a]"
proof -
  show "areg (run (isr_stub n) a) = (masked_regs a)(RSP := frame_top n a - 16)"
    by (auto simp: isr_stub_def ISR_ERR_def ISR_NOERR_def masked_regs_def frame_top_def has_error_def Let_def fun_eq_iff)
  show "slots (amem (run (isr_stub n) a)) (frame_top n a - 16) [n, isr_error n a]"
  proof (cases "has_error n")
    case True
    have "slots (store64 (amem a) (areg a RSP - 8) n) (areg a RSP - 8) [n, isr_error n a]"
      using True by (intro slots_push) (simp_all add: isr_error_def)
    then show ?thesis
      using True by (simp add: isr_stub_def ISR_ERR_def has_error_def frame_top_def Let_def del: slots.simps)
  next
    case False
    have "slots (store64 (amem a) (areg a RSP - 8) 0) (areg a RSP - 8) [0]" by (intro slots_push) simp_all
    then have "slots (store64 (store64 (amem a) (areg a RSP - 8) 0) (areg a RSP - 8 - 8) n) (areg a RSP - 8 - 8) [n, 0]"
      by (intro slots_push) simp_all
    then show ?thesis
      using False
      by (simp add: isr_stub_def ISR_NOERR_def has_error_def frame_top_def isr_error_def Let_def del: slots.simps)
  qed
qed


definition asm_example :: asm where
  "asm_example = \<lparr>areg = (\<lambda>r. if r = RSP then 0x9000 else 7), amem = (\<lambda>_. 0), gs_base = 0x4000,
     kernel_gs_base = 0x5000, arip = 0\<rparr>"


section \<open>System calls\<close>

definition trap_layout :: "reg list" where
  "trap_layout = tl regs_t_layout"

lemma trap_list:
  "syscall_trap_enter = [Swapgs, Store_Gs RSP 8, Load_Gs 0 RSP] @ map Push (rev trap_layout) @ [Mov RSP RDI]"
  "syscall_trap_leave = map Pop trap_layout @ [Store_Gs RSP 0, Load_Gs 8 RSP, Swapgs]"
  by (simp_all add: syscall_trap_enter_def syscall_trap_leave_def trap_layout_def regs_t_layout_def)

lemma trap_layout_ok: "RSP \<notin> set trap_layout" "distinct trap_layout" "length trap_layout = 15" "set trap_layout = - {RSP, RFLAGS}"
proof -
  show "set trap_layout = - {RSP, RFLAGS}"
  proof
    show "- {RSP, RFLAGS} \<subseteq> set trap_layout"
    proof
      fix r assume "r \<in> - {RSP, RFLAGS}"
      then show "r \<in> set trap_layout" by (cases r) (simp_all add: trap_layout_def regs_t_layout_def)
    qed
  qed (simp add: trap_layout_def regs_t_layout_def)
qed (simp_all add: trap_layout_def regs_t_layout_def)

text \<open>
  C25. The system call trap keeps the caller's registers. Entered with the address \<open>p\<close> of the
  current \<open>process_t\<close> in the kernel's \<open>GS\<close> base, it saves the user stack pointer in \<open>ursp\<close>
  (offset 8), switches to the stack in \<open>krsp\<close> (offset 0) and calls the handler with the saved registers
  in the order of \<open>regs_t\<close> without its first field. When the handler returns with that stack
  pointer, any values \<open>R\<close> in the saved words and \<open>ursp\<close> as it was, the trap returns to the user
  stack with the registers \<open>R\<close>, \<open>krsp\<close> as it was before and the two \<open>GS\<close> bases swapped back.
\<close>

theorem syscall_trap_correct:
  assumes p: "kernel_gs_base a = p" "load64 (amem a) p = k"
    and apart: "region p 16 \<inter> region (k - 120) 120 = {}"
  shows "(let b = run syscall_trap_enter a in
      areg b RDI = k - 120 \<and> areg b RSP = k - 120 \<and> gs_base b = p \<and> kernel_gs_base b = gs_base a \<and>
      load64 (amem b) (p + 8) = areg a RSP \<and> slots (amem b) (k - 120) (map (areg a) trap_layout)) \<and>
    (\<forall>c R. areg c RSP = k - 120 \<and> gs_base c = p \<and> kernel_gs_base c = gs_base a \<and>
       load64 (amem c) (p + 8) = areg a RSP \<and> slots (amem c) (k - 120) (map R trap_layout) \<longrightarrow>
       (let d = run syscall_trap_leave c in
         areg d = R(RSP := areg a RSP, RFLAGS := areg c RFLAGS) \<and> load64 (amem d) p = k \<and>
         gs_base d = gs_base a \<and> kernel_gs_base d = p))"
proof (intro conjI allI impI)
  have p8: "region p 8 \<inter> region (p + 8) 8 = {}" using region_offset_disjoint [of 8 8 p] by simp
  have sub: "region (p + 8) 8 \<subseteq> region p 16" "region p 8 \<subseteq> region p 16"
  proof -
    show "region (p + 8) 8 \<subseteq> region p 16"
    proof
      fix x assume "x \<in> region (p + 8) 8"
      then obtain j where "j < 8" "x = p + of_nat (8 + j)" by (auto simp: region_def add.assoc)
      then show "x \<in> region p 16" unfolding region_def by (intro image_eqI [of _ _ "8 + j"]) auto
    qed
  qed (auto simp: region_def)
  show "let b = run syscall_trap_enter a in
      areg b RDI = k - 120 \<and> areg b RSP = k - 120 \<and> gs_base b = p \<and> kernel_gs_base b = gs_base a \<and>
      load64 (amem b) (p + 8) = areg a RSP \<and> slots (amem b) (k - 120) (map (areg a) trap_layout)"
  proof -
    define s where "s = run [Swapgs, Store_Gs RSP 8, Load_Gs 0 RSP] a"
    have "load64 (store64 (amem a) (p + 8) (areg a RSP)) p = k"
      using p(2) p8 by (simp add: load64_store64_disjoint Int_commute)
    then have s: "areg s = (areg a)(RSP := k)" "gs_base s = p" "kernel_gs_base s = gs_base a"
      "load64 (amem s) (p + 8) = areg a RSP"
      using p(1) by (simp_all add: s_def)
    have rsp: "RSP \<notin> set (rev trap_layout)" and len: "length (rev trap_layout) + length ([] :: u64 list) < 2 ^ 60"
      using trap_layout_ok by simp_all
    note push = run_push [OF rsp _ len, of s, simplified]
    have eq: "rev (map (areg s) (rev trap_layout)) = map (areg a) trap_layout"
      using trap_layout_ok(1) by (auto simp: s(1) rev_map)
    have mem: "amem (run (map Push (rev trap_layout)) s) x = amem s x" if "x \<in> region (p + 8) 8" for x
      using that apart sub(1) trap_layout_ok(1,3) by (intro run_push_mem) (auto simp: s(1))
    have "load64 (amem (run (map Push (rev trap_layout)) s)) (p + 8) = areg a RSP"
      using load64_cong [of "p + 8" "amem (run (map Push (rev trap_layout)) s)" "amem s"] mem s(4) by simp
    moreover have "run syscall_trap_enter a = exec (Mov RSP RDI) (run (map Push (rev trap_layout)) s)"
      by (simp only: trap_list(1) s_def run_simps)
    ultimately show ?thesis
      using push s(2,3) trap_layout_ok(3) unfolding eq by (simp add: s(1) Let_def)
  qed
next
  fix c :: asm and R assume c: "areg c RSP = k - 120 \<and> gs_base c = p \<and> kernel_gs_base c = gs_base a \<and>
       load64 (amem c) (p + 8) = areg a RSP \<and> slots (amem c) (k - 120) (map R trap_layout)"
  have p8: "region p 8 \<inter> region (p + 8) 8 = {}" using region_offset_disjoint [of 8 8 p] by simp
  have len: "length (map R trap_layout) = length trap_layout" by simp
  have sl: "slots (amem c) (areg c RSP) (map R trap_layout)" using c by simp
  have look: "map_of (zip rs (map R rs)) q = (if q \<in> set rs then Some (R q) else None)" for rs q
    by (induction rs) auto
  note pop = run_pop [OF trap_layout_ok(1,2) sl len]
  have ld: "load64 (store64 (amem c) p k) (p + 8) = areg a RSP" "load64 (store64 (amem c) p k) p = k"
    using c p8 by (simp_all add: load64_store64_disjoint)
  show "let d = run syscall_trap_leave c in
         areg d = R(RSP := areg a RSP, RFLAGS := areg c RFLAGS) \<and> load64 (amem d) p = k \<and>
         gs_base d = gs_base a \<and> kernel_gs_base d = p"
    using c ld trap_layout_ok(3,4) by (auto simp: trap_list(2) pop look Let_def fun_eq_iff)
qed

theorem syscall_trap_correct_witness:
  "gs_base (run syscall_trap_enter (asm_example\<lparr>amem := store64 (\<lambda>_. 0) 0x5000 0x8000\<rparr>)) = 0x5000"
proof -
  let ?a = "asm_example\<lparr>amem := store64 (\<lambda>_. 0) 0x5000 0x8000\<rparr>"
  have "region (0x5000 :: u64) 16 \<inter> region (0x8000 - 120) 120 = {}"
  proof (rule ccontr)
    assume "\<not> ?thesis"
    then obtain i j where "i < 16" "j < 120" "of_nat (0x5000 + i) = (of_nat (0x7F88 + j) :: u64)"
      by (auto simp: region_def)
    then have "0x5000 + i = 0x7F88 + j" by (intro of_nat_inj_lt [where 'a = 64]) auto
    then show False using \<open>i < 16\<close> by simp
  qed
  then show ?thesis
    using syscall_trap_correct [of ?a "0x5000" "0x8000"] by (simp add: asm_example_def Let_def del: run_simps)
qed

section \<open>The context switch\<close>

definition callee_saved :: "reg list" where
  "callee_saved = [R15, R14, R13, R12, RBX, RBP]"

lemma switch_list:
  "process_switch = map Push (rev callee_saved) @ [Store RSP RDI, Load RSI RSP] @ map Pop callee_saved @ [Ret]"
  by (simp add: process_switch_def callee_saved_def)

lemma callee_saved_ok: "RSP \<notin> set callee_saved" "distinct callee_saved" "length callee_saved = 6" "RDI \<notin> set callee_saved" "RSI \<notin> set callee_saved"
  by (simp_all add: callee_saved_def)

text \<open>
  A context that is not running: the word at \<open>p\<close> (the field \<open>krsp\<close>) points to its callee-saved
  registers and the address it continues at.
\<close>

definition suspended :: "mem \<Rightarrow> addr \<Rightarrow> u64 list \<Rightarrow> addr \<Rightarrow> bool" where
  "suspended m p vs ra \<longleftrightarrow> length vs = 6 \<and> slots m (load64 m p) (vs @ [ra])"

text \<open>
  C23. \<open>process_switch\<close> suspends the caller and resumes the other context: if the context behind
  \<open>RSI\<close> is suspended with the registers \<open>vs\<close> and the address \<open>ra\<close>, the switch continues at \<open>ra\<close>
  with exactly these registers and the stack above its frame, and leaves the caller suspended
  behind \<open>RDI\<close> with its own callee-saved registers and return address, so that a later switch back
  resumes it as if the call had just returned. The two stacks and the two \<open>krsp\<close> words must not overlap.
\<close>

theorem process_switch_correct:
  assumes nxt: "suspended (amem a) (areg a RSI) vs ra"
    and apart: "region (areg a RDI) 8 \<inter> region (areg a RSI) 8 = {}"
      "region (areg a RSP - 48) 56 \<inter> region (areg a RDI) 8 = {}"
      "region (areg a RSP - 48) 56 \<inter> region (areg a RSI) 8 = {}"
      "region (areg a RSP - 48) 56 \<inter> region (load64 (amem a) (areg a RSI)) 56 = {}"
      "region (areg a RDI) 8 \<inter> region (load64 (amem a) (areg a RSI)) 56 = {}"
  shows "let b = run process_switch a in
    arip b = ra \<and> areg b RSP = load64 (amem a) (areg a RSI) + 56 \<and> map (areg b) callee_saved = vs \<and>
    (\<forall>r. r \<notin> set callee_saved \<and> r \<noteq> RSP \<longrightarrow> areg b r = areg a r) \<and>
    suspended (amem b) (areg a RDI) (map (areg a) callee_saved) (load64 (amem a) (areg a RSP))"
proof -
  let ?sp = "areg a RSP" and ?q = "areg a RSI" and ?p = "areg a RDI"
  let ?sp2 = "load64 (amem a) ?q"
  define s where "s = run (map Push (rev callee_saved)) a"
  have rsp: "RSP \<notin> set (rev callee_saved)" using callee_saved_ok by simp
  have ra: "slots (amem a) ?sp [load64 (amem a) ?sp]" by simp
  have len: "length (rev callee_saved) + length [load64 (amem a) ?sp] < 2 ^ 60" using callee_saved_ok by simp
  note push = run_push [OF rsp ra len, folded s_def]
  have sl: "slots (amem s) (?sp - 48) (map (areg a) callee_saved @ [load64 (amem a) ?sp])"
    using push(1) callee_saved_ok(3) by (simp add: rev_map)
  have reg: "areg s = (areg a)(RSP := ?sp - 48)" using push(2) callee_saved_ok(3) by simp
  have sub: "region (?sp - 48) 48 \<subseteq> region (?sp - 48) 56" by (auto simp: region_def)
  have mem: "amem s x = amem a x" if "x \<notin> region (?sp - 48) 56" for x
    unfolding s_def using that sub callee_saved_ok(1,3) by (intro run_push_mem) auto
  have q: "load64 (amem s) ?q = ?sp2" using mem apart(3) by (intro load64_cong) blast
  define m where "m = store64 (amem s) ?p (?sp - 48)"
  have out: "m x = amem s x" if "x \<notin> region ?p 8" for x unfolding m_def by (rule store64_outside [OF that])
  have q2: "load64 m ?q = ?sp2"
    using q apart(1) by (simp add: m_def load64_store64_disjoint)
  have nx: "length vs = 6" "slots (amem a) ?sp2 (vs @ [ra])" using nxt by (simp_all add: suspended_def)
  have "m x = amem a x" if x: "x \<in> region ?sp2 (8 * length (vs @ [ra]))" for x
  proof -
    have x56: "x \<in> region ?sp2 56" using x nx(1) by simp
    then have "x \<notin> region ?p 8" "x \<notin> region (?sp - 48) 56" using apart(4,5) by blast+
    then show ?thesis using out mem by simp
  qed
  then have fr: "slots m ?sp2 (vs @ [ra])" using slots_cong [of ?sp2 "vs @ [ra]" m "amem a"] nx(2) by simp
  have "m x = amem s x" if x: "x \<in> region (?sp - 48) (8 * length (map (areg a) callee_saved @ [load64 (amem a) ?sp]))" for x
  proof -
    have "x \<in> region (?sp - 48) 56" using x callee_saved_ok(3) by simp
    then show ?thesis using out apart(2) by blast
  qed
  then have own: "slots m (?sp - 48) (map (areg a) callee_saved @ [load64 (amem a) ?sp])"
    using slots_cong [of "?sp - 48" "map (areg a) callee_saved @ [load64 (amem a) ?sp]" m "amem s"] sl by simp
  define t where "t = s\<lparr>areg := (areg a)(RSP := ?sp2), amem := m\<rparr>"
  have t: "exec (Load RSI RSP) (exec (Store RSP RDI) s) = t"
    using q2 by (simp add: t_def m_def reg)
  have ft: "areg t = (areg a)(RSP := ?sp2)" "amem t = m" by (simp_all add: t_def)
  have fr1: "slots (amem t) (areg t RSP) vs" and fr2: "load64 m (?sp2 + 48) = ra"
    using fr nx(1) by (simp_all add: ft slots_append)
  have lv: "length vs = length callee_saved" using nx(1) callee_saved_ok(3) by simp
  note pop = run_pop [OF callee_saved_ok(1,2) fr1 lv]
  have b: "run process_switch a = exec Ret (run (map Pop callee_saved) t)"
    by (simp only: switch_list run_simps s_def [symmetric]) (simp only: t)
  have vs: "map (\<lambda>q. case map_of (zip rs ws) q of Some v \<Rightarrow> v | None \<Rightarrow> f q) rs = ws"
    if "distinct rs" "length ws = length rs" for rs ws and f :: "reg \<Rightarrow> u64"
    using that by (intro nth_equalityI) (auto simp: map_of_zip_nth)
  have "map (areg (run process_switch a)) callee_saved = vs"
  proof -
    have "map (areg (run process_switch a)) callee_saved =
        map (\<lambda>q. case map_of (zip callee_saved vs) q of Some v \<Rightarrow> v | None \<Rightarrow> areg t q) callee_saved"
      using callee_saved_ok(1) by (auto simp: b pop Let_def)
    then show ?thesis using vs [OF callee_saved_ok(2) lv] by simp
  qed
  moreover have "arip (run process_switch a) = ra" "areg (run process_switch a) RSP = ?sp2 + 56" "amem (run process_switch a) = m"
    using fr2 callee_saved_ok(3) by (simp_all add: b pop Let_def ft)
  moreover have "areg (run process_switch a) r = areg a r" if "r \<notin> set callee_saved" "r \<noteq> RSP" for r
  proof -
    have "map_of (zip callee_saved vs) r = None" using that(1) lv by (simp add: map_of_zip_is_None)
    then show ?thesis using that by (simp add: b pop Let_def ft)
  qed
  moreover have "load64 m ?p = ?sp - 48" by (simp add: m_def)
  ultimately show ?thesis using own callee_saved_ok(3) by (simp add: Let_def suspended_def)
qed

theorem process_switch_correct_witness:
  "arip (run process_switch (asm_example\<lparr>areg := (\<lambda>_. 0)(RSP := 0x9000, RDI := 0x100, RSI := 0x200)\<rparr>)) = 0"
proof -
  let ?a = "asm_example\<lparr>areg := (\<lambda>_. 0)(RSP := 0x9000, RDI := 0x100, RSI := 0x200)\<rparr>"
  have z: "load64 (amem ?a) x = 0" for x by (intro load64_zero) (simp add: asm_example_def)
  then have z': "load64 (amem asm_example) x = 0" for x by simp
  have nat: "region (of_nat i :: u64) n \<inter> region (of_nat j) k = {}" if "i + n \<le> j" "j + k \<le> 2 ^ 64" for i n j k
  proof (rule ccontr)
    assume "\<not> ?thesis"
    then obtain u v where uv: "u < n" "v < k" "of_nat (i + u) = (of_nat (j + v) :: u64)" by (auto simp: region_def)
    have "i + u = j + v" by (rule of_nat_inj_lt [OF uv(3)]) (use uv(1,2) that in auto)
    then show False using uv(1) that(1) by simp
  qed
  have "suspended (amem ?a) (areg ?a RSI) [0, 0, 0, 0, 0, 0] 0" by (simp only: suspended_def z) (simp only: slots.simps append.simps z, simp)
  then show ?thesis
    using process_switch_correct [of ?a "[0, 0, 0, 0, 0, 0]" 0]
      nat [of "0x100" 8 "0x200" 8] nat [of "0x100" 8 "0x8FD0" 56] nat [of "0x200" 8 "0x8FD0" 56] nat [of 0 56 "0x8FD0" 56]
      nat [of 0 56 "0x100" 8]
    by (simp add: Let_def z' Int_commute del: run_simps)
qed

section \<open>The start of a user process\<close>

lemma slots_push_imm:
  assumes "slots (amem a) (areg a RSP) vs" "length vs < 2 ^ 60"
  shows "slots (amem (exec (Push_Imm v) a)) (areg (exec (Push_Imm v) a) RSP) (v # vs)"
    "q \<noteq> RSP \<Longrightarrow> areg (exec (Push_Imm v) a) q = areg a q"
  using slots_push [OF assms] by (simp_all add: Let_def)

lemma slots_push_reg:
  assumes "slots (amem a) (areg a RSP) vs" "length vs < 2 ^ 60" "r \<noteq> RSP"
  shows "slots (amem (exec (Push r) a)) (areg (exec (Push r) a) RSP) (areg a r # vs)"
    "q \<noteq> RSP \<Longrightarrow> areg (exec (Push r) a) q = areg a q"
  using slots_push [OF assms(1,2)] by (simp_all add: Let_def)

text \<open>
  The frame that \<open>iretq\<close> takes: it continues at the entry point, in ring 3 and on the user stack, with interrupts
  enabled.
\<close>

lemma switch_to_user_frame:
  "slots (amem (run switch_to_user a)) (areg (run switch_to_user a) RSP) [areg a RDI, 0x2B, 0x200, areg a RSI, 0x23]"
proof -
  let ?a1 = "exec (Push_Imm 0x23) a"
  let ?a2 = "exec (Push RSI) ?a1"
  let ?a3 = "exec (Push_Imm 0x200) ?a2"
  let ?a4 = "exec (Push_Imm 0x2B) ?a3"
  have s1: "slots (amem ?a1) (areg ?a1 RSP) [0x23]" "\<And>q. q \<noteq> RSP \<Longrightarrow> areg ?a1 q = areg a q"
    using slots_push_imm [of a "[]"] by (simp_all del: exec.simps slots.simps(2))
  have s2: "slots (amem ?a2) (areg ?a2 RSP) [areg a RSI, 0x23]" "\<And>q. q \<noteq> RSP \<Longrightarrow> areg ?a2 q = areg a q"
    using slots_push_reg [OF s1(1), of RSI] s1(2) by (simp_all del: exec.simps slots.simps)
  have s3: "slots (amem ?a3) (areg ?a3 RSP) [0x200, areg a RSI, 0x23]" "\<And>q. q \<noteq> RSP \<Longrightarrow> areg ?a3 q = areg a q"
    using slots_push_imm [OF s2(1)] s2(2) by (simp_all del: exec.simps slots.simps)
  have s4: "slots (amem ?a4) (areg ?a4 RSP) [0x2B, 0x200, areg a RSI, 0x23]" "\<And>q. q \<noteq> RSP \<Longrightarrow> areg ?a4 q = areg a q"
    using slots_push_imm [OF s3(1)] s3(2) by (simp_all del: exec.simps slots.simps)
  show ?thesis
    using slots_push_reg [OF s4(1), of RDI] s4(2) by (simp add: switch_to_user_def del: exec.simps slots.simps)
qed

text \<open>
  What \<open>process_user_trampoline\<close> makes of the registers that the first switch to a process loads from the stack
  \<open>process_create_user\<close> has built.
\<close>

lemma user_trampoline_args:
  assumes "map (areg a) callee_saved = [entry, stack, 0, 0, 0, 0]"
  shows "areg (run user_trampoline a) RDI = entry" "areg (run user_trampoline a) RSI = stack"
    "areg (run kernel_trampoline a) RDI = entry"
  using assms by (simp_all add: callee_saved_def user_trampoline_def kernel_trampoline_def)

end
