(* ===== verification/Process.thy ===== *)
theory Process
  imports Machine Asm
begin

text \<open>
  Processes, \<open>kernel/system/process.c\<close>: creation, the circular list of processes, the reaper of dead
  ones, the scheduler with its context switch, sleep and exit; and the page fault handler of
  \<open>vmm.c\<close>, which works on the current process. The structures that \<open>malloc\<close> returns for processes and
  list nodes are kept as records in a store indexed by their addresses; a read of an address whose
  object was freed is a fault. The stacks are plain memory. A call of \<open>process_switch\<close> ends in another
  context, which continues either after its own call in \<open>process_schedule\<close> or, the first time, in
  the trampoline; both do \<open>IRQ_RES\<close> next, so the model of \<open>process_schedule\<close> does too.
\<close>

section \<open>Definitions\<close>

definition STACK_SIZE :: u64 where "STACK_SIZE = 0x00010000"
definition USER_STACK_TOP :: addr where "USER_STACK_TOP = 0xB0000000"
definition USER_STACK_BASE :: addr where "USER_STACK_BASE = 0xAFF00000"

datatype process_type_t = PROCESS_KERNEL | PROCESS_USER
datatype process_state_t = PROCESS_READY | PROCESS_RUNNING | PROCESS_SLEEPING | PROCESS_DEAD

record process_t =
  krsp :: u64
  ursp :: u64
  proc_id :: u32
  proc_name :: addr
  wake_at :: u64
  proc_type :: process_type_t
  proc_state :: process_state_t
  proc_stack :: addr
  stack_top :: addr
  proc_pagemap :: pagemap_t
  user_heap_start :: u64
  user_heap_position :: u64
  fsbase :: u64
  fpu_state :: "u8 list"

record process_node_t =
  node_process :: addr
  node_next :: addr

text \<open>
  Addresses the linker chooses: the trampolines, \<open>forever\<close>, the place after the call of
  \<open>process_switch\<close>, and the string literals.
\<close>

record code_syms =
  process_kernel_trampoline :: addr
  process_user_trampoline :: addr
  forever :: addr
  switch_return :: addr
  lit :: "string \<Rightarrow> addr"

record proc = machine +
  process_head :: addr
  next_pid :: u32
  should_schedule :: bool
  procs :: "addr \<rightharpoonup> process_t"
  nodes :: "addr \<rightharpoonup> process_node_t"
  kregs :: "reg \<Rightarrow> u64"
  krip :: addr
  fpu :: "u8 list"
  cr2 :: addr

definition get_node :: "addr \<Rightarrow> 'a proc_scheme \<Rightarrow> process_node_t result" where
  "get_node a s = (case nodes s a of Some n \<Rightarrow> ret n | None \<Rightarrow> fails (Bad_Access ''process_node_t''))"

definition get_proc :: "addr \<Rightarrow> 'a proc_scheme \<Rightarrow> process_t result" where
  "get_proc a s = (case procs s a of Some p \<Rightarrow> ret p | None \<Rightarrow> fails (Bad_Access ''process_t''))"

definition set_node :: "addr \<Rightarrow> process_node_t \<Rightarrow> 'a proc_scheme \<Rightarrow> 'a proc_scheme" where
  "set_node a n s = s\<lparr>nodes := (nodes s)(a \<mapsto> n)\<rparr>"

definition set_proc :: "addr \<Rightarrow> process_t \<Rightarrow> 'a proc_scheme \<Rightarrow> 'a proc_scheme" where
  "set_proc a p s = s\<lparr>procs := (procs s)(a \<mapsto> p)\<rparr>"

subsection \<open>Creation\<close>

definition zero_process :: process_t where
  "zero_process = \<lparr>krsp = 0, ursp = 0, proc_id = 0, proc_name = 0, wake_at = 0,
     proc_type = PROCESS_KERNEL, proc_state = PROCESS_READY, proc_stack = 0, stack_top = 0,
     proc_pagemap = 0, user_heap_start = 0, user_heap_position = 0, fsbase = 0,
     fpu_state = replicate 512 0\<rparr>"

text \<open>\<open>PROCESS_PUSH\<close> and \<open>PUSH_STACK\<close>.\<close>

definition PROCESS_PUSH :: "addr \<Rightarrow> 'a proc_scheme \<Rightarrow> 'a proc_scheme result" where
  "PROCESS_PUSH new_process s =
     rbind (get_node new_process s) (\<lambda>n.
     rbind (if process_head s = NULL
            then ret ((set_node new_process (n\<lparr>node_next := new_process\<rparr>) s)\<lparr>process_head := new_process\<rparr>)
            else rbind (get_node (process_head s) s) (\<lambda>h.
                 let s = set_node new_process (n\<lparr>node_next := node_next h\<rparr>) s in
                 rbind (get_node (process_head s) s) (\<lambda>h.
                 ret (set_node (process_head s) (h\<lparr>node_next := new_process\<rparr>) s)))) (\<lambda>s.
     ret (s\<lparr>should_schedule := True\<rparr>)))"

definition PUSH_STACK :: "u64 \<Rightarrow> addr \<times> mem \<Rightarrow> addr \<times> mem" where
  "PUSH_STACK v = (\<lambda>(stack, m). (stack - 8, store64 m (stack - 8) v))"

definition process_create ::
  "code_syms \<Rightarrow> addr \<Rightarrow> pagemap_t \<Rightarrow> 'a proc_scheme \<Rightarrow> (addr \<times> 'a proc_scheme) result" where
  "process_create syms entry_pt pagemap s =
     rbind (kmalloc 608 s) (\<lambda>(new_process, s).
     rbind (ASSERT (new_process \<noteq> NULL)) (\<lambda>_.
     let s = set_proc new_process zero_process s in
     rbind (kmalloc STACK_SIZE s) (\<lambda>(stk, s).
     rbind (ASSERT (stk \<noteq> NULL)) (\<lambda>_.
     let s = s\<lparr>mem := memset (mem s) stk 0 STACK_SIZE\<rparr>;
         top = (stk + STACK_SIZE) AND NOT 0xF;
         pm = (if pagemap = NULL then kernel_pagemap s else pagemap);
         entry_pt = (if entry_pt = NULL then forever syms else entry_pt);
         (sp, m) = PUSH_STACK entry_pt (PUSH_STACK 0 (PUSH_STACK 0 (PUSH_STACK 0 (PUSH_STACK 0
                    (PUSH_STACK 0 (PUSH_STACK (process_kernel_trampoline syms) (top, mem s)))))));
         s = s\<lparr>mem := m\<rparr>;
         p = zero_process\<lparr>proc_stack := stk, stack_top := top, proc_pagemap := pm,
               proc_id := next_pid s, proc_type := PROCESS_KERNEL, krsp := sp, ursp := 0,
               user_heap_start := 0, user_heap_position := 0, proc_name := lit syms ''kernel''\<rparr>;
         s = (set_proc new_process p s)\<lparr>next_pid := next_pid s + 1\<rparr>
     in
     rbind (kmalloc 16 s) (\<lambda>(new_node, s).
     let s = set_node new_node \<lparr>node_process = new_process, node_next = 0\<rparr> s in
     rbind (PROCESS_PUSH new_node s) (\<lambda>s.
     ret (new_process, s)))))))"

definition process_create_user ::
  "code_syms \<Rightarrow> addr \<Rightarrow> pagemap_t \<Rightarrow> addr \<Rightarrow> addr \<Rightarrow> 'a proc_scheme \<Rightarrow> (addr \<times> 'a proc_scheme) result" where
  "process_create_user syms entry_pt pagemap user_stack_top user_heap s =
     rbind (ASSERT (pagemap \<noteq> NULL)) (\<lambda>_.
     rbind (kmalloc 608 s) (\<lambda>(new_process, s).
     rbind (ASSERT (new_process \<noteq> NULL)) (\<lambda>_.
     let s = set_proc new_process zero_process s in
     rbind (kmalloc STACK_SIZE s) (\<lambda>(stk, s).
     rbind (ASSERT (stk \<noteq> NULL)) (\<lambda>_.
     let s = s\<lparr>mem := memset (mem s) stk 0 STACK_SIZE\<rparr>;
         top = (stk + STACK_SIZE) AND NOT 0xF;
         entry_pt = (if entry_pt = NULL then forever syms else entry_pt);
         (sp, m) = PUSH_STACK entry_pt (PUSH_STACK user_stack_top (PUSH_STACK 0 (PUSH_STACK 0 (PUSH_STACK 0
                    (PUSH_STACK 0 (PUSH_STACK (process_user_trampoline syms) (top, mem s)))))));
         s = s\<lparr>mem := m\<rparr>;
         p = zero_process\<lparr>proc_stack := stk, stack_top := top, proc_pagemap := pagemap,
               proc_id := next_pid s, proc_type := PROCESS_USER, krsp := sp, ursp := user_stack_top,
               user_heap_start := user_heap, user_heap_position := user_heap,
               proc_name := lit syms ''user-unnamed''\<rparr>;
         s = (set_proc new_process p s)\<lparr>next_pid := next_pid s + 1\<rparr>
     in
     rbind (kmalloc 16 s) (\<lambda>(new_node, s).
     let s = set_node new_node \<lparr>node_process = new_process, node_next = 0\<rparr> s in
     rbind (PROCESS_PUSH new_node s) (\<lambda>s.
     ret (new_process, s))))))))"

subsection \<open>Reaping\<close>

text \<open>\<open>for (i = from; i < to; i += PAGE_SIZE) vmm_unmap_page(pagemap, i)\<close>.\<close>

partial_function (option) unmap_range ::
  "pagemap_t \<Rightarrow> addr \<Rightarrow> addr \<Rightarrow> 'a vmm_scheme \<Rightarrow> 'a vmm_scheme result" where
  "unmap_range pagemap i to s =
     (if i < to then
        rbind (vmm_unmap_page pagemap i s) (\<lambda>(_, s). unmap_range pagemap (i + PAGE_SIZE) to s)
      else ret s)"

definition reap_process :: "addr \<Rightarrow> process_t \<Rightarrow> addr \<Rightarrow> 'a proc_scheme \<Rightarrow> 'a proc_scheme result" where
  "reap_process cur proc proc_addr s =
     rbind (unmap_range (proc_pagemap proc) USER_STACK_BASE USER_STACK_TOP s) (\<lambda>s.
     rbind (if user_heap_start proc \<noteq> 0
            then unmap_range (proc_pagemap proc) ((user_heap_start proc + 0xFFF) AND NOT 0xFFF)
                   (user_heap_position proc) s
            else ret s) (\<lambda>s.
     rbind (kfree (proc_stack proc) s) (\<lambda>s.
     rbind (kfree proc_addr s) (\<lambda>s.
     let s = s\<lparr>procs := (procs s)(proc_addr := None)\<rparr> in
     rbind (kfree cur s) (\<lambda>s.
     ret (s\<lparr>nodes := (nodes s)(cur := None)\<rparr>))))))"

partial_function (option) reap_loop ::
  "addr \<Rightarrow> addr \<Rightarrow> 'a proc_scheme \<Rightarrow> 'a proc_scheme result" where
  "reap_loop prev cur s =
     rbind (get_node cur s) (\<lambda>cn.
     rbind (get_proc (node_process cn) s) (\<lambda>proc.
     rbind
       (if proc_state proc = PROCESS_DEAD then
          rbind (if cur = prev then ret (s\<lparr>process_head := NULL\<rparr>)
                 else rbind (get_node prev s) (\<lambda>pn.
                      let s = set_node prev (pn\<lparr>node_next := node_next cn\<rparr>) s in
                      ret (if process_head s = cur then s\<lparr>process_head := prev\<rparr> else s))) (\<lambda>s.
          rbind (reap_process cur proc (node_process cn) s) (\<lambda>s.
          rbind (get_node prev s) (\<lambda>pn.
          ret (prev, node_next pn, s))))
        else ret (cur, node_next cn, s))
       (\<lambda>(prev, cur, s).
     if cur \<noteq> process_head s \<and> process_head s \<noteq> NULL then reap_loop prev cur s else ret s)))"

definition process_reap :: "'a proc_scheme \<Rightarrow> 'a proc_scheme result" where
  "process_reap s =
     (if process_head s = NULL then ret s else
      rbind (get_node (process_head s) s) (\<lambda>h.
      if node_next h = NULL then ret s
      else reap_loop (process_head s) (node_next h) s))"

subsection \<open>Scheduling\<close>

text \<open>
  \<open>process_switch\<close> with the two \<open>krsp\<close> fields in the store: the call pushes its return address, the
  callee-saved registers go to the old stack and come from the new one.
\<close>

definition switch_context ::
  "code_syms \<Rightarrow> addr \<Rightarrow> addr \<Rightarrow> 'a proc_scheme \<Rightarrow> 'a proc_scheme result" where
  "switch_context syms prev_addr curr_addr s =
     (let a = \<lparr>areg = kregs s, amem = mem s, gs_base = 0, kernel_gs_base = 0, arip = krip s\<rparr>;
          a = run [Push_Imm (switch_return syms), Push RBP, Push RBX, Push R12, Push R13, Push R14, Push R15] a
      in
      rbind (get_proc prev_addr s) (\<lambda>prev_proc.
      let s = set_proc prev_addr (prev_proc\<lparr>krsp := areg a RSP\<rparr>) s in
      rbind (get_proc curr_addr s) (\<lambda>curr_proc.
      let a = a\<lparr>areg := (areg a)(RSP := krsp curr_proc)\<rparr>;
          a = run [Pop R15, Pop R14, Pop R13, Pop R12, Pop RBX, Pop RBP, Ret] a
      in ret (s\<lparr>kregs := areg a, krip := arip a, mem := amem a\<rparr>))))"

partial_function (option) skip_sleeping :: "'a proc_scheme \<Rightarrow> 'a proc_scheme result" where
  "skip_sleeping s =
     rbind (get_node (process_head s) s) (\<lambda>h.
     rbind (get_proc (node_process h) s) (\<lambda>p.
     if wake_at p > ticks s then skip_sleeping (s\<lparr>process_head := node_next h\<rparr>) else ret s))"

text \<open>The second half of \<open>process_schedule\<close>: skip sleeping processes, then switch.\<close>

definition schedule_switch :: "code_syms \<Rightarrow> addr \<Rightarrow> 'a proc_scheme \<Rightarrow> 'a proc_scheme result" where
  "schedule_switch syms prev_addr s =
     rbind (skip_sleeping s) (\<lambda>s.
     rbind (get_node (process_head s) s) (\<lambda>c.
     let curr_addr = node_process c in
     rbind (get_proc curr_addr s) (\<lambda>curr_proc.
     rbind (get_proc prev_addr s) (\<lambda>prev_proc.
     if proc_id curr_proc = proc_id prev_proc then ret (int_resume s) else
     rbind (ASSERT (proc_pagemap curr_proc \<noteq> NULL)) (\<lambda>_.
     rbind (vmm_switch_pagemap (proc_pagemap curr_proc) s) (\<lambda>s.
     rbind (ASSERT (stack_top curr_proc \<noteq> NULL)) (\<lambda>_.
     let s = s\<lparr>tabs := tss_set_stack (stack_top curr_proc) (tabs s)\<rparr>;
         s = (if proc_type prev_proc = PROCESS_USER
              then set_proc prev_addr (prev_proc\<lparr>fpu_state := fpu s, fsbase := rdmsr MSR_FS_BASE s\<rparr>) s
              else s);
         s = (if proc_type curr_proc = PROCESS_USER
              then wrmsr MSR_FS_BASE (fsbase curr_proc) (s\<lparr>fpu := fpu_state curr_proc\<rparr>)
              else s);
         s = wrmsr MSR_USER_GS_BASE curr_addr s
     in
     rbind (switch_context syms prev_addr curr_addr s) (\<lambda>s.
     ret (int_resume s)))))))))"

definition process_schedule :: "code_syms \<Rightarrow> 'a proc_scheme \<Rightarrow> 'a proc_scheme result" where
  "process_schedule syms s =
     (let s = int_disable s; s = irq_ack 0 s in
      if \<not> should_schedule s \<or> process_head s = NULL then ret (int_resume s) else
      rbind (get_node (process_head s) s) (\<lambda>h.
      if node_next h = NULL then ret (int_resume s) else
      rbind (get_proc (node_process h) s) (\<lambda>hp.
      if proc_pagemap hp = NULL then ret (int_resume s) else
      rbind (get_node (node_next h) s) (\<lambda>n.
      rbind (get_proc (node_process n) s) (\<lambda>np.
      if proc_pagemap np = NULL then ret (int_resume s) else
      rbind (process_reap s) (\<lambda>s.
      rbind (get_node (process_head s) s) (\<lambda>h.
      let prev_addr = node_process h in
      rbind (ASSERT (prev_addr \<noteq> NULL)) (\<lambda>_.
      let s = s\<lparr>process_head := node_next h\<rparr> in
      rbind (ASSERT (process_head s \<noteq> NULL)) (\<lambda>_.
      rbind (get_node (process_head s) s) (\<lambda>c.
      rbind (ASSERT (node_process c \<noteq> NULL)) (\<lambda>_.
      schedule_switch syms prev_addr s)))))))))))"

definition process_yield :: "code_syms \<Rightarrow> 'a proc_scheme \<Rightarrow> 'a proc_scheme result" where
  "process_yield syms s = process_schedule syms s"

text \<open>The address of the current \<open>process_t\<close>.\<close>

definition process_get_current :: "'a proc_scheme \<Rightarrow> addr result" where
  "process_get_current s =
     (if process_head s \<noteq> NULL then rbind (get_node (process_head s) s) (\<lambda>h. ret (node_process h))
      else rbind (ASSERT False) (\<lambda>_. ret NULL))"

definition process_sleep :: "code_syms \<Rightarrow> u64 \<Rightarrow> 'a proc_scheme \<Rightarrow> 'a proc_scheme result" where
  "process_sleep syms ms s =
     rbind (process_get_current s) (\<lambda>a.
     if a = NULL then fails (Panic ''sleeping without a process'') else
     rbind (get_proc a s) (\<lambda>p.
     process_yield syms (set_proc a (p\<lparr>wake_at := ticks s + ms\<rparr>) s)))"

definition process_exit :: "code_syms \<Rightarrow> 'a proc_scheme \<Rightarrow> 'a proc_scheme result" where
  "process_exit syms s =
     rbind (process_get_current s) (\<lambda>a.
     if a = NULL then fails (Panic ''exiting without a process'') else
     rbind (get_proc a s) (\<lambda>p.
     process_schedule syms (set_proc a (p\<lparr>proc_state := PROCESS_DEAD\<rparr>) s)))"

text \<open>
  \<open>process_entry\<close>, the first C function of a kernel process: it runs the function \<open>f\<close> of the process and exits.
  What follows \<open>process_exit\<close> is \<open>UNREACHABLE\<close>; it is not reached when another context goes on. \<open>halt_forever\<close> is
  the function \<open>forever\<close>, which a process without a function runs.
\<close>

definition halt_forever :: "'a proc_scheme \<Rightarrow> 'a proc_scheme result" where
  "halt_forever s = diverges"

definition process_entry ::
  "code_syms \<Rightarrow> ('a proc_scheme \<Rightarrow> 'a proc_scheme result) \<Rightarrow> 'a proc_scheme \<Rightarrow> 'a proc_scheme result" where
  "process_entry syms f s =
     rbind (f (int_resume s)) (\<lambda>s.
     rbind (process_get_current s) (\<lambda>a.
     rbind (process_exit syms s) (\<lambda>s.
     rbind (process_get_current s) (\<lambda>b.
     if b \<noteq> a then ret s else rbind (ASSERT False) (\<lambda>_. ret s)))))"

text \<open>
  \<open>process_user_entry\<close>, the first C function of a user process, up to the \<open>iretq\<close> of \<open>switch_to_user\<close>, which does not come
  back. The registers are \<open>a\<close>; the memory of both states is the same.
\<close>

definition process_user_entry :: "addr \<Rightarrow> addr \<Rightarrow> asm \<Rightarrow> 'a proc_scheme \<Rightarrow> asm \<times> 'a proc_scheme" where
  "process_user_entry uentry ustack a s =
     (let s = int_resume s;
          a = run [Swapgs] (a\<lparr>amem := mem s\<rparr>);
          a = run switch_to_user (a\<lparr>areg := (areg a)(RDI := uentry, RSI := ustack)\<rparr>)
      in (a, s\<lparr>mem := amem a\<rparr>))"

subsection \<open>Page faults\<close>

text \<open>
  \<open>vmm_pagefault\<close>; the faulting address is in \<open>CR2\<close>, \<open>cs\<close> is the code segment of the frame. When
  \<open>process_exit\<close> ends in another context, the rest of the handler belongs to the dead one.
\<close>

definition vmm_pagefault :: "code_syms \<Rightarrow> u64 \<Rightarrow> 'a proc_scheme \<Rightarrow> 'a proc_scheme result" where
  "vmm_pagefault syms cs s =
     (let s = int_disable s;
          fault_addr = cr2 s;
          flags = PTE_PRESENT OR PTE_WRITABLE OR PTE_USER
      in
      rbind (process_get_current s) (\<lambda>a.
      rbind (ASSERT (a \<noteq> NULL)) (\<lambda>_.
      rbind (get_proc a s) (\<lambda>p.
      rbind (ASSERT (proc_pagemap p \<noteq> NULL)) (\<lambda>_.
      if fault_addr \<ge> user_heap_start p \<and> fault_addr < user_heap_position p + PAGE_SIZE then
        let page_addr = fault_addr AND NOT (PAGE_SIZE - 1) in
        rbind (pmm_allocate s) (\<lambda>(page, s).
        rbind (vmm_map_page (proc_pagemap p) page_addr page flags s) (\<lambda>(_, s).
        let s = (if page_addr \<ge> user_heap_position p
                 then set_proc a (p\<lparr>user_heap_position := page_addr + PAGE_SIZE\<rparr>) s else s)
        in ret (int_resume s)))
      else if fault_addr \<ge> USER_STACK_BASE \<and> fault_addr < USER_STACK_TOP then
        let page_addr = fault_addr AND NOT (PAGE_SIZE - 1) in
        rbind (pmm_allocate s) (\<lambda>(page, s).
        rbind (vmm_map_page (proc_pagemap p) page_addr page flags s) (\<lambda>(_, s).
        ret (int_resume s)))
      else
        rbind (if cs AND 3 \<noteq> 0 then process_exit syms (int_resume s) else ret s) (\<lambda>s.
        rbind (process_get_current s) (\<lambda>a'.
        if a' \<noteq> a then ret s else fails (Panic ''erm, page fault occurred''))))))))"

text \<open>
  A user process starts at its entry point, in ring 3 and on its own stack, with interrupts enabled and the bases of
  \<open>GS\<close> exchanged.
\<close>

lemma process_user_entry_frame:
  fixes s :: "'a proc_scheme"
  shows "case process_user_entry uentry ustack a s of (a', s') \<Rightarrow>
    slots (mem s') (areg a' RSP) [uentry, 0x2B, 0x200, ustack, 0x23] \<and> amem a' = mem s' \<and>
    gs_base a' = kernel_gs_base a \<and> kernel_gs_base a' = gs_base a"
proof -
  let ?a = "exec Swapgs (a\<lparr>amem := mem (int_resume s)\<rparr>)"
  let ?b = "?a\<lparr>areg := (areg ?a)(RDI := uentry, RSI := ustack)\<rparr>"
  have "gs_base (run switch_to_user ?b) = gs_base ?b \<and> kernel_gs_base (run switch_to_user ?b) = kernel_gs_base ?b"
    by (simp add: switch_to_user_def run_def Let_def)
  then show ?thesis
    using switch_to_user_frame [of ?b] by (simp add: process_user_entry_def Let_def run_def)
qed

end
