(* ===== verification/Process_Ring.thy ===== *)
theory Process_Ring
  imports Process
begin

text \<open>
  The circular list of processes and the scheduler: with no dead process to reap, one call of
  \<open>process_schedule\<close> moves to the next process that is not asleep, so awake processes take turns; when
  every process sleeps, the call never returns.
\<close>

section \<open>The ring\<close>

text \<open>
  \<open>ring s ns\<close>: the nodes \<open>ns\<close>, the current one first, are linked in a circle; each points to a process
  of its own, and the processes have distinct numbers.
\<close>

definition node_proc :: "'a proc_scheme \<Rightarrow> addr \<Rightarrow> addr" where
  "node_proc s n = node_process (the (nodes s n))"

definition proc_at :: "'a proc_scheme \<Rightarrow> addr \<Rightarrow> process_t" where
  "proc_at s n = the (procs s (node_proc s n))"

definition linked :: "'a proc_scheme \<Rightarrow> addr list \<Rightarrow> bool" where
  "linked s ns \<longleftrightarrow> ns \<noteq> [] \<and> distinct ns \<and> NULL \<notin> set ns \<and>
     (\<forall>i<length ns. nodes s (ns ! i) = Some \<lparr>node_process = node_proc s (ns ! i), node_next = ns ! (Suc i mod length ns)\<rparr>)"

definition ring :: "'a proc_scheme \<Rightarrow> addr list \<Rightarrow> bool" where
  "ring s ns \<longleftrightarrow> linked s ns \<and> process_head s = hd ns \<and>
     (\<forall>n\<in>set ns. node_proc s n \<noteq> NULL \<and> procs s (node_proc s n) = Some (proc_at s n)) \<and>
     inj_on (\<lambda>n. proc_id (proc_at s n)) (set ns)"

lemma ring_head:
  assumes "ring s ns"
  shows "process_head s = ns ! 0" "0 < length ns" "process_head s \<noteq> NULL" "hd ns = ns ! 0"
proof -
  have "ns \<noteq> []" "NULL \<notin> set ns" "process_head s = hd ns" using assms by (auto simp: ring_def linked_def)
  then show "process_head s = ns ! 0" "0 < length ns" "hd ns = ns ! 0" by (auto simp: hd_conv_nth)
  show "process_head s \<noteq> NULL" using \<open>process_head s = hd ns\<close> hd_in_set [OF \<open>ns \<noteq> []\<close>] \<open>NULL \<notin> set ns\<close> by metis
qed

lemma ring_node:
  assumes "ring s ns" "i < length ns"
  shows "get_node (ns ! i) s = ret \<lparr>node_process = node_proc s (ns ! i), node_next = ns ! (Suc i mod length ns)\<rparr>"
    "get_proc (node_proc s (ns ! i)) s = ret (proc_at s (ns ! i))" "ns ! i \<noteq> NULL" "node_proc s (ns ! i) \<noteq> NULL"
proof -
  have m: "ns ! i \<in> set ns" using assms(2) by simp
  show "get_node (ns ! i) s = ret \<lparr>node_process = node_proc s (ns ! i), node_next = ns ! (Suc i mod length ns)\<rparr>"
    using assms by (simp add: ring_def linked_def get_node_def)
  show "get_proc (node_proc s (ns ! i)) s = ret (proc_at s (ns ! i))"
    using assms(1) m by (simp add: ring_def get_proc_def)
  show "ns ! i \<noteq> NULL" using assms(1) m unfolding ring_def linked_def by metis
  show "node_proc s (ns ! i) \<noteq> NULL" using assms(1) m by (simp add: ring_def)
qed

lemma ring_nth_eq: "ring s ns \<Longrightarrow> i < length ns \<Longrightarrow> j < length ns \<Longrightarrow> ns ! i = ns ! j \<longleftrightarrow> i = j"
  by (auto simp: ring_def linked_def nth_eq_iff_index_eq)

text \<open>Moving the head rotates the ring.\<close>

lemma linked_rotate:
  assumes "linked s ns"
  shows "linked s (rotate k ns)"
  unfolding linked_def
proof (intro conjI allI impI)
  have n: "ns \<noteq> []" using assms by (simp add: linked_def)
  fix i assume i: "i < length (rotate k ns)"
  let ?n = "length ns" and ?j = "(k + i) mod length ns"
  have j: "?j < ?n" using n by simp
  have "nodes s (ns ! ?j) = Some \<lparr>node_process = node_proc s (ns ! ?j), node_next = ns ! (Suc ?j mod ?n)\<rparr>"
    using assms j by (simp add: linked_def)
  moreover have "rotate k ns ! i = ns ! ?j" using i by (simp add: nth_rotate)
  moreover have "rotate k ns ! (Suc i mod ?n) = ns ! (Suc ?j mod ?n)"
  proof -
    have "Suc i mod ?n < ?n" using n by simp
    then have "rotate k ns ! (Suc i mod ?n) = ns ! ((k + Suc i mod ?n) mod ?n)" by (simp add: nth_rotate)
    also have "(k + Suc i mod ?n) mod ?n = Suc ?j mod ?n" by (simp add: mod_simps)
    finally show ?thesis .
  qed
  ultimately show "nodes s (rotate k ns ! i) =
      Some \<lparr>node_process = node_proc s (rotate k ns ! i), node_next = rotate k ns ! (Suc i mod length (rotate k ns))\<rparr>"
    by simp
qed (use assms in \<open>auto simp: linked_def\<close>)

lemma ring_move:
  assumes "ring s ns" "i < length ns"
  shows "ring (s\<lparr>process_head := ns ! i\<rparr>) (rotate i ns)"
proof -
  have "hd (rotate i ns) = ns ! i"
    using assms ring_head(2) [OF assms(1)] by (subst hd_rotate_conv_nth) auto
  moreover have "linked (s\<lparr>process_head := ns ! i\<rparr>) (rotate i ns)"
    using linked_rotate [of s ns i] assms(1) by (simp add: ring_def linked_def node_proc_def)
  ultimately show ?thesis using assms(1) by (simp add: ring_def node_proc_def proc_at_def)
qed

section \<open>The reaper with nothing to do\<close>

definition alive :: "'a proc_scheme \<Rightarrow> addr \<Rightarrow> bool" where
  "alive s n \<longleftrightarrow> proc_state (proc_at s n) \<noteq> PROCESS_DEAD"

lemma reap_loop_alive:
  assumes r: "ring s ns" and al: "\<forall>j. i \<le> j \<and> j < length ns \<longrightarrow> alive s (ns ! j)" and i: "0 < i" "i < length ns"
  shows "reap_loop prev (ns ! i) s = ret s"
  using al i
proof (induction "length ns - i" arbitrary: i prev)
  case (Suc k)
  have i: "0 < i" "i < length ns" using Suc.prems by simp_all
  note n = ring_node [OF r i(2)]
  have al: "proc_state (proc_at s (ns ! i)) \<noteq> PROCESS_DEAD" using Suc.prems by (auto simp: alive_def)
  have step: "reap_loop prev (ns ! i) s =
      (if ns ! (Suc i mod length ns) \<noteq> process_head s \<and> process_head s \<noteq> NULL
       then reap_loop (ns ! i) (ns ! (Suc i mod length ns)) s else ret s)"
    by (subst reap_loop.simps) (use n al in simp)
  show ?case
  proof (cases "Suc i = length ns")
    case True
    then show ?thesis using step ring_head [OF r] by simp
  next
    case False
    then have "Suc i < length ns" using i by simp
    then show ?thesis using step Suc.hyps(1) [of "Suc i" "ns ! i"] Suc.hyps(2) Suc.prems by auto
  qed
qed simp

lemma process_reap_alive:
  assumes "ring s ns" "\<forall>j. 0 < j \<and> j < length ns \<longrightarrow> alive s (ns ! j)" "length ns = 1 \<longrightarrow> alive s (ns ! 0)"
  shows "process_reap s = ret s"
proof -
  note h = ring_head [OF assms(1)] and n = ring_node [OF assms(1) ring_head(2) [OF assms(1)]]
  show ?thesis
  proof (cases "length ns = 1")
    case True
    have "reap_loop (ns ! 0) (ns ! 0) s = ret s"
      by (subst reap_loop.simps) (use n True assms(3) h in \<open>simp add: alive_def\<close>)
    then show ?thesis using h n True by (simp add: process_reap_def)
  next
    case False
    then have l: "1 < length ns" using h(2) by linarith
    have "process_reap s = reap_loop (ns ! 0) (ns ! 1) s"
      using h n l ring_node(3) [OF assms(1) l] by (simp add: process_reap_def)
    also have "\<dots> = ret s" using l assms(2) by (intro reap_loop_alive [OF assms(1)]) auto
    finally show ?thesis .
  qed
qed

section \<open>Choosing the next process\<close>

definition asleep :: "'a proc_scheme \<Rightarrow> addr \<Rightarrow> bool" where
  "asleep s n \<longleftrightarrow> wake_at (proc_at s n) > ticks s"

lemma skip_sleeping_step:
  assumes "ring s ns"
  shows "skip_sleeping s =
    (if asleep s (ns ! 0) then skip_sleeping (s\<lparr>process_head := ns ! (1 mod length ns)\<rparr>) else ret s)"
  using ring_head [OF assms] ring_node [OF assms ring_head(2) [OF assms]]
  by (subst skip_sleeping.simps) (simp add: asleep_def)

lemma asleep_head [simp]: "asleep (s\<lparr>process_head := h\<rparr>) n = asleep s n"
  by (simp add: asleep_def proc_at_def node_proc_def)

lemma skip_sleeping_awake:
  assumes "ring s ns" "i < length ns" "\<forall>j<i. asleep s (ns ! j)" "\<not> asleep s (ns ! i)"
  shows "skip_sleeping s = ret (s\<lparr>process_head := ns ! i\<rparr>)"
  using assms
proof (induction i arbitrary: s ns)
  case 0
  have "s\<lparr>process_head := ns ! 0\<rparr> = s" using ring_head(1) [OF 0(1)] by simp
  then show ?case using skip_sleeping_step [OF 0(1)] 0(4) by simp
next
  case (Suc i)
  let ?s = "s\<lparr>process_head := ns ! 1\<rparr>" and ?ns = "rotate 1 ns"
  have l: "1 < length ns" using Suc.prems(2) by simp
  have r: "ring ?s ?ns" using ring_move [OF Suc.prems(1) l] by simp
  have nth: "?ns ! j = ns ! Suc j" if "j \<le> i" for j
    using that Suc.prems(2) nth_rotate [of j ns 1] by simp
  have "skip_sleeping ?s = ret (?s\<lparr>process_head := ?ns ! i\<rparr>)"
    using Suc.prems nth by (intro Suc.IH [OF r]) auto
  moreover have "asleep s (ns ! 0)" using Suc.prems(3) by simp
  ultimately show ?case using skip_sleeping_step [OF Suc.prems(1)] l nth by simp
qed

lemma skip_sleeping_returns:
  "skip_sleeping s = Some y \<Longrightarrow> \<forall>ns. \<not> (ring s ns \<and> (\<forall>n\<in>set ns. asleep s n))"
proof (erule skip_sleeping.raw_induct [rotated], intro allI notI, elim conjE)
  fix skip :: "'a proc_scheme \<Rightarrow> 'a proc_scheme result" and s y ns
  assume IH: "\<And>s y. skip s = Some y \<Longrightarrow> \<forall>ns. \<not> (ring s ns \<and> (\<forall>n\<in>set ns. asleep s n))"
    and run: "rbind (get_node (process_head s) s) (\<lambda>h. rbind (get_proc (node_process h) s) (\<lambda>p.
      if wake_at p > ticks s then skip (s\<lparr>process_head := node_next h\<rparr>) else ret s)) = Some y"
    and r: "ring s ns" and a: "\<forall>n\<in>set ns. asleep s n"
  note h = ring_head [OF r] and n = ring_node [OF r ring_head(2) [OF r]]
  let ?s = "s\<lparr>process_head := ns ! (1 mod length ns)\<rparr>"
  have "asleep s (ns ! 0)" using a h(2) by simp
  then have "skip ?s = Some y" using run h n by (simp add: asleep_def)
  moreover have "1 mod length ns < length ns" by (rule mod_less_divisor [OF h(2)])
  then have "ring ?s (rotate (1 mod length ns) ns)" by (rule ring_move [OF r])
  ultimately show False using IH [of ?s y] a by auto
qed

lemma skip_sleeping_all:
  assumes "ring s ns" "\<forall>n\<in>set ns. asleep s n"
  shows "skip_sleeping s = diverges"
  using skip_sleeping_returns [of s] assms by (cases "skip_sleeping s") (auto simp: diverges_def)

section \<open>One call of the scheduler\<close>

text \<open>The part of a process the scheduler decides by, and states that agree on it.\<close>

definition sched_view :: "process_t \<Rightarrow> u32 \<times> u64 \<times> process_state_t \<times> pagemap_t \<times> addr" where
  "sched_view p = (proc_id p, wake_at p, proc_state p, proc_pagemap p, stack_top p)"

definition same_procs :: "'a proc_scheme \<Rightarrow> 'a proc_scheme \<Rightarrow> bool" where
  "same_procs s s' \<longleftrightarrow> nodes s' = nodes s \<and> ticks s' = ticks s \<and> should_schedule s' = should_schedule s \<and>
     (\<forall>a. map_option sched_view (procs s' a) = map_option sched_view (procs s a))"

lemma same_procs_refl: "same_procs s s"
  by (simp add: same_procs_def)

lemma same_procs_trans: "same_procs s s1 \<Longrightarrow> same_procs s1 s2 \<Longrightarrow> same_procs s s2"
  by (simp add: same_procs_def)

lemma same_procs_at:
  assumes "same_procs s s'" "ring s ns" "n \<in> set ns"
  shows "node_proc s' n = node_proc s n" "procs s' (node_proc s n) = Some (proc_at s' n)"
    "sched_view (proc_at s' n) = sched_view (proc_at s n)"
proof -
  show np: "node_proc s' n = node_proc s n" using assms(1) by (simp add: same_procs_def node_proc_def)
  have "procs s (node_proc s n) = Some (proc_at s n)" using assms(2,3) by (simp add: ring_def)
  moreover have "map_option sched_view (procs s' (node_proc s n)) = map_option sched_view (procs s (node_proc s n))"
    using assms(1) unfolding same_procs_def by blast
  ultimately obtain p where p: "procs s' (node_proc s n) = Some p" "sched_view p = sched_view (proc_at s n)" by auto
  then show "procs s' (node_proc s n) = Some (proc_at s' n)" "sched_view (proc_at s' n) = sched_view (proc_at s n)"
    by (simp_all add: proc_at_def np)
qed

lemma same_procs_ring:
  assumes sp: "same_procs s s'" and r: "ring s ns" and h: "process_head s' = hd ns"
  shows "ring s' ns"
proof -
  note at = same_procs_at [OF sp r]
  have "linked s' ns" using r sp by (simp add: ring_def linked_def same_procs_def node_proc_def)
  moreover have "inj_on (\<lambda>n. proc_id (proc_at s' n)) (set ns)"
  proof (rule inj_onI)
    fix x y assume xy: "x \<in> set ns" "y \<in> set ns" "proc_id (proc_at s' x) = proc_id (proc_at s' y)"
    then have "proc_id (proc_at s x) = proc_id (proc_at s y)" using at(3) by (simp add: sched_view_def)
    then show "x = y" using r xy by (simp add: ring_def inj_on_def)
  qed
  ultimately show ?thesis using r h at(1,2) by (simp add: ring_def)
qed

lemma same_procs_props:
  assumes "same_procs s s'" "ring s ns" "n \<in> set ns"
  shows "alive s' n = alive s n" "asleep s' n = asleep s n"
    "proc_pagemap (proc_at s' n) = proc_pagemap (proc_at s n)" "stack_top (proc_at s' n) = stack_top (proc_at s n)"
    "proc_id (proc_at s' n) = proc_id (proc_at s n)"
  using same_procs_at(3) [OF assms] assms(1)
  by (simp_all add: alive_def asleep_def sched_view_def same_procs_def)

lemma same_procs_updates:
  "same_procs s s1 \<Longrightarrow> same_procs s (int_disable s1)" "same_procs s s1 \<Longrightarrow> same_procs s (int_resume s1)"
  "same_procs s s1 \<Longrightarrow> same_procs s (irq_ack i s1)" "same_procs s s1 \<Longrightarrow> same_procs s (wrmsr r v s1)"
  "same_procs s s1 \<Longrightarrow> same_procs s (s1\<lparr>process_head := h\<rparr>)" "same_procs s s1 \<Longrightarrow> same_procs s (s1\<lparr>cr3 := c\<rparr>)"
  "same_procs s s1 \<Longrightarrow> same_procs s (s1\<lparr>tabs := t\<rparr>)" "same_procs s s1 \<Longrightarrow> same_procs s (s1\<lparr>fpu := f\<rparr>)"
  by (simp_all add: same_procs_def int_disable_def int_resume_def irq_ack_def wrmsr_def outb_def Let_def)

lemma same_procs_set:
  assumes "same_procs s s1" "procs s1 a = Some p" "sched_view q = sched_view p"
  shows "same_procs s (set_proc a q s1)"
proof -
  have "map_option sched_view (procs s a) = map_option sched_view (procs s1 a)"
    using assms(1) unfolding same_procs_def by simp
  then show ?thesis using assms by (auto simp: same_procs_def set_proc_def)
qed

lemma head_updates [simp]:
  "process_head (int_disable s) = process_head s" "process_head (int_resume s) = process_head s"
  "process_head (irq_ack i s) = process_head s" "process_head (wrmsr r v s) = process_head s"
  "process_head (set_proc a q s) = process_head s"
  by (simp_all add: int_disable_def int_resume_def irq_ack_def wrmsr_def outb_def set_proc_def Let_def)

lemma switch_context_ok:
  assumes "procs s a = Some p" "procs s b = Some q"
  shows "\<exists>s'. switch_context syms a b s = ret s' \<and> same_procs s s' \<and> process_head s' = process_head s \<and>
    cr3 s' = cr3 s \<and> msrs s' = msrs s \<and> tabs s' = tabs s"
proof -
  have get: "get_proc a s = ret p" using assms(1) by (simp add: get_proc_def)
  have get': "\<exists>q'. get_proc b (set_proc a (p\<lparr>krsp := k\<rparr>) s) = ret q'" for k
    using assms(2) by (auto simp: get_proc_def set_proc_def)
  have "same_procs s (set_proc a (p\<lparr>krsp := k\<rparr>) s)" for k
    by (rule same_procs_set [OF same_procs_refl assms(1)]) (simp add: sched_view_def)
  then have sp: "same_procs s ((set_proc a (p\<lparr>krsp := k\<rparr>) s)\<lparr>kregs := r, krip := i, mem := m\<rparr>)" for k r i m
    by (simp add: same_procs_def)
  obtain q' where q': "get_proc b (set_proc a (p\<lparr>krsp := areg (run [Push_Imm (switch_return syms), Push RBP, Push RBX,
      Push R12, Push R13, Push R14, Push R15] \<lparr>areg = kregs s, amem = mem s, gs_base = 0, kernel_gs_base = 0,
      arip = krip s\<rparr>) RSP\<rparr>) s) = ret q'"
    using get' by blast
  have fields: "process_head ((set_proc a (p\<lparr>krsp := k\<rparr>) s)\<lparr>kregs := r, krip := i, mem := m\<rparr>) = process_head s"
    "cr3 ((set_proc a (p\<lparr>krsp := k\<rparr>) s)\<lparr>kregs := r, krip := i, mem := m\<rparr>) = cr3 s"
    "msrs ((set_proc a (p\<lparr>krsp := k\<rparr>) s)\<lparr>kregs := r, krip := i, mem := m\<rparr>) = msrs s"
    "tabs ((set_proc a (p\<lparr>krsp := k\<rparr>) s)\<lparr>kregs := r, krip := i, mem := m\<rparr>) = tabs s" for k r i m
    by (simp_all add: set_proc_def)
  show ?thesis
    unfolding switch_context_def Let_def get rbind_simps q'
    by (intro exI conjI, rule refl, rule sp) (rule fields)+
qed

text \<open>
  The state the scheduler is called in: scheduling is on and the ring has no dead process but
  possibly the current one, if there is another.
\<close>

definition schedulable :: "'a proc_scheme \<Rightarrow> addr list \<Rightarrow> bool" where
  "schedulable s ns \<longleftrightarrow> ring s ns \<and> should_schedule s \<and>
     (\<forall>n\<in>set ns. proc_pagemap (proc_at s n) \<noteq> NULL \<and> stack_top (proc_at s n) \<noteq> NULL) \<and>
     (\<forall>n\<in>set (tl ns). alive s n) \<and> (length ns = 1 \<longrightarrow> alive s (hd ns))"

lemma schedulable_same:
  assumes "same_procs s s'" "schedulable s ns" "process_head s' = hd ns"
  shows "schedulable s' ns"
proof -
  have r: "ring s ns" using assms(2) by (simp add: schedulable_def)
  note p = same_procs_props [OF assms(1) r]
  have "set (tl ns) \<subseteq> set ns" by (cases ns) auto
  moreover have "hd ns \<in> set ns" using ring_head(2) [OF r] by (cases ns) auto
  ultimately show ?thesis
    using assms p same_procs_ring [OF assms(1) r assms(3)]
    by (auto simp: schedulable_def) (auto simp: same_procs_def)
qed

lemma schedulable_reap:
  assumes "schedulable s ns"
  shows "process_reap s = ret s"
proof (rule process_reap_alive)
  show r: "ring s ns" using assms by (simp add: schedulable_def)
  show "\<forall>j. 0 < j \<and> j < length ns \<longrightarrow> alive s (ns ! j)"
  proof (intro allI impI)
    fix j assume "0 < j \<and> j < length ns"
    then have "ns ! j \<in> set (tl ns)" by (cases ns) (auto simp: nth_Cons')
    then show "alive s (ns ! j)" using assms by (simp add: schedulable_def)
  qed
  show "length ns = 1 \<longrightarrow> alive s (ns ! 0)" using assms ring_head(4) [OF r] by (simp add: schedulable_def)
qed

text \<open>From the call to the choice of the next process.\<close>

lemma schedule_prefix:
  fixes s :: "'a proc_scheme"
  assumes sc: "schedulable s ns"
  defines "k \<equiv> 1 mod length ns"
  defines "s1 \<equiv> (irq_ack 0 (int_disable s))\<lparr>process_head := ns ! k\<rparr>"
  shows "process_schedule syms s = schedule_switch syms (node_proc s (ns ! 0)) s1"
    and "ring s1 (rotate k ns)" and "same_procs s s1" and "k < length ns"
proof -
  let ?s0 = "irq_ack 0 (int_disable s)"
  have r: "ring s ns" using sc by (simp add: schedulable_def)
  have sp0: "same_procs s ?s0" by (intro same_procs_updates same_procs_refl)
  have sc0: "schedulable ?s0 ns"
    using schedulable_same [OF sp0 sc] ring_head(1,4) [OF r] by simp
  then have r0: "ring ?s0 ns" by (simp add: schedulable_def)
  show k: "k < length ns" unfolding k_def using ring_head(2) [OF r] by (rule mod_less_divisor)
  have k1: "Suc 0 mod length ns = k" by (simp add: k_def)
  note h = ring_head [OF r0] and n0 = ring_node [OF r0 ring_head(2) [OF r0], unfolded k1] and n1 = ring_node [OF r0 k]
  have pm: "proc_pagemap (proc_at ?s0 (ns ! i)) \<noteq> NULL" if "i < length ns" for i
    using sc0 that by (simp add: schedulable_def)
  have sch: "should_schedule ?s0" using sc0 by (simp add: schedulable_def)
  show "ring s1 (rotate k ns)" unfolding s1_def by (rule ring_move [OF r0 k])
  show "same_procs s s1" unfolding s1_def by (intro same_procs_updates sp0)
  have np: "node_proc ?s0 n = node_proc s n" for n using sp0 by (simp add: same_procs_def node_proc_def)
  have get1: "get_node (ns ! k) s1 = get_node (ns ! k) ?s0" "process_head s1 = ns ! k"
    by (simp_all add: s1_def get_node_def)
  show "process_schedule syms s = schedule_switch syms (node_proc s (ns ! 0)) s1"
    unfolding process_schedule_def Let_def
    using h n0 n1 pm [OF h(2)] pm [OF k] sch schedulable_reap [OF sc0] get1
    by (simp add: np s1_def [symmetric] del: head_updates)
qed

text \<open>The switch to a process that is awake.\<close>

lemma schedule_switch_to:
  fixes s :: "'a proc_scheme"
  assumes r: "ring s ms" and i: "i < length ms" "\<forall>j<i. asleep s (ms ! j)" "\<not> asleep s (ms ! i)"
    and p: "p \<in> set ms" and ok: "proc_pagemap (proc_at s (ms ! i)) \<noteq> NULL" "stack_top (proc_at s (ms ! i)) \<noteq> NULL"
  shows "\<exists>s'. schedule_switch syms (node_proc s p) s = ret s' \<and> same_procs s s' \<and> process_head s' = ms ! i \<and>
    (ms ! i \<noteq> p \<longrightarrow> cr3 s' = proc_pagemap (proc_at s (ms ! i)) - hhdm s \<and>
       rdmsr MSR_USER_GS_BASE s' = node_proc s (ms ! i) \<and> tss_rsp0 (gdt_tss (tabs s')) = stack_top (proc_at s (ms ! i)))"
proof -
  let ?c = "ms ! i" and ?s = "s\<lparr>process_head := ms ! i\<rparr>"
  have c: "?c \<in> set ms" using i(1) by simp
  have skip: "skip_sleeping s = ret ?s" by (rule skip_sleeping_awake [OF r i])
  have at: "procs s (node_proc s n) = Some (proc_at s n)" if "n \<in> set ms" for n using r that by (simp add: ring_def)
  have gets: "get_node ?c ?s = ret \<lparr>node_process = node_proc s ?c, node_next = ms ! (Suc i mod length ms)\<rparr>"
    "get_proc (node_proc s ?c) ?s = ret (proc_at s ?c)" "get_proc (node_proc s p) ?s = ret (proc_at s p)"
    using ring_node(1) [OF r i(1)] at [OF c] at [OF p] by (simp_all add: get_node_def get_proc_def)
  show ?thesis
  proof (cases "?c = p")
    case True
    have "same_procs s (int_resume ?s)" by (intro same_procs_updates same_procs_refl)
    then show ?thesis
      using True skip gets by (intro exI [of _ "int_resume ?s"]) (simp add: schedule_switch_def Let_def)
  next
    case False
    have ids: "proc_id (proc_at s ?c) \<noteq> proc_id (proc_at s p)"
      using r False c p by (auto simp: ring_def inj_on_def)
    define s1 where "s1 = (?s\<lparr>cr3 := proc_pagemap (proc_at s ?c) - hhdm s\<rparr>)
      \<lparr>tabs := tss_set_stack (stack_top (proc_at s ?c)) (tabs s)\<rparr>"
    define s2 where "s2 = (if proc_type (proc_at s p) = PROCESS_USER
      then set_proc (node_proc s p) ((proc_at s p)\<lparr>fpu_state := fpu s1, fsbase := rdmsr MSR_FS_BASE s1\<rparr>) s1 else s1)"
    define s3 where "s3 = wrmsr MSR_USER_GS_BASE (node_proc s ?c) (if proc_type (proc_at s ?c) = PROCESS_USER
      then wrmsr MSR_FS_BASE (fsbase (proc_at s ?c)) (s2\<lparr>fpu := fpu_state (proc_at s ?c)\<rparr>) else s2)"
    have sp1: "same_procs s s1" unfolding s1_def by (intro same_procs_updates same_procs_refl)
    have "procs s1 (node_proc s p) = Some (proc_at s p)" using at [OF p] by (simp add: s1_def)
    then have sp2: "same_procs s s2"
      unfolding s2_def using same_procs_set [OF sp1, of "node_proc s p"] sp1 by (simp add: sched_view_def)
    then have sp3: "same_procs s s3" unfolding s3_def by (cases "proc_type (proc_at s ?c)") (simp_all add: same_procs_updates)
    have fields: "process_head s3 = ?c" "cr3 s3 = proc_pagemap (proc_at s ?c) - hhdm s"
      "tss_rsp0 (gdt_tss (tabs s3)) = stack_top (proc_at s ?c)" "rdmsr MSR_USER_GS_BASE s3 = node_proc s ?c"
      by (simp_all add: s3_def s2_def s1_def set_proc_def rdmsr_wrmsr tss_set_stack_def)
        (simp_all add: wrmsr_def Let_def)
    have "procs s3 (node_proc s ?c) \<noteq> None" "procs s3 (node_proc s p) \<noteq> None"
      using same_procs_at(2) [OF sp3 r c] same_procs_at(2) [OF sp3 r p] by simp_all
    then obtain s4 where s4: "switch_context syms (node_proc s p) (node_proc s ?c) s3 = ret s4" "same_procs s3 s4"
      "process_head s4 = process_head s3" "cr3 s4 = cr3 s3" "msrs s4 = msrs s3" "tabs s4 = tabs s3"
      using switch_context_ok [of s3 "node_proc s p" _ "node_proc s ?c" _ syms] by auto
    have hh: "hhdm ?s = hhdm s" by simp
    have run: "schedule_switch syms (node_proc s p) s = ret (int_resume s4)"
      using skip gets ids ok s4(1) unfolding s3_def s2_def s1_def
      by (cases "proc_type (proc_at s ?c)"; cases "proc_type (proc_at s p)")
        (simp_all add: schedule_switch_def vmm_switch_pagemap_def Let_def)
    have "same_procs s (int_resume s4)" by (intro same_procs_updates same_procs_trans [OF sp3 s4(2)])
    moreover have "cr3 (int_resume s4) = cr3 s3" "tabs (int_resume s4) = tabs s3" "rdmsr r (int_resume s4) = rdmsr r s3" for r
      using s4 by (simp_all add: int_resume_def rdmsr_def Let_def)
    ultimately show ?thesis using run s4(3) fields by (intro exI [of _ "int_resume s4"]) simp
  qed
qed

lemma schedule_next:
  assumes sc: "schedulable s ns" and i: "0 < i" "i \<le> length ns" "\<forall>j. 0 < j \<and> j < i \<longrightarrow> asleep s (ns ! (j mod length ns))"
    and awake: "\<not> asleep s (ns ! (i mod length ns))"
  defines "c \<equiv> ns ! (i mod length ns)"
  shows "\<exists>s'. process_schedule syms s = ret s' \<and> same_procs s s' \<and> ring s' (rotate i ns) \<and> process_head s' = c \<and>
    (c \<noteq> hd ns \<longrightarrow> cr3 s' = proc_pagemap (proc_at s c) - hhdm s \<and> rdmsr MSR_USER_GS_BASE s' = node_proc s c \<and>
       tss_rsp0 (gdt_tss (tabs s')) = stack_top (proc_at s c))"
proof -
  define k where "k = 1 mod length ns"
  define s1 where "s1 = (irq_ack 0 (int_disable s))\<lparr>process_head := ns ! k\<rparr>"
  let ?ms = "rotate k ns"
  note pre = schedule_prefix [OF sc, folded k_def, folded s1_def]
  have r: "ring s ns" using sc by (simp add: schedulable_def)
  have n: "0 < length ns" by (rule ring_head(2) [OF r])
  have nth: "?ms ! j = ns ! (Suc j mod length ns)" if "j < length ns" for j
    using that n by (simp add: nth_rotate k_def mod_simps)
  note props = same_procs_props [OF pre(3) r]
  have in_ns: "ns ! (j mod length ns) \<in> set ns" for j using n by simp
  have i1: "i - 1 < length ns" "Suc (i - 1) = i" using i(1,2) by linarith+
  have c: "?ms ! (i - 1) = c" using nth [OF i1(1)] i1(2) by (simp add: c_def)
  have sl: "\<forall>j<i - 1. asleep s1 (?ms ! j)"
  proof (intro allI impI)
    fix j assume "j < i - 1"
    then show "asleep s1 (?ms ! j)" using nth [of j] i(2,3) props(2) [OF in_ns, of "Suc j"] by auto
  qed
  have cs: "c \<in> set ns" by (simp add: c_def in_ns)
  have aw: "\<not> asleep s1 (?ms ! (i - 1))" using awake props(2) [OF cs] c by (simp add: c_def)
  have pm: "proc_pagemap (proc_at s1 (?ms ! (i - 1))) \<noteq> NULL" "stack_top (proc_at s1 (?ms ! (i - 1))) \<noteq> NULL"
    unfolding c using sc props(3,4) [OF cs] cs by (simp_all add: schedulable_def)
  have h0: "ns ! 0 \<in> set ?ms" using n by simp
  have len: "i - 1 < length ?ms" using i1(1) by simp
  from schedule_switch_to [OF pre(2) len sl aw h0 pm, of syms] obtain s' where
    s': "schedule_switch syms (node_proc s1 (ns ! 0)) s1 = ret s'" "same_procs s1 s'" "process_head s' = c"
      "c \<noteq> ns ! 0 \<Longrightarrow> cr3 s' = proc_pagemap (proc_at s1 c) - hhdm s1 \<and>
        rdmsr MSR_USER_GS_BASE s' = node_proc s1 c \<and> tss_rsp0 (gdt_tss (tabs s')) = stack_top (proc_at s1 c)"
    unfolding c by blast
  have np: "node_proc s1 x = node_proc s x" for x using pre(3) by (simp add: same_procs_def node_proc_def)
  have sp: "same_procs s s'" by (rule same_procs_trans [OF pre(3) s'(2)])
  have hd_i: "hd (rotate i ns) = c" using n by (simp add: hd_rotate_conv_nth c_def)
  have "ring (s\<lparr>process_head := c\<rparr>) (rotate (i mod length ns) ns)"
    unfolding c_def using n by (intro ring_move [OF r]) simp
  then have rc: "ring (s\<lparr>process_head := c\<rparr>) (rotate i ns)" by (simp add: rotate_conv_mod [of i ns])
  have "same_procs (s\<lparr>process_head := c\<rparr>) s'" using sp by (simp add: same_procs_def)
  then have "ring s' (rotate i ns)" using same_procs_ring rc hd_i s'(3) by metis
  moreover have "hhdm s1 = hhdm s" by (simp add: s1_def irq_ack_def outb_def int_disable_def Let_def)
  moreover have "proc_pagemap (proc_at s1 c) = proc_pagemap (proc_at s c)" "stack_top (proc_at s1 c) = stack_top (proc_at s c)"
    using props(3,4) [OF cs] by simp_all
  ultimately show ?thesis
    using pre(1) s' sp ring_head(4) [OF r] by (intro exI [of _ s']) (simp add: np)
qed

text \<open>Calling the scheduler \<open>k\<close> times.\<close>

primrec schedule_times :: "code_syms \<Rightarrow> nat \<Rightarrow> 'a proc_scheme \<Rightarrow> 'a proc_scheme result" where
  "schedule_times syms 0 s = ret s"
| "schedule_times syms (Suc k) s = rbind (process_schedule syms s) (schedule_times syms k)"

text \<open>Every process is alive, awake and set up.\<close>

definition all_ready :: "'a proc_scheme \<Rightarrow> addr list \<Rightarrow> bool" where
  "all_ready s ns \<longleftrightarrow> schedulable s ns \<and> (\<forall>n\<in>set ns. alive s n \<and> \<not> asleep s n)"

lemma all_ready_step:
  assumes "all_ready s ns"
  shows "\<exists>s'. process_schedule syms s = ret s' \<and> all_ready s' (rotate1 ns)"
proof -
  have sc: "schedulable s ns" using assms by (simp add: all_ready_def)
  then have r: "ring s ns" by (simp add: schedulable_def)
  have n: "0 < length ns" by (rule ring_head(2) [OF r])
  have "ns ! (1 mod length ns) \<in> set ns" using n by (intro nth_mem mod_less_divisor)
  then have aw: "\<not> asleep s (ns ! (1 mod length ns))" using assms by (simp add: all_ready_def)
  have one: "1 \<le> length ns" using n by linarith
  have none: "\<forall>j. 0 < j \<and> j < (1 :: nat) \<longrightarrow> asleep s (ns ! (j mod length ns))" by auto
  obtain s' where s': "process_schedule syms s = ret s'" "same_procs s s'" "ring s' (rotate1 ns)"
    using schedule_next [OF sc zero_less_one one none aw, of syms] by auto
  note props = same_procs_props [OF s'(2) r]
  have "set (tl (rotate1 ns)) \<subseteq> set ns" "hd (rotate1 ns) \<in> set ns"
    using n list.set_sel(2) [of "rotate1 ns"] hd_in_set [of "rotate1 ns"] by auto
  moreover have "should_schedule s'" using s'(2) sc by (simp add: same_procs_def schedulable_def)
  ultimately have "all_ready s' (rotate1 ns)"
    using assms s'(3) props by (auto simp: all_ready_def schedulable_def)
  then show ?thesis using s'(1) by blast
qed

lemma all_ready_times:
  "all_ready s ns \<Longrightarrow> \<exists>s'. schedule_times syms k s = ret s' \<and> all_ready s' (rotate k ns)"
proof (induction k arbitrary: s ns)
  case (Suc k)
  from all_ready_step [OF Suc.prems] obtain s1 where
    s1: "process_schedule syms s = ret s1" "all_ready s1 (rotate1 ns)" by blast
  from Suc.IH [OF s1(2)] obtain s2 where "schedule_times syms k s1 = ret s2" "all_ready s2 (rotate k (rotate1 ns))"
    by blast
  then show ?case using s1(1) by (simp add: rotate1_rotate_swap)
qed simp

section \<open>Properties of the scheduler\<close>

text \<open>
  C20. One call of \<open>process_schedule\<close> hands the processor to the next process that is awake. For a ring
  in which no process but possibly the current one is dead, if \<open>i\<close> is the number of steps from the
  current process to the first one after it whose \<open>wake_at\<close> has passed, the call returns with that
  process current and everything else in the ring unchanged; if it is another process than before, its
  page tables, its kernel stack for interrupts and its \<open>GS\<close> base are loaded.
\<close>

theorem process_schedule_next:
  assumes sc: "schedulable s ns" and i: "0 < i" "i \<le> length ns" "\<forall>j. 0 < j \<and> j < i \<longrightarrow> asleep s (ns ! (j mod length ns))"
    and awake: "\<not> asleep s (ns ! (i mod length ns))"
  shows "\<exists>s'. process_schedule syms s = ret s' \<and> same_procs s s' \<and> ring s' (rotate i ns) \<and> process_head s' = ns ! (i mod length ns) \<and>
    (ns ! (i mod length ns) \<noteq> hd ns \<longrightarrow> cr3 s' = proc_pagemap (proc_at s (ns ! (i mod length ns))) - hhdm s \<and> rdmsr MSR_USER_GS_BASE s' = node_proc s (ns ! (i mod length ns)) \<and>
       tss_rsp0 (gdt_tss (tabs s')) = stack_top (proc_at s (ns ! (i mod length ns))))"
  using assms by (rule schedule_next)

text \<open>Two processes, in any machine state.\<close>

definition two_procs :: "proc \<Rightarrow> proc" where
  "two_procs s = s\<lparr>process_head := 0x10, should_schedule := True, ticks := 5,
     nodes := [0x10 \<mapsto> \<lparr>node_process = 0x100, node_next = 0x20\<rparr>, 0x20 \<mapsto> \<lparr>node_process = 0x200, node_next = 0x10\<rparr>],
     procs := [0x100 \<mapsto> zero_process\<lparr>proc_pagemap := 0x1000, stack_top := 0x9000\<rparr>,
               0x200 \<mapsto> zero_process\<lparr>proc_id := 1, proc_pagemap := 0x2000, stack_top := 0xA000\<rparr>]\<rparr>"

lemma two_procs_ready: "all_ready (two_procs s) [0x10, 0x20]"
proof -
  have lt2: "i < 2 \<longleftrightarrow> i = 0 \<or> i = 1" for i :: nat by auto
  show ?thesis
    by (auto simp: all_ready_def schedulable_def ring_def linked_def two_procs_def node_proc_def proc_at_def alive_def
        asleep_def zero_process_def lt2 inj_on_def less_Suc_eq)
qed

theorem process_schedule_next_witness:
  "\<forall>s syms. \<exists>s'. process_schedule syms (two_procs s) = ret s' \<and> process_head s' = 0x20"
proof (intro allI)
  fix s syms
  have r: "schedulable (two_procs s) [0x10, 0x20]" "\<not> asleep (two_procs s) 0x20"
    using two_procs_ready [of s] by (auto simp: all_ready_def)
  then show "\<exists>s'. process_schedule syms (two_procs s) = ret s' \<and> process_head s' = 0x20"
    using process_schedule_next [OF r(1), of 1 syms] by auto
qed

text \<open>
  C21. Awake processes take turns: from a ring of \<open>n\<close> processes that are all alive and awake, after
  \<open>k\<close> calls of \<open>process_schedule\<close> the process \<open>k mod n\<close> steps further in the ring is current, and the
  ring is as before. In particular every process becomes current within \<open>n\<close> calls.
\<close>

theorem schedule_round_robin:
  assumes "all_ready s ns"
  shows "(\<forall>k. \<exists>s'. schedule_times syms k s = ret s' \<and> ring s' (rotate k ns) \<and>
      process_head s' = ns ! (k mod length ns)) \<and>
    (\<forall>n\<in>set ns. \<exists>k<length ns. \<exists>s'. schedule_times syms k s = ret s' \<and> process_head s' = n)"
proof -
  have n: "ns \<noteq> []" using assms by (auto simp: all_ready_def schedulable_def ring_def linked_def)
  have one: "\<exists>s'. schedule_times syms k s = ret s' \<and> ring s' (rotate k ns) \<and> process_head s' = ns ! (k mod length ns)" for k
  proof -
    obtain s' where s': "schedule_times syms k s = ret s'" "all_ready s' (rotate k ns)"
      using all_ready_times [OF assms] by blast
    then have r: "ring s' (rotate k ns)" by (simp add: all_ready_def schedulable_def)
    then have "process_head s' = hd (rotate k ns)" by (simp add: ring_def)
    then show ?thesis using s'(1) r n by (simp add: hd_rotate_conv_nth)
  qed
  have "\<exists>k<length ns. \<exists>s'. schedule_times syms k s = ret s' \<and> process_head s' = m" if m: "m \<in> set ns" for m
  proof -
    obtain k where "k < length ns" "ns ! k = m" using m by (auto simp: in_set_conv_nth)
    then show ?thesis using one [of k] by auto
  qed
  then show ?thesis using one by blast
qed

theorem schedule_round_robin_witness:
  "\<forall>s syms. \<exists>s'. schedule_times syms 3 (two_procs s) = ret s' \<and> process_head s' = 0x20"
proof (intro allI)
  fix s syms
  obtain s' where "schedule_times syms 3 (two_procs s) = ret s'" "process_head s' = [0x10, 0x20] ! (3 mod length [0x10, 0x20 :: addr])"
    using schedule_round_robin [OF two_procs_ready, of syms s] by blast
  moreover have "[0x10, 0x20 :: addr] ! (3 mod length [0x10, 0x20 :: addr]) = 0x20" by (simp add: numeral_eq_Suc mod_Suc)
  ultimately show "\<exists>s'. schedule_times syms 3 (two_procs s) = ret s' \<and> process_head s' = 0x20" by auto
qed

text \<open>
  C22. When every process sleeps, the scheduler hangs: \<open>process_schedule\<close> runs with interrupts off
  and searches the ring for a process whose \<open>wake_at\<close> has passed, and since no timer interrupt can
  advance \<open>ticks\<close> meanwhile, it never returns. A single process that calls \<open>process_sleep\<close> with a time
  that does not wrap never comes back.
\<close>

theorem schedule_all_asleep_hangs:
  assumes sc: "schedulable s ns" and sl: "\<forall>n\<in>set ns. asleep s n"
  shows "process_schedule syms s = diverges"
proof -
  note pre = schedule_prefix [OF sc]
  have r: "ring s ns" using sc by (simp add: schedulable_def)
  have "\<forall>n\<in>set (rotate (1 mod length ns) ns).
      asleep ((irq_ack 0 (int_disable s))\<lparr>process_head := ns ! (1 mod length ns)\<rparr>) n"
    using same_procs_props(2) [OF pre(3) r] sl by simp
  from skip_sleeping_all [OF pre(2) this] show ?thesis
    using pre(1) by (simp add: schedule_switch_def)
qed

theorem schedule_all_asleep_hangs_witness:
  "\<forall>s syms. process_schedule syms ((two_procs s)\<lparr>
     procs := [0x100 \<mapsto> zero_process\<lparr>proc_pagemap := 0x1000, stack_top := 0x9000, wake_at := 6\<rparr>,
               0x200 \<mapsto> zero_process\<lparr>proc_id := 1, proc_pagemap := 0x2000, stack_top := 0xA000, wake_at := 6\<rparr>]\<rparr>) = diverges"
proof (intro allI)
  fix s syms
  let ?s = "(two_procs s)\<lparr>
     procs := [0x100 \<mapsto> zero_process\<lparr>proc_pagemap := 0x1000, stack_top := 0x9000, wake_at := 6\<rparr>,
               0x200 \<mapsto> zero_process\<lparr>proc_id := 1, proc_pagemap := 0x2000, stack_top := 0xA000, wake_at := 6\<rparr>]\<rparr>"
  have "schedulable ?s [0x10, 0x20]" "\<forall>n\<in>set [0x10, 0x20]. asleep ?s n"
    by (auto simp: schedulable_def ring_def linked_def two_procs_def node_proc_def proc_at_def alive_def
        asleep_def zero_process_def inj_on_def less_Suc_eq)
  then show "process_schedule syms ?s = diverges" by (rule schedule_all_asleep_hangs)
qed

end
