(* ===== verification/Drivers.thy ===== *)
theory Drivers
  imports Process "HOL-Library.Signed_Division"
begin

text \<open>
  The device drivers: the serial port (\<open>tty/serial.c\<close>), PCI configuration space (\<open>pci/pci.c\<close>), the AC'97
  sound card (\<open>pci/ac97.c\<close>) and the PS/2 keyboard (\<open>ps2/ps2.keyboard.c\<close>). What the devices answer is the
  parameter \<open>dev\<close>; a loop that polls a device returns only if the device eventually gives the answer.
\<close>

section \<open>Definitions\<close>

subsection \<open>Serial port\<close>

definition COM1 :: u16 where "COM1 = 0x3F8"

definition serial_install :: "'a machine_scheme \<Rightarrow> 'a machine_scheme" where
  "serial_install s =
     (let s = outb (COM1 + 1) 0x00 s;
          s = outb (COM1 + 3) 0x80 s;
          s = outb (COM1 + 0) 0x03 s;
          s = outb (COM1 + 1) 0x00 s;
          s = outb (COM1 + 3) 0x03 s;
          s = outb (COM1 + 2) 0xC7 s;
          s = outb (COM1 + 4) 0x0B s
      in s)"

partial_function (option) serial_wait :: "device \<Rightarrow> 'a machine_scheme \<Rightarrow> 'a machine_scheme result" where
  "serial_wait dev s =
     (let r = inb dev (COM1 + 5) s
      in if fst r AND 0x20 = 0 then serial_wait dev (snd r) else ret (snd r))"

definition serial_write :: "device \<Rightarrow> u8 \<Rightarrow> 'a machine_scheme \<Rightarrow> 'a machine_scheme result" where
  "serial_write dev c s = rbind (serial_wait dev s) (\<lambda>s. ret (outb COM1 c s))"

subsection \<open>PCI\<close>

definition PCI_BAR_MEM :: u8 where "PCI_BAR_MEM = 1"
definition PCI_BAR_IO :: u8 where "PCI_BAR_IO = 2"
definition DATA_PORT :: u16 where "DATA_PORT = 0xCFC"
definition CMD_PORT :: u16 where "CMD_PORT = 0xCF8"

record pci_bar_t =
  bar_addr :: u32
  bar_size :: u32
  bar_type :: u8

record pci_device_t =
  pci_vendor :: u16
  pci_device :: u16
  pci_bus :: u8
  pci_slot :: u8
  pci_function :: u8
  pci_base :: u32

definition pci_address :: "u8 \<Rightarrow> u8 \<Rightarrow> u8 \<Rightarrow> u8 \<Rightarrow> u32" where
  "pci_address bus slot fn offset =
     push_bit 16 (ucast bus) OR push_bit 11 (ucast slot) OR push_bit 8 (ucast fn) OR
     ucast (offset AND 0xFC) OR 0x80000000"

definition pci_read ::
  "device \<Rightarrow> pci_device_t \<Rightarrow> u8 \<Rightarrow> u8 \<Rightarrow> 'a machine_scheme \<Rightarrow> u32 \<times> 'a machine_scheme" where
  "pci_read dev d fn offset s =
     (let s = outb_l CMD_PORT (pci_address (pci_bus d) (pci_slot d) fn offset) s
      in inb_l dev DATA_PORT s)"

definition pci_write ::
  "pci_device_t \<Rightarrow> u8 \<Rightarrow> u8 \<Rightarrow> u32 \<Rightarrow> 'a machine_scheme \<Rightarrow> 'a machine_scheme" where
  "pci_write d fn offset val s =
     (let s = outb_l CMD_PORT (pci_address (pci_bus d) (pci_slot d) fn offset) s
      in outb_l DATA_PORT val s)"

definition pci_get_bar ::
  "device \<Rightarrow> pci_device_t \<Rightarrow> u8 \<Rightarrow> pci_bar_t \<Rightarrow> 'a machine_scheme \<Rightarrow> u8 \<times> pci_bar_t \<times> 'a machine_scheme" where
  "pci_get_bar dev d bar_idx bar s =
     (if bar_idx > 5 then (0, bar, s) else
      let offset = 0x10 + bar_idx * 4;
          (phys_bar, s) = pci_read dev d 0 offset s;
          ty = (if phys_bar AND 0x1 \<noteq> 0 then PCI_BAR_IO else PCI_BAR_MEM);
          original_bar = phys_bar;
          phys_bar = phys_bar AND 0xFFFFFFF0;
          s = pci_write d 0 offset 0xFFFFFFFF s;
          (bar_result, s) = pci_read dev d 0 offset s;
          bar_result = bar_result AND NOT 0xF;
          bar_result = NOT bar_result;
          bar_result = bar_result + 1;
          s = pci_write d 0 offset original_bar s
      in (1, \<lparr>bar_addr = phys_bar, bar_size = bar_result, bar_type = ty\<rparr>, s))"

text \<open>The nested loops over buses and slots, as a loop over the pairs in the order they are visited.\<close>

fun scan_by_id ::
  "device \<Rightarrow> u8 \<Rightarrow> u8 \<Rightarrow> (nat \<times> nat) list \<Rightarrow> pci_device_t \<Rightarrow> 'a machine_scheme \<Rightarrow> u8 \<times> pci_device_t \<times> 'a machine_scheme" where
  "scan_by_id dev class_id subclass_id [] d s = (0, d, s)"
| "scan_by_id dev class_id subclass_id ((bus, slot) # ps) d s =
     (let d = d\<lparr>pci_bus := of_nat bus, pci_slot := of_nat slot\<rparr>;
          (v, s) = pci_read dev d 0 0x08 s;
          class_info = ucast (drop_bit 16 v) :: u16;
          h_classcode = drop_bit 8 (class_info AND 0xFF00);
          h_subclass = class_info AND 0x00FF
      in if h_classcode \<noteq> ucast class_id then scan_by_id dev class_id subclass_id ps d s
         else if h_subclass \<noteq> ucast subclass_id then scan_by_id dev class_id subclass_id ps d s
         else let (device_vendor, s) = pci_read dev d 0 0x00 s;
                  d = d\<lparr>pci_vendor := ucast (device_vendor AND 0xFFFF), pci_device := ucast (drop_bit 16 device_vendor)\<rparr>;
                  (function_type, s) = pci_read dev d 0 0x0C s;
                  d = d\<lparr>pci_function := ucast (drop_bit 16 function_type) AND 0xFF\<rparr>
              in (1, d, s))"

definition pci_devices_by_id ::
  "device \<Rightarrow> u8 \<Rightarrow> u8 \<Rightarrow> pci_device_t \<Rightarrow> 'a machine_scheme \<Rightarrow> u8 \<times> pci_device_t \<times> 'a machine_scheme" where
  "pci_devices_by_id dev class_id subclass_id d s =
     scan_by_id dev class_id subclass_id (List.product [0..<255] [0..<255]) d s"

fun scan_populate ::
  "device \<Rightarrow> u16 \<Rightarrow> u16 \<Rightarrow> (nat \<times> nat) list \<Rightarrow> pci_device_t \<Rightarrow> 'a machine_scheme \<Rightarrow>
   (u8 \<times> pci_device_t \<times> 'a machine_scheme) result" where
  "scan_populate dev vendor device [] d s = ret (0, d, s)"
| "scan_populate dev vendor device ((bus, slot) # ps) d s =
     (let tmp = d\<lparr>pci_bus := of_nat bus, pci_slot := of_nat slot\<rparr>;
          (device_vendor, s) = pci_read dev tmp 0 0x00 s
      in if ucast vendor \<noteq> device_vendor AND 0xFFFF then scan_populate dev vendor device ps d s
         else if ucast device \<noteq> drop_bit 16 device_vendor then scan_populate dev vendor device ps d s
         else let d = d\<lparr>pci_bus := of_nat bus, pci_slot := of_nat slot\<rparr>;
                  (bar0, s) = pci_read dev d 0 0x10 s
              in rbind (ASSERT (bar0 AND 0x1 \<noteq> 0)) (\<lambda>_. ret (1, d\<lparr>pci_base := bar0 AND NOT 0x3\<rparr>, s)))"

definition pci_populate_device ::
  "device \<Rightarrow> u16 \<Rightarrow> u16 \<Rightarrow> pci_device_t \<Rightarrow> 'a machine_scheme \<Rightarrow> (u8 \<times> pci_device_t \<times> 'a machine_scheme) result" where
  "pci_populate_device dev vendor device d s =
     scan_populate dev vendor device (List.product [0..<256] [0..<256])
       (d\<lparr>pci_vendor := vendor, pci_device := device\<rparr>) s"

subsection \<open>Driver state\<close>

definition AC97_BUFFERS :: int where "AC97_BUFFERS = 32"
definition AC97_BUFFER_SIZE :: u64 where "AC97_BUFFER_SIZE = 128000"
definition AC97_BDL_LAST :: u16 where "AC97_BDL_LAST = push_bit 14 1"
definition KB_BUFFER_SIZE :: u64 where "KB_BUFFER_SIZE = 1024"
definition KB_IRQ :: nat where "KB_IRQ = 1"
definition KB_DEVICE :: u16 where "KB_DEVICE = 0x60"
definition KB_PENDING :: u16 where "KB_PENDING = 0x64"

record audio_buffer_t =
  ab_data :: addr
  ab_data_written :: u64
  ab_phys :: u64
  ab_has_played :: int

record drv = proc +
  ac97_initialized :: bool
  ac97 :: pci_device_t
  nabm :: pci_bar_t
  nam :: pci_bar_t
  ac97_lock :: spin_lock_t
  buf_desc :: addr
  phys_buf_desc :: u64
  buffers :: "int \<Rightarrow> audio_buffer_t"
  current_volume :: int
  ac97_entry :: int
  temp_buffer :: addr
  temp_buffer_count :: u64
  input_buffer :: "u64 \<Rightarrow> u8"
  input_buffer_index :: u64
  shift_pressed :: int

subsection \<open>Sound card\<close>

definition nabm_port :: "u32 \<Rightarrow> 'a drv_scheme \<Rightarrow> u16" where
  "nabm_port r s = ucast (bar_addr (nabm s) + r)"

definition nam_port :: "u32 \<Rightarrow> 'a drv_scheme \<Rightarrow> u16" where
  "nam_port r s = ucast (bar_addr (nam s) + r)"

definition ac97_flush :: "device \<Rightarrow> 'a drv_scheme \<Rightarrow> 'a drv_scheme" where
  "ac97_flush dev st =
     (if \<not> ac97_initialized st then st else
      let (s, st) = inb dev (nabm_port (0x10 + 0xB) st) st
      in if s AND 1 \<noteq> 0 then st
         else outb (nabm_port (0x10 + 0xB) st) (s OR 1) st)"

text \<open>How many buffers the card has not yet to play; an 8-bit value.\<close>

definition ac97_buffer_left :: "int \<Rightarrow> u8 \<Rightarrow> u8" where
  "ac97_buffer_left cur_entry read_ptr =
     (if cur_entry \<ge> uint read_ptr then
        let buffer_left = word_of_int (AC97_BUFFERS - cur_entry) :: u8
        in if read_ptr = 0 \<and> buffer_left > 0 then buffer_left - 1 else buffer_left
      else word_of_int (uint read_ptr - cur_entry - 1))"

definition ac97_can_write :: "device \<Rightarrow> 'a drv_scheme \<Rightarrow> int \<times> 'a drv_scheme" where
  "ac97_can_write dev s =
     (if \<not> ac97_initialized s then (0, s) else
      let (read_ptr, s) = inb dev (nabm_port (0x10 + 0x4) s) s
      in (if ac97_buffer_left (ac97_entry s) read_ptr > 0 then 1 else 0, s))"

definition store_desc :: "mem \<Rightarrow> addr \<Rightarrow> u32 \<Rightarrow> u16 \<Rightarrow> u16 \<Rightarrow> mem" where
  "store_desc m a ad samples ctrl =
     store_le (store_le (store_le m a 4 (unat ad)) (a + 4) 2 (unat samples)) (a + 6) 2 (unat ctrl)"

fun setup_buffers :: "nat list \<Rightarrow> 'a drv_scheme \<Rightarrow> 'a drv_scheme result" where
  "setup_buffers [] s = ret s"
| "setup_buffers (i # js) s =
     rbind (kmalloc_phys AC97_BUFFER_SIZE True s) (\<lambda>(audio_data, physical_audio_data, s).
     rbind (ASSERT (audio_data \<noteq> NULL)) (\<lambda>_.
     let s = s\<lparr>buffers := (buffers s)(int i := \<lparr>ab_data = audio_data, ab_data_written = 0,
               ab_phys = physical_audio_data, ab_has_played = 1\<rparr>)\<rparr>;
         s = s\<lparr>mem := store_desc (mem s) (buf_desc s + of_nat (8 * i)) (ucast physical_audio_data)
               (ucast (AC97_BUFFER_SIZE div 2)) 0\<rparr>
     in setup_buffers js s))"

definition ac97_setup_buffer :: "'a drv_scheme \<Rightarrow> 'a drv_scheme result" where
  "ac97_setup_buffer s =
     rbind (setup_buffers [0..<nat AC97_BUFFERS] s) (\<lambda>s.
     let a = buf_desc s + 8 * (word_of_int AC97_BUFFERS - 1) + 6;
         ctrl = of_nat (load_le (mem s) a 2) OR AC97_BDL_LAST
     in ret (s\<lparr>mem := store_le (mem s) a 2 (unat ctrl)\<rparr>))"

definition ac97_write_buffer :: "device \<Rightarrow> addr \<Rightarrow> u64 \<Rightarrow> 'a drv_scheme \<Rightarrow> (int \<times> 'a drv_scheme) result" where
  "ac97_write_buffer dev buf sz s =
     (if \<not> ac97_initialized s then ret (0, s) else
      rbind (ASSERT (sz \<le> AC97_BUFFER_SIZE)) (\<lambda>_.
      rbind (spin_lock ''ac97_write_buffer'' (ac97_lock s)) (\<lambda>l.
      let s = s\<lparr>ac97_lock := l\<rparr>;
          (read_ptr, s) = inb dev (nabm_port (0x10 + 0x4) s) s
      in
      if ac97_buffer_left (ac97_entry s) read_ptr = 0 then fails (Panic ''no buffers left!'') else
      if ac97_entry s < 0 \<or> ac97_entry s \<ge> AC97_BUFFERS then fails (Bad_Access ''buffers'') else
      let data = ab_data (buffers s (ac97_entry s));
          s = s\<lparr>mem := memset (mem s) data 0 AC97_BUFFER_SIZE\<rparr>
      in
      rbind (memcpy (mem s) data buf sz) (\<lambda>(_, m).
      let s = s\<lparr>mem := m\<rparr>;
          lvi = word_of_int ((ac97_entry s + AC97_BUFFERS - 1) mod AC97_BUFFERS) :: u8;
          s = outb (nabm_port (0x10 + 0x5) s) lvi s;
          s = s\<lparr>ac97_entry := (ac97_entry s + 1) mod AC97_BUFFERS\<rparr>;
          s = ac97_flush dev s
      in ret (1, s\<lparr>ac97_lock := spin_unlock (ac97_lock s)\<rparr>)))))"

definition ac97_write_pcm :: "device \<Rightarrow> addr \<Rightarrow> u64 \<Rightarrow> 'a drv_scheme \<Rightarrow> (u32 \<times> 'a drv_scheme) result" where
  "ac97_write_pcm dev buf sz s =
     (if \<not> ac97_initialized s then ret (0, s) else
      let bytes_written = (if sz < AC97_BUFFER_SIZE - temp_buffer_count s then sz
                           else AC97_BUFFER_SIZE - temp_buffer_count s)
      in
      rbind (memcpy (mem s) (temp_buffer s + temp_buffer_count s) buf bytes_written) (\<lambda>(_, m).
      let s = s\<lparr>mem := m, temp_buffer_count := temp_buffer_count s + bytes_written\<rparr> in
      if temp_buffer_count s < AC97_BUFFER_SIZE then ret (ucast bytes_written, s) else
      rbind (ac97_write_buffer dev (temp_buffer s) AC97_BUFFER_SIZE s) (\<lambda>(r, s).
      if r = 0 then ret (ucast bytes_written, s)
      else ret (ucast bytes_written, s\<lparr>temp_buffer_count := 0\<rparr>))))"

definition ac97_set_volume :: "int \<Rightarrow> 'a drv_scheme \<Rightarrow> 'a drv_scheme result" where
  "ac97_set_volume volume st =
     rbind (ASSERT (volume \<le> 100)) (\<lambda>_.
     let st = st\<lparr>current_volume := volume\<rparr>;
         s = (if volume = 0 then 31 else (31 * volume) sdiv 100);
         right_chan = word_of_int (31 - s) :: u8;
         left_chan = word_of_int (31 - s) :: u8
     in ret (outb_w (nam_port 0x18 st) (ucast right_chan OR push_bit 8 (ucast left_chan)) st))"

definition ac97_available :: "'a drv_scheme \<Rightarrow> bool" where
  "ac97_available s = ac97_initialized s"

partial_function (option) ac97_wait_reset :: "device \<Rightarrow> 'a drv_scheme \<Rightarrow> 'a drv_scheme result" where
  "ac97_wait_reset dev s =
     (let r = inb dev (nabm_port (0x10 + 0xB) s) s
      in if fst r AND 2 \<noteq> 0 then ac97_wait_reset dev (snd r) else ret (snd r))"

definition ac97_install :: "device \<Rightarrow> 'a drv_scheme \<Rightarrow> 'a drv_scheme result" where
  "ac97_install dev st =
     rbind (pci_populate_device dev 0x8086 0x2415 (ac97 st) st) (\<lambda>(found, d, st).
     let st = st\<lparr>ac97 := d\<rparr> in
     if found = 0 then ret st else
     rbind (kmalloc_phys 0x1000 True st) (\<lambda>(p, phys, st).
     let st = st\<lparr>buf_desc := p, phys_buf_desc := phys\<rparr> in
     rbind (ASSERT (p \<noteq> NULL)) (\<lambda>_.
     let (reg1, st) = pci_read dev (ac97 st) 0 0x04 st;
         reg1 = reg1 OR 1;
         reg1 = reg1 OR 4;
         st = pci_write (ac97 st) 0 0x04 reg1 st;
         (ok, b, st) = pci_get_bar dev (ac97 st) 1 (nabm st) st;
         st = st\<lparr>nabm := b\<rparr>
     in
     rbind (ASSERT (ok \<noteq> 0)) (\<lambda>_.
     rbind (ASSERT (bar_type (nabm st) = PCI_BAR_IO)) (\<lambda>_.
     let (ok, b, st) = pci_get_bar dev (ac97 st) 0 (nam st) st;
         st = st\<lparr>nam := b\<rparr>
     in
     rbind (ASSERT (ok \<noteq> 0)) (\<lambda>_.
     rbind (ASSERT (bar_type (nam st) = PCI_BAR_IO)) (\<lambda>_.
     let st = outb_w (nabm_port 0x2C st) 2 st;
         st = outb_w (nam_port 0 st) 0x1 st;
         st = outb_w (nam_port 0x2C st) 48000 st;
         st = outb_w (nam_port 0x2E st) 48000 st;
         st = outb_w (nam_port 0x30 st) 48000 st;
         st = outb_w (nam_port 0x32 st) 48000 st
     in
     rbind (ac97_set_volume 50 st) (\<lambda>st.
     let st = outb_w (nam_port 0x02 st) 0 st;
         st = outb_w (nam_port 0x04 st) 0 st;
         (s, st) = inb dev (nabm_port (0x10 + 0xB) st) st;
         st = outb (nabm_port (0x10 + 0xB) st) (s OR 2) st
     in
     rbind (ac97_wait_reset dev st) (\<lambda>st.
     rbind (ac97_setup_buffer st) (\<lambda>st.
     let st = outb_l (nabm_port 0x10 st) (ucast (phys_buf_desc st)) st;
         (control, st) = inb dev (nabm_port (0x10 + 0xB) st) st;
         st = outb (nabm_port (0x10 + 0xB) st) (control OR 1) st
     in ret (st\<lparr>ac97_initialized := True\<rparr>)))))))))))"

subsection \<open>Keyboard\<close>

text \<open>The scan code tables of \<open>ps2.kb.set.h\<close>; codes that are not listed give zero.\<close>

definition ascii_table :: "(nat \<times> char) list \<Rightarrow> u8 \<Rightarrow> u8" where
  "ascii_table t scancode = (case map_of t (unat scancode) of None \<Rightarrow> 0 | Some c \<Rightarrow> of_char c)"

definition ascii_set_normal :: "u8 \<Rightarrow> u8" where
  "ascii_set_normal = ascii_table
     [(0x02, CHR ''1''), (0x03, CHR ''2''), (0x04, CHR ''3''), (0x05, CHR ''4''), (0x06, CHR ''5''),
      (0x07, CHR ''6''), (0x08, CHR ''7''), (0x09, CHR ''8''), (0x0A, CHR ''9''), (0x0B, CHR ''0''),
      (0x0C, CHR ''-''), (0x0D, CHR ''=''), (0x10, CHR ''q''), (0x11, CHR ''w''), (0x12, CHR ''e''),
      (0x13, CHR ''r''), (0x14, CHR ''t''), (0x15, CHR ''y''), (0x16, CHR ''u''), (0x17, CHR ''i''),
      (0x18, CHR ''o''), (0x19, CHR ''p''), (0x1A, CHR ''[''), (0x1B, CHR '']''), (0x1E, CHR ''a''),
      (0x1F, CHR ''s''), (0x20, CHR ''d''), (0x21, CHR ''f''), (0x22, CHR ''g''), (0x23, CHR ''h''),
      (0x24, CHR ''j''), (0x25, CHR ''k''), (0x26, CHR ''l''), (0x27, CHR '';''), (0x28, CHR 0x27),
      (0x29, CHR 0x60), (0x2C, CHR ''z''), (0x2D, CHR ''x''), (0x2E, CHR ''c''), (0x2F, CHR ''v''),
      (0x30, CHR ''b''), (0x31, CHR ''n''), (0x32, CHR ''m''), (0x33, CHR '',''), (0x34, CHR ''.''),
      (0x35, CHR ''/''), (0x39, CHR '' ''), (0x1C, CHR 0x0A), (0x0E, CHR 0x08)]"

definition ascii_set_shifted :: "u8 \<Rightarrow> u8" where
  "ascii_set_shifted = ascii_table
     [(0x02, CHR ''!''), (0x03, CHR ''@''), (0x04, CHR ''#''), (0x05, CHR ''$''), (0x06, CHR ''%''),
      (0x07, CHR ''^''), (0x08, CHR ''&''), (0x09, CHR ''*''), (0x0A, CHR ''(''), (0x0B, CHR '')''),
      (0x0C, CHR ''_''), (0x0D, CHR ''+''), (0x10, CHR ''Q''), (0x11, CHR ''W''), (0x12, CHR ''E''),
      (0x13, CHR ''R''), (0x14, CHR ''T''), (0x15, CHR ''Y''), (0x16, CHR ''U''), (0x17, CHR ''I''),
      (0x18, CHR ''O''), (0x19, CHR ''P''), (0x1A, CHR ''{''), (0x1B, CHR ''}''), (0x1E, CHR ''A''),
      (0x1F, CHR ''S''), (0x20, CHR ''D''), (0x21, CHR ''F''), (0x22, CHR ''G''), (0x23, CHR ''H''),
      (0x24, CHR ''J''), (0x25, CHR ''K''), (0x26, CHR ''L''), (0x27, CHR '':''), (0x28, CHR 0x22),
      (0x29, CHR ''~''), (0x2C, CHR ''Z''), (0x2D, CHR ''X''), (0x2E, CHR ''C''), (0x2F, CHR ''V''),
      (0x30, CHR ''B''), (0x31, CHR ''N''), (0x32, CHR ''M''), (0x33, CHR ''<''), (0x34, CHR ''>''),
      (0x35, CHR ''?''), (0x39, CHR '' ''), (0x1C, CHR 0x0A), (0x0E, CHR 0x08)]"

definition KB_PUSH :: "u8 \<Rightarrow> 'a drv_scheme \<Rightarrow> 'a drv_scheme result" where
  "KB_PUSH c s =
     (if input_buffer_index s \<ge> KB_BUFFER_SIZE then fails (Bad_Access ''input_buffer'') else
      let s = s\<lparr>input_buffer := (input_buffer s)(input_buffer_index s := c),
                input_buffer_index := input_buffer_index s + 1\<rparr>
      in rbind (ASSERT (input_buffer_index s < KB_BUFFER_SIZE)) (\<lambda>_. ret s))"

definition KB_POP :: "'a drv_scheme \<Rightarrow> u8 \<times> 'a drv_scheme" where
  "KB_POP s =
     (if input_buffer_index s > 0
      then let s = s\<lparr>input_buffer_index := input_buffer_index s - 1\<rparr>
           in (input_buffer s (input_buffer_index s), s)
      else (0, s))"

definition KB_BUFFER_INDEX :: "'a drv_scheme \<Rightarrow> u64" where
  "KB_BUFFER_INDEX s = input_buffer_index s"

partial_function (option) keyboard_wait :: "device \<Rightarrow> 'a drv_scheme \<Rightarrow> 'a drv_scheme result" where
  "keyboard_wait dev s =
     (let r = inb dev KB_PENDING s
      in if fst r AND 0x2 \<noteq> 0 then keyboard_wait dev (snd r) else ret (snd r))"

definition keyboard_handler :: "device \<Rightarrow> 'a drv_scheme \<Rightarrow> (int \<times> 'a drv_scheme) result" where
  "keyboard_handler dev s =
     (let (pending, s) = inb dev KB_PENDING s;
          (scancode, s) = (if pending AND 0x1 \<noteq> 0 then inb dev KB_DEVICE s else (0, s));
          s = (if scancode = 0x2A \<or> scancode = 0x36 then s\<lparr>shift_pressed := 1\<rparr>
               else if scancode = 0xAA \<or> scancode = 0xB6 then s\<lparr>shift_pressed := 0\<rparr>
               else s)
      in
      rbind (if scancode \<noteq> 0 \<and> shift_pressed s \<noteq> 0 then KB_PUSH (ascii_set_shifted scancode) s
             else if scancode \<noteq> 0 then KB_PUSH (ascii_set_normal scancode) s
             else ret s) (\<lambda>s.
      ret (1, irq_ack KB_IRQ s)))"

definition ps2_keyboard_install :: "'a drv_scheme \<Rightarrow> int \<times> 'a drv_scheme" where
  "ps2_keyboard_install s = (0, irq_install_handler KB_IRQ KEYBOARD_HANDLER ''ps2.keyboard'' s)"

definition ps2_keyboard_uninstall :: int where
  "ps2_keyboard_uninstall = 0"

end
