(* ===== verification/Interrupts.thy ===== *)
theory Interrupts
  imports Drivers
begin

text \<open>
  Dispatch of interrupts, the C functions the stubs of \<open>Asm\<close> call: \<open>irq_handler\<close> runs the chain of
  routines of a line of the interrupt controller, \<open>isr_handler\<close> the callback of a processor exception.
  When a routine switches to another process, what follows is done by the context that is resumed.
\<close>

section \<open>Definitions\<close>

definition call_routine ::
  "code_syms \<Rightarrow> device \<Rightarrow> irq_routine \<Rightarrow> 'a drv_scheme \<Rightarrow> (int \<times> 'a drv_scheme) result" where
  "call_routine syms dev h s =
     (case h of
        PIT_HANDLER \<Rightarrow> ret (0, pit_handler s)
      | PROCESS_SCHEDULE \<Rightarrow> rbind (process_schedule syms s) (\<lambda>s. ret (0, s))
      | KEYBOARD_HANDLER \<Rightarrow> keyboard_handler dev s)"

text \<open>The loop over the chain; \<open>True\<close> when a routine has claimed the interrupt.\<close>

fun irq_chain ::
  "code_syms \<Rightarrow> device \<Rightarrow> nat \<Rightarrow> nat list \<Rightarrow> 'a drv_scheme \<Rightarrow> (bool \<times> 'a drv_scheme) result" where
  "irq_chain syms dev line [] s = ret (False, s)"
| "irq_chain syms dev line (i # js) s =
     (case irq_routines s (i * IRQ_CHAIN_SIZE + line) of
        None \<Rightarrow> ret (False, s)
      | Some h \<Rightarrow> rbind (call_routine syms dev h s) (\<lambda>(r, s).
          if r \<noteq> 0 then ret (True, s) else irq_chain syms dev line js s))"

definition irq_handler :: "code_syms \<Rightarrow> device \<Rightarrow> u64 \<Rightarrow> 'a drv_scheme \<Rightarrow> 'a drv_scheme result" where
  "irq_handler syms dev int_no s =
     (if int_no \<le> 47 \<and> int_no \<ge> 32 then
        rbind (irq_chain syms dev (unat (int_no - 32)) [0..<IRQ_CHAIN_DEPTH] s) (\<lambda>(claimed, s).
        ret (if claimed then s else irq_ack (unat (int_no - 32)) s))
      else ret s)"

text \<open>\<open>isr_handler\<close> and its callbacks; of the frame only the vector and the code segment matter here.\<close>

definition gpf_fault_handler :: "'a result" where
  "gpf_fault_handler = fails (Panic ''general protection fault'')"

definition irq_invalid_opcode :: "'a result" where
  "irq_invalid_opcode = fails (Panic ''invalid opcode exception'')"

definition isr_handler :: "code_syms \<Rightarrow> u64 \<Rightarrow> u64 \<Rightarrow> 'a proc_scheme \<Rightarrow> 'a proc_scheme result" where
  "isr_handler syms int_no cs s =
     (if int_no \<ge> 256 then fails (Bad_Access ''isr_callbacks'') else
      case isr_callbacks s int_no of
        None \<Rightarrow> ret s
      | Some VMM_PAGEFAULT \<Rightarrow> vmm_pagefault syms cs s
      | Some GPF_FAULT_HANDLER \<Rightarrow> gpf_fault_handler
      | Some IRQ_INVALID_OPCODE \<Rightarrow> irq_invalid_opcode)"

section \<open>The chains after installation\<close>

lemma mask_keeps [simp]:
  "should_schedule (int_disable s) = should_schedule s" "should_schedule (int_resume s) = should_schedule s"
  "irq_routines (int_disable s) = irq_routines s" "irq_routines (int_resume s) = irq_routines s"
  "ticks (int_disable s) = ticks s" "ticks (int_resume s) = ticks s"
  by (simp_all add: int_disable_def int_resume_def Let_def)

lemma ack_keeps [simp]:
  "should_schedule (irq_ack n s) = should_schedule s" "irq_routines (irq_ack n s) = irq_routines s"
  "ticks (irq_ack n s) = ticks s"
  by (simp_all add: irq_ack_def outb_def Let_def)

lemma pit_handler_keeps [simp]:
  "should_schedule (pit_handler s) = should_schedule s" "irq_routines (pit_handler s) = irq_routines s"
  "ticks (pit_handler s) = ticks s + 1"
  by (simp_all add: pit_handler_def)

text \<open>The routines that \<open>irq_install\<close> and \<open>ps2_keyboard_install\<close> leave in an empty table.\<close>

definition installed_routines :: "nat \<Rightarrow> irq_routine option" where
  "installed_routines = [0 \<mapsto> PIT_HANDLER, IRQ_CHAIN_SIZE \<mapsto> PROCESS_SCHEDULE, KB_IRQ \<mapsto> KEYBOARD_HANDLER]"

lemma installed_routines_by:
  assumes "irq_routines s = (\<lambda>_. None)"
  shows "irq_routines (snd (ps2_keyboard_install (irq_install lsyms s))) = installed_routines"
proof -
  have l: "[0..<IRQ_CHAIN_DEPTH] = [0, 1, 2, 3]" by (simp add: IRQ_CHAIN_DEPTH_def upt_rec numeral_eq_Suc)
  define t where "t = int_enable (outb 0x40 (ucast (drop_bit 8 pit_divisor)) (outb 0x40 (ucast (pit_divisor AND 0xFF))
    (outb 0x43 0x36 (int_disable (irq_setup_gates ((irq_remap s)\<lparr>irqs := irq_stub_addr lsyms\<rparr>))))))"
  have "irq_routines t = (\<lambda>_. None)"
    using assms by (simp add: t_def irq_remap_def irq_setup_gates_def outb_def int_enable_def Let_def)
  then show ?thesis
    by (simp add: ps2_keyboard_install_def irq_install_def Let_def irq_install_handler_def l
        installed_routines_def KB_IRQ_def IRQ_CHAIN_SIZE_def fun_eq_iff flip: t_def)
qed

text \<open>Before the first process exists a timer interrupt counts a tick and is acknowledged.\<close>

lemma timer_before_processes:
  assumes r: "irq_routines s = installed_routines" and n: "\<not> should_schedule s"
  shows "\<exists>s'. irq_handler syms dev 32 s = ret s' \<and> ticks s' = ticks s + 1 \<and> irq_routines s' = irq_routines s"
proof -
  have "process_schedule syms (pit_handler s) = ret (int_resume (irq_ack 0 (int_disable (pit_handler s))))"
    using n by (simp add: process_schedule_def Let_def)
  moreover have "[0..<IRQ_CHAIN_DEPTH] = [0, 1, 2, 3]" by (simp add: IRQ_CHAIN_DEPTH_def upt_rec numeral_eq_Suc)
  ultimately show ?thesis
    using r by (simp add: irq_handler_def call_routine_def installed_routines_def IRQ_CHAIN_SIZE_def KB_IRQ_def)
qed

end
