(* ===== verification/Flanterm.thy ===== *)
theory Flanterm
  imports Prelude
begin

text \<open>
  The terminal emulator \<open>drivers/video/flanterm/flanterm.c\<close>: it turns a stream of bytes, with UTF-8
  sequences and the escape sequences of a Linux console, into calls of a backend that draws characters.
  The context of the C program is a record that backends extend; the function pointers a backend sets in
  it are the record \<open>backend\<close>, a parameter of the operations. Indices and coordinates are 64-bit words as in
  the source; reading an array out of its bounds is a fault.
\<close>

section \<open>Definitions\<close>

subsection \<open>Context and backend\<close>

record flanterm_context =
  tab_size :: u64
  autoflush :: bool
  cursor_enabled :: bool
  scroll_enabled :: bool
  control_sequence :: bool
  escape :: bool
  osc :: bool
  osc_escape :: bool
  rrr :: bool
  discard_next :: bool
  bold :: bool
  bg_bold :: bool
  reverse_video :: bool
  dec_private :: bool
  insert_mode :: bool
  csi_unhandled :: bool
  code_point :: u64
  unicode_remaining :: u64
  g_select :: u8
  charsets :: "u8 list"
  current_charset :: u64
  escape_offset :: u64
  esc_values_i :: u64
  saved_cursor_x :: u64
  saved_cursor_y :: u64
  current_primary :: u64
  current_bg :: u64
  scroll_top_margin :: u64
  scroll_bottom_margin :: u64
  esc_values :: "u32 list"
  oob_output :: u64
  saved_state_bold :: bool
  saved_state_bg_bold :: bool
  saved_state_reverse_video :: bool
  saved_state_current_charset :: u64
  saved_state_current_primary :: u64
  saved_state_current_bg :: u64
  rows :: u64
  cols :: u64

text \<open>
  The function pointers. The client's callback may be absent; the address of the array \<open>esc_values\<close>, which
  some calls of it pass, is a parameter.
\<close>

record 's backend =
  raw_putchar :: "u8 \<Rightarrow> 's \<Rightarrow> 's result"
  clear_screen :: "bool \<Rightarrow> 's \<Rightarrow> 's result"
  set_cursor_pos :: "u64 \<Rightarrow> u64 \<Rightarrow> 's \<Rightarrow> 's result"
  get_cursor_pos :: "'s \<Rightarrow> u64 \<times> u64"
  set_text_fg :: "u64 \<Rightarrow> 's \<Rightarrow> 's result"
  set_text_bg :: "u64 \<Rightarrow> 's \<Rightarrow> 's result"
  set_text_fg_bright :: "u64 \<Rightarrow> 's \<Rightarrow> 's result"
  set_text_bg_bright :: "u64 \<Rightarrow> 's \<Rightarrow> 's result"
  set_text_fg_rgb :: "u32 \<Rightarrow> 's \<Rightarrow> 's result"
  set_text_bg_rgb :: "u32 \<Rightarrow> 's \<Rightarrow> 's result"
  set_text_fg_default :: "'s \<Rightarrow> 's result"
  set_text_bg_default :: "'s \<Rightarrow> 's result"
  set_text_fg_default_bright :: "'s \<Rightarrow> 's result"
  set_text_bg_default_bright :: "'s \<Rightarrow> 's result"
  move_character :: "u64 \<Rightarrow> u64 \<Rightarrow> u64 \<Rightarrow> u64 \<Rightarrow> 's \<Rightarrow> 's result"
  scroll_up :: "'s \<Rightarrow> 's result"
  revscroll :: "'s \<Rightarrow> 's result"
  swap_palette :: "'s \<Rightarrow> 's result"
  save_state_op :: "'s \<Rightarrow> 's result"
  restore_state_op :: "'s \<Rightarrow> 's result"
  double_buffer_flush :: "'s \<Rightarrow> 's result"
  full_refresh :: "'s \<Rightarrow> 's result"
  callback :: "(u64 \<Rightarrow> u64 \<Rightarrow> u64 \<Rightarrow> u64 \<Rightarrow> 's \<Rightarrow> 's result) option"
  esc_values_addr :: u64

definition FLANTERM_MAX_ESC_VALUES :: nat where "FLANTERM_MAX_ESC_VALUES = 16"
definition FLANTERM_OOB_OUTPUT_ONLCR :: u64 where "FLANTERM_OOB_OUTPUT_ONLCR = push_bit 4 1"
definition CHARSET_DEFAULT :: u8 where "CHARSET_DEFAULT = 0"
definition CHARSET_DEC_SPECIAL :: u8 where "CHARSET_DEC_SPECIAL = 1"

definition notify ::
  "'s backend \<Rightarrow> u64 \<Rightarrow> u64 \<Rightarrow> u64 \<Rightarrow> u64 \<Rightarrow> 's \<Rightarrow> 's result" where
  "notify b kind p q r s = (case callback b of None \<Rightarrow> ret s | Some f \<Rightarrow> f kind p q r s)"

definition set_esc :: "nat \<Rightarrow> u32 \<Rightarrow> 'a flanterm_context_scheme \<Rightarrow> 'a flanterm_context_scheme" where
  "set_esc i v s = s\<lparr>esc_values := (esc_values s)[i := v]\<rparr>"

abbreviation esc :: "nat \<Rightarrow> 'a flanterm_context_scheme \<Rightarrow> u32" where
  "esc i s \<equiv> esc_values s ! i"

definition flanterm_context_reinit :: "'a flanterm_context_scheme \<Rightarrow> 'a flanterm_context_scheme" where
  "flanterm_context_reinit s = s\<lparr>
     tab_size := 8,
     autoflush := True,
     cursor_enabled := True,
     scroll_enabled := True,
     control_sequence := False,
     escape := False,
     osc := False,
     osc_escape := False,
     rrr := False,
     discard_next := False,
     bold := False,
     bg_bold := False,
     reverse_video := False,
     dec_private := False,
     insert_mode := False,
     csi_unhandled := False,
     unicode_remaining := 0,
     g_select := 0,
     charsets := [CHARSET_DEFAULT, CHARSET_DEC_SPECIAL],
     current_charset := 0,
     escape_offset := 0,
     esc_values_i := 0,
     saved_cursor_x := 0,
     saved_cursor_y := 0,
     current_primary := - 1,
     current_bg := - 1,
     scroll_top_margin := 0,
     scroll_bottom_margin := rows s,
     oob_output := FLANTERM_OOB_OUTPUT_ONLCR\<rparr>"

subsection \<open>Colours and attributes\<close>

definition col256 :: "u32 list" where
  "col256 = [
     0x000000, 0x00005f, 0x000087, 0x0000af, 0x0000d7, 0x0000ff, 0x005f00, 0x005f5f, 0x005f87, 0x005faf,
     0x005fd7, 0x005fff, 0x008700, 0x00875f, 0x008787, 0x0087af, 0x0087d7, 0x0087ff, 0x00af00, 0x00af5f,
     0x00af87, 0x00afaf, 0x00afd7, 0x00afff, 0x00d700, 0x00d75f, 0x00d787, 0x00d7af, 0x00d7d7, 0x00d7ff,
     0x00ff00, 0x00ff5f, 0x00ff87, 0x00ffaf, 0x00ffd7, 0x00ffff, 0x5f0000, 0x5f005f, 0x5f0087, 0x5f00af,
     0x5f00d7, 0x5f00ff, 0x5f5f00, 0x5f5f5f, 0x5f5f87, 0x5f5faf, 0x5f5fd7, 0x5f5fff, 0x5f8700, 0x5f875f,
     0x5f8787, 0x5f87af, 0x5f87d7, 0x5f87ff, 0x5faf00, 0x5faf5f, 0x5faf87, 0x5fafaf, 0x5fafd7, 0x5fafff,
     0x5fd700, 0x5fd75f, 0x5fd787, 0x5fd7af, 0x5fd7d7, 0x5fd7ff, 0x5fff00, 0x5fff5f, 0x5fff87, 0x5fffaf,
     0x5fffd7, 0x5fffff, 0x870000, 0x87005f, 0x870087, 0x8700af, 0x8700d7, 0x8700ff, 0x875f00, 0x875f5f,
     0x875f87, 0x875faf, 0x875fd7, 0x875fff, 0x878700, 0x87875f, 0x878787, 0x8787af, 0x8787d7, 0x8787ff,
     0x87af00, 0x87af5f, 0x87af87, 0x87afaf, 0x87afd7, 0x87afff, 0x87d700, 0x87d75f, 0x87d787, 0x87d7af,
     0x87d7d7, 0x87d7ff, 0x87ff00, 0x87ff5f, 0x87ff87, 0x87ffaf, 0x87ffd7, 0x87ffff, 0xaf0000, 0xaf005f,
     0xaf0087, 0xaf00af, 0xaf00d7, 0xaf00ff, 0xaf5f00, 0xaf5f5f, 0xaf5f87, 0xaf5faf, 0xaf5fd7, 0xaf5fff,
     0xaf8700, 0xaf875f, 0xaf8787, 0xaf87af, 0xaf87d7, 0xaf87ff, 0xafaf00, 0xafaf5f, 0xafaf87, 0xafafaf,
     0xafafd7, 0xafafff, 0xafd700, 0xafd75f, 0xafd787, 0xafd7af, 0xafd7d7, 0xafd7ff, 0xafff00, 0xafff5f,
     0xafff87, 0xafffaf, 0xafffd7, 0xafffff, 0xd70000, 0xd7005f, 0xd70087, 0xd700af, 0xd700d7, 0xd700ff,
     0xd75f00, 0xd75f5f, 0xd75f87, 0xd75faf, 0xd75fd7, 0xd75fff, 0xd78700, 0xd7875f, 0xd78787, 0xd787af,
     0xd787d7, 0xd787ff, 0xd7af00, 0xd7af5f, 0xd7af87, 0xd7afaf, 0xd7afd7, 0xd7afff, 0xd7d700, 0xd7d75f,
     0xd7d787, 0xd7d7af, 0xd7d7d7, 0xd7d7ff, 0xd7ff00, 0xd7ff5f, 0xd7ff87, 0xd7ffaf, 0xd7ffd7, 0xd7ffff,
     0xff0000, 0xff005f, 0xff0087, 0xff00af, 0xff00d7, 0xff00ff, 0xff5f00, 0xff5f5f, 0xff5f87, 0xff5faf,
     0xff5fd7, 0xff5fff, 0xff8700, 0xff875f, 0xff8787, 0xff87af, 0xff87d7, 0xff87ff, 0xffaf00, 0xffaf5f,
     0xffaf87, 0xffafaf, 0xffafd7, 0xffafff, 0xffd700, 0xffd75f, 0xffd787, 0xffd7af, 0xffd7d7, 0xffd7ff,
     0xffff00, 0xffff5f, 0xffff87, 0xffffaf, 0xffffd7, 0xffffff, 0x080808, 0x121212, 0x1c1c1c, 0x262626,
     0x303030, 0x3a3a3a, 0x444444, 0x4e4e4e, 0x585858, 0x626262, 0x6c6c6c, 0x767676, 0x808080, 0x8a8a8a,
     0x949494, 0x9e9e9e, 0xa8a8a8, 0xb2b2b2, 0xbcbcbc, 0xc6c6c6, 0xd0d0d0, 0xdadada, 0xe4e4e4, 0xeeeeee]"

text \<open>The blocks of \<open>sgr\<close> that its branches and jumps share.\<close>

definition sgr_reset ::
  "'a flanterm_context_scheme backend \<Rightarrow> 'a flanterm_context_scheme \<Rightarrow> 'a flanterm_context_scheme result" where
  "sgr_reset b s =
     rbind (if reverse_video s then swap_palette b (s\<lparr>reverse_video := False\<rparr>) else ret s) (\<lambda>s.
     rbind (set_text_bg_default b (s\<lparr>bold := False, bg_bold := False, current_primary := - 1, current_bg := - 1\<rparr>)) (\<lambda>s.
     set_text_fg_default b s))"

definition sgr_bold ::
  "'a flanterm_context_scheme backend \<Rightarrow> 'a flanterm_context_scheme \<Rightarrow> 'a flanterm_context_scheme result" where
  "sgr_bold b s =
     (let s = s\<lparr>bold := True\<rparr> in
      if current_primary s \<noteq> - 1
      then if \<not> reverse_video s then set_text_fg_bright b (current_primary s) s
           else set_text_bg_bright b (current_primary s) s
      else if \<not> reverse_video s then set_text_fg_default_bright b s
           else set_text_bg_default_bright b s)"

definition sgr_bg_bold ::
  "'a flanterm_context_scheme backend \<Rightarrow> 'a flanterm_context_scheme \<Rightarrow> 'a flanterm_context_scheme result" where
  "sgr_bg_bold b s =
     (let s = s\<lparr>bg_bold := True\<rparr> in
      if current_bg s \<noteq> - 1
      then if \<not> reverse_video s then set_text_bg_bright b (current_bg s) s
           else set_text_fg_bright b (current_bg s) s
      else if \<not> reverse_video s then set_text_bg_default_bright b s
           else set_text_fg_default_bright b s)"

definition sgr_not_bold ::
  "'a flanterm_context_scheme backend \<Rightarrow> 'a flanterm_context_scheme \<Rightarrow> 'a flanterm_context_scheme result" where
  "sgr_not_bold b s =
     (let s = s\<lparr>bold := False\<rparr> in
      if current_primary s \<noteq> - 1
      then if \<not> reverse_video s then set_text_fg b (current_primary s) s
           else set_text_bg b (current_primary s) s
      else if \<not> reverse_video s then set_text_fg_default b s
           else set_text_bg_default b s)"

definition sgr_not_bg_bold ::
  "'a flanterm_context_scheme backend \<Rightarrow> 'a flanterm_context_scheme \<Rightarrow> 'a flanterm_context_scheme result" where
  "sgr_not_bg_bold b s =
     (let s = s\<lparr>bg_bold := False\<rparr> in
      if current_bg s \<noteq> - 1
      then if \<not> reverse_video s then set_text_bg b (current_bg s) s
           else set_text_fg b (current_bg s) s
      else if \<not> reverse_video s then set_text_bg_default b s
           else set_text_fg_default b s)"

definition sgr_set_fg ::
  "'a flanterm_context_scheme backend \<Rightarrow> u32 \<Rightarrow> 'a flanterm_context_scheme \<Rightarrow> 'a flanterm_context_scheme result" where
  "sgr_set_fg b col s =
     (if (bold s \<and> \<not> reverse_video s) \<or> (bg_bold s \<and> reverse_video s)
      then set_text_fg_bright b (ucast col) s else set_text_fg b (ucast col) s)"

definition sgr_set_bg ::
  "'a flanterm_context_scheme backend \<Rightarrow> u32 \<Rightarrow> 'a flanterm_context_scheme \<Rightarrow> 'a flanterm_context_scheme result" where
  "sgr_set_bg b col s =
     (if (bold s \<and> reverse_video s) \<or> (bg_bold s \<and> \<not> reverse_video s)
      then set_text_bg_bright b (ucast col) s else set_text_bg b (ucast col) s)"

definition sgr_default_fg ::
  "'a flanterm_context_scheme backend \<Rightarrow> 'a flanterm_context_scheme \<Rightarrow> 'a flanterm_context_scheme result" where
  "sgr_default_fg b s =
     rbind (if reverse_video s then swap_palette b (s\<lparr>current_primary := - 1\<rparr>) else ret (s\<lparr>current_primary := - 1\<rparr>)) (\<lambda>s.
     rbind (if \<not> bold s then set_text_fg_default b s else set_text_fg_default_bright b s) (\<lambda>s.
     if reverse_video s then swap_palette b s else ret s))"

definition sgr_default_bg ::
  "'a flanterm_context_scheme backend \<Rightarrow> 'a flanterm_context_scheme \<Rightarrow> 'a flanterm_context_scheme result" where
  "sgr_default_bg b s =
     rbind (if reverse_video s then swap_palette b (s\<lparr>current_bg := - 1\<rparr>) else ret (s\<lparr>current_bg := - 1\<rparr>)) (\<lambda>s.
     rbind (if \<not> bg_bold s then set_text_bg_default b s else set_text_bg_default_bright b s) (\<lambda>s.
     if reverse_video s then swap_palette b s else ret s))"

definition sgr_256 ::
  "'a flanterm_context_scheme backend \<Rightarrow> bool \<Rightarrow> u32 \<Rightarrow> 'a flanterm_context_scheme \<Rightarrow> 'a flanterm_context_scheme result" where
  "sgr_256 b fg col s =
     (if col < 8 then (if fg then set_text_fg b (ucast col) s else set_text_bg b (ucast col) s)
      else if col < 16 then (if fg then set_text_fg_bright b (ucast (col - 8)) s else set_text_bg_bright b (ucast (col - 8)) s)
      else if col < 256 then
        (let rgb_value = col256 ! unat (col - 16)
         in if fg then set_text_fg_rgb b rgb_value s else set_text_bg_rgb b rgb_value s)
      else ret s)"

text \<open>One parameter of the sequence, other than the extended colours.\<close>

definition sgr_one ::
  "'a flanterm_context_scheme backend \<Rightarrow> u32 \<Rightarrow> 'a flanterm_context_scheme \<Rightarrow> 'a flanterm_context_scheme result" where
  "sgr_one b v s =
     (if v = 0 then sgr_reset b s
      else if v = 1 then sgr_bold b s
      else if v = 5 then sgr_bg_bold b s
      else if v = 22 then sgr_not_bold b s
      else if v = 25 then sgr_not_bg_bold b s
      else if v \<ge> 30 \<and> v \<le> 37 then
        (let s = s\<lparr>current_primary := ucast (v - 30)\<rparr>
         in if reverse_video s then sgr_set_bg b (v - 30) s else sgr_set_fg b (v - 30) s)
      else if v \<ge> 40 \<and> v \<le> 47 then
        (let s = s\<lparr>current_bg := ucast (v - 40)\<rparr>
         in if reverse_video s then sgr_set_fg b (v - 40) s else sgr_set_bg b (v - 40) s)
      else if v \<ge> 90 \<and> v \<le> 97 then
        (let s = s\<lparr>current_primary := ucast (v - 90)\<rparr>
         in if reverse_video s then set_text_bg_bright b (ucast (v - 90)) s else set_text_fg_bright b (ucast (v - 90)) s)
      else if v \<ge> 100 \<and> v \<le> 107 then
        (let s = s\<lparr>current_bg := ucast (v - 100)\<rparr>
         in if reverse_video s then set_text_fg_bright b (ucast (v - 100)) s else set_text_bg_bright b (ucast (v - 100)) s)
      else if v = 39 then sgr_default_fg b s
      else if v = 49 then sgr_default_bg b s
      else if v = 7 then (if \<not> reverse_video s then swap_palette b (s\<lparr>reverse_video := True\<rparr>) else ret s)
      else if v = 27 then (if reverse_video s then swap_palette b (s\<lparr>reverse_video := False\<rparr>) else ret s)
      else ret s)"

text \<open>The loop over the parameters \<open>esc_values[0 .. esc_values_i)\<close>; it only reads them.\<close>

fun sgr_loop ::
  "'a flanterm_context_scheme backend \<Rightarrow> u32 list \<Rightarrow> 'a flanterm_context_scheme \<Rightarrow> 'a flanterm_context_scheme result" where
  "sgr_loop b [] s = ret s"
| "sgr_loop b (v # vs) s =
     (if v = 38 \<or> v = 48 then
        (let fg = (v = 38) in
         case vs of
           [] \<Rightarrow> ret s
         | kind # vs' \<Rightarrow>
             if kind = 2 then
               (case vs' of
                  r # g # bl # rest \<Rightarrow>
                    (let rgb_value = push_bit 16 r OR push_bit 8 g OR bl in
                     rbind (if fg then set_text_fg_rgb b rgb_value s else set_text_bg_rgb b rgb_value s) (\<lambda>s.
                     sgr_loop b rest s))
                | _ \<Rightarrow> ret s)
             else if kind = 5 then
               (case vs' of
                  col # rest \<Rightarrow> rbind (sgr_256 b fg col s) (\<lambda>s. sgr_loop b rest s)
                | [] \<Rightarrow> ret s)
             else sgr_loop b vs' s)
      else rbind (sgr_one b v s) (\<lambda>s. sgr_loop b vs s))"

definition sgr ::
  "'a flanterm_context_scheme backend \<Rightarrow> 'a flanterm_context_scheme \<Rightarrow> 'a flanterm_context_scheme result" where
  "sgr b s =
     (if unat (esc_values_i s) > length (esc_values s) then fails (Bad_Access ''esc_values'')
      else if esc_values_i s = 0 then sgr_reset b s
      else sgr_loop b (take (unat (esc_values_i s)) (esc_values s)) s)"

subsection \<open>Private modes and operating system commands\<close>

definition dec_private_parse ::
  "'a flanterm_context_scheme backend \<Rightarrow> u8 \<Rightarrow> 'a flanterm_context_scheme \<Rightarrow> 'a flanterm_context_scheme result" where
  "dec_private_parse b c s =
     (let s = s\<lparr>dec_private := False\<rparr> in
      if esc_values_i s = 0 then ret s
      else if c \<noteq> 0x68 \<and> c \<noteq> 0x6C then ret s
      else let set_mode = (c = 0x68) in
      if esc 0 s = 25 then ret (s\<lparr>cursor_enabled := set_mode\<rparr>)
      else notify b 10 (esc_values_i s) (esc_values_addr b) (ucast c) s)"

definition linux_private_parse ::
  "'a flanterm_context_scheme backend \<Rightarrow> 'a flanterm_context_scheme \<Rightarrow> 'a flanterm_context_scheme result" where
  "linux_private_parse b s =
     (if esc_values_i s = 0 then ret s else notify b 80 (esc_values_i s) (esc_values_addr b) 0 s)"

definition mode_toggle ::
  "'a flanterm_context_scheme backend \<Rightarrow> u8 \<Rightarrow> 'a flanterm_context_scheme \<Rightarrow> 'a flanterm_context_scheme result" where
  "mode_toggle b c s =
     (if esc_values_i s = 0 then ret s
      else if c \<noteq> 0x68 \<and> c \<noteq> 0x6C then ret s
      else let set_mode = (c = 0x68) in
      if esc 0 s = 4 then ret (s\<lparr>insert_mode := set_mode\<rparr>)
      else notify b 70 (esc_values_i s) (esc_values_addr b) (ucast c) s)"

definition osc_parse :: "u8 \<Rightarrow> 'a flanterm_context_scheme \<Rightarrow> bool \<times> 'a flanterm_context_scheme" where
  "osc_parse c s =
     (if osc_escape s then
        if c = 0x5C then (True, s\<lparr>osc := False, osc_escape := False, escape := False\<rparr>)
        else (False, s\<lparr>osc_escape := False, osc := False\<rparr>)
      else if c = 0x1B then (True, s\<lparr>osc_escape := True\<rparr>)
      else if c = 0x07 then (True, s\<lparr>osc_escape := False, osc := False, escape := False\<rparr>)
      else (True, s))"

subsection \<open>Control sequences\<close>

text \<open>\<open>for (size_t i = from;; i--) { body; if (i == to) break; }\<close>\<close>

partial_function (option) down_to :: "(u64 \<Rightarrow> 's \<Rightarrow> 's result) \<Rightarrow> u64 \<Rightarrow> u64 \<Rightarrow> 's \<Rightarrow> 's result" where
  "down_to f i to s = rbind (f i s) (\<lambda>s. if i = to then ret s else down_to f (i - 1) to s)"

text \<open>\<open>for (size_t i = 0; i < n; i++) raw_putchar(' ')\<close>\<close>

definition put_spaces ::
  "'s backend \<Rightarrow> u64 \<Rightarrow> 's \<Rightarrow> 's result" where
  "put_spaces b n s = for_each (\<lambda>_. raw_putchar b 0x20) [0..<unat n] s"

text \<open>\<open>F\<close>, \<open>A\<close>: cursor up.\<close>

definition csi_up ::
  "'a flanterm_context_scheme backend \<Rightarrow> u64 \<Rightarrow> u64 \<Rightarrow> 'a flanterm_context_scheme \<Rightarrow> 'a flanterm_context_scheme result" where
  "csi_up b x y s =
     (let s = (if ucast (esc 0 s) > y then set_esc 0 (ucast y) s else s);
          orig_y = y;
          dest_y = y - ucast (esc 0 s);
          will_be_in_scroll_region =
            ((scroll_top_margin s \<ge> dest_y \<and> scroll_top_margin s \<le> orig_y) \<or>
             (scroll_bottom_margin s \<ge> dest_y \<and> scroll_bottom_margin s \<le> orig_y));
          dest_y = (if will_be_in_scroll_region \<and> dest_y < scroll_top_margin s then scroll_top_margin s else dest_y)
      in set_cursor_pos b x dest_y s)"

text \<open>\<open>E\<close>, \<open>e\<close>, \<open>B\<close>: cursor down.\<close>

definition csi_down ::
  "'a flanterm_context_scheme backend \<Rightarrow> u64 \<Rightarrow> u64 \<Rightarrow> 'a flanterm_context_scheme \<Rightarrow> 'a flanterm_context_scheme result" where
  "csi_down b x y s =
     (let s = (if y + ucast (esc 0 s) > rows s - 1 then set_esc 0 (ucast (rows s - 1 - y)) s else s);
          orig_y = y;
          dest_y = y + ucast (esc 0 s);
          will_be_in_scroll_region =
            ((scroll_top_margin s \<ge> orig_y \<and> scroll_top_margin s \<le> dest_y) \<or>
             (scroll_bottom_margin s \<ge> orig_y \<and> scroll_bottom_margin s \<le> dest_y));
          dest_y = (if will_be_in_scroll_region \<and> dest_y \<ge> scroll_bottom_margin s then scroll_bottom_margin s - 1 else dest_y)
      in set_cursor_pos b x dest_y s)"

text \<open>\<open>a\<close>, \<open>C\<close>: cursor right; \<open>D\<close>: cursor left.\<close>

definition csi_right ::
  "'a flanterm_context_scheme backend \<Rightarrow> u64 \<Rightarrow> u64 \<Rightarrow> 'a flanterm_context_scheme \<Rightarrow> 'a flanterm_context_scheme result" where
  "csi_right b x y s =
     (let s = (if x + ucast (esc 0 s) > cols s - 1 then set_esc 0 (ucast (cols s - 1 - x)) s else s)
      in set_cursor_pos b (x + ucast (esc 0 s)) y s)"

definition csi_left ::
  "'a flanterm_context_scheme backend \<Rightarrow> u64 \<Rightarrow> u64 \<Rightarrow> 'a flanterm_context_scheme \<Rightarrow> 'a flanterm_context_scheme result" where
  "csi_left b x y s =
     (let s = (if ucast (esc 0 s) > x then set_esc 0 (ucast x) s else s)
      in set_cursor_pos b (x - ucast (esc 0 s)) y s)"

text \<open>\<open>d\<close>: row; \<open>G\<close>, \<open>`\<close>: column; \<open>H\<close>, \<open>f\<close>: both.\<close>

definition csi_row ::
  "'a flanterm_context_scheme backend \<Rightarrow> u64 \<Rightarrow> u64 \<Rightarrow> 'a flanterm_context_scheme \<Rightarrow> 'a flanterm_context_scheme result" where
  "csi_row b x y s =
     (let s = set_esc 0 (esc 0 s - 1) s;
          s = (if ucast (esc 0 s) \<ge> rows s then set_esc 0 (ucast (rows s - 1)) s else s)
      in set_cursor_pos b x (ucast (esc 0 s)) s)"

definition csi_column ::
  "'a flanterm_context_scheme backend \<Rightarrow> u64 \<Rightarrow> u64 \<Rightarrow> 'a flanterm_context_scheme \<Rightarrow> 'a flanterm_context_scheme result" where
  "csi_column b x y s =
     (let s = set_esc 0 (esc 0 s - 1) s;
          s = (if ucast (esc 0 s) \<ge> cols s then set_esc 0 (ucast (cols s - 1)) s else s)
      in set_cursor_pos b (ucast (esc 0 s)) y s)"

definition csi_position ::
  "'a flanterm_context_scheme backend \<Rightarrow> 'a flanterm_context_scheme \<Rightarrow> 'a flanterm_context_scheme result" where
  "csi_position b s =
     (let s = (if esc 0 s \<noteq> 0 then set_esc 0 (esc 0 s - 1) s else s);
          s = (if esc 1 s \<noteq> 0 then set_esc 1 (esc 1 s - 1) s else s);
          s = (if ucast (esc 1 s) \<ge> cols s then set_esc 1 (ucast (cols s - 1)) s else s);
          s = (if ucast (esc 0 s) \<ge> rows s then set_esc 0 (ucast (rows s - 1)) s else s)
      in set_cursor_pos b (ucast (esc 1 s)) (ucast (esc 0 s)) s)"

text \<open>\<open>M\<close>, \<open>L\<close>: delete and insert lines.\<close>

definition csi_count :: "u64 \<Rightarrow> 'a flanterm_context_scheme \<Rightarrow> nat" where
  "csi_count bound s = unat (if ucast (esc 0 s) > bound then bound else ucast (esc 0 s) :: u64)"

definition csi_delete_lines ::
  "'a flanterm_context_scheme backend \<Rightarrow> 'a flanterm_context_scheme \<Rightarrow> 'a flanterm_context_scheme result" where
  "csi_delete_lines b s = for_each (\<lambda>_. scroll_up b) [0..<csi_count (rows s) s] s"

definition csi_insert_lines ::
  "'a flanterm_context_scheme backend \<Rightarrow> u64 \<Rightarrow> 'a flanterm_context_scheme \<Rightarrow> 'a flanterm_context_scheme result" where
  "csi_insert_lines b y s =
     (let old_scroll_top_margin = scroll_top_margin s;
          s = s\<lparr>scroll_top_margin := y\<rparr>
      in rbind (for_each (\<lambda>_. revscroll b) [0..<csi_count (rows s) s] s) (\<lambda>s.
         ret (s\<lparr>scroll_top_margin := old_scroll_top_margin\<rparr>)))"

text \<open>\<open>n\<close>: reports.\<close>

definition csi_report ::
  "'a flanterm_context_scheme backend \<Rightarrow> u64 \<Rightarrow> u64 \<Rightarrow> 'a flanterm_context_scheme \<Rightarrow> 'a flanterm_context_scheme result" where
  "csi_report b x y s =
     (if esc 0 s = 5 then notify b 40 0 0 0 s
      else if esc 0 s = 6 then notify b 50 (x + 1) (y + 1) 0 s
      else ret s)"

text \<open>\<open>J\<close>: erase in the display. The nested loops of case 1 as a loop over the cells in reading order.\<close>

fun erase_up_to ::
  "'s backend \<Rightarrow> u64 \<Rightarrow> u64 \<Rightarrow> (nat \<times> nat) list \<Rightarrow> 's \<Rightarrow> 's result" where
  "erase_up_to b x y [] s = ret s"
| "erase_up_to b x y ((yc, xc) # ps) s =
     rbind (raw_putchar b 0x20 s) (\<lambda>s.
     if of_nat xc = x \<and> of_nat yc = y then set_cursor_pos b x y s
     else erase_up_to b x y ps s)"

definition csi_erase_display ::
  "'a flanterm_context_scheme backend \<Rightarrow> u64 \<Rightarrow> u64 \<Rightarrow> 'a flanterm_context_scheme \<Rightarrow> 'a flanterm_context_scheme result" where
  "csi_erase_display b x y s =
     (if esc 0 s = 0 then
        (let rows_remaining = rows s - (y + 1);
             cols_diff = cols s - (x + 1);
             to_clear = rows_remaining * cols s + cols_diff + 1
         in rbind (put_spaces b to_clear s) (set_cursor_pos b x y))
      else if esc 0 s = 1 then
        rbind (set_cursor_pos b 0 0 s) (\<lambda>s.
        erase_up_to b x y (List.product [0..<unat (rows s)] [0..<unat (cols s)]) s)
      else if esc 0 s = 2 \<or> esc 0 s = 3 then clear_screen b False s
      else ret s)"

text \<open>\<open>@\<close>: insert characters; \<open>P\<close>: delete characters; \<open>X\<close>: erase characters.\<close>

definition csi_insert_chars ::
  "'a flanterm_context_scheme backend \<Rightarrow> u64 \<Rightarrow> u64 \<Rightarrow> 'a flanterm_context_scheme \<Rightarrow> 'a flanterm_context_scheme result" where
  "csi_insert_chars b x y s =
     rbind (down_to (\<lambda>i s. rbind (move_character b (i + ucast (esc 0 s)) y i y s) (\<lambda>s.
              rbind (set_cursor_pos b i y s) (raw_putchar b 0x20))) (cols s - 1) x s)
       (set_cursor_pos b x y)"

definition csi_erase_chars ::
  "'a flanterm_context_scheme backend \<Rightarrow> u64 \<Rightarrow> u64 \<Rightarrow> 'a flanterm_context_scheme \<Rightarrow> 'a flanterm_context_scheme result" where
  "csi_erase_chars b x y s =
     rbind (put_spaces b (of_nat (csi_count (cols s) s)) s) (set_cursor_pos b x y)"

definition csi_delete_chars ::
  "'a flanterm_context_scheme backend \<Rightarrow> u64 \<Rightarrow> u64 \<Rightarrow> 'a flanterm_context_scheme \<Rightarrow> 'a flanterm_context_scheme result" where
  "csi_delete_chars b x y s =
     rbind (for_each (\<lambda>i s. move_character b (of_nat i - ucast (esc 0 s)) y (of_nat i) y s)
              [unat (x + ucast (esc 0 s))..<unat (cols s)] s) (\<lambda>s.
     rbind (set_cursor_pos b (cols s - ucast (esc 0 s)) y s) (csi_erase_chars b x y))"

text \<open>\<open>K\<close>: erase in the line.\<close>

definition csi_erase_line ::
  "'a flanterm_context_scheme backend \<Rightarrow> u64 \<Rightarrow> u64 \<Rightarrow> 'a flanterm_context_scheme \<Rightarrow> 'a flanterm_context_scheme result" where
  "csi_erase_line b x y s =
     (if esc 0 s = 0 then
        rbind (for_each (\<lambda>_. raw_putchar b 0x20) [unat x..<unat (cols s)] s) (set_cursor_pos b x y)
      else if esc 0 s = 1 then
        rbind (set_cursor_pos b 0 y s) (put_spaces b x)
      else if esc 0 s = 2 then
        rbind (set_cursor_pos b 0 y s) (\<lambda>s.
        rbind (put_spaces b (cols s) s) (set_cursor_pos b x y))
      else ret s)"

text \<open>\<open>r\<close>: scroll region.\<close>

definition margin_defaults :: "'a flanterm_context_scheme \<Rightarrow> 'a flanterm_context_scheme" where
  "margin_defaults s =
     (let s = (if esc 0 s = 0 then set_esc 0 1 s else s)
      in if esc 1 s = 0 then set_esc 1 1 s else s)"

definition csi_margins ::
  "'a flanterm_context_scheme backend \<Rightarrow> 'a flanterm_context_scheme \<Rightarrow> 'a flanterm_context_scheme result" where
  "csi_margins b s =
     (let s = margin_defaults s;
          s = s\<lparr>scroll_top_margin := 0, scroll_bottom_margin := rows s\<rparr>;
          s = (if esc_values_i s > 0 then s\<lparr>scroll_top_margin := ucast (esc 0 s - 1)\<rparr> else s);
          s = (if esc_values_i s > 1 then s\<lparr>scroll_bottom_margin := ucast (esc 1 s)\<rparr> else s);
          s = (if scroll_top_margin s \<ge> rows s \<or> scroll_bottom_margin s > rows s \<or>
                  scroll_top_margin s \<ge> scroll_bottom_margin s - 1
               then s\<lparr>scroll_top_margin := 0, scroll_bottom_margin := rows s\<rparr> else s)
      in set_cursor_pos b 0 0 s)"

text \<open>
  The \<open>switch\<close> over the final byte. \<open>None\<close> stands for the branches that return at once: an escape byte,
  and an unknown final byte, which sets \<open>csi_unhandled\<close>.
\<close>

definition csi_dispatch ::
  "'a flanterm_context_scheme backend \<Rightarrow> u8 \<Rightarrow> u64 \<Rightarrow> u64 \<Rightarrow> 'a flanterm_context_scheme \<Rightarrow>
   'a flanterm_context_scheme result option" where
  "csi_dispatch b c x y s =
     (if c = 0x46 then Some (csi_up b 0 y s)
      else if c = 0x41 then Some (csi_up b x y s)
      else if c = 0x45 then Some (csi_down b 0 y s)
      else if c = 0x65 \<or> c = 0x42 then Some (csi_down b x y s)
      else if c = 0x61 \<or> c = 0x43 then Some (csi_right b x y s)
      else if c = 0x44 then Some (csi_left b x y s)
      else if c = 0x63 then Some (notify b 30 0 0 0 s)
      else if c = 0x64 then Some (csi_row b x y s)
      else if c = 0x47 \<or> c = 0x60 then Some (csi_column b x y s)
      else if c = 0x48 \<or> c = 0x66 then Some (csi_position b s)
      else if c = 0x4D then Some (csi_delete_lines b s)
      else if c = 0x4C then Some (csi_insert_lines b y s)
      else if c = 0x6E then Some (csi_report b x y s)
      else if c = 0x71 then Some (notify b 60 (ucast (esc 0 s)) 0 0 s)
      else if c = 0x4A then Some (csi_erase_display b x y s)
      else if c = 0x40 then Some (csi_insert_chars b x y s)
      else if c = 0x50 then Some (csi_delete_chars b x y s)
      else if c = 0x58 then Some (csi_erase_chars b x y s)
      else if c = 0x6D then Some (sgr b s)
      else if c = 0x73 then Some (let (cx, cy) = get_cursor_pos b s in ret (s\<lparr>saved_cursor_x := cx, saved_cursor_y := cy\<rparr>))
      else if c = 0x75 then Some (set_cursor_pos b (saved_cursor_x s) (saved_cursor_y s) s)
      else if c = 0x4B then Some (csi_erase_line b x y s)
      else if c = 0x72 then Some (csi_margins b s)
      else if c = 0x6C \<or> c = 0x68 then Some (mode_toggle b c s)
      else if c = 0x5D then Some (linux_private_parse b s)
      else None)"

definition csi_cleanup :: "'a flanterm_context_scheme \<Rightarrow> 'a flanterm_context_scheme" where
  "csi_cleanup s = s\<lparr>control_sequence := False, escape := False\<rparr>"

text \<open>From the defaults of missing parameters on: the sequence is complete but for its final byte.\<close>

definition csi_final ::
  "'a flanterm_context_scheme backend \<Rightarrow> u8 \<Rightarrow> 'a flanterm_context_scheme \<Rightarrow> 'a flanterm_context_scheme result" where
  "csi_final b c s =
     (let esc_default = (if c = 0x4A \<or> c = 0x4B \<or> c = 0x71 then 0 else 1);
          n = unat (esc_values_i s);
          s = s\<lparr>esc_values := take n (esc_values s) @ replicate (FLANTERM_MAX_ESC_VALUES - n) esc_default\<rparr>
      in
      if dec_private s then rbind (dec_private_parse b c s) (\<lambda>s. ret (csi_cleanup s)) else
      let r = scroll_enabled s;
          s = s\<lparr>scroll_enabled := False\<rparr>;
          (x, y) = get_cursor_pos b s
      in
      if csi_unhandled s then
        (if c \<ge> 0x40 \<and> c \<le> 0x7E then ret (csi_cleanup (s\<lparr>csi_unhandled := False\<rparr>)) else ret s)
      else if c = 0x1B then ret s
      else case csi_dispatch b c x y s of
             None \<Rightarrow> ret (s\<lparr>csi_unhandled := True\<rparr>)
           | Some m \<Rightarrow> rbind m (\<lambda>s. ret (csi_cleanup (s\<lparr>scroll_enabled := r\<rparr>))))"

definition control_sequence_parse ::
  "'a flanterm_context_scheme backend \<Rightarrow> u8 \<Rightarrow> 'a flanterm_context_scheme \<Rightarrow> 'a flanterm_context_scheme result" where
  "control_sequence_parse b c s =
     (if escape_offset s = 2 \<and> c = 0x5B then ret (csi_cleanup (s\<lparr>discard_next := True\<rparr>))
      else if escape_offset s = 2 \<and> c = 0x3F then ret (s\<lparr>dec_private := True\<rparr>)
      else if c \<ge> 0x30 \<and> c \<le> 0x39 then
        if unat (esc_values_i s) = FLANTERM_MAX_ESC_VALUES then ret s
        else if unat (esc_values_i s) \<ge> length (esc_values s) then fails (Bad_Access ''esc_values'')
        else let i = unat (esc_values_i s)
             in ret (set_esc i (esc i s * 10 + ucast (c - 0x30)) (s\<lparr>rrr := True\<rparr>))
      else if rrr s then
        let s = s\<lparr>esc_values_i := esc_values_i s + 1, rrr := False\<rparr>
        in if c = 0x3B then ret s else csi_final b c s
      else if c = 0x3B then
        if unat (esc_values_i s) = FLANTERM_MAX_ESC_VALUES then ret s
        else if unat (esc_values_i s) \<ge> length (esc_values s) then fails (Bad_Access ''esc_values'')
        else ret ((set_esc (unat (esc_values_i s)) 0 s)\<lparr>esc_values_i := esc_values_i s + 1\<rparr>)
      else csi_final b c s)"

subsection \<open>Escape sequences\<close>

definition restore_state ::
  "'a flanterm_context_scheme backend \<Rightarrow> 'a flanterm_context_scheme \<Rightarrow> 'a flanterm_context_scheme result" where
  "restore_state b s =
     restore_state_op b (s\<lparr>bold := saved_state_bold s,
       bg_bold := saved_state_bg_bold s,
       reverse_video := saved_state_reverse_video s,
       current_charset := saved_state_current_charset s,
       current_primary := saved_state_current_primary s,
       current_bg := saved_state_current_bg s\<rparr>)"

definition save_state ::
  "'a flanterm_context_scheme backend \<Rightarrow> 'a flanterm_context_scheme \<Rightarrow> 'a flanterm_context_scheme result" where
  "save_state b s =
     rbind (save_state_op b s) (\<lambda>s.
     ret (s\<lparr>saved_state_bold := bold s,
       saved_state_bg_bold := bg_bold s,
       saved_state_reverse_video := reverse_video s,
       saved_state_current_charset := current_charset s,
       saved_state_current_primary := current_primary s,
       saved_state_current_bg := current_bg s\<rparr>))"

text \<open>The bytes after \<open>ESC\<close> that are not the start of a longer sequence.\<close>

definition escape_dispatch ::
  "'a flanterm_context_scheme backend \<Rightarrow> u8 \<Rightarrow> u64 \<Rightarrow> u64 \<Rightarrow> 'a flanterm_context_scheme \<Rightarrow> 'a flanterm_context_scheme result" where
  "escape_dispatch b c x y s =
     (if c = 0x37 then save_state b s
      else if c = 0x38 then restore_state b s
      else if c = 0x63 then clear_screen b True (flanterm_context_reinit s)
      else if c = 0x44 then
        (if y = scroll_bottom_margin s - 1
         then rbind (scroll_up b s) (set_cursor_pos b x y)
         else set_cursor_pos b x (y + 1) s)
      else if c = 0x45 then
        (if y = scroll_bottom_margin s - 1
         then rbind (scroll_up b s) (set_cursor_pos b 0 y)
         else set_cursor_pos b 0 (y + 1) s)
      else if c = 0x4D then
        (if y = scroll_top_margin s
         then rbind (revscroll b s) (set_cursor_pos b 0 y)
         else set_cursor_pos b 0 (y - 1) s)
      else if c = 0x5A then notify b 30 0 0 0 s
      else if c = 0x28 \<or> c = 0x29 then ret (s\<lparr>g_select := c - 0x27\<rparr>)
      else ret s)"

definition escape_parse ::
  "'a flanterm_context_scheme backend \<Rightarrow> u8 \<Rightarrow> 'a flanterm_context_scheme \<Rightarrow> 'a flanterm_context_scheme result" where
  "escape_parse b c s =
     (let s = s\<lparr>escape_offset := escape_offset s + 1\<rparr>;
          (consumed, s) = (if osc s then osc_parse c s else (False, s))
      in
      if consumed then ret s
      else if control_sequence s then control_sequence_parse b c s
      else let (x, y) = get_cursor_pos b s in
      if c = 0x5D then ret (s\<lparr>osc_escape := False, osc := True\<rparr>)
      else if c = 0x5B then
        ret (s\<lparr>esc_values := replicate FLANTERM_MAX_ESC_VALUES 0, esc_values_i := 0, rrr := False,
               csi_unhandled := False, control_sequence := True\<rparr>)
      else rbind (escape_dispatch b c x y s) (\<lambda>s. ret (s\<lparr>escape := False\<rparr>)))"

subsection \<open>Characters\<close>

definition dec_special_table :: "(u8 \<times> u8) list" where
  "dec_special_table = [
     (0x60, 0x04), (0x30, 0xdb), (0x2d, 0x18), (0x2c, 0x1b), (0x2e, 0x19), (0x61, 0xb1), (0x66, 0xf8),
     (0x67, 0xf1), (0x68, 0xb0), (0x6a, 0xd9), (0x6b, 0xbf), (0x6c, 0xda), (0x6d, 0xc0), (0x6e, 0xc5),
     (0x71, 0xc4), (0x73, 0x5f), (0x74, 0xc3), (0x75, 0xb4), (0x76, 0xc1), (0x77, 0xc2), (0x78, 0xb3),
     (0x79, 0xf3), (0x7a, 0xf2), (0x7e, 0xfa), (0x5f, 0xff), (0x2b, 0x1a), (0x7b, 0xe3), (0x7d, 0x9c)]"

definition dec_special_print ::
  "'s backend \<Rightarrow> u8 \<Rightarrow> 's \<Rightarrow> (bool \<times> 's) result" where
  "dec_special_print b c s =
     (case map_of dec_special_table c of
        Some g \<Rightarrow> rbind (raw_putchar b g s) (\<lambda>s. ret (True, s))
      | None \<Rightarrow> ret (False, s))"

record interval =
  first :: u32
  last_ucs :: u32

function bisearch_loop :: "u32 \<Rightarrow> interval list \<Rightarrow> int \<Rightarrow> int \<Rightarrow> int" where
  "bisearch_loop ucs table mn mx =
     (if mx \<ge> mn then
        let mid = (mn + mx) div 2 in
        if ucs > last_ucs (table ! nat mid) then bisearch_loop ucs table (mid + 1) mx
        else if ucs < first (table ! nat mid) then bisearch_loop ucs table mn (mid - 1)
        else 1
      else 0)"
  by pat_completeness auto
termination
  by (relation "measure (\<lambda>(ucs, table, mn, mx). nat (mx - mn + 1))") auto

definition bisearch :: "u32 \<Rightarrow> interval list \<Rightarrow> int \<Rightarrow> int" where
  "bisearch ucs table mx =
     (if ucs < first (table ! 0) \<or> ucs > last_ucs (table ! nat mx) then 0
      else bisearch_loop ucs table 0 mx)"

definition combining :: "interval list" where
  "combining = map (\<lambda>(a, b). \<lparr>first = a, last_ucs = b\<rparr>) [
     (0x0300, 0x036F), (0x0483, 0x0486), (0x0488, 0x0489), (0x0591, 0x05BD), (0x05BF, 0x05BF),
     (0x05C1, 0x05C2), (0x05C4, 0x05C5), (0x05C7, 0x05C7), (0x0600, 0x0603), (0x0610, 0x0615),
     (0x064B, 0x065E), (0x0670, 0x0670), (0x06D6, 0x06E4), (0x06E7, 0x06E8), (0x06EA, 0x06ED),
     (0x070F, 0x070F), (0x0711, 0x0711), (0x0730, 0x074A), (0x07A6, 0x07B0), (0x07EB, 0x07F3),
     (0x0901, 0x0902), (0x093C, 0x093C), (0x0941, 0x0948), (0x094D, 0x094D), (0x0951, 0x0954),
     (0x0962, 0x0963), (0x0981, 0x0981), (0x09BC, 0x09BC), (0x09C1, 0x09C4), (0x09CD, 0x09CD),
     (0x09E2, 0x09E3), (0x0A01, 0x0A02), (0x0A3C, 0x0A3C), (0x0A41, 0x0A42), (0x0A47, 0x0A48),
     (0x0A4B, 0x0A4D), (0x0A70, 0x0A71), (0x0A81, 0x0A82), (0x0ABC, 0x0ABC), (0x0AC1, 0x0AC5),
     (0x0AC7, 0x0AC8), (0x0ACD, 0x0ACD), (0x0AE2, 0x0AE3), (0x0B01, 0x0B01), (0x0B3C, 0x0B3C),
     (0x0B3F, 0x0B3F), (0x0B41, 0x0B43), (0x0B4D, 0x0B4D), (0x0B56, 0x0B56), (0x0B82, 0x0B82),
     (0x0BC0, 0x0BC0), (0x0BCD, 0x0BCD), (0x0C3E, 0x0C40), (0x0C46, 0x0C48), (0x0C4A, 0x0C4D),
     (0x0C55, 0x0C56), (0x0CBC, 0x0CBC), (0x0CBF, 0x0CBF), (0x0CC6, 0x0CC6), (0x0CCC, 0x0CCD),
     (0x0CE2, 0x0CE3), (0x0D41, 0x0D43), (0x0D4D, 0x0D4D), (0x0DCA, 0x0DCA), (0x0DD2, 0x0DD4),
     (0x0DD6, 0x0DD6), (0x0E31, 0x0E31), (0x0E34, 0x0E3A), (0x0E47, 0x0E4E), (0x0EB1, 0x0EB1),
     (0x0EB4, 0x0EB9), (0x0EBB, 0x0EBC), (0x0EC8, 0x0ECD), (0x0F18, 0x0F19), (0x0F35, 0x0F35),
     (0x0F37, 0x0F37), (0x0F39, 0x0F39), (0x0F71, 0x0F7E), (0x0F80, 0x0F84), (0x0F86, 0x0F87),
     (0x0F90, 0x0F97), (0x0F99, 0x0FBC), (0x0FC6, 0x0FC6), (0x102D, 0x1030), (0x1032, 0x1032),
     (0x1036, 0x1037), (0x1039, 0x1039), (0x1058, 0x1059), (0x1160, 0x11FF), (0x135F, 0x135F),
     (0x1712, 0x1714), (0x1732, 0x1734), (0x1752, 0x1753), (0x1772, 0x1773), (0x17B4, 0x17B5),
     (0x17B7, 0x17BD), (0x17C6, 0x17C6), (0x17C9, 0x17D3), (0x17DD, 0x17DD), (0x180B, 0x180D),
     (0x18A9, 0x18A9), (0x1920, 0x1922), (0x1927, 0x1928), (0x1932, 0x1932), (0x1939, 0x193B),
     (0x1A17, 0x1A18), (0x1B00, 0x1B03), (0x1B34, 0x1B34), (0x1B36, 0x1B3A), (0x1B3C, 0x1B3C),
     (0x1B42, 0x1B42), (0x1B6B, 0x1B73), (0x1DC0, 0x1DCA), (0x1DFE, 0x1DFF), (0x200B, 0x200F),
     (0x202A, 0x202E), (0x2060, 0x2063), (0x206A, 0x206F), (0x20D0, 0x20EF), (0x302A, 0x302F),
     (0x3099, 0x309A), (0xA806, 0xA806), (0xA80B, 0xA80B), (0xA825, 0xA826), (0xFB1E, 0xFB1E),
     (0xFE00, 0xFE0F), (0xFE20, 0xFE23), (0xFEFF, 0xFEFF), (0xFFF9, 0xFFFB), (0x10A01, 0x10A03),
     (0x10A05, 0x10A06), (0x10A0C, 0x10A0F), (0x10A38, 0x10A3A), (0x10A3F, 0x10A3F), (0x1D167, 0x1D169),
     (0x1D173, 0x1D182), (0x1D185, 0x1D18B), (0x1D1AA, 0x1D1AD), (0x1D242, 0x1D244), (0xE0001, 0xE0001),
     (0xE0020, 0xE007F), (0xE0100, 0xE01EF)]"

definition wide_ucs :: "u32 \<Rightarrow> bool" where
  "wide_ucs ucs \<longleftrightarrow> ucs \<ge> 0x1100 \<and>
     (ucs \<le> 0x115f \<or>
      ucs = 0x2329 \<or> ucs = 0x232a \<or>
      (ucs \<ge> 0x2e80 \<and> ucs \<le> 0xa4cf \<and> ucs \<noteq> 0x303f) \<or>
      (ucs \<ge> 0xac00 \<and> ucs \<le> 0xd7a3) \<or>
      (ucs \<ge> 0xf900 \<and> ucs \<le> 0xfaff) \<or>
      (ucs \<ge> 0xfe10 \<and> ucs \<le> 0xfe19) \<or>
      (ucs \<ge> 0xfe30 \<and> ucs \<le> 0xfe6f) \<or>
      (ucs \<ge> 0xff00 \<and> ucs \<le> 0xff60) \<or>
      (ucs \<ge> 0xffe0 \<and> ucs \<le> 0xffe6) \<or>
      (ucs \<ge> 0x20000 \<and> ucs \<le> 0x2fffd) \<or>
      (ucs \<ge> 0x30000 \<and> ucs \<le> 0x3fffd))"

definition mk_wcwidth :: "u32 \<Rightarrow> int" where
  "mk_wcwidth ucs =
     (if ucs = 0 then 0
      else if ucs < 32 \<or> (ucs \<ge> 0x7f \<and> ucs < 0xa0) then 1
      else if bisearch ucs combining (int (length combining) - 1) \<noteq> 0 then 0
      else 1 + of_bool (wide_ucs ucs))"

text \<open>The cases of \<open>unicode_to_cp437\<close>, in the order of the source.\<close>

definition cp437_table_low :: "(u64 \<times> int) list" where
  "cp437_table_low = [
     (0x263a, 1), (0x263b, 2), (0x2665, 3), (0x2666, 4), (0x2663, 5), (0x2660, 6), (0x2022, 7), (0x25d8, 8),
     (0x25cb, 9), (0x25d9, 10), (0x2642, 11), (0x2640, 12), (0x266a, 13), (0x266b, 14), (0x263c, 15),
     (0x25ba, 16), (0x25c4, 17), (0x2195, 18), (0x203c, 19), (0x00b6, 20), (0x00a7, 21), (0x25ac, 22),
     (0x21a8, 23), (0x2191, 24), (0x2193, 25), (0x2192, 26), (0x2190, 27), (0x221f, 28), (0x2194, 29),
     (0x25b2, 30), (0x25bc, 31), (0x2302, 127), (0x00c7, 128), (0x00fc, 129), (0x00e9, 130), (0x00e2, 131),
     (0x00e4, 132), (0x00e0, 133), (0x00e5, 134), (0x00e7, 135), (0x00ea, 136), (0x00eb, 137), (0x00e8, 138),
     (0x00ef, 139), (0x00ee, 140), (0x00ec, 141), (0x00c4, 142), (0x00c5, 143), (0x00c9, 144), (0x00e6, 145),
     (0x00c6, 146), (0x00f4, 147), (0x00f6, 148), (0x00f2, 149), (0x00fb, 150), (0x00f9, 151), (0x00ff, 152),
     (0x00d6, 153), (0x00dc, 154), (0x00a2, 155), (0x00a3, 156), (0x00a5, 157), (0x20a7, 158), (0x0192, 159),
     (0x00e1, 160), (0x00ed, 161), (0x00f3, 162), (0x00fa, 163), (0x00f1, 164), (0x00d1, 165), (0x00aa, 166),
     (0x00ba, 167), (0x00bf, 168), (0x2310, 169), (0x00ac, 170), (0x00bd, 171), (0x00bc, 172), (0x00a1, 173),
     (0x00ab, 174)]"

definition cp437_table_high :: "(u64 \<times> int) list" where
  "cp437_table_high = [
     (0x00bb, 175), (0x2591, 176), (0x2592, 177), (0x2593, 178), (0x2502, 179), (0x2524, 180), (0x2561, 181),
     (0x2562, 182), (0x2556, 183), (0x2555, 184), (0x2563, 185), (0x2551, 186), (0x2557, 187), (0x255d, 188),
     (0x255c, 189), (0x255b, 190), (0x2510, 191), (0x2514, 192), (0x2534, 193), (0x252c, 194), (0x251c, 195),
     (0x2500, 196), (0x253c, 197), (0x255e, 198), (0x255f, 199), (0x255a, 200), (0x2554, 201), (0x2569, 202),
     (0x2566, 203), (0x2560, 204), (0x2550, 205), (0x256c, 206), (0x2567, 207), (0x2568, 208), (0x2564, 209),
     (0x2565, 210), (0x2559, 211), (0x2558, 212), (0x2552, 213), (0x2553, 214), (0x256b, 215), (0x256a, 216),
     (0x2518, 217), (0x250c, 218), (0x2588, 219), (0x2584, 220), (0x258c, 221), (0x2590, 222), (0x2580, 223),
     (0x03b1, 224), (0x00df, 225), (0x0393, 226), (0x03c0, 227), (0x03a3, 228), (0x03c3, 229), (0x00b5, 230),
     (0x03c4, 231), (0x03a6, 232), (0x0398, 233), (0x03a9, 234), (0x03b4, 235), (0x221e, 236), (0x03c6, 237),
     (0x03b5, 238), (0x2229, 239), (0x2261, 240), (0x00b1, 241), (0x2265, 242), (0x2264, 243), (0x2320, 244),
     (0x2321, 245), (0x00f7, 246), (0x2248, 247), (0x00b0, 248), (0x2219, 249), (0x00b7, 250), (0x221a, 251),
     (0x207f, 252), (0x00b2, 253), (0x25a0, 254)]"

definition cp437_table :: "(u64 \<times> int) list" where
  "cp437_table = cp437_table_low @ cp437_table_high"

definition unicode_to_cp437 :: "u64 \<Rightarrow> int" where
  "unicode_to_cp437 cp = (case map_of cp437_table cp of Some n \<Rightarrow> n | None \<Rightarrow> - 1)"

text \<open>A code point is complete: print its glyph, or a replacement as wide as the character.\<close>

definition put_code_point ::
  "'a flanterm_context_scheme backend \<Rightarrow> 'a flanterm_context_scheme \<Rightarrow> 'a flanterm_context_scheme result" where
  "put_code_point b s =
     (let cc = unicode_to_cp437 (code_point s) in
      if cc = - 1 then
        let replacement_width = mk_wcwidth (ucast (code_point s)) in
        rbind (if replacement_width > 0 then raw_putchar b 0xFE s else ret s)
          (for_each (\<lambda>_. raw_putchar b 0x20) [1..<nat replacement_width])
      else raw_putchar b (word_of_int cc) s)"

definition start_code_point :: "u8 \<Rightarrow> 'a flanterm_context_scheme \<Rightarrow> 'a flanterm_context_scheme" where
  "start_code_point c s =
     (if c \<ge> 0xC0 \<and> c \<le> 0xDF then s\<lparr>unicode_remaining := 1, code_point := push_bit 6 (ucast (c AND 0x1F))\<rparr>
      else if c \<ge> 0xE0 \<and> c \<le> 0xEF then s\<lparr>unicode_remaining := 2, code_point := push_bit 12 (ucast (c AND 0x0F))\<rparr>
      else if c \<ge> 0xF0 \<and> c \<le> 0xF7 then s\<lparr>unicode_remaining := 3, code_point := push_bit 18 (ucast (c AND 0x07))\<rparr>
      else s)"

definition select_charset ::
  "u8 \<Rightarrow> 'a flanterm_context_scheme \<Rightarrow> 'a flanterm_context_scheme result" where
  "select_charset c s =
     (let s = s\<lparr>g_select := g_select s - 1\<rparr> in
      if c \<noteq> 0x42 \<and> c \<noteq> 0x30 then ret (s\<lparr>g_select := 0\<rparr>)
      else if unat (g_select s) \<ge> length (charsets s) then fails (Bad_Access ''charsets'')
      else ret (s\<lparr>charsets := (charsets s)[unat (g_select s) :=
                    (if c = 0x42 then CHARSET_DEFAULT else CHARSET_DEC_SPECIAL)], g_select := 0\<rparr>))"

text \<open>The control characters; \<open>None\<close> when the byte is none of them.\<close>

definition control_char ::
  "'a flanterm_context_scheme backend \<Rightarrow> u8 \<Rightarrow> u64 \<Rightarrow> u64 \<Rightarrow> 'a flanterm_context_scheme \<Rightarrow>
   'a flanterm_context_scheme result option" where
  "control_char b c x y s =
     (if c = 0x00 \<or> c = 0x7F then Some (ret s)
      else if c = 0x1B then Some (ret (s\<lparr>escape_offset := 0, escape := True\<rparr>))
      else if c = 0x09 then
        Some (if x div tab_size s + 1 \<ge> cols s then set_cursor_pos b (cols s - 1) y s
              else set_cursor_pos b ((x div tab_size s + 1) * tab_size s) y s)
      else if c = 0x0B \<or> c = 0x0C \<or> c = 0x0A then
        Some (let nx = (if oob_output s AND FLANTERM_OOB_OUTPUT_ONLCR \<noteq> 0 then 0 else x) in
              if y = scroll_bottom_margin s - 1
              then rbind (scroll_up b s) (set_cursor_pos b nx y)
              else set_cursor_pos b nx (y + 1) s)
      else if c = 0x08 then Some (set_cursor_pos b (x - 1) y s)
      else if c = 0x0D then Some (set_cursor_pos b 0 y s)
      else if c = 0x07 then Some (notify b 20 0 0 0 s)
      else if c = 14 then Some (ret (s\<lparr>current_charset := 1\<rparr>))
      else if c = 15 then Some (ret (s\<lparr>current_charset := 0\<rparr>))
      else None)"

definition put_glyph ::
  "'a flanterm_context_scheme backend \<Rightarrow> u8 \<Rightarrow> u64 \<Rightarrow> u64 \<Rightarrow> 'a flanterm_context_scheme \<Rightarrow> 'a flanterm_context_scheme result" where
  "put_glyph b c x y s =
     rbind (if insert_mode s then down_to (\<lambda>i. move_character b (i + 1) y i y) (cols s - 1) x s else ret s) (\<lambda>s.
     if unat (current_charset s) \<ge> length (charsets s) then fails (Bad_Access ''charsets'') else
     rbind (if charsets s ! unat (current_charset s) = CHARSET_DEC_SPECIAL then dec_special_print b c s
            else ret (False, s)) (\<lambda>(printed, s).
     if printed then ret s
     else if c \<ge> 0x20 \<and> c \<le> 0x7E then raw_putchar b c s
     else raw_putchar b 0xFE s))"

text \<open>\<open>flanterm_putchar\<close> from the label \<open>unicode_error\<close> on.\<close>

definition putchar_byte ::
  "'a flanterm_context_scheme backend \<Rightarrow> u8 \<Rightarrow> 'a flanterm_context_scheme \<Rightarrow> 'a flanterm_context_scheme result" where
  "putchar_byte b c s =
     (if c \<ge> 0xC0 \<and> c \<le> 0xF7 then ret (start_code_point c s)
      else if escape s then escape_parse b c s
      else if g_select s \<noteq> 0 then select_charset c s
      else let (x, y) = get_cursor_pos b s in
      case control_char b c x y s of
        Some m \<Rightarrow> m
      | None \<Rightarrow> put_glyph b c x y s)"

definition flanterm_putchar ::
  "'a flanterm_context_scheme backend \<Rightarrow> u8 \<Rightarrow> 'a flanterm_context_scheme \<Rightarrow> 'a flanterm_context_scheme result" where
  "flanterm_putchar b c s =
     (if discard_next s \<or> c = 0x18 \<or> c = 0x1A then
        ret (s\<lparr>discard_next := False, escape := False, control_sequence := False, unicode_remaining := 0,
               osc := False, osc_escape := False, g_select := 0\<rparr>)
      else if unicode_remaining s \<noteq> 0 then
        if c AND 0xC0 \<noteq> 0x80 then putchar_byte b c (s\<lparr>unicode_remaining := 0\<rparr>)
        else
          let s = s\<lparr>unicode_remaining := unicode_remaining s - 1\<rparr>;
              s = s\<lparr>code_point := code_point s OR push_bit (6 * unat (unicode_remaining s)) (ucast (c AND 0x3F))\<rparr>
          in if unicode_remaining s \<noteq> 0 then ret s else put_code_point b s
      else putchar_byte b c s)"

definition flanterm_write ::
  "'a flanterm_context_scheme backend \<Rightarrow> u8 list \<Rightarrow> 'a flanterm_context_scheme \<Rightarrow> 'a flanterm_context_scheme result" where
  "flanterm_write b buf s =
     rbind (for_each (flanterm_putchar b) buf s) (\<lambda>s.
     if autoflush s then double_buffer_flush b s else ret s)"

definition flanterm_flush :: "'s backend \<Rightarrow> 's \<Rightarrow> 's result" where
  "flanterm_flush b s = double_buffer_flush b s"

definition flanterm_full_refresh :: "'s backend \<Rightarrow> 's \<Rightarrow> 's result" where
  "flanterm_full_refresh b s = full_refresh b s"

definition flanterm_get_dimensions :: "'a flanterm_context_scheme \<Rightarrow> u64 \<times> u64" where
  "flanterm_get_dimensions s = (cols s, rows s)"

definition flanterm_set_autoflush :: "bool \<Rightarrow> 'a flanterm_context_scheme \<Rightarrow> 'a flanterm_context_scheme" where
  "flanterm_set_autoflush state s = s\<lparr>autoflush := state\<rparr>"

definition flanterm_set_callback ::
  "(u64 \<Rightarrow> u64 \<Rightarrow> u64 \<Rightarrow> u64 \<Rightarrow> 's \<Rightarrow> 's result) option \<Rightarrow> 's backend \<Rightarrow> 's backend" where
  "flanterm_set_callback cb b = b\<lparr>callback := cb\<rparr>"

definition flanterm_get_oob_output :: "'a flanterm_context_scheme \<Rightarrow> u64" where
  "flanterm_get_oob_output s = oob_output s"

definition flanterm_set_oob_output :: "u64 \<Rightarrow> 'a flanterm_context_scheme \<Rightarrow> 'a flanterm_context_scheme" where
  "flanterm_set_oob_output v s = s\<lparr>oob_output := v\<rparr>"

end
