(* ===== verification/Flanterm_Safe.thy ===== *)
theory Flanterm_Safe
  imports Flanterm
begin

text \<open>
  The terminal emulator is safe on every input. The contract between \<open>flanterm.c\<close> and a backend is the
  locale \<open>terminal_backend\<close>: as long as coordinates are asked for within the screen, colours are indices
  below 8 and the scroll region lies on the screen, every call of the backend returns and keeps its own
  invariant. Under it every byte, whatever state the parser is in, is processed without an access out of
  bounds and without an endless loop, and keeps the invariant of the parser. The table search of the
  character widths is shown equivalent to looking through the whole table.
\<close>

section \<open>The invariant of the parser\<close>

definition colour_ok :: "u64 \<Rightarrow> bool" where
  "colour_ok v \<longleftrightarrow> v = - 1 \<or> v < 8"

text \<open>
  The invariant on a screen of \<open>R\<close> rows and \<open>C\<close> columns; \<open>B\<close> is the backend's, on its own fields.
\<close>

definition term_inv :: "('a \<Rightarrow> bool) \<Rightarrow> u64 \<Rightarrow> u64 \<Rightarrow> 'a flanterm_context_scheme \<Rightarrow> bool" where
  "term_inv B R C s \<longleftrightarrow> rows s = R \<and> cols s = C \<and> 0 < R \<and> 0 < C \<and> tab_size s \<noteq> 0 \<and>
     length (charsets s) = 2 \<and> current_charset s < 2 \<and> saved_state_current_charset s < 2 \<and> g_select s \<le> 2 \<and>
     length (esc_values s) = FLANTERM_MAX_ESC_VALUES \<and> esc_values_i s \<le> 16 \<and> (rrr s \<longrightarrow> esc_values_i s < 16) \<and>
     colour_ok (current_primary s) \<and> colour_ok (current_bg s) \<and>
     colour_ok (saved_state_current_primary s) \<and> colour_ok (saved_state_current_bg s) \<and>
     scroll_top_margin s < R \<and> 0 < scroll_bottom_margin s \<and> scroll_bottom_margin s \<le> R \<and>
     B (flanterm_context.more s)"

lemma term_inv_free [simp]:
  "term_inv B R C (s\<lparr>autoflush := v\<rparr>) = term_inv B R C s"
  "term_inv B R C (s\<lparr>cursor_enabled := v\<rparr>) = term_inv B R C s"
  "term_inv B R C (s\<lparr>scroll_enabled := v\<rparr>) = term_inv B R C s"
  "term_inv B R C (s\<lparr>control_sequence := v\<rparr>) = term_inv B R C s"
  "term_inv B R C (s\<lparr>escape := v\<rparr>) = term_inv B R C s"
  "term_inv B R C (s\<lparr>osc := v\<rparr>) = term_inv B R C s"
  "term_inv B R C (s\<lparr>osc_escape := v\<rparr>) = term_inv B R C s"
  "term_inv B R C (s\<lparr>discard_next := v\<rparr>) = term_inv B R C s"
  "term_inv B R C (s\<lparr>bold := v\<rparr>) = term_inv B R C s"
  "term_inv B R C (s\<lparr>bg_bold := v\<rparr>) = term_inv B R C s"
  "term_inv B R C (s\<lparr>reverse_video := v\<rparr>) = term_inv B R C s"
  "term_inv B R C (s\<lparr>dec_private := v\<rparr>) = term_inv B R C s"
  "term_inv B R C (s\<lparr>insert_mode := v\<rparr>) = term_inv B R C s"
  "term_inv B R C (s\<lparr>csi_unhandled := v\<rparr>) = term_inv B R C s"
  "term_inv B R C (s\<lparr>code_point := w\<rparr>) = term_inv B R C s"
  "term_inv B R C (s\<lparr>unicode_remaining := w\<rparr>) = term_inv B R C s"
  "term_inv B R C (s\<lparr>escape_offset := w\<rparr>) = term_inv B R C s"
  "term_inv B R C (s\<lparr>saved_cursor_x := w\<rparr>) = term_inv B R C s"
  "term_inv B R C (s\<lparr>saved_cursor_y := w\<rparr>) = term_inv B R C s"
  "term_inv B R C (s\<lparr>oob_output := w\<rparr>) = term_inv B R C s"
  "term_inv B R C (s\<lparr>saved_state_bold := v\<rparr>) = term_inv B R C s"
  "term_inv B R C (s\<lparr>saved_state_bg_bold := v\<rparr>) = term_inv B R C s"
  "term_inv B R C (s\<lparr>saved_state_reverse_video := v\<rparr>) = term_inv B R C s"
  by (simp_all add: term_inv_def)

lemma term_inv_upd:
  "term_inv B R C s \<Longrightarrow> colour_ok w \<Longrightarrow> term_inv B R C (s\<lparr>current_primary := w\<rparr>)"
  "term_inv B R C s \<Longrightarrow> colour_ok w \<Longrightarrow> term_inv B R C (s\<lparr>current_bg := w\<rparr>)"
  "term_inv B R C s \<Longrightarrow> colour_ok w \<Longrightarrow> term_inv B R C (s\<lparr>saved_state_current_primary := w\<rparr>)"
  "term_inv B R C s \<Longrightarrow> colour_ok w \<Longrightarrow> term_inv B R C (s\<lparr>saved_state_current_bg := w\<rparr>)"
  "term_inv B R C s \<Longrightarrow> w < 2 \<Longrightarrow> term_inv B R C (s\<lparr>current_charset := w\<rparr>)"
  "term_inv B R C s \<Longrightarrow> w < 2 \<Longrightarrow> term_inv B R C (s\<lparr>saved_state_current_charset := w\<rparr>)"
  "term_inv B R C s \<Longrightarrow> g \<le> 2 \<Longrightarrow> term_inv B R C (s\<lparr>g_select := g\<rparr>)"
  "term_inv B R C s \<Longrightarrow> length cs = 2 \<Longrightarrow> term_inv B R C (s\<lparr>charsets := cs\<rparr>)"
  "term_inv B R C s \<Longrightarrow> length vs = FLANTERM_MAX_ESC_VALUES \<Longrightarrow> term_inv B R C (s\<lparr>esc_values := vs\<rparr>)"
  "term_inv B R C s \<Longrightarrow> w < R \<Longrightarrow> term_inv B R C (s\<lparr>scroll_top_margin := w\<rparr>)"
  "term_inv B R C s \<Longrightarrow> 0 < w \<Longrightarrow> w \<le> R \<Longrightarrow> term_inv B R C (s\<lparr>scroll_bottom_margin := w\<rparr>)"
  by (simp_all add: term_inv_def)

lemma colour_ok_simps [simp]: "colour_ok (- 1)" "v < 8 \<Longrightarrow> colour_ok v"
  by (simp_all add: colour_ok_def)

lemma term_inv_facts:
  assumes "term_inv B R C s"
  shows "rows s = R" "cols s = C" "0 < R" "0 < C" "length (charsets s) = 2" "current_charset s < 2"
    "saved_state_current_charset s < 2" "g_select s \<le> 2" "length (esc_values s) = FLANTERM_MAX_ESC_VALUES"
    "esc_values_i s \<le> 16" "rrr s \<Longrightarrow> esc_values_i s < 16" "colour_ok (current_primary s)" "colour_ok (current_bg s)"
    "colour_ok (saved_state_current_primary s)" "colour_ok (saved_state_current_bg s)"
    "scroll_top_margin s < R" "0 < scroll_bottom_margin s" "scroll_bottom_margin s \<le> R"
  using assms by (auto simp: term_inv_def)

lemma term_inv_set_esc [simp]: "term_inv B R C (set_esc i v s) = term_inv B R C s"
  by (simp add: set_esc_def term_inv_def)

lemma term_inv_reinit: "term_inv B R C s \<Longrightarrow> term_inv B R C (flanterm_context_reinit s)"
  by (auto simp: flanterm_context_reinit_def term_inv_def)

lemma term_inv_cleanup [simp]: "term_inv B R C (csi_cleanup s) = term_inv B R C s"
  by (simp add: csi_cleanup_def)

lemma unat_ucast_32: "unat (ucast (v :: u32) :: u64) = unat v"
proof -
  have "unat v < 2 ^ LENGTH(32)" by (rule unsigned_less)
  then show ?thesis by (simp add: unsigned_ucast_eq take_bit_nat_eq_self_iff)
qed

lemma less_minus_1: "x < n \<Longrightarrow> x \<le> n - 1" for n :: u64
proof -
  assume "x < n"
  then have "n \<noteq> 0" "unat x < unat n" by (auto simp: word_less_nat_alt)
  then show ?thesis by (simp add: word_le_nat_alt unat_minus_one)
qed

lemma colour_offset:
  fixes v :: u32
  assumes "lo \<le> v" "v \<le> lo + 7" "unat lo + 7 < 2 ^ 32"
  shows "(ucast (v - lo) :: u64) < 8"
proof -
  have "unat (v - lo) = unat v - unat lo" using assms(1) by (rule unat_sub)
  moreover have "unat (lo + 7) = unat lo + 7"
    using assms(3) by (simp add: unat_word_ariths)
  ultimately have "unat (v - lo) < 8" using assms(2) by (simp add: word_le_nat_alt)
  then show ?thesis by (simp add: word_less_nat_alt unat_ucast_32)
qed

section \<open>The contract of a backend\<close>

locale terminal_backend =
  fixes b :: "'a flanterm_context_scheme backend" and B :: "'a \<Rightarrow> bool" and R C :: u64
  assumes raw_putchar_ok: "term_inv B R C s \<Longrightarrow> returns (raw_putchar b c s) (term_inv B R C)"
    and clear_ok: "term_inv B R C s \<Longrightarrow> returns (clear_screen b m s) (term_inv B R C)"
    and set_cursor_pos_ok: "term_inv B R C s \<Longrightarrow> returns (set_cursor_pos b x y s) (term_inv B R C)"
    and get_cursor_pos_ok: "term_inv B R C s \<Longrightarrow> fst (get_cursor_pos b s) < C \<and> snd (get_cursor_pos b s) < R"
    and set_text_fg_ok: "term_inv B R C s \<Longrightarrow> v < 8 \<Longrightarrow> returns (set_text_fg b v s) (term_inv B R C)"
    and set_text_bg_ok: "term_inv B R C s \<Longrightarrow> v < 8 \<Longrightarrow> returns (set_text_bg b v s) (term_inv B R C)"
    and set_text_fg_bright_ok: "term_inv B R C s \<Longrightarrow> v < 8 \<Longrightarrow> returns (set_text_fg_bright b v s) (term_inv B R C)"
    and set_text_bg_bright_ok: "term_inv B R C s \<Longrightarrow> v < 8 \<Longrightarrow> returns (set_text_bg_bright b v s) (term_inv B R C)"
    and set_text_fg_rgb_ok: "term_inv B R C s \<Longrightarrow> returns (set_text_fg_rgb b w s) (term_inv B R C)"
    and set_text_bg_rgb_ok: "term_inv B R C s \<Longrightarrow> returns (set_text_bg_rgb b w s) (term_inv B R C)"
    and set_text_fg_default_ok: "term_inv B R C s \<Longrightarrow> returns (set_text_fg_default b s) (term_inv B R C)"
    and set_text_bg_default_ok: "term_inv B R C s \<Longrightarrow> returns (set_text_bg_default b s) (term_inv B R C)"
    and set_text_fg_default_bright_ok: "term_inv B R C s \<Longrightarrow> returns (set_text_fg_default_bright b s) (term_inv B R C)"
    and set_text_bg_default_bright_ok: "term_inv B R C s \<Longrightarrow> returns (set_text_bg_default_bright b s) (term_inv B R C)"
    and move_character_ok: "term_inv B R C s \<Longrightarrow> returns (move_character b nx ny ox oy s) (term_inv B R C)"
    and scroll_ok: "term_inv B R C s \<Longrightarrow> returns (scroll_up b s) (term_inv B R C)"
    and revscroll_ok: "term_inv B R C s \<Longrightarrow> returns (revscroll b s) (term_inv B R C)"
    and swap_palette_ok: "term_inv B R C s \<Longrightarrow> returns (swap_palette b s) (term_inv B R C)"
    and save_state_op_ok: "term_inv B R C s \<Longrightarrow> returns (save_state_op b s) (term_inv B R C)"
    and restore_state_op_ok: "term_inv B R C s \<Longrightarrow> returns (restore_state_op b s) (term_inv B R C)"
    and flush_ok: "term_inv B R C s \<Longrightarrow> returns (double_buffer_flush b s) (term_inv B R C)"
    and callback_ok: "callback b = Some f \<Longrightarrow> term_inv B R C s \<Longrightarrow> returns (f k p q r s) (term_inv B R C)"
begin

abbreviation inv :: "'a flanterm_context_scheme \<Rightarrow> bool" where
  "inv \<equiv> term_inv B R C"

lemmas op_ok = raw_putchar_ok clear_ok set_cursor_pos_ok set_text_fg_ok set_text_bg_ok set_text_fg_bright_ok
  set_text_bg_bright_ok set_text_fg_rgb_ok set_text_bg_rgb_ok set_text_fg_default_ok set_text_bg_default_ok
  set_text_fg_default_bright_ok set_text_bg_default_bright_ok move_character_ok scroll_ok revscroll_ok
  swap_palette_ok save_state_op_ok restore_state_op_ok flush_ok

lemma notify_ok: "inv s \<Longrightarrow> returns (notify b k p q r s) inv"
  by (auto simp: notify_def split: option.split intro: callback_ok)

lemma put_spaces_ok: "inv s \<Longrightarrow> returns (put_spaces b n s) inv"
  unfolding put_spaces_def by (rule returns_for_each) (auto intro: op_ok)

lemma primary_colour:
  assumes "inv s"
  shows "current_primary s \<noteq> - 1 \<Longrightarrow> current_primary s < 8" "current_bg s \<noteq> - 1 \<Longrightarrow> current_bg s < 8"
  using term_inv_facts(12,13) [OF assms] by (auto simp: colour_ok_def)

lemma sgr_reset_ok: "inv s \<Longrightarrow> returns (sgr_reset b s) inv"
  unfolding sgr_reset_def by (intro returns_bind [where P = inv]) (auto intro!: op_ok term_inv_upd)

lemma sgr_bold_ok:
  "inv s \<Longrightarrow> returns (sgr_bold b s) inv" "inv s \<Longrightarrow> returns (sgr_bg_bold b s) inv"
  "inv s \<Longrightarrow> returns (sgr_not_bold b s) inv" "inv s \<Longrightarrow> returns (sgr_not_bg_bold b s) inv"
  by (auto simp: sgr_bold_def sgr_bg_bold_def sgr_not_bold_def sgr_not_bg_bold_def Let_def intro!: op_ok primary_colour)

lemma sgr_default_ok: "inv s \<Longrightarrow> returns (sgr_default_fg b s) inv" "inv s \<Longrightarrow> returns (sgr_default_bg b s) inv"
  unfolding sgr_default_fg_def sgr_default_bg_def
  by (intro returns_bind [where P = inv]; auto intro!: op_ok term_inv_upd)+

lemma sgr_set_ok:
  "inv s \<Longrightarrow> (ucast v :: u64) < 8 \<Longrightarrow> returns (sgr_set_fg b v s) inv"
  "inv s \<Longrightarrow> (ucast v :: u64) < 8 \<Longrightarrow> returns (sgr_set_bg b v s) inv"
  by (auto simp: sgr_set_fg_def sgr_set_bg_def intro!: op_ok)

lemma sgr_256_ok: "inv s \<Longrightarrow> returns (sgr_256 b fg v s) inv"
  by (auto simp: sgr_256_def Let_def word_less_nat_alt word_le_nat_alt unat_ucast_32 unat_sub_if_size intro!: op_ok)

lemma sgr_one_ok: "inv s \<Longrightarrow> returns (sgr_one b v s) inv"
  using colour_offset [of 30 v] colour_offset [of 40 v] colour_offset [of 90 v] colour_offset [of 100 v]
  by (auto simp: sgr_one_def Let_def intro!: sgr_reset_ok sgr_bold_ok sgr_default_ok sgr_set_ok op_ok term_inv_upd)

lemma sgr_loop_ok: "inv s \<Longrightarrow> returns (sgr_loop b vs s) inv"
proof (induction vs arbitrary: s rule: length_induct)
  case (1 vs)
  then have IH: "returns (sgr_loop b ys s') inv" if "length ys < length vs" "inv s'" for ys s' using that by blast
  have step: "returns (rbind m (sgr_loop b ys)) inv" if "length ys < length vs" "returns m inv" for m ys
    using that by (intro returns_bind [where P = inv] IH)
  show ?case
  proof (cases vs)
    case (Cons v vs1)
    show ?thesis
    proof (cases "v = 38 \<or> v = 48")
      case True
      note ext = this
      show ?thesis
      proof (cases vs1)
        case (Cons kind vs2)
        consider "kind = 2" | "kind = 5" | "kind \<noteq> 2" "kind \<noteq> 5" by blast
        then show ?thesis
        proof cases
          case 1
          then show ?thesis using \<open>vs = v # vs1\<close> Cons ext \<open>inv s\<close>
            by (auto split: list.split intro!: step op_ok)
        next
          case 2
          then show ?thesis using \<open>vs = v # vs1\<close> Cons ext \<open>inv s\<close>
            by (auto split: list.split intro!: step sgr_256_ok)
        next
          case 3
          then show ?thesis using \<open>vs = v # vs1\<close> Cons ext \<open>inv s\<close> by (auto intro: IH)
        qed
      qed (use \<open>vs = v # vs1\<close> ext \<open>inv s\<close> in auto)
    next
      case False
      then show ?thesis using Cons \<open>inv s\<close> by (auto intro!: step sgr_one_ok)
    qed
  qed (use \<open>inv s\<close> in auto)
qed

lemma sgr_ok: "inv s \<Longrightarrow> returns (sgr b s) inv"
  using term_inv_facts(9,10) [of B R C s]
  by (auto simp: sgr_def FLANTERM_MAX_ESC_VALUES_def word_le_nat_alt intro!: sgr_reset_ok sgr_loop_ok)

lemma modes_ok:
  "inv s \<Longrightarrow> returns (dec_private_parse b c s) inv"
  "inv s \<Longrightarrow> returns (linux_private_parse b s) inv"
  "inv s \<Longrightarrow> returns (mode_toggle b c s) inv"
  by (auto simp: dec_private_parse_def linux_private_parse_def mode_toggle_def Let_def intro!: notify_ok)

lemma osc_parse_ok: "inv s \<Longrightarrow> inv (snd (osc_parse c s))"
  by (simp add: osc_parse_def)

lemma down_to_ok:
  assumes "inv s" "to \<le> i" "\<And>i s. inv s \<Longrightarrow> returns (f i s) inv"
  shows "returns (down_to f i to s) inv"
  using assms(1,2)
proof (induction "unat (i - to)" arbitrary: i s)
  case 0
  then have "i = to" by (simp add: unat_eq_0)
  then show ?case using 0 assms(3) by (subst down_to.simps) (auto intro!: returns_bind [where P = inv])
next
  case (Suc k)
  then have ne: "i \<noteq> to" by auto
  then have lt: "unat to < unat i" using Suc.prems(2) by (simp add: word_le_nat_alt word_unat_eq_iff le_less)
  then have "unat (i - 1) = unat i - 1" by (intro unat_minus_one) auto
  with lt have le: "to \<le> i - 1" by (simp add: word_le_nat_alt)
  have "unat (i - 1 - to) = k"
    using Suc.hyps(2) lt \<open>unat (i - 1) = unat i - 1\<close> le Suc.prems(2) by (simp add: unat_sub)
  then show ?case
    using Suc.hyps(1) [of "i - 1"] le Suc.prems ne assms(3)
    by (subst down_to.simps) (auto intro!: returns_bind [where P = inv])
qed

lemma csi_move_ok:
  assumes "inv s"
  shows "returns (csi_up b x y s) inv" "returns (csi_down b x y s) inv" "returns (csi_right b x y s) inv"
    "returns (csi_left b x y s) inv" "returns (csi_row b x y s) inv" "returns (csi_column b x y s) inv"
    "returns (csi_position b s) inv"
  using assms
  by (auto simp: csi_up_def csi_down_def csi_right_def csi_left_def csi_row_def csi_column_def csi_position_def
      Let_def intro!: op_ok)

lemma csi_lines_ok:
  assumes "inv s" "y < R"
  shows "returns (csi_delete_lines b s) inv" "returns (csi_insert_lines b y s) inv"
  unfolding csi_delete_lines_def csi_insert_lines_def Let_def
  using assms term_inv_facts(16) [OF assms(1)]
  by (auto intro!: returns_for_each returns_bind [where P = inv] op_ok term_inv_upd)

lemma csi_report_ok: "inv s \<Longrightarrow> returns (csi_report b x y s) inv"
  by (auto simp: csi_report_def intro!: notify_ok)

lemma erase_up_to_ok: "inv s \<Longrightarrow> returns (erase_up_to b x y ps s) inv"
proof (induction ps arbitrary: s)
  case (Cons p ps)
  then show ?case by (cases p) (auto intro!: returns_bind [where P = inv] op_ok)
qed simp

lemma csi_erase_display_ok: "inv s \<Longrightarrow> returns (csi_erase_display b x y s) inv"
  by (auto simp: csi_erase_display_def Let_def intro!: returns_bind [where P = inv] put_spaces_ok erase_up_to_ok op_ok)

lemma csi_chars_ok:
  assumes "inv s" "x < C"
  shows "returns (csi_insert_chars b x y s) inv" "returns (csi_delete_chars b x y s) inv"
    "returns (csi_erase_chars b x y s) inv"
proof -
  have le: "x \<le> C - 1" using assms(2) by (rule less_minus_1)
  have [simp]: "cols s = C" by (rule term_inv_facts(2) [OF assms(1)])
  have erase: "returns (csi_erase_chars b x y s) inv" if h: "inv s" for s
    unfolding csi_erase_chars_def using h by (intro returns_bind [where P = inv] put_spaces_ok op_ok)
  show "returns (csi_insert_chars b x y s) inv"
    unfolding csi_insert_chars_def using assms le
    by (auto intro!: returns_bind [where P = inv] down_to_ok op_ok)
  show "returns (csi_delete_chars b x y s) inv"
    unfolding csi_delete_chars_def using assms
    by (auto intro!: returns_bind [where P = inv] returns_for_each op_ok erase)
  show "returns (csi_erase_chars b x y s) inv" by (rule erase [OF assms(1)])
qed

lemma csi_erase_line_ok: "inv s \<Longrightarrow> returns (csi_erase_line b x y s) inv"
  by (auto simp: csi_erase_line_def intro!: returns_bind [where P = inv] returns_for_each put_spaces_ok op_ok)

lemma csi_margins_ok:
  assumes "inv s"
  shows "returns (csi_margins b s) inv"
proof -
  define s1 where "s1 = margin_defaults s"
  have i1: "inv s1" using assms by (simp add: s1_def margin_defaults_def Let_def)
  have len: "length (esc_values s) = 16" using term_inv_facts(9) [OF assms] by (simp add: FLANTERM_MAX_ESC_VALUES_def)
  then have ne: "esc 1 s1 \<noteq> 0" by (auto simp: s1_def margin_defaults_def Let_def set_esc_def)
  have rc: "rows s1 = R" "0 < R" using term_inv_facts(1,3) [OF i1] by simp_all
  have u: "0 < (ucast (esc 1 s1) :: u64)" using ne by (metis unat_ucast_32 unat_eq_0 word_neq_0_conv)
  have "returns (set_cursor_pos b 0 0 (s1\<lparr>scroll_top_margin := tp, scroll_bottom_margin := bt\<rparr>)) inv"
    "returns (set_cursor_pos b 0 0 (s1\<lparr>scroll_bottom_margin := bt, scroll_top_margin := tp\<rparr>)) inv"
    if "tp < R" "0 < bt" "bt \<le> R" for tp bt
    using i1 that by (auto intro!: op_ok term_inv_upd)
  then show ?thesis
    using rc u by (auto simp: csi_margins_def Let_def not_le not_less simp flip: s1_def)
qed

lemma csi_dispatch_ok:
  assumes "inv s" "x < C" "y < R" "csi_dispatch b c x y s = Some m"
  shows "returns m inv"
  using assms
  by (auto simp: csi_dispatch_def Let_def split: if_splits prod.splits
      intro!: csi_move_ok notify_ok csi_lines_ok csi_report_ok csi_erase_display_ok csi_chars_ok sgr_ok op_ok
        csi_erase_line_ok csi_margins_ok modes_ok)

lemma csi_final_ok:
  assumes "inv s"
  shows "returns (csi_final b c s) inv"
proof -
  define s1 where "s1 = s\<lparr>esc_values := take (unat (esc_values_i s)) (esc_values s) @
    replicate (FLANTERM_MAX_ESC_VALUES - unat (esc_values_i s)) (if c = 0x4A \<or> c = 0x4B \<or> c = 0x71 then 0 else 1)\<rparr>"
  have "unat (esc_values_i s) \<le> 16" using term_inv_facts(10) [OF assms] by (simp add: word_le_nat_alt)
  then have i1: "inv s1"
    using assms term_inv_facts(9) [OF assms] by (auto simp: s1_def FLANTERM_MAX_ESC_VALUES_def intro!: term_inv_upd)
  define s2 where "s2 = s1\<lparr>scroll_enabled := False\<rparr>"
  have i2: "inv s2" using i1 by (simp add: s2_def)
  obtain x y where xy: "get_cursor_pos b s2 = (x, y)" by fastforce
  have bounds: "x < C" "y < R" using get_cursor_pos_ok [OF i2] xy by simp_all
  have disp: "returns (rbind m (\<lambda>s. ret (csi_cleanup (s\<lparr>scroll_enabled := r\<rparr>)))) inv"
    if "csi_dispatch b c x y s2 = Some m" for m r
    using csi_dispatch_ok [OF i2 bounds that] by (rule returns_bind) simp
  have "csi_final b c s = (if dec_private s1 then rbind (dec_private_parse b c s1) (\<lambda>s. ret (csi_cleanup s)) else
      if csi_unhandled s2 then
        (if c \<ge> 0x40 \<and> c \<le> 0x7E then ret (csi_cleanup (s2\<lparr>csi_unhandled := False\<rparr>)) else ret s2)
      else if c = 0x1B then ret s2
      else case csi_dispatch b c x y s2 of
             None \<Rightarrow> ret (s2\<lparr>csi_unhandled := True\<rparr>)
           | Some m \<Rightarrow> rbind m (\<lambda>s. ret (csi_cleanup (s\<lparr>scroll_enabled := scroll_enabled s1\<rparr>))))"
    unfolding csi_final_def Let_def s1_def [symmetric] s2_def [symmetric] xy by simp
  then show ?thesis
    using i1 i2 disp by (auto split: option.split intro!: returns_bind [where P = inv] modes_ok)
qed

lemma control_sequence_parse_ok:
  assumes "inv s"
  shows "returns (control_sequence_parse b c s) inv"
proof -
  note f = term_inv_facts(9-11) [OF assms]
  have inc: "inv (s\<lparr>esc_values_i := esc_values_i s + 1, rrr := False\<rparr>)" if "esc_values_i s < 16"
    using assms inc_le [OF that] by (simp add: term_inv_def)
  have push: "inv ((set_esc k v s)\<lparr>esc_values_i := esc_values_i s + 1\<rparr>)" if "\<not> rrr s" "esc_values_i s \<noteq> 16" for k v
  proof -
    have "esc_values_i s < 16" using f(2) that(2) by simp
    then show ?thesis using assms that(1) inc_le [of "esc_values_i s" 16] by (simp add: term_inv_def set_esc_def)
  qed
  have digit: "inv (set_esc k v (s\<lparr>rrr := True\<rparr>))" if "esc_values_i s \<noteq> 16" for k v
    using assms f(2) that by (auto simp: term_inv_def set_esc_def)
  have n16: "unat (esc_values_i s) = FLANTERM_MAX_ESC_VALUES \<longleftrightarrow> esc_values_i s = 16"
    by (simp add: FLANTERM_MAX_ESC_VALUES_def word_unat_eq_iff)
  have in_bounds: "\<not> length (esc_values s) \<le> unat (esc_values_i s)" if "esc_values_i s \<noteq> 16"
    using f(1,2) that n16 by (simp add: word_le_nat_alt FLANTERM_MAX_ESC_VALUES_def)
  show ?thesis
    using assms f(3) inc push digit n16 in_bounds
    by (auto simp: control_sequence_parse_def Let_def intro!: csi_final_ok)
qed

lemma state_ok:
  assumes "inv s"
  shows "returns (save_state b s) inv" "returns (restore_state b s) inv"
proof -
  show "returns (save_state b s) inv"
    unfolding save_state_def using save_state_op_ok [OF assms]
    by (rule returns_bind) (auto intro!: term_inv_upd dest: term_inv_facts)
  show "returns (restore_state b s) inv"
    unfolding restore_state_def using assms term_inv_facts(5-15) [OF assms] by (auto intro!: op_ok term_inv_upd)
qed

lemma escape_dispatch_ok:
  assumes "inv s"
  shows "returns (escape_dispatch b c x y s) inv"
  using assms
  by (auto simp: escape_dispatch_def word_le_nat_alt intro!: state_ok term_inv_reinit notify_ok op_ok
      returns_bind [where P = inv] term_inv_upd)

lemma escape_parse_ok:
  assumes "inv s"
  shows "returns (escape_parse b c s) inv"
proof -
  define s1 where "s1 = s\<lparr>escape_offset := escape_offset s + 1\<rparr>"
  define p where "p = (if osc s1 then osc_parse c s1 else (False, s1))"
  have i1: "inv (snd p)" using assms osc_parse_ok [of s1 c] by (simp add: p_def s1_def)
  have csi: "inv ((snd p)\<lparr>esc_values := replicate FLANTERM_MAX_ESC_VALUES 0, esc_values_i := 0, rrr := False,
               csi_unhandled := False, control_sequence := True\<rparr>)"
    using i1 by (simp add: term_inv_def)
  have "escape_parse b c s = (if fst p then ret (snd p)
      else if control_sequence (snd p) then control_sequence_parse b c (snd p)
      else if c = 0x5D then ret ((snd p)\<lparr>osc_escape := False, osc := True\<rparr>)
      else if c = 0x5B then
        ret ((snd p)\<lparr>esc_values := replicate FLANTERM_MAX_ESC_VALUES 0, esc_values_i := 0, rrr := False,
               csi_unhandled := False, control_sequence := True\<rparr>)
      else rbind (escape_dispatch b c (fst (get_cursor_pos b (snd p))) (snd (get_cursor_pos b (snd p))) (snd p))
             (\<lambda>s. ret (s\<lparr>escape := False\<rparr>)))"
    unfolding escape_parse_def Let_def s1_def [symmetric] p_def [symmetric] by (simp add: case_prod_unfold)
  then show ?thesis
    using i1 csi by (auto intro!: control_sequence_parse_ok returns_bind [where P = inv] escape_dispatch_ok)
qed

lemma put_code_point_ok: "inv s \<Longrightarrow> returns (put_code_point b s) inv"
  by (auto simp: put_code_point_def Let_def intro!: returns_bind [where P = inv] returns_for_each op_ok)

lemma start_code_point_ok: "inv s \<Longrightarrow> inv (start_code_point c s)"
  by (simp add: start_code_point_def)

lemma select_charset_ok:
  assumes "inv s" "g_select s \<noteq> 0"
  shows "returns (select_charset c s) inv"
proof -
  have "unat (g_select s) \<le> 2" using term_inv_facts(8) [OF assms(1)] by (simp add: word_le_nat_alt)
  then have "unat (g_select s - 1) < 2" using assms(2) by (simp add: unat_minus_one unat_gt_0)
  then show ?thesis
    using assms(1) term_inv_facts(5) [OF assms(1)] by (auto simp: select_charset_def Let_def intro!: term_inv_upd)
qed

lemma control_char_ok:
  assumes "inv s" "control_char b c x y s = Some m"
  shows "returns m inv"
  using assms
  by (auto simp: control_char_def Let_def split: if_splits intro!: returns_bind [where P = inv] op_ok notify_ok term_inv_upd)

lemma dec_special_print_ok: "inv s \<Longrightarrow> returns (dec_special_print b c s) (\<lambda>p. inv (snd p))"
  by (auto simp: dec_special_print_def split: option.split intro!: returns_bind [where P = inv] op_ok)

lemma put_glyph_ok:
  assumes "inv s" "x < C"
  shows "returns (put_glyph b c x y s) inv"
proof -
  have le: "x \<le> cols s - 1" using less_minus_1 [OF assms(2)] term_inv_facts(2) [OF assms(1)] by simp
  have ins: "returns (if insert_mode s then down_to (\<lambda>i. move_character b (i + 1) y i y) (cols s - 1) x s else ret s) inv"
    using assms(1) le by (auto intro!: down_to_ok op_ok)
  have charset: "\<not> length (charsets s) \<le> unat (current_charset s)" if h: "inv s" for s
    using term_inv_facts(5,6) [OF h] by (simp add: word_less_nat_alt)
  show ?thesis
    unfolding put_glyph_def
    by (intro returns_bind [OF ins]) (auto simp: charset intro!: returns_bind [where P = "\<lambda>p. inv (snd p)"] dec_special_print_ok op_ok)
qed

lemma putchar_byte_ok:
  assumes "inv s"
  shows "returns (putchar_byte b c s) inv"
proof -
  obtain x y where xy: "get_cursor_pos b s = (x, y)" by fastforce
  have "x < C" using get_cursor_pos_ok [OF assms] xy by simp
  then show ?thesis
    using assms control_char_ok [OF assms]
    by (auto simp: putchar_byte_def xy start_code_point_ok split: option.split
        intro!: escape_parse_ok select_charset_ok put_glyph_ok)
qed

lemma flanterm_putchar_ok: "inv s \<Longrightarrow> returns (flanterm_putchar b c s) inv"
  by (auto simp: flanterm_putchar_def Let_def intro!: putchar_byte_ok put_code_point_ok term_inv_upd)

lemma flanterm_write_ok: "inv s \<Longrightarrow> returns (flanterm_write b buf s) inv"
  unfolding flanterm_write_def
  by (rule returns_bind [where P = inv]) (auto intro!: returns_for_each flanterm_putchar_ok op_ok)

end

section \<open>Character widths\<close>

text \<open>A table is sorted when its intervals are well formed, ascending and apart.\<close>

definition intervals_sorted :: "interval list \<Rightarrow> bool" where
  "intervals_sorted t \<longleftrightarrow> (\<forall>i < length t. first (t ! i) \<le> last_ucs (t ! i)) \<and>
     (\<forall>i j. i < j \<and> j < length t \<longrightarrow> last_ucs (t ! i) < first (t ! j))"

definition in_table :: "u32 \<Rightarrow> interval list \<Rightarrow> bool" where
  "in_table ucs t \<longleftrightarrow> (\<exists>r\<in>set t. first r \<le> ucs \<and> ucs \<le> last_ucs r)"

lemma intervals_sorted_mono:
  assumes "intervals_sorted t" "i \<le> j" "j < length t"
  shows "last_ucs (t ! i) \<le> last_ucs (t ! j)" "first (t ! i) \<le> first (t ! j)"
proof -
  have wf: "first (t ! k) \<le> last_ucs (t ! k)" if "k < length t" for k
    using assms(1) that by (auto simp: intervals_sorted_def)
  have apart: "last_ucs (t ! i) < first (t ! j)" if "i < j"
    using assms(1,3) that by (auto simp: intervals_sorted_def)
  show "last_ucs (t ! i) \<le> last_ucs (t ! j)" "first (t ! i) \<le> first (t ! j)"
    using apart wf [of i] wf [of j] assms(2,3) by (cases "i = j"; force)+
qed

definition hit :: "u32 \<Rightarrow> interval list \<Rightarrow> nat \<Rightarrow> bool" where
  "hit ucs t i \<longleftrightarrow> first (t ! i) \<le> ucs \<and> ucs \<le> last_ucs (t ! i)"

lemma bisearch_loop_iff:
  assumes sorted: "intervals_sorted t"
  shows "0 \<le> mn \<Longrightarrow> mx < int (length t) \<Longrightarrow>
    bisearch_loop ucs t mn mx = of_bool (\<exists>i. mn \<le> int i \<and> int i \<le> mx \<and> hit ucs t i)"
proof (induction "nat (mx - mn + 1)" arbitrary: mn mx rule: less_induct)
  case less
  show ?case
  proof (cases "mn \<le> mx")
    case True
    define mid where "mid = (mn + mx) div 2"
    have mid: "mn \<le> mid" "mid \<le> mx" "0 \<le> mid" using True less.prems by (auto simp: mid_def)
    note mono = intervals_sorted_mono [OF sorted]
    have unfold: "bisearch_loop ucs t mn mx =
      (if ucs > last_ucs (t ! nat mid) then bisearch_loop ucs t (mid + 1) mx
       else if ucs < first (t ! nat mid) then bisearch_loop ucs t mn (mid - 1) else 1)"
      using True by (subst bisearch_loop.simps) (simp add: Let_def mid_def)
    consider "ucs > last_ucs (t ! nat mid)" | "\<not> ucs > last_ucs (t ! nat mid)" "ucs < first (t ! nat mid)"
      | "hit ucs t (nat mid)" by (meson hit_def not_less)
    then show ?thesis
    proof cases
      case 1
      have "mid + 1 \<le> int i" if "mn \<le> int i" "int i \<le> mx" "hit ucs t i" for i
      proof (rule ccontr)
        assume "\<not> mid + 1 \<le> int i"
        then have "last_ucs (t ! i) \<le> last_ucs (t ! nat mid)" using mid less.prems by (intro mono) auto
        then show False using 1 that(3) by (auto simp: hit_def)
      qed
      then have "(\<exists>i. mn \<le> int i \<and> int i \<le> mx \<and> hit ucs t i) \<longleftrightarrow> (\<exists>i. mid + 1 \<le> int i \<and> int i \<le> mx \<and> hit ucs t i)"
        using mid by force
      then show ?thesis using unfold 1 less.hyps [of mx "mid + 1"] less.prems mid by simp
    next
      case 2
      have "int i \<le> mid - 1" if "mn \<le> int i" "int i \<le> mx" "hit ucs t i" for i
      proof (rule ccontr)
        assume "\<not> int i \<le> mid - 1"
        then have "first (t ! nat mid) \<le> first (t ! i)" using mid less.prems that by (intro mono) auto
        then show False using 2 that(3) by (auto simp: hit_def)
      qed
      then have "(\<exists>i. mn \<le> int i \<and> int i \<le> mx \<and> hit ucs t i) \<longleftrightarrow> (\<exists>i. mn \<le> int i \<and> int i \<le> mid - 1 \<and> hit ucs t i)"
        using mid by force
      then show ?thesis using unfold 2 less.hyps [of "mid - 1" mn] less.prems mid by simp
    next
      case 3
      then have "\<exists>i. mn \<le> int i \<and> int i \<le> mx \<and> hit ucs t i" using mid by (intro exI [of _ "nat mid"]) auto
      moreover have "bisearch_loop ucs t mn mx = 1" using unfold 3 by (auto simp: hit_def)
      ultimately show ?thesis by simp
    qed
  next
    case False
    then show ?thesis by (subst bisearch_loop.simps) auto
  qed
qed

lemma bisearch_iff:
  assumes "intervals_sorted t" "t \<noteq> []"
  shows "bisearch ucs t (int (length t) - 1) = of_bool (in_table ucs t)"
proof -
  have tab: "in_table ucs t \<longleftrightarrow> (\<exists>i. 0 \<le> int i \<and> int i \<le> int (length t) - 1 \<and> hit ucs t i)"
    by (auto simp: in_table_def hit_def set_conv_nth)
  note mono = intervals_sorted_mono [OF assms(1)]
  have last: "nat (int (length t) - 1) = length t - 1" using assms(2) by simp
  have "\<not> in_table ucs t" if "ucs < first (t ! 0) \<or> ucs > last_ucs (t ! (length t - 1))"
  proof
    assume "in_table ucs t"
    then obtain i where i: "i < length t" "hit ucs t i" by (auto simp: in_table_def hit_def in_set_conv_nth)
    have "first (t ! 0) \<le> first (t ! i)" "last_ucs (t ! i) \<le> last_ucs (t ! (length t - 1))"
      using i(1) by (intro mono; simp)+
    then show False using that i(2) by (auto simp: hit_def)
  qed
  then show ?thesis
    using bisearch_loop_iff [OF assms(1), of 0 "int (length t) - 1" ucs] tab last
    by (auto simp: bisearch_def)
qed

text \<open>The successive intervals of the table, in decidable form.\<close>

fun ascending :: "u32 \<Rightarrow> interval list \<Rightarrow> bool" where
  "ascending lo [] = True"
| "ascending lo (r # t) = (lo < first r \<and> first r \<le> last_ucs r \<and> ascending (last_ucs r) t)"

lemma ascending_bound: "ascending lo t \<Longrightarrow> i < length t \<Longrightarrow> lo < first (t ! i) \<and> first (t ! i) \<le> last_ucs (t ! i)"
proof (induction t arbitrary: lo i)
  case (Cons r t)
  then show ?case by (cases i) force+
qed simp

lemma ascending_sorted: "ascending lo t \<Longrightarrow> intervals_sorted t"
proof (induction t arbitrary: lo)
  case (Cons r t)
  then have tl: "intervals_sorted t" and as: "ascending (last_ucs r) t" by auto
  show ?case
    unfolding intervals_sorted_def
  proof (intro conjI allI impI)
    fix i assume "i < length (r # t)"
    then show "first ((r # t) ! i) \<le> last_ucs ((r # t) ! i)" using ascending_bound [OF Cons.prems] by blast
  next
    fix i j assume ij: "i < j \<and> j < length (r # t)"
    then obtain j' where j': "j = Suc j'" "j' < length t" by (cases j) auto
    show "last_ucs ((r # t) ! i) < first ((r # t) ! j)"
    proof (cases i)
      case 0
      then show ?thesis using ascending_bound [OF as j'(2)] j' by simp
    next
      case (Suc i')
      then show ?thesis using tl ij j' by (auto simp: intervals_sorted_def)
    qed
  qed
qed (simp add: intervals_sorted_def)

lemma combining_sorted: "intervals_sorted combining"
  by (rule ascending_sorted [of 0]) (simp add: combining_def)

text \<open>
  C30. The binary search of \<open>mk_wcwidth\<close> is a table lookup: a code point has width 0 exactly when it is
  0 or lies in one of the intervals of the table of combining characters (and is no control
  character), and width 2 exactly when it is one of the wide characters.
\<close>

theorem mk_wcwidth_correct:
  "mk_wcwidth ucs = (if ucs = 0 then 0 else if ucs < 32 \<or> (0x7f \<le> ucs \<and> ucs < 0xa0) then 1
     else if in_table ucs combining then 0 else if wide_ucs ucs then 2 else 1)"
proof -
  have "bisearch ucs combining (int (length combining) - 1) = of_bool (in_table ucs combining)"
    by (rule bisearch_iff [OF combining_sorted]) (simp add: combining_def)
  then show ?thesis by (simp add: mk_wcwidth_def)
qed

end
