(* ===== verification/Flanterm_Fb.thy ===== *)
theory Flanterm_Fb
  imports Flanterm_Safe Flanterm_Font
begin

text \<open>
  The framebuffer backend of the terminal, \<open>flanterm_backends/fb.c\<close>: a grid of characters, a queue of the
  cells that have changed with a map from cells to their queue entry, and the routines that plot glyphs
  into video memory. A pointer into the queue is the index of the entry. Video memory is the field \<open>vram\<close>,
  indexed by address; arrays carry the sizes they were allocated with, and an access beyond them is a
  fault. Calls of a flush callback are recorded in \<open>flush_calls\<close>.
\<close>

section \<open>Definitions\<close>

record flanterm_fb_char =
  fc_c :: u32
  fc_fg :: u32
  fc_bg :: u32

record flanterm_fb_queue_item =
  qi_x :: u64
  qi_y :: u64
  qi_c :: flanterm_fb_char

datatype plot_fn = PLOT_SCALED_CANVAS | PLOT_SCALED_UNCANVAS | PLOT_UNSCALED_CANVAS | PLOT_UNSCALED_UNCANVAS

record flanterm_fb_context = flanterm_context +
  plot_char_fn :: plot_fn
  flush_callback :: bool
  flush_calls :: "(addr \<times> u64) list"
  font_width :: u64
  font_height :: u64
  glyph_width :: u64
  glyph_height :: u64
  font_scale_x :: u64
  font_scale_y :: u64
  offset_x :: u64
  offset_y :: u64
  framebuffer :: addr
  pitch :: u64
  width :: u64
  height :: u64
  red_mask_size :: u8
  red_mask_shift :: u8
  green_mask_size :: u8
  green_mask_shift :: u8
  blue_mask_size :: u8
  blue_mask_shift :: u8
  rotation :: int
  font_bool_size :: u64
  font_bool :: "nat \<Rightarrow> bool"
  ansi_colours :: "u32 list"
  ansi_bright_colours :: "u32 list"
  default_fg :: u32
  default_bg :: u32
  default_fg_bright :: u32
  default_bg_bright :: u32
  canvas_size :: u64
  canvas :: "(nat \<Rightarrow> u32) option"
  grid_size :: u64
  queue_size :: u64
  map_size :: u64
  grid :: "nat \<Rightarrow> flanterm_fb_char"
  queue :: "nat \<Rightarrow> flanterm_fb_queue_item"
  queue_i :: u64
  qmap :: "nat \<Rightarrow> nat option"
  text_fg :: u32
  text_bg :: u32
  cursor_x :: u64
  cursor_y :: u64
  saved_state_text_fg :: u32
  saved_state_text_bg :: u32
  saved_state_cursor_x :: u64
  saved_state_cursor_y :: u64
  old_cursor_x :: u64
  old_cursor_y :: u64
  vram :: "addr \<Rightarrow> u32"

subsection \<open>Arrays\<close>

text \<open>The sizes in bytes of an element of \<open>grid\<close>, \<open>queue\<close> and \<open>map\<close>.\<close>

definition grid_get :: "nat \<Rightarrow> 'a flanterm_fb_context_scheme \<Rightarrow> flanterm_fb_char result" where
  "grid_get i s = (if 12 * Suc i \<le> unat (grid_size s) then ret (grid s i) else fails (Bad_Access ''grid''))"

definition grid_set :: "nat \<Rightarrow> flanterm_fb_char \<Rightarrow> 'a flanterm_fb_context_scheme \<Rightarrow> 'a flanterm_fb_context_scheme result" where
  "grid_set i c s =
     (if 12 * Suc i \<le> unat (grid_size s) then ret (s\<lparr>grid := (grid s)(i := c)\<rparr>) else fails (Bad_Access ''grid''))"

definition map_get :: "nat \<Rightarrow> 'a flanterm_fb_context_scheme \<Rightarrow> nat option result" where
  "map_get i s = (if 8 * Suc i \<le> unat (map_size s) then ret (qmap s i) else fails (Bad_Access ''map''))"

definition map_clear :: "nat \<Rightarrow> 'a flanterm_fb_context_scheme \<Rightarrow> 'a flanterm_fb_context_scheme" where
  "map_clear i s = s\<lparr>qmap := (qmap s)(i := None)\<rparr>"

definition font_get :: "nat \<Rightarrow> 'a flanterm_fb_context_scheme \<Rightarrow> bool result" where
  "font_get i s = (if i < unat (font_bool_size s) then ret (font_bool s i) else fails (Bad_Access ''font_bool''))"

definition canvas_get :: "nat \<Rightarrow> 'a flanterm_fb_context_scheme \<Rightarrow> u32 result" where
  "canvas_get i s =
     (case canvas s of
        None \<Rightarrow> fails (Bad_Access ''canvas'')
      | Some cv \<Rightarrow> if 4 * Suc i \<le> unat (canvas_size s) then ret (cv i) else fails (Bad_Access ''canvas''))"

text \<open>What a cell shows: its queue entry if it has one, else the grid.\<close>

definition cell_char :: "nat \<Rightarrow> 'a flanterm_fb_context_scheme \<Rightarrow> flanterm_fb_char result" where
  "cell_char i s =
     rbind (map_get i s) (\<lambda>q.
     case q of Some k \<Rightarrow> ret (qi_c (queue s k)) | None \<Rightarrow> grid_get i s)"

subsection \<open>Colours and saved state\<close>

definition convert_colour :: "'a flanterm_fb_context_scheme \<Rightarrow> u32 \<Rightarrow> u32" where
  "convert_colour s colour =
     (let r = drop_bit 16 colour AND 0xFF;
          g = drop_bit 8 colour AND 0xFF;
          b = colour AND 0xFF
      in push_bit (unat (red_mask_shift s)) r OR push_bit (unat (green_mask_shift s)) g OR
         push_bit (unat (blue_mask_shift s)) b)"

definition flanterm_fb_save_state :: "'a flanterm_fb_context_scheme \<Rightarrow> 'a flanterm_fb_context_scheme result" where
  "flanterm_fb_save_state s =
     ret (s\<lparr>saved_state_text_fg := text_fg s, saved_state_text_bg := text_bg s,
            saved_state_cursor_x := cursor_x s, saved_state_cursor_y := cursor_y s\<rparr>)"

definition flanterm_fb_restore_state :: "'a flanterm_fb_context_scheme \<Rightarrow> 'a flanterm_fb_context_scheme result" where
  "flanterm_fb_restore_state s =
     ret (s\<lparr>text_fg := saved_state_text_fg s, text_bg := saved_state_text_bg s,
            cursor_x := saved_state_cursor_x s, cursor_y := saved_state_cursor_y s\<rparr>)"

definition flanterm_fb_swap_palette :: "'a flanterm_fb_context_scheme \<Rightarrow> 'a flanterm_fb_context_scheme result" where
  "flanterm_fb_swap_palette s =
     (let tmp = text_bg s in ret (s\<lparr>text_bg := text_fg s, text_fg := tmp\<rparr>))"

definition flanterm_fb_set_text_fg :: "u64 \<Rightarrow> 'a flanterm_fb_context_scheme \<Rightarrow> 'a flanterm_fb_context_scheme result" where
  "flanterm_fb_set_text_fg fg s =
     (if unat fg \<ge> length (ansi_colours s) then fails (Bad_Access ''ansi_colours'')
      else ret (s\<lparr>text_fg := ansi_colours s ! unat fg\<rparr>))"

definition flanterm_fb_set_text_bg :: "u64 \<Rightarrow> 'a flanterm_fb_context_scheme \<Rightarrow> 'a flanterm_fb_context_scheme result" where
  "flanterm_fb_set_text_bg bg s =
     (if unat bg \<ge> length (ansi_colours s) then fails (Bad_Access ''ansi_colours'')
      else ret (s\<lparr>text_bg := ansi_colours s ! unat bg\<rparr>))"

definition flanterm_fb_set_text_fg_bright :: "u64 \<Rightarrow> 'a flanterm_fb_context_scheme \<Rightarrow> 'a flanterm_fb_context_scheme result" where
  "flanterm_fb_set_text_fg_bright fg s =
     (if unat fg \<ge> length (ansi_bright_colours s) then fails (Bad_Access ''ansi_bright_colours'')
      else ret (s\<lparr>text_fg := ansi_bright_colours s ! unat fg\<rparr>))"

definition flanterm_fb_set_text_bg_bright :: "u64 \<Rightarrow> 'a flanterm_fb_context_scheme \<Rightarrow> 'a flanterm_fb_context_scheme result" where
  "flanterm_fb_set_text_bg_bright bg s =
     (if unat bg \<ge> length (ansi_bright_colours s) then fails (Bad_Access ''ansi_bright_colours'')
      else ret (s\<lparr>text_bg := ansi_bright_colours s ! unat bg\<rparr>))"

definition flanterm_fb_set_text_fg_rgb :: "u32 \<Rightarrow> 'a flanterm_fb_context_scheme \<Rightarrow> 'a flanterm_fb_context_scheme result" where
  "flanterm_fb_set_text_fg_rgb fg s = ret (s\<lparr>text_fg := convert_colour s fg\<rparr>)"

definition flanterm_fb_set_text_bg_rgb :: "u32 \<Rightarrow> 'a flanterm_fb_context_scheme \<Rightarrow> 'a flanterm_fb_context_scheme result" where
  "flanterm_fb_set_text_bg_rgb bg s = ret (s\<lparr>text_bg := convert_colour s bg\<rparr>)"

definition flanterm_fb_set_text_fg_default :: "'a flanterm_fb_context_scheme \<Rightarrow> 'a flanterm_fb_context_scheme result" where
  "flanterm_fb_set_text_fg_default s = ret (s\<lparr>text_fg := default_fg s\<rparr>)"

definition flanterm_fb_set_text_bg_default :: "'a flanterm_fb_context_scheme \<Rightarrow> 'a flanterm_fb_context_scheme result" where
  "flanterm_fb_set_text_bg_default s = ret (s\<lparr>text_bg := 0xFFFFFFFF\<rparr>)"

definition flanterm_fb_set_text_fg_default_bright ::
  "'a flanterm_fb_context_scheme \<Rightarrow> 'a flanterm_fb_context_scheme result" where
  "flanterm_fb_set_text_fg_default_bright s = ret (s\<lparr>text_fg := default_fg_bright s\<rparr>)"

definition flanterm_fb_set_text_bg_default_bright ::
  "'a flanterm_fb_context_scheme \<Rightarrow> 'a flanterm_fb_context_scheme result" where
  "flanterm_fb_set_text_bg_default_bright s = ret (s\<lparr>text_bg := default_bg_bright s\<rparr>)"

subsection \<open>Plotting\<close>

text \<open>An \<open>int\<close> that is added to a pointer.\<close>

definition stride :: "u64 \<Rightarrow> u64" where
  "stride n = scast (ucast n :: 32 word)"

text \<open>The start of a glyph in video memory and the steps to the next line and the next pixel.\<close>

definition plot_dest :: "'a flanterm_fb_context_scheme \<Rightarrow> u64 \<Rightarrow> u64 \<Rightarrow> addr \<times> u64 \<times> u64" where
  "plot_dest s x y =
     (let p4 = pitch s div 4 in
      if rotation s = 1 then (framebuffer s + 4 * ((height s - 1 - y) + x * p4), stride (- 1), stride p4)
      else if rotation s = 2 then
        (framebuffer s + 4 * ((width s - 1 - x) + (height s - 1 - y) * p4), stride (- p4), stride (- 1))
      else if rotation s = 3 then (framebuffer s + 4 * (y + (width s - 1 - x) * p4), stride 1, stride (- p4))
      else (framebuffer s + 4 * (x + y * p4), stride p4, stride 1))"

text \<open>
  The loops over the lines of a glyph and the pixels of a line (for a scaled font the two inner loops are
  one over \<open>gx\<close>): store the colour that \<open>pix\<close> gives for the pixel.
\<close>

definition plot_line ::
  "(nat \<Rightarrow> 'a flanterm_fb_context_scheme \<Rightarrow> u32 result) \<Rightarrow> nat \<Rightarrow> u64 \<Rightarrow> addr \<Rightarrow>
   'a flanterm_fb_context_scheme \<Rightarrow> (addr \<times> 'a flanterm_fb_context_scheme) result" where
  "plot_line pix w inner dest s =
     for_each (\<lambda>gx (fb_line, s). rbind (pix gx s) (\<lambda>v.
       ret (fb_line + 4 * inner, s\<lparr>vram := (vram s)(fb_line := v)\<rparr>))) [0..<w] (dest, s)"

definition plot_glyph ::
  "(nat \<Rightarrow> nat \<Rightarrow> 'a flanterm_fb_context_scheme \<Rightarrow> u32 result) \<Rightarrow> nat \<Rightarrow> nat \<Rightarrow> addr \<times> u64 \<times> u64 \<Rightarrow>
   'a flanterm_fb_context_scheme \<Rightarrow> 'a flanterm_fb_context_scheme result" where
  "plot_glyph pix h w d s =
     (let (dest, outer, inner) = d in
      rbind (for_each (\<lambda>gy (dest, s). rbind (plot_line (pix gy) w inner dest s) (\<lambda>(_, s). ret (dest + 4 * outer, s)))
               [0..<h] (dest, s)) (\<lambda>(_, s). ret s))"

definition pixel_x :: "'a flanterm_fb_context_scheme \<Rightarrow> u64 \<Rightarrow> u64" where
  "pixel_x s x = offset_x s + x * glyph_width s"

definition pixel_y :: "'a flanterm_fb_context_scheme \<Rightarrow> u64 \<Rightarrow> u64" where
  "pixel_y s y = offset_y s + y * glyph_height s"

definition glyph_index :: "'a flanterm_fb_context_scheme \<Rightarrow> flanterm_fb_char \<Rightarrow> nat" where
  "glyph_index s c = unat (ucast (fc_c c) * font_height s * font_width s)"

definition scaled_row :: "'a flanterm_fb_context_scheme \<Rightarrow> nat \<Rightarrow> nat" where
  "scaled_row s gy = unat (ucast (of_nat gy div font_scale_y s) :: u8)"

definition plot_char_scaled_canvas ::
  "flanterm_fb_char \<Rightarrow> u64 \<Rightarrow> u64 \<Rightarrow> 'a flanterm_fb_context_scheme \<Rightarrow> 'a flanterm_fb_context_scheme result" where
  "plot_char_scaled_canvas c x y s =
     (if x \<ge> cols s \<or> y \<ge> rows s then ret s else
      let x = pixel_x s x; y = pixel_y s y; glyph = glyph_index s c
      in plot_glyph (\<lambda>gy gx s.
           rbind (if fc_bg c = 0xFFFFFFFF then canvas_get (unat (x + (y + of_nat gy) * width s) + gx) s else ret (fc_bg c)) (\<lambda>bg.
           rbind (if fc_fg c = 0xFFFFFFFF then canvas_get (unat (x + (y + of_nat gy) * width s) + gx) s else ret (fc_fg c)) (\<lambda>fg.
           rbind (font_get (glyph + scaled_row s gy * unat (font_width s) + gx div unat (font_scale_x s)) s) (\<lambda>on.
           ret (if on then fg else bg)))))
           (unat (glyph_height s)) (unat (font_width s) * unat (font_scale_x s)) (plot_dest s x y) s)"

definition plot_char_scaled_uncanvas ::
  "flanterm_fb_char \<Rightarrow> u64 \<Rightarrow> u64 \<Rightarrow> 'a flanterm_fb_context_scheme \<Rightarrow> 'a flanterm_fb_context_scheme result" where
  "plot_char_scaled_uncanvas c x y s =
     (if x \<ge> cols s \<or> y \<ge> rows s then ret s else
      let bg = (if fc_bg c = 0xFFFFFFFF then default_bg s else fc_bg c);
          fg = (if fc_fg c = 0xFFFFFFFF then default_bg s else fc_fg c);
          x = pixel_x s x; y = pixel_y s y; glyph = glyph_index s c
      in plot_glyph (\<lambda>gy gx s.
           rbind (font_get (glyph + scaled_row s gy * unat (font_width s) + gx div unat (font_scale_x s)) s) (\<lambda>on.
           ret (if on then fg else bg)))
           (unat (glyph_height s)) (unat (font_width s) * unat (font_scale_x s)) (plot_dest s x y) s)"

definition plot_char_unscaled_canvas ::
  "flanterm_fb_char \<Rightarrow> u64 \<Rightarrow> u64 \<Rightarrow> 'a flanterm_fb_context_scheme \<Rightarrow> 'a flanterm_fb_context_scheme result" where
  "plot_char_unscaled_canvas c x y s =
     (if x \<ge> cols s \<or> y \<ge> rows s then ret s else
      let x = pixel_x s x; y = pixel_y s y; glyph = glyph_index s c
      in plot_glyph (\<lambda>gy fx s.
           rbind (if fc_bg c = 0xFFFFFFFF then canvas_get (unat (x + (y + of_nat gy) * width s) + fx) s else ret (fc_bg c)) (\<lambda>bg.
           rbind (if fc_fg c = 0xFFFFFFFF then canvas_get (unat (x + (y + of_nat gy) * width s) + fx) s else ret (fc_fg c)) (\<lambda>fg.
           rbind (font_get (glyph + gy * unat (font_width s) + fx) s) (\<lambda>on.
           ret (if on then fg else bg)))))
           (unat (glyph_height s)) (unat (font_width s)) (plot_dest s x y) s)"

definition plot_char_unscaled_uncanvas ::
  "flanterm_fb_char \<Rightarrow> u64 \<Rightarrow> u64 \<Rightarrow> 'a flanterm_fb_context_scheme \<Rightarrow> 'a flanterm_fb_context_scheme result" where
  "plot_char_unscaled_uncanvas c x y s =
     (if x \<ge> cols s \<or> y \<ge> rows s then ret s else
      let bg = (if fc_bg c = 0xFFFFFFFF then default_bg s else fc_bg c);
          fg = (if fc_fg c = 0xFFFFFFFF then default_bg s else fc_fg c);
          x = pixel_x s x; y = pixel_y s y; glyph = glyph_index s c
      in plot_glyph (\<lambda>gy fx s.
           rbind (font_get (glyph + gy * unat (font_width s) + fx) s) (\<lambda>on.
           ret (if on then fg else bg)))
           (unat (glyph_height s)) (unat (font_width s)) (plot_dest s x y) s)"

text \<open>\<open>ctx->plot_char\<close>\<close>

definition plot_char ::
  "flanterm_fb_char \<Rightarrow> u64 \<Rightarrow> u64 \<Rightarrow> 'a flanterm_fb_context_scheme \<Rightarrow> 'a flanterm_fb_context_scheme result" where
  "plot_char c x y s =
     (case plot_char_fn s of
        PLOT_SCALED_CANVAS \<Rightarrow> plot_char_scaled_canvas c x y s
      | PLOT_SCALED_UNCANVAS \<Rightarrow> plot_char_scaled_uncanvas c x y s
      | PLOT_UNSCALED_CANVAS \<Rightarrow> plot_char_unscaled_canvas c x y s
      | PLOT_UNSCALED_UNCANVAS \<Rightarrow> plot_char_unscaled_uncanvas c x y s)"

subsection \<open>The queue of changed cells\<close>

definition compare_char :: "flanterm_fb_char \<Rightarrow> flanterm_fb_char \<Rightarrow> bool" where
  "compare_char p q = (\<not> (fc_c p \<noteq> fc_c q \<or> fc_bg p \<noteq> fc_bg q \<or> fc_fg p \<noteq> fc_fg q))"

definition push_to_queue ::
  "flanterm_fb_char \<Rightarrow> u64 \<Rightarrow> u64 \<Rightarrow> 'a flanterm_fb_context_scheme \<Rightarrow> 'a flanterm_fb_context_scheme result" where
  "push_to_queue c x y s =
     (if x \<ge> cols s \<or> y \<ge> rows s then ret s else
      let i = unat (y * cols s + x) in
      rbind (map_get i s) (\<lambda>q.
      case q of
        None \<Rightarrow>
          rbind (grid_get i s) (\<lambda>g.
          if compare_char g c then ret s
          else let k = unat (queue_i s) in
          if 32 * Suc k > unat (queue_size s) then fails (Bad_Access ''queue'')
          else ret (s\<lparr>queue := (queue s)(k := \<lparr>qi_x = x, qi_y = y, qi_c = c\<rparr>), queue_i := queue_i s + 1,
                      qmap := (qmap s)(i := Some k)\<rparr>))
      | Some k \<Rightarrow> ret (s\<lparr>queue := (queue s)(k := (queue s k)\<lparr>qi_c := c\<rparr>)\<rparr>)))"

definition empty_char :: "'a flanterm_fb_context_scheme \<Rightarrow> flanterm_fb_char" where
  "empty_char s = \<lparr>fc_c = 0x20, fc_fg = text_fg s, fc_bg = text_bg s\<rparr>"

text \<open>
  Scrolling back: the loop runs down from the last cell of the region but one line; its index wraps below
  zero exactly when it has reached the first cell, and the loop stops there.
\<close>

definition flanterm_fb_revscroll :: "'a flanterm_fb_context_scheme \<Rightarrow> 'a flanterm_fb_context_scheme result" where
  "flanterm_fb_revscroll s =
     (let start = (scroll_bottom_margin s - 1) * cols s - 1;
          low = scroll_top_margin s * cols s
      in
      rbind (for_each (\<lambda>i s. rbind (cell_char i s) (\<lambda>c.
               push_to_queue c ((of_nat i + cols s) mod cols s) ((of_nat i + cols s) div cols s) s))
               (if start = - 1 then [] else rev [unat low..<Suc (unat start)]) s) (\<lambda>s.
      let empty = empty_char s in
      for_each (\<lambda>i s. push_to_queue empty (of_nat i) (scroll_top_margin s) s) [0..<unat (cols s)] s))"

definition flanterm_fb_scroll :: "'a flanterm_fb_context_scheme \<Rightarrow> 'a flanterm_fb_context_scheme result" where
  "flanterm_fb_scroll s =
     rbind (for_each (\<lambda>i s. rbind (cell_char i s) (\<lambda>c.
              push_to_queue c ((of_nat i - cols s) mod cols s) ((of_nat i - cols s) div cols s) s))
              [unat ((scroll_top_margin s + 1) * cols s)..<unat (scroll_bottom_margin s * cols s)] s) (\<lambda>s.
     let empty = empty_char s in
     for_each (\<lambda>i s. push_to_queue empty (of_nat i) (scroll_bottom_margin s - 1) s) [0..<unat (cols s)] s)"

definition flanterm_fb_clear :: "bool \<Rightarrow> 'a flanterm_fb_context_scheme \<Rightarrow> 'a flanterm_fb_context_scheme result" where
  "flanterm_fb_clear move s =
     (let empty = empty_char s in
      rbind (for_each (\<lambda>i s. push_to_queue empty (of_nat i mod cols s) (of_nat i div cols s) s)
               [0..<unat (rows s * cols s)] s) (\<lambda>s.
      ret (if move then s\<lparr>cursor_x := 0, cursor_y := 0\<rparr> else s)))"

subsection \<open>Cursor\<close>

definition clamp_pos :: "u64 \<Rightarrow> u64 \<Rightarrow> u64" where
  "clamp_pos bound v =
     (if v \<ge> bound then (if sint (ucast v :: 32 word) < 0 then 0 else bound - 1) else v)"

definition flanterm_fb_set_cursor_pos ::
  "u64 \<Rightarrow> u64 \<Rightarrow> 'a flanterm_fb_context_scheme \<Rightarrow> 'a flanterm_fb_context_scheme result" where
  "flanterm_fb_set_cursor_pos x y s =
     ret (s\<lparr>cursor_x := clamp_pos (cols s) x, cursor_y := clamp_pos (rows s) y\<rparr>)"

definition flanterm_fb_get_cursor_pos :: "'a flanterm_fb_context_scheme \<Rightarrow> u64 \<times> u64" where
  "flanterm_fb_get_cursor_pos s =
     (if cursor_x s \<ge> cols s then cols s - 1 else cursor_x s,
      if cursor_y s \<ge> rows s then rows s - 1 else cursor_y s)"

definition flanterm_fb_move_character ::
  "u64 \<Rightarrow> u64 \<Rightarrow> u64 \<Rightarrow> u64 \<Rightarrow> 'a flanterm_fb_context_scheme \<Rightarrow> 'a flanterm_fb_context_scheme result" where
  "flanterm_fb_move_character new_x new_y old_x old_y s =
     (if old_x \<ge> cols s \<or> old_y \<ge> rows s \<or> new_x \<ge> cols s \<or> new_y \<ge> rows s then ret s
      else rbind (cell_char (unat (old_x + old_y * cols s)) s) (\<lambda>c. push_to_queue c new_x new_y s))"

definition draw_cursor :: "'a flanterm_fb_context_scheme \<Rightarrow> 'a flanterm_fb_context_scheme result" where
  "draw_cursor s =
     (if cursor_x s \<ge> cols s \<or> cursor_y s \<ge> rows s then ret s else
      let i = unat (cursor_x s + cursor_y s * cols s) in
      rbind (map_get i s) (\<lambda>q.
      rbind (cell_char i s) (\<lambda>c.
      rbind (plot_char (c\<lparr>fc_fg := fc_bg c, fc_bg := fc_fg c\<rparr>) (cursor_x s) (cursor_y s) s) (\<lambda>s.
      case q of
        Some k \<Rightarrow> rbind (grid_set i (qi_c (queue s k)) s) (\<lambda>s. ret (map_clear i s))
      | None \<Rightarrow> ret s))))"

definition flush_item :: "nat \<Rightarrow> 'a flanterm_fb_context_scheme \<Rightarrow> 'a flanterm_fb_context_scheme result" where
  "flush_item k s =
     (if 32 * Suc k > unat (queue_size s) then fails (Bad_Access ''queue'') else
      let q = queue s k;
          offset = unat (qi_y q * cols s + qi_x q)
      in
      rbind (map_get offset s) (\<lambda>m.
      if m = None then ret s
      else rbind (plot_char (qi_c q) (qi_x q) (qi_y q) s) (\<lambda>s.
           rbind (grid_set offset (qi_c q) s) (\<lambda>s. ret (map_clear offset s)))))"

definition call_flush :: "'a flanterm_fb_context_scheme \<Rightarrow> 'a flanterm_fb_context_scheme" where
  "call_flush s =
     (if flush_callback s then s\<lparr>flush_calls := flush_calls s @ [(framebuffer s, pitch s * height s)]\<rparr> else s)"

definition flanterm_fb_double_buffer_flush ::
  "'a flanterm_fb_context_scheme \<Rightarrow> 'a flanterm_fb_context_scheme result" where
  "flanterm_fb_double_buffer_flush s =
     rbind (if cursor_enabled s then draw_cursor s else ret s) (\<lambda>s.
     rbind (for_each flush_item [0..<unat (queue_i s)] s) (\<lambda>s.
     rbind (if ((old_cursor_x s \<noteq> cursor_x s \<or> old_cursor_y s \<noteq> cursor_y s) \<or> \<not> cursor_enabled s) \<and>
               old_cursor_x s < cols s \<and> old_cursor_y s < rows s
            then rbind (grid_get (unat (old_cursor_x s + old_cursor_y s * cols s)) s) (\<lambda>c.
                 plot_char c (old_cursor_x s) (old_cursor_y s) s)
            else ret s) (\<lambda>s.
     ret (call_flush (s\<lparr>old_cursor_x := cursor_x s, old_cursor_y := cursor_y s, queue_i := 0\<rparr>)))))"

definition flanterm_fb_raw_putchar :: "u8 \<Rightarrow> 'a flanterm_fb_context_scheme \<Rightarrow> 'a flanterm_fb_context_scheme result" where
  "flanterm_fb_raw_putchar c s =
     rbind (if cursor_x s \<ge> cols s \<and> (cursor_y s < scroll_bottom_margin s - 1 \<or> scroll_enabled s) then
              let s = s\<lparr>cursor_x := 0, cursor_y := cursor_y s + 1\<rparr> in
              rbind (if cursor_y s = scroll_bottom_margin s
                     then flanterm_fb_scroll (s\<lparr>cursor_y := cursor_y s - 1\<rparr>) else ret s) (\<lambda>s.
              ret (if cursor_y s \<ge> cols s then s\<lparr>cursor_y := cols s - 1\<rparr> else s))
            else ret s) (\<lambda>s.
     let ch = \<lparr>fc_c = ucast c, fc_fg = text_fg s, fc_bg = text_bg s\<rparr>;
         x = cursor_x s
     in push_to_queue ch x (cursor_y s) (s\<lparr>cursor_x := cursor_x s + 1\<rparr>))"

text \<open>\<open>flanterm_fb_full_refresh\<close>: first the background of the whole framebuffer, then the characters.\<close>

definition refresh_pixel ::
  "u64 \<Rightarrow> u64 \<Rightarrow> 'a flanterm_fb_context_scheme \<Rightarrow> 'a flanterm_fb_context_scheme result" where
  "refresh_pixel y x s =
     (let (px, py) = (if rotation s = 1 then (height s - 1 - y, x)
                      else if rotation s = 2 then (width s - 1 - x, height s - 1 - y)
                      else if rotation s = 3 then (y, width s - 1 - x)
                      else (x, y));
          a = framebuffer s + 4 * (py * (pitch s div 4) + px)
      in
      rbind (if canvas s \<noteq> None then canvas_get (unat (y * width s + x)) s else ret (default_bg s)) (\<lambda>v.
      ret (s\<lparr>vram := (vram s)(a := v)\<rparr>)))"

definition flanterm_fb_full_refresh :: "'a flanterm_fb_context_scheme \<Rightarrow> 'a flanterm_fb_context_scheme result" where
  "flanterm_fb_full_refresh s =
     rbind (for_each (\<lambda>y. for_each (\<lambda>x. refresh_pixel (of_nat y) (of_nat x)) [0..<unat (width s)])
              [0..<unat (height s)] s) (\<lambda>s.
     rbind (for_each (\<lambda>i s. rbind (grid_get i s) (\<lambda>c. plot_char c (of_nat i mod cols s) (of_nat i div cols s) s))
              [0..<unat (rows s * cols s)] s) (\<lambda>s.
     rbind (if cursor_enabled s then draw_cursor s else ret s) (\<lambda>s.
     ret (call_flush s))))"

definition flanterm_fb_set_flush_callback :: "bool \<Rightarrow> 'a flanterm_fb_context_scheme \<Rightarrow> 'a flanterm_fb_context_scheme" where
  "flanterm_fb_set_flush_callback f s = s\<lparr>flush_callback := f\<rparr>"

text \<open>The function pointers that \<open>flanterm_fb_init\<close> sets; the kernel sets no callback.\<close>

definition fb_backend :: "'a flanterm_fb_context_scheme backend" where
  "fb_backend = \<lparr>
     raw_putchar = flanterm_fb_raw_putchar,
     clear_screen = flanterm_fb_clear,
     set_cursor_pos = flanterm_fb_set_cursor_pos,
     get_cursor_pos = flanterm_fb_get_cursor_pos,
     set_text_fg = flanterm_fb_set_text_fg,
     set_text_bg = flanterm_fb_set_text_bg,
     set_text_fg_bright = flanterm_fb_set_text_fg_bright,
     set_text_bg_bright = flanterm_fb_set_text_bg_bright,
     set_text_fg_rgb = flanterm_fb_set_text_fg_rgb,
     set_text_bg_rgb = flanterm_fb_set_text_bg_rgb,
     set_text_fg_default = flanterm_fb_set_text_fg_default,
     set_text_bg_default = flanterm_fb_set_text_bg_default,
     set_text_fg_default_bright = flanterm_fb_set_text_fg_default_bright,
     set_text_bg_default_bright = flanterm_fb_set_text_bg_default_bright,
     move_character = flanterm_fb_move_character,
     scroll_up = flanterm_fb_scroll,
     revscroll = flanterm_fb_revscroll,
     swap_palette = flanterm_fb_swap_palette,
     save_state_op = flanterm_fb_save_state,
     restore_state_op = flanterm_fb_restore_state,
     double_buffer_flush = flanterm_fb_double_buffer_flush,
     full_refresh = flanterm_fb_full_refresh,
     callback = None,
     esc_values_addr = 0\<rparr>"

subsection \<open>Initialisation\<close>

definition FLANTERM_FB_BUMP_ALLOC_POOL_SIZE :: u64 where "FLANTERM_FB_BUMP_ALLOC_POOL_SIZE = 873000"
definition FLANTERM_FB_WIDTH_LIMIT :: u64 where "FLANTERM_FB_WIDTH_LIMIT = 1920"
definition FLANTERM_FB_HEIGHT_LIMIT :: u64 where "FLANTERM_FB_HEIGHT_LIMIT = 1200"
definition FLANTERM_FB_FONT_GLYPHS :: u64 where "FLANTERM_FB_FONT_GLYPHS = 256"

record bump =
  bump_alloc_ptr :: u64
  base_offset_added :: bool
  bump_allocated_instance :: bool

text \<open>\<open>pool\<close> is the address of \<open>bump_alloc_pool\<close>.\<close>

definition bump_alloc :: "addr \<Rightarrow> u64 \<Rightarrow> bump \<Rightarrow> addr \<times> bump" where
  "bump_alloc pool sz bs =
     (let bs = (if \<not> base_offset_added bs then
                  (let bs = (if pool AND 0xF \<noteq> 0
                             then bs\<lparr>bump_alloc_ptr := bump_alloc_ptr bs + (0x10 - (pool AND 0xF))\<rparr> else bs)
                   in bs\<lparr>base_offset_added := True\<rparr>) else bs);
          sz = (if sz AND 0xF \<noteq> 0 then (sz + 0x10) AND NOT 0xF else sz);
          next_ptr = bump_alloc_ptr bs + sz
      in if next_ptr > FLANTERM_FB_BUMP_ALLOC_POOL_SIZE then (NULL, bs)
         else (pool + bump_alloc_ptr bs, bs\<lparr>bump_alloc_ptr := next_ptr\<rparr>))"

text \<open>The context after \<open>memset\<close>; video memory is what it was.\<close>

definition zero_fb_context :: "(addr \<Rightarrow> u32) \<Rightarrow> flanterm_fb_context" where
  "zero_fb_context vm = \<lparr>
     tab_size = 0, autoflush = False, cursor_enabled = False, scroll_enabled = False, control_sequence = False,
     escape = False, osc = False, osc_escape = False, rrr = False, discard_next = False, bold = False,
     bg_bold = False, reverse_video = False, dec_private = False, insert_mode = False, csi_unhandled = False,
     code_point = 0, unicode_remaining = 0, g_select = 0, charsets = [0, 0], current_charset = 0,
     escape_offset = 0, esc_values_i = 0, saved_cursor_x = 0, saved_cursor_y = 0, current_primary = 0,
     current_bg = 0, scroll_top_margin = 0, scroll_bottom_margin = 0,
     esc_values = replicate FLANTERM_MAX_ESC_VALUES 0, oob_output = 0, saved_state_bold = False,
     saved_state_bg_bold = False, saved_state_reverse_video = False, saved_state_current_charset = 0,
     saved_state_current_primary = 0, saved_state_current_bg = 0, rows = 0, cols = 0,
     plot_char_fn = PLOT_UNSCALED_UNCANVAS, flush_callback = False, flush_calls = [], font_width = 0,
     font_height = 0, glyph_width = 0, glyph_height = 0, font_scale_x = 0, font_scale_y = 0, offset_x = 0,
     offset_y = 0, framebuffer = 0, pitch = 0, width = 0, height = 0, red_mask_size = 0, red_mask_shift = 0,
     green_mask_size = 0, green_mask_shift = 0, blue_mask_size = 0, blue_mask_shift = 0, rotation = 0,
     font_bool_size = 0, font_bool = (\<lambda>_. False), ansi_colours = replicate 8 0,
     ansi_bright_colours = replicate 8 0, default_fg = 0, default_bg = 0, default_fg_bright = 0,
     default_bg_bright = 0, canvas_size = 0, canvas = None, grid_size = 0, queue_size = 0, map_size = 0,
     grid = (\<lambda>_. \<lparr>fc_c = 0, fc_fg = 0, fc_bg = 0\<rparr>),
     queue = (\<lambda>_. \<lparr>qi_x = 0, qi_y = 0, qi_c = \<lparr>fc_c = 0, fc_fg = 0, fc_bg = 0\<rparr>\<rparr>), queue_i = 0,
     qmap = (\<lambda>_. None), text_fg = 0, text_bg = 0, cursor_x = 0, cursor_y = 0, saved_state_text_fg = 0,
     saved_state_text_bg = 0, saved_state_cursor_x = 0, saved_state_cursor_y = 0, old_cursor_x = 0,
     old_cursor_y = 0, vram = vm\<rparr>"

definition default_colours :: "flanterm_fb_context \<Rightarrow> flanterm_fb_context" where
  "default_colours s = s\<lparr>
     ansi_colours := map (convert_colour s)
       [0x00000000, 0x00AA0000, 0x0000AA00, 0x00AA5500, 0x000000AA, 0x00AA00AA, 0x0000AAAA, 0x00AAAAAA],
     ansi_bright_colours := map (convert_colour s)
       [0x00555555, 0x00FF5555, 0x0055FF55, 0x00FFFF55, 0x005555FF, 0x00FF55FF, 0x0055FFFF, 0x00FFFFFF],
     default_bg := 0x00000000,
     default_fg := convert_colour s 0x00AAAAAA,
     default_bg_bright := convert_colour s 0x00555555,
     default_fg_bright := convert_colour s 0x00FFFFFF\<rparr>"

text \<open>The glyphs of the font, one truth value per dot.\<close>

definition make_font_bool :: "u8 list \<Rightarrow> nat \<Rightarrow> nat \<Rightarrow> nat \<Rightarrow> bool" where
  "make_font_bool font_bits fh fw =
     fold (\<lambda>(i, y) fb.
       let glyph_row = font_bits ! (i * fh + y);
           fb = fold (\<lambda>x fb. fb(i * fh * fw + y * fw + x := (glyph_row AND drop_bit x 0x80 \<noteq> 0))) [0..<8] fb
       in fold (\<lambda>x fb. fb(i * fh * fw + y * fw + x :=
            (if i \<ge> 0xC0 \<and> i \<le> 0xDF then glyph_row AND 1 \<noteq> 0 else False))) [8..<fw] fb)
       (List.product [0..<256] [0..<fh]) (\<lambda>_. False)"

definition auto_scale :: "u64 \<Rightarrow> u64 \<Rightarrow> u64 \<Rightarrow> u64 \<Rightarrow> u64 \<times> u64" where
  "auto_scale w h sx sy =
     (if sx = 0 \<or> sy = 0 then
        let (sx, sy) = (1, 1);
            (sx, sy) = (if w \<ge> 1920 + 1920 div 3 \<and> h \<ge> 1080 + 1080 div 3 then (2, 2) else (sx, sy));
            (sx, sy) = (if w \<ge> 3840 + 3840 div 3 \<and> h \<ge> 2160 + 2160 div 3 then (4, 4) else (sx, sy))
        in (sx, sy)
      else (sx, sy))"

text \<open>The part of a large framebuffer, in its middle, that the fixed pool can serve.\<close>

definition limit_size :: "addr \<Rightarrow> u64 \<Rightarrow> u64 \<Rightarrow> u64 \<Rightarrow> addr \<times> u64 \<times> u64" where
  "limit_size fb w h p =
     (if w > FLANTERM_FB_WIDTH_LIMIT \<or> h > FLANTERM_FB_HEIGHT_LIMIT then
        let width_limit = (if w > FLANTERM_FB_WIDTH_LIMIT then FLANTERM_FB_WIDTH_LIMIT else w);
            height_limit = (if h > FLANTERM_FB_HEIGHT_LIMIT then FLANTERM_FB_HEIGHT_LIMIT else h)
        in (fb + ((h div 2 - height_limit div 2) * p + (w div 2 - width_limit div 2) * 4), width_limit, height_limit)
      else (fb, w, h))"

text \<open>
  \<open>flanterm_fb_init\<close> as the kernel calls it: without an allocator, so from the fixed pool and without a
  canvas, with the built-in font and the default colours. The result is the address of the context, if
  there is one, and the context.
\<close>

definition init_masks :: "u8 \<Rightarrow> u8 \<Rightarrow> u8 \<Rightarrow> u8 \<Rightarrow> u8 \<Rightarrow> u8 \<Rightarrow> flanterm_fb_context \<Rightarrow> flanterm_fb_context" where
  "init_masks rs rsh gs gsh bs bsh s = s\<lparr>
     red_mask_size := rs, red_mask_shift := rsh + (rs - 8),
     green_mask_size := gs, green_mask_shift := gsh + (gs - 8),
     blue_mask_size := bs, blue_mask_shift := bsh + (bs - 8)\<rparr>"

definition init_geometry :: "u64 \<Rightarrow> u64 \<Rightarrow> u64 \<Rightarrow> flanterm_fb_context \<Rightarrow> flanterm_fb_context" where
  "init_geometry sx sy margin s =
     (let s = s\<lparr>font_width := 8 + 1, font_height := 16\<rparr>;
          s = s\<lparr>font_bool_size := FLANTERM_FB_FONT_GLYPHS * font_height s * font_width s,
                font_bool := make_font_bool builtin_font (unat (font_height s)) (unat (font_width s))\<rparr>;
          s = s\<lparr>font_scale_x := sx, font_scale_y := sy\<rparr>;
          s = s\<lparr>glyph_width := font_width s * sx, glyph_height := font_height s * sy\<rparr>;
          s = s\<lparr>cols := (width s - margin * 2) div glyph_width s, rows := (height s - margin * 2) div glyph_height s\<rparr>;
          s = s\<lparr>offset_x := margin + ((width s - margin * 2) mod glyph_width s) div 2,
                offset_y := margin + ((height s - margin * 2) mod glyph_height s) div 2\<rparr>
      in s\<lparr>grid_size := rows s * cols s * 12,
           queue_size := rows s * cols s * 32,
           map_size := rows s * cols s * 8,
           grid := (\<lambda>_. \<lparr>fc_c = 0x20, fc_fg = text_fg s, fc_bg = text_bg s\<rparr>),
           plot_char_fn := (if sx = 1 \<and> sy = 1 then PLOT_UNSCALED_UNCANVAS else PLOT_SCALED_UNCANVAS)\<rparr>)"

definition init_allocs :: "addr \<Rightarrow> u64 list \<Rightarrow> bump \<Rightarrow> bool \<times> bump" where
  "init_allocs pool szs bs =
     fold (\<lambda>sz (ok, bs). if ok then (let (p, bs) = bump_alloc pool sz bs in (p \<noteq> NULL, bs)) else (ok, bs)) szs (True, bs)"

definition flanterm_fb_init ::
  "addr \<Rightarrow> (addr \<Rightarrow> u32) \<Rightarrow> addr \<Rightarrow> u64 \<Rightarrow> u64 \<Rightarrow> u64 \<Rightarrow> u8 \<Rightarrow> u8 \<Rightarrow> u8 \<Rightarrow> u8 \<Rightarrow> u8 \<Rightarrow> u8 \<Rightarrow>
   u64 \<Rightarrow> u64 \<Rightarrow> u64 \<Rightarrow> int \<Rightarrow> bump \<Rightarrow> ((addr \<times> flanterm_fb_context) option \<times> bump) result" where
  "flanterm_fb_init pool vm fb w h p rs rsh gs gsh bls blsh sx sy margin rot bs =
     (let (w, h) = (if rot = 1 \<or> rot = 3 then (h, w) else (w, h));
          (sx, sy) = auto_scale w h sx sy
      in
      if rs < 8 \<or> rs \<noteq> gs \<or> rs \<noteq> bls then ret (None, bs)
      else if bump_allocated_instance bs then ret (None, bs)
      else
      let (fb, w, h) = limit_size fb w h p;
          (a, bs) = bump_alloc pool 816 bs
      in
      if a = NULL then ret (None, bs)
      else
      let s = default_colours (init_masks rs rsh gs gsh bls blsh (zero_fb_context vm));
          s = s\<lparr>text_fg := default_fg s, text_bg := 0xFFFFFFFF, rotation := rot, framebuffer := fb,
                width := w, height := h, pitch := p\<rparr>;
          s = init_geometry sx sy margin s;
          (ok, bs) = init_allocs pool [8 * 16 * FLANTERM_FB_FONT_GLYPHS div 8, font_bool_size s, grid_size s,
                        queue_size s, map_size s] bs
      in
      if \<not> ok then ret (None, bs\<lparr>bump_alloc_ptr := 0\<rparr>)
      else rbind (flanterm_fb_full_refresh (flanterm_context_reinit s)) (\<lambda>s.
           ret (Some (a, s), bs\<lparr>bump_allocated_instance := True\<rparr>)))"

end
