(* ===== verification/Flanterm_Fb_Safe.thy ===== *)
theory Flanterm_Fb_Safe
  imports Flanterm_Fb
begin

text \<open>
  The framebuffer backend meets the contract of \<open>Flanterm_Safe\<close>. Its invariant relates the three arrays:
  the map and the queue are inverse to each other, so that the queue, which has one entry per cell of the
  screen, never overflows. With the contract discharged, the console of the kernel is safe on every text.
\<close>

section \<open>The invariant of the framebuffer context\<close>

definition cells :: "u64 \<Rightarrow> u64 \<Rightarrow> nat" where
  "cells R C = unat R * unat C"

definition cell :: "u64 \<Rightarrow> flanterm_fb_queue_item \<Rightarrow> nat" where
  "cell C q = unat (qi_y q) * unat C + unat (qi_x q)"

text \<open>The queue and the map: every entry lies on the screen, and a mapped cell is mapped to its entry.\<close>

definition queue_ok :: "u64 \<Rightarrow> u64 \<Rightarrow> 'a flanterm_fb_context_scheme \<Rightarrow> bool" where
  "queue_ok R C s \<longleftrightarrow>
     (\<forall>k < unat (queue_i s). qi_x (queue s k) < C \<and> qi_y (queue s k) < R \<and> fc_c (qi_c (queue s k)) < 256) \<and>
     (\<forall>i k. qmap s i = Some k \<longrightarrow> k < unat (queue_i s) \<and> cell C (queue s k) = i)"

text \<open>Between two flushes every entry of the queue is mapped.\<close>

definition queue_mapped :: "u64 \<Rightarrow> 'a flanterm_fb_context_scheme \<Rightarrow> bool" where
  "queue_mapped C s \<longleftrightarrow> (\<forall>k < unat (queue_i s). qmap s (cell C (queue s k)) = Some k)"

definition plot_ok :: "'a flanterm_fb_context_scheme \<Rightarrow> bool" where
  "plot_ok s \<longleftrightarrow>
     256 * unat (font_height s) * unat (font_width s) < 2 ^ 64 \<and>
     unat (font_bool_size s) = 256 * unat (font_height s) * unat (font_width s) \<and>
     (plot_char_fn s = PLOT_UNSCALED_UNCANVAS \<and> glyph_height s = font_height s \<or>
      plot_char_fn s = PLOT_SCALED_UNCANVAS \<and> unat (glyph_height s) = unat (font_height s) * unat (font_scale_y s))"

definition arrays_ok :: "u64 \<Rightarrow> u64 \<Rightarrow> 'a flanterm_fb_context_scheme \<Rightarrow> bool" where
  "arrays_ok R C s \<longleftrightarrow>
     cells R C < 2 ^ 59 \<and> unat (grid_size s) = 12 * cells R C \<and> unat (queue_size s) = 32 * cells R C \<and>
     unat (map_size s) = 8 * cells R C \<and> unat (queue_i s) \<le> cells R C \<and> (\<forall>i < cells R C. fc_c (grid s i) < 256) \<and>
     length (ansi_colours s) = 8 \<and> length (ansi_bright_colours s) = 8 \<and> canvas s = None"

text \<open>The invariant without and with \<open>queue_mapped\<close>; the first is what holds during a flush.\<close>

definition fb_base :: "u64 \<Rightarrow> u64 \<Rightarrow> 'a flanterm_fb_context_scheme \<Rightarrow> bool" where
  "fb_base R C s \<longleftrightarrow> arrays_ok R C s \<and> queue_ok R C s \<and> plot_ok s"

definition fb_ok :: "u64 \<Rightarrow> u64 \<Rightarrow> 'a flanterm_fb_context_scheme \<Rightarrow> bool" where
  "fb_ok R C s \<longleftrightarrow> fb_base R C s \<and> queue_mapped C s"

abbreviation core :: "'a flanterm_context_scheme \<Rightarrow> flanterm_context" where
  "core \<equiv> flanterm_context.truncate"

lemma core_fields:
  assumes "core s' = core s"
  shows "rows s' = rows s" "cols s' = cols s" "scroll_top_margin s' = scroll_top_margin s"
    "scroll_bottom_margin s' = scroll_bottom_margin s" "cursor_enabled s' = cursor_enabled s"
  using assms by (simp_all add: flanterm_context.truncate_def)

lemma core_updates [simp]:
  "core (s\<lparr>vram := v\<rparr>) = core s" "core (s\<lparr>grid := g\<rparr>) = core s" "core (s\<lparr>queue := q\<rparr>) = core s"
  "core (s\<lparr>queue_i := n\<rparr>) = core s" "core (s\<lparr>qmap := m\<rparr>) = core s" "core (s\<lparr>text_fg := c\<rparr>) = core s"
  "core (s\<lparr>text_bg := c\<rparr>) = core s" "core (s\<lparr>cursor_x := x\<rparr>) = core s" "core (s\<lparr>cursor_y := x\<rparr>) = core s"
  "core (s\<lparr>saved_state_text_fg := c\<rparr>) = core s" "core (s\<lparr>saved_state_text_bg := c\<rparr>) = core s"
  "core (s\<lparr>saved_state_cursor_x := x\<rparr>) = core s" "core (s\<lparr>saved_state_cursor_y := x\<rparr>) = core s"
  "core (s\<lparr>old_cursor_x := x\<rparr>) = core s" "core (s\<lparr>old_cursor_y := x\<rparr>) = core s"
  "core (s\<lparr>flush_calls := fl\<rparr>) = core s"
  by (simp_all add: flanterm_context.truncate_def)

lemma fb_free [simp]:
  "fb_ok R C (s\<lparr>vram := v\<rparr>) = fb_ok R C s" "fb_ok R C (s\<lparr>text_fg := c\<rparr>) = fb_ok R C s"
  "fb_ok R C (s\<lparr>text_bg := c\<rparr>) = fb_ok R C s" "fb_ok R C (s\<lparr>cursor_x := x\<rparr>) = fb_ok R C s"
  "fb_ok R C (s\<lparr>cursor_y := x\<rparr>) = fb_ok R C s" "fb_ok R C (s\<lparr>saved_state_text_fg := c\<rparr>) = fb_ok R C s"
  "fb_ok R C (s\<lparr>saved_state_text_bg := c\<rparr>) = fb_ok R C s" "fb_ok R C (s\<lparr>saved_state_cursor_x := x\<rparr>) = fb_ok R C s"
  "fb_ok R C (s\<lparr>saved_state_cursor_y := x\<rparr>) = fb_ok R C s" "fb_ok R C (s\<lparr>old_cursor_x := x\<rparr>) = fb_ok R C s"
  "fb_ok R C (s\<lparr>old_cursor_y := x\<rparr>) = fb_ok R C s" "fb_ok R C (s\<lparr>flush_calls := fl\<rparr>) = fb_ok R C s"
  "fb_base R C (s\<lparr>vram := v\<rparr>) = fb_base R C s"
  by (simp_all add: fb_ok_def fb_base_def arrays_ok_def queue_ok_def plot_ok_def queue_mapped_def)

section \<open>Cells\<close>

lemma cell_word:
  fixes x y R C :: u64
  assumes "x < C" "y < R" "cells R C < 2 ^ 59"
  shows "unat (y * C + x) = unat y * unat C + unat x" "unat y * unat C + unat x < cells R C"
proof -
  have xy: "unat x < unat C" "unat y < unat R" using assms by (simp_all add: word_less_nat_alt)
  then have "Suc (unat y) * unat C \<le> unat R * unat C" by (intro mult_right_mono) auto
  then show lt: "unat y * unat C + unat x < cells R C" using xy(1) by (simp add: cells_def)
  then have "unat y * unat C + unat x < 2 ^ 64" using assms(3) by simp
  then show "unat (y * C + x) = unat y * unat C + unat x" by (simp add: unat_word_ariths)
qed

text \<open>The entries of the queue are different cells, so a new cell finds room.\<close>

lemma queue_room:
  assumes "fb_ok R C s" "qmap s i = None" "i < cells R C"
  shows "unat (queue_i s) < cells R C"
proof -
  let ?n = "unat (queue_i s)" and ?f = "\<lambda>k. cell C (queue s k)"
  have m: "qmap s (?f k) = Some k" if "k < ?n" for k
    using assms(1) that by (auto simp: fb_ok_def queue_mapped_def)
  have "inj_on ?f {..<?n}"
  proof (rule inj_onI)
    fix a b assume ab: "a \<in> {..<?n}" "b \<in> {..<?n}" and eq: "?f a = ?f b"
    have "qmap s (?f a) = Some a" "qmap s (?f b) = Some b" using ab by (auto intro: m)
    then have "Some a = Some b" unfolding eq by (rule trans [OF sym])
    then show "a = b" by (rule option.inject [THEN iffD1])
  qed
  moreover have "?f ` {..<?n} \<subseteq> {..<cells R C} - {i}"
  proof
    fix j assume "j \<in> ?f ` {..<?n}"
    then obtain k where k: "k < ?n" "j = ?f k" by auto
    then have "qi_x (queue s k) < C" "qi_y (queue s k) < R" "cells R C < 2 ^ 59"
      using assms(1) by (auto simp: fb_ok_def fb_base_def queue_ok_def arrays_ok_def)
    then have "j < cells R C" using cell_word(2) k(2) by (auto simp: cell_def)
    moreover have "j \<noteq> i" using m [OF k(1)] k(2) assms(2) by auto
    ultimately show "j \<in> {..<cells R C} - {i}" by simp
  qed
  ultimately have "card {..<?n} \<le> card ({..<cells R C} - {i})"
    by (intro card_inj_on_le) auto
  then show ?thesis using assms(3) by simp
qed

lemma arrays_get:
  assumes "fb_base R C s" "i < cells R C"
  shows "grid_get i s = ret (grid s i)" "map_get i s = ret (qmap s i)" "grid_set i c s = ret (s\<lparr>grid := (grid s)(i := c)\<rparr>)"
    "fc_c (grid s i) < 256"
  using assms by (auto simp: grid_get_def map_get_def grid_set_def fb_base_def arrays_ok_def)

lemma cell_char_ok:
  assumes "fb_base R C s" "i < cells R C"
  shows "returns (cell_char i s) (\<lambda>c. fc_c c < 256)"
  using assms arrays_get [OF assms]
  by (auto simp: cell_char_def split: option.split) (auto simp: fb_base_def queue_ok_def)

definition fb_ctx :: "u64 \<Rightarrow> u64 \<Rightarrow> 'a flanterm_fb_context_scheme \<Rightarrow> bool" where
  "fb_ctx R C s \<longleftrightarrow> rows s = R \<and> cols s = C \<and> fb_ok R C s"

lemma push_to_queue_ok:
  assumes s: "fb_ctx R C s" and c: "fc_c c < 256"
  shows "returns (push_to_queue c x y s) (\<lambda>s'. fb_ctx R C s' \<and> core s' = core s)"
proof (cases "x < C \<and> y < R")
  case True
  have rc: "rows s = R" "cols s = C" and ok: "fb_ok R C s" using s by (auto simp: fb_ctx_def)
  have n: "cells R C < 2 ^ 59" using ok by (auto simp: fb_ok_def fb_base_def arrays_ok_def)
  define i where "i = unat y * unat C + unat x"
  have i: "unat (y * C + x) = i" "i < cells R C" using cell_word True n by (auto simp: i_def)
  have base: "fb_base R C s" using ok by (simp add: fb_ok_def)
  note get = arrays_get [OF base i(2)]
  show ?thesis
  proof (cases "qmap s i")
    case None
    let ?k = "unat (queue_i s)"
    define s' where "s' = s\<lparr>queue := (queue s)(?k := \<lparr>qi_x = x, qi_y = y, qi_c = c\<rparr>), queue_i := queue_i s + 1,
       qmap := (qmap s)(i := Some ?k)\<rparr>"
    have room: "?k < cells R C" by (rule queue_room [OF ok None i(2)])
    have qsz: "unat (queue_size s) = 32 * cells R C" using base by (auto simp: fb_base_def arrays_ok_def)
    have inc: "unat (queue_i s + 1) = Suc ?k" using room n by (simp add: unat_word_ariths)
    have cell: "cell C \<lparr>qi_x = x, qi_y = y, qi_c = c\<rparr> = i" by (simp add: cell_def i_def)
    have other: "cell C (queue s k) \<noteq> i" if "k < ?k" for k
      using ok None that by (auto simp: fb_ok_def queue_mapped_def)
    have "arrays_ok R C s'" "plot_ok s'" using base room inc
      by (auto simp: s'_def fb_base_def arrays_ok_def plot_ok_def Let_def)
    moreover have "queue_ok R C s'"
      using base True c inc cell None by (auto simp: s'_def fb_base_def queue_ok_def less_Suc_eq)
    moreover have "queue_mapped C s'"
      using ok inc cell other by (auto simp: s'_def fb_ok_def queue_mapped_def less_Suc_eq)
    ultimately have "fb_ctx R C s'" using rc by (simp add: fb_ctx_def fb_ok_def fb_base_def s'_def)
    moreover have "core s' = core s" by (simp add: s'_def)
    moreover have "push_to_queue c x y s = (if compare_char (grid s i) c then ret s else ret s')"
      using True rc i get None room qsz by (auto simp: push_to_queue_def Let_def s'_def not_le)
    ultimately show ?thesis using s by simp
  next
    case (Some k)
    define s' where "s' = s\<lparr>queue := (queue s)(k := (queue s k)\<lparr>qi_c := c\<rparr>)\<rparr>"
    have cell: "cell C (queue s' j) = cell C (queue s j)" for j by (auto simp: s'_def cell_def)
    have "arrays_ok R C s'" "plot_ok s'" using base by (auto simp: s'_def fb_base_def arrays_ok_def plot_ok_def)
    moreover have "queue_ok R C s'"
      using base c unfolding queue_ok_def cell by (auto simp: s'_def fb_base_def queue_ok_def)
    moreover have "queue_mapped C s'"
      using ok unfolding queue_mapped_def cell by (auto simp: s'_def fb_ok_def queue_mapped_def)
    ultimately have "fb_ctx R C s'" using rc by (simp add: fb_ctx_def fb_ok_def fb_base_def s'_def)
    then show ?thesis using True rc i get Some by (auto simp: push_to_queue_def Let_def s'_def not_le)
  qed
next
  case False
  then have "push_to_queue c x y s = ret s" using s by (auto simp: push_to_queue_def fb_ctx_def not_less)
  then show ?thesis using s by simp
qed

section \<open>Plotting\<close>

definition plotted :: "'a flanterm_fb_context_scheme \<Rightarrow> 'a flanterm_fb_context_scheme \<Rightarrow> bool" where
  "plotted s s' \<longleftrightarrow> (\<exists>v. s' = s\<lparr>vram := v\<rparr>)"

lemma plotted_refl [simp]: "plotted s s"
  unfolding plotted_def by (rule exI [of _ "vram s"]) simp

lemma plotted_vram: "plotted s s' \<Longrightarrow> plotted s (s'\<lparr>vram := v\<rparr>)"
  by (auto simp: plotted_def)

lemma plot_line_ok:
  assumes "plotted s s'" "\<And>gx s'. gx < w \<Longrightarrow> plotted s s' \<Longrightarrow> returns (pix gx s') (\<lambda>_. True)"
  shows "returns (plot_line pix w inner dest s') (\<lambda>r. plotted s (snd r))"
  unfolding plot_line_def
proof (rule returns_for_each)
  fix gx and p :: "addr \<times> 'a flanterm_fb_context_scheme"
  assume "gx \<in> set [0..<w]" "plotted s (snd p)"
  then show "returns (case p of (fb_line, s) \<Rightarrow>
      rbind (pix gx s) (\<lambda>v. ret (fb_line + 4 * inner, s\<lparr>vram := (vram s)(fb_line := v)\<rparr>))) (\<lambda>r. plotted s (snd r))"
    using assms(2) [of gx "snd p"] by (cases p) (auto intro!: plotted_vram elim!: returns_bind)
qed (use assms(1) in simp)

lemma plot_glyph_ok:
  assumes "\<And>gy gx s'. gy < h \<Longrightarrow> gx < w \<Longrightarrow> plotted s s' \<Longrightarrow> returns (pix gy gx s') (\<lambda>_. True)"
  shows "returns (plot_glyph pix h w d s) (plotted s)"
proof -
  obtain dest outer inner where d: "d = (dest, outer, inner)" by (cases d)
  have "returns (for_each (\<lambda>gy (dest, s). rbind (plot_line (pix gy) w inner dest s) (\<lambda>(_, s). ret (dest + 4 * outer, s)))
               [0..<h] (dest, s)) (\<lambda>r. plotted s (snd r))"
  proof (rule returns_for_each)
    fix gy and p :: "addr \<times> 'a flanterm_fb_context_scheme"
    assume h: "gy \<in> set [0..<h]" "plotted s (snd p)"
    have "returns (plot_line (pix gy) w inner (fst p) (snd p)) (\<lambda>r. plotted s (snd r))"
      using h assms by (intro plot_line_ok) auto
    then show "returns (case p of (dest, s) \<Rightarrow>
        rbind (plot_line (pix gy) w inner dest s) (\<lambda>(_, s). ret (dest + 4 * outer, s))) (\<lambda>r. plotted s (snd r))"
      by (cases p) (auto elim!: returns_bind)
  qed simp
  then show ?thesis unfolding plot_glyph_def d by (auto elim!: returns_bind)
qed

text \<open>The dot at \<open>(row, col)\<close> of glyph \<open>g\<close> lies in the table of 256 glyphs of \<open>h * w\<close> dots.\<close>

lemma dot_index:
  fixes g h w row col :: nat
  assumes "g < 256" "row < h" "col < w"
  shows "g * h * w + row * w + col < 256 * h * w" "g * h * w < 256 * h * w" "g * h \<le> g * h * w"
proof -
  have "Suc g * (h * w) \<le> 256 * (h * w)" using assms(1) by (intro mult_right_mono) auto
  moreover have "Suc row * w \<le> h * w" using assms(2) by (intro mult_right_mono) auto
  ultimately show "g * h * w + row * w + col < 256 * h * w" using assms(3) by (simp only: mult_Suc mult.assoc)
  then show "g * h * w < 256 * h * w" by linarith
  show "g * h \<le> g * h * w" using assms(3) by (cases w) auto
qed

lemma font_index:
  assumes "plot_ok s" "fc_c c < 256" "row < unat (font_height s)" "col < unat (font_width s)"
  shows "returns (font_get (glyph_index s c + row * unat (font_width s) + col) s) (\<lambda>_. True)"
proof -
  let ?h = "unat (font_height s)" and ?w = "unat (font_width s)" and ?g = "unat (fc_c c)"
  have sz: "256 * ?h * ?w < 2 ^ 64" "unat (font_bool_size s) = 256 * ?h * ?w" using assms(1) by (simp_all add: plot_ok_def)
  have c: "?g < 256" using assms(2) by (simp add: word_less_nat_alt)
  note dot = dot_index [OF c assms(3,4)]
  have lt: "?g * ?h * ?w < 2 ^ 64" "?g * ?h < 2 ^ 64" using dot sz(1) by linarith+
  have "unat (ucast (fc_c c) * font_height s) = ?g * ?h"
    using lt(2) by (simp only: unat_word_ariths unat_ucast_32) simp
  then have "glyph_index s c = ?g * ?h * ?w"
    using lt(1) unfolding glyph_index_def unat_word_ariths(2) by simp
  then show ?thesis using dot(1) sz(2) by (simp only: font_get_def) simp
qed

lemma plotted_fields:
  assumes "plotted s s'"
  shows "font_width s' = font_width s" "font_height s' = font_height s" "font_scale_x s' = font_scale_x s"
    "font_scale_y s' = font_scale_y s" "plot_ok s' = plot_ok s" "glyph_index s' c = glyph_index s c"
    "scaled_row s' gy = scaled_row s gy"
  using assms by (auto simp: plotted_def plot_ok_def glyph_index_def scaled_row_def)

lemma scaled_row_less:
  assumes "gy < unat (glyph_height s)" "unat (glyph_height s) = unat (font_height s) * unat (font_scale_y s)"
  shows "scaled_row s gy < unat (font_height s)"
proof -
  have gy: "unat (of_nat gy :: u64) = gy"
    using assms(1) unat_lt64(1) [of "glyph_height s"] by (intro unat_of_nat_lt) simp
  have "scaled_row s gy \<le> unat (of_nat gy div font_scale_y s)"
    unfolding scaled_row_def by (simp add: unsigned_ucast_eq)
  also have "\<dots> = gy div unat (font_scale_y s)" by (simp add: unat_div gy)
  also have "\<dots> < unat (font_height s)" using assms by (intro less_mult_imp_div_less) simp
  finally show ?thesis .
qed

lemma plot_char_ok:
  assumes "plot_ok s" "fc_c c < 256"
  shows "returns (plot_char c x y s) (plotted s)"
proof (cases "plot_char_fn s = PLOT_UNSCALED_UNCANVAS")
  case True
  then have h: "glyph_height s = font_height s" using assms(1) by (auto simp: plot_ok_def)
  have "returns (font_get (glyph_index s c + gy * unat (font_width s) + gx) s') (\<lambda>_. True)"
    if "gy < unat (glyph_height s)" "gx < unat (font_width s)" "plotted s s'" for gy gx s'
    using font_index [of s' c gy gx] that assms h by (simp add: plotted_fields [OF that(3)])
  then have "returns (plot_glyph (\<lambda>gy fx s'. rbind (font_get (glyph_index s c + gy * unat (font_width s') + fx) s') (\<lambda>on.
      ret (if on then fg else bg))) (unat (glyph_height s)) (unat (font_width s)) d s) (plotted s)" for fg bg d
    by (intro plot_glyph_ok returns_bind [where P = "\<lambda>_. True"]) (simp_all add: plotted_fields(1))
  then show ?thesis using True by (simp add: plot_char_def plot_char_unscaled_uncanvas_def Let_def)
next
  case False
  then have f: "plot_char_fn s = PLOT_SCALED_UNCANVAS"
    and h: "unat (glyph_height s) = unat (font_height s) * unat (font_scale_y s)"
    using assms(1) by (auto simp: plot_ok_def)
  have "returns (font_get (glyph_index s c + scaled_row s gy * unat (font_width s) + gx div unat (font_scale_x s)) s') (\<lambda>_. True)"
    if "gy < unat (glyph_height s)" "gx < unat (font_width s) * unat (font_scale_x s)" "plotted s s'" for gy gx s'
    using font_index [of s' c "scaled_row s gy" "gx div unat (font_scale_x s)"] that assms scaled_row_less [OF that(1) h]
      less_mult_imp_div_less [OF that(2)] by (simp add: plotted_fields [OF that(3)])
  then have "returns (plot_glyph (\<lambda>gy gx s'. rbind (font_get (glyph_index s c + scaled_row s' gy * unat (font_width s') +
      gx div unat (font_scale_x s')) s') (\<lambda>on. ret (if on then fg else bg)))
      (unat (glyph_height s)) (unat (font_width s) * unat (font_scale_x s)) d s) (plotted s)" for fg bg d
    by (intro plot_glyph_ok returns_bind [where P = "\<lambda>_. True"]) (simp_all add: plotted_fields(1,3,7))
  then show ?thesis using f by (simp add: plot_char_def plot_char_scaled_uncanvas_def Let_def)
qed

section \<open>Scrolling, clearing and moving\<close>

abbreviation kept :: "u64 \<Rightarrow> u64 \<Rightarrow> 'a flanterm_fb_context_scheme \<Rightarrow> 'a flanterm_fb_context_scheme \<Rightarrow> bool" where
  "kept R C s s' \<equiv> fb_ctx R C s' \<and> core s' = core s"

lemma push_kept: "kept R C s s' \<Longrightarrow> fc_c c < 256 \<Longrightarrow> returns (push_to_queue c x y s') (kept R C s)"
  by (rule returns_mono, rule push_to_queue_ok) auto

lemma copy_cell_kept:
  assumes "kept R C s s'" "i < cells R C"
  shows "returns (rbind (cell_char i s') (\<lambda>c. push_to_queue c x y s')) (kept R C s)"
proof -
  have "returns (cell_char i s') (\<lambda>c. fc_c c < 256)"
    using assms by (intro cell_char_ok) (auto simp: fb_ctx_def fb_ok_def)
  then show ?thesis by (rule returns_bind) (rule push_kept [OF assms(1)])
qed

lemma fill_kept:
  "kept R C s s' \<Longrightarrow> fc_c c < 256 \<Longrightarrow>
   returns (for_each (\<lambda>i s. push_to_queue c (f i s) (g i s) s) xs s') (kept R C s)"
  by (rule returns_for_each) (auto intro: push_kept)

lemma copy_kept:
  "kept R C s s' \<Longrightarrow> (\<And>i. i \<in> set xs \<Longrightarrow> i < cells R C) \<Longrightarrow>
   returns (for_each (\<lambda>i s. rbind (cell_char i s) (\<lambda>c. push_to_queue c (f i s) (g i s) s)) xs s') (kept R C s)"
  by (rule returns_for_each) (auto intro: copy_cell_kept)

lemma empty_char_ascii [simp]: "fc_c (empty_char s) < 256"
  by (simp add: empty_char_def)

lemma unat_mult_le: "unat (a * b :: u64) \<le> unat a * unat b"
  by (simp add: unat_word_ariths)

lemma flanterm_fb_scroll_ok:
  assumes "fb_ctx R C s" "scroll_bottom_margin s \<le> R"
  shows "returns (flanterm_fb_scroll s) (kept R C s)"
proof -
  have "unat (scroll_bottom_margin s) * unat C \<le> cells R C"
    using assms(2) unfolding cells_def word_le_nat_alt by (intro mult_right_mono) auto
  then have "unat (scroll_bottom_margin s * cols s) \<le> cells R C"
    using unat_mult_le [of "scroll_bottom_margin s" "cols s"] assms(1) by (auto simp: fb_ctx_def)
  then show ?thesis unfolding flanterm_fb_scroll_def Let_def using assms
    by (intro returns_bind [where P = "kept R C s"] copy_kept fill_kept) auto
qed

lemma flanterm_fb_revscroll_ok:
  assumes "fb_ctx R C s" "scroll_bottom_margin s \<le> R" "0 < scroll_bottom_margin s"
  shows "returns (flanterm_fb_revscroll s) (kept R C s)"
proof -
  let ?b = "scroll_bottom_margin s - 1"
  have "scroll_bottom_margin s \<noteq> 0" using assms(3) by auto
  then have "unat ?b < unat R"
    using assms(2,3) unat_minus_one [of "scroll_bottom_margin s"] by (auto simp: word_le_nat_alt word_less_nat_alt)
  then have "unat ?b * unat C \<le> cells R C" unfolding cells_def by (intro mult_right_mono) auto
  then have le: "unat (?b * cols s) \<le> cells R C"
    using unat_mult_le [of ?b "cols s"] assms(1) by (simp add: fb_ctx_def)
  have "unat (?b * cols s - 1) < cells R C" if "?b * cols s - 1 \<noteq> - 1"
  proof -
    have "?b * cols s \<noteq> 0" using that by auto
    then have "unat (?b * cols s - 1) = unat (?b * cols s) - 1" "unat (?b * cols s) > 0"
      by (auto simp: unat_minus_one unat_gt_0)
    then show ?thesis using le by linarith
  qed
  then show ?thesis unfolding flanterm_fb_revscroll_def Let_def using assms
    by (intro returns_bind [where P = "kept R C s"] copy_kept fill_kept) (auto split: if_splits)
qed

lemma flanterm_fb_clear_ok:
  assumes "fb_ctx R C s"
  shows "returns (flanterm_fb_clear move s) (kept R C s)"
  unfolding flanterm_fb_clear_def Let_def using assms
  by (intro returns_bind [where P = "kept R C s"] fill_kept) (auto simp: fb_ctx_def)

lemma flanterm_fb_move_character_ok:
  assumes "fb_ctx R C s"
  shows "returns (flanterm_fb_move_character nx ny ox oy s) (kept R C s)"
proof (cases "ox < C \<and> oy < R")
  case True
  have "cells R C < 2 ^ 59" using assms by (auto simp: fb_ctx_def fb_ok_def fb_base_def arrays_ok_def)
  then have "unat (ox + oy * cols s) < cells R C"
    using True cell_word [of ox C oy R] assms by (simp add: fb_ctx_def add.commute)
  then show ?thesis using assms by (auto simp: flanterm_fb_move_character_def intro: copy_cell_kept)
next
  case False
  then show ?thesis using assms by (auto simp: flanterm_fb_move_character_def fb_ctx_def not_less)
qed

section \<open>The cursor and the flush\<close>

definition base_ctx :: "u64 \<Rightarrow> u64 \<Rightarrow> 'a flanterm_fb_context_scheme \<Rightarrow> 'a flanterm_fb_context_scheme \<Rightarrow> bool" where
  "base_ctx R C s s' \<longleftrightarrow> rows s' = R \<and> cols s' = C \<and> fb_base R C s' \<and> core s' = core s \<and> queue_i s' = queue_i s"

lemma base_ctx_plotted: "base_ctx R C s s' \<Longrightarrow> plotted s' s'' \<Longrightarrow> base_ctx R C s s''"
  by (auto simp: plotted_def base_ctx_def)

lemma base_ctx_store:
  assumes "base_ctx R C s s'" "i < cells R C" "fc_c c < 256"
  shows "grid_set i c s' = ret (s'\<lparr>grid := (grid s')(i := c)\<rparr>)"
    "base_ctx R C s (map_clear i (s'\<lparr>grid := (grid s')(i := c)\<rparr>))"
proof -
  have base: "fb_base R C s'" using assms(1) by (simp add: base_ctx_def)
  show "grid_set i c s' = ret (s'\<lparr>grid := (grid s')(i := c)\<rparr>)" by (rule arrays_get(3) [OF base assms(2)])
  have "fb_base R C (map_clear i (s'\<lparr>grid := (grid s')(i := c)\<rparr>))"
    using base assms(3) by (auto simp: fb_base_def arrays_ok_def queue_ok_def plot_ok_def map_clear_def)
  then show "base_ctx R C s (map_clear i (s'\<lparr>grid := (grid s')(i := c)\<rparr>))"
    using assms(1) by (simp add: base_ctx_def map_clear_def)
qed

lemma base_ctx_plot:
  assumes "base_ctx R C s s'" "fc_c c < 256"
  shows "returns (plot_char c x y s') (\<lambda>s''. base_ctx R C s s'' \<and> queue s'' = queue s' \<and> qmap s'' = qmap s')"
proof -
  have "returns (plot_char c x y s') (plotted s')"
    using assms by (intro plot_char_ok) (auto simp: base_ctx_def fb_base_def)
  then show ?thesis by (rule returns_mono) (use base_ctx_plotted [OF assms(1)] in \<open>auto simp: plotted_def\<close>)
qed

lemma base_ctx_cell:
  assumes "base_ctx R C s s'" "x < C" "y < R"
  shows "unat (y * cols s' + x) = unat y * unat C + unat x" "unat (x + y * cols s') = unat y * unat C + unat x"
    "unat y * unat C + unat x < cells R C"
proof -
  have "cells R C < 2 ^ 59" "cols s' = C" using assms(1) by (auto simp: base_ctx_def fb_base_def arrays_ok_def)
  then show "unat (y * cols s' + x) = unat y * unat C + unat x" "unat (x + y * cols s') = unat y * unat C + unat x"
    "unat y * unat C + unat x < cells R C"
    using cell_word [OF assms(2,3)] by (simp_all add: add.commute)
qed

lemma draw_cursor_ok:
  assumes s: "base_ctx R C s0 s"
  shows "returns (draw_cursor s) (base_ctx R C s0)"
proof (cases "cursor_x s < C \<and> cursor_y s < R")
  case True
  define i where "i = unat (cursor_y s) * unat C + unat (cursor_x s)"
  note cell = base_ctx_cell [OF s, of "cursor_x s" "cursor_y s", folded i_def]
  have rc: "rows s = R" "cols s = C" and base: "fb_base R C s" using s by (auto simp: base_ctx_def)
  have i: "unat (cursor_x s + cursor_y s * cols s) = i" "i < cells R C" using True cell by auto
  note get = arrays_get [OF base i(2)]
  obtain c where c: "cell_char i s = ret c" "fc_c c < 256" using cell_char_ok [OF base i(2)] by (rule returnsE)
  have "returns (plot_char (c\<lparr>fc_fg := fc_bg c, fc_bg := fc_fg c\<rparr>) (cursor_x s) (cursor_y s) s)
      (\<lambda>s'. base_ctx R C s0 s' \<and> queue s' = queue s \<and> qmap s' = qmap s)"
    using c(2) by (intro base_ctx_plot s) simp
  then obtain s' where s': "plot_char (c\<lparr>fc_fg := fc_bg c, fc_bg := fc_fg c\<rparr>) (cursor_x s) (cursor_y s) s = ret s'"
    "base_ctx R C s0 s'" "queue s' = queue s" by (auto elim: returnsE)
  have "fc_c (qi_c (queue s k)) < 256" if "qmap s i = Some k" for k
    using base that by (auto simp: fb_base_def queue_ok_def)
  then show ?thesis using True rc i get(2) c(1) s' base_ctx_store [OF s'(2) i(2)]
    by (auto simp: draw_cursor_def Let_def not_le split: option.split)
next
  case False
  then show ?thesis using s by (auto simp: draw_cursor_def base_ctx_def not_less)
qed

text \<open>After the first \<open>k\<close> entries of the queue, only later entries are mapped.\<close>

lemma flush_item_ok:
  assumes s: "base_ctx R C s0 s" and k: "k < unat (queue_i s0)" and m: "\<And>i j. qmap s i = Some j \<Longrightarrow> k \<le> j"
  shows "returns (flush_item k s) (\<lambda>s'. base_ctx R C s0 s' \<and> (\<forall>i j. qmap s' i = Some j \<longrightarrow> Suc k \<le> j))"
proof -
  define q where "q = queue s k"
  define i where "i = unat (qi_y q) * unat C + unat (qi_x q)"
  have base: "fb_base R C s" and n: "queue_i s = queue_i s0" using s by (auto simp: base_ctx_def)
  have q: "qi_x q < C" "qi_y q < R" "fc_c (qi_c q) < 256"
    and qm: "\<And>i' k'. qmap s i' = Some k' \<Longrightarrow> cell C (queue s k') = i'"
    using base k n by (auto simp: q_def fb_base_def queue_ok_def)
  have sz: "32 * Suc k \<le> unat (queue_size s)" using base k n by (auto simp: fb_base_def arrays_ok_def)
  note cell = base_ctx_cell [OF s q(1,2), folded i_def]
  have only: "i' = i" if "qmap s i' = Some k" for i' using qm [OF that] by (simp add: cell_def i_def q_def)
  show ?thesis
  proof (cases "qmap s i")
    case None
    have "Suc k \<le> j" if "qmap s i' = Some j" for i' j
      using m [OF that] that only [of i'] None by (cases "j = k") auto
    moreover have "flush_item k s = ret s"
      using sz cell None arrays_get(2) [OF base cell(3)] by (simp add: flush_item_def Let_def q_def)
    ultimately show ?thesis using s by simp
  next
    case (Some k')
    have "returns (plot_char (qi_c q) (qi_x q) (qi_y q) s)
        (\<lambda>s'. base_ctx R C s0 s' \<and> queue s' = queue s \<and> qmap s' = qmap s)"
      by (rule base_ctx_plot [OF s q(3)])
    then obtain s' where s': "plot_char (qi_c q) (qi_x q) (qi_y q) s = ret s'" "base_ctx R C s0 s'" "qmap s' = qmap s"
      by (auto elim: returnsE)
    have "Suc k \<le> j" if "qmap s i' = Some j" "i' \<noteq> i" for i' j
      using m [OF that(1)] that only [of i'] by (cases "j = k") auto
    then show ?thesis using sz cell Some arrays_get(2) [OF base cell(3)] s' base_ctx_store [OF s'(2) cell(3) q(3)]
      by (auto simp: flush_item_def Let_def q_def map_clear_def)
  qed
qed

lemma base_ctx_refl: "fb_ctx R C s \<Longrightarrow> base_ctx R C s s"
  by (simp add: fb_ctx_def fb_ok_def base_ctx_def)

lemma call_flush_kept: "fb_ctx R C s \<Longrightarrow> kept R C s (call_flush s)"
  by (auto simp: call_flush_def fb_ctx_def)

text \<open>A context without a mapped cell and with an empty queue meets the invariant between flushes.\<close>

lemma emptied_queue:
  assumes "base_ctx R C s0 s" "\<And>i. qmap s i = None"
  shows "kept R C s0 (s\<lparr>old_cursor_x := x, old_cursor_y := y, queue_i := 0\<rparr>)"
  using assms by (auto simp: base_ctx_def fb_ctx_def fb_ok_def fb_base_def arrays_ok_def queue_ok_def plot_ok_def queue_mapped_def)

lemma flanterm_fb_double_buffer_flush_ok:
  assumes s: "fb_ctx R C s"
  shows "returns (flanterm_fb_double_buffer_flush s) (kept R C s)"
proof -
  let ?n = "unat (queue_i s)"
  let ?done = "\<lambda>k s'. base_ctx R C s s' \<and> (\<forall>i j. qmap s' i = Some j \<longrightarrow> k \<le> j)"
  have 1: "returns (if cursor_enabled s then draw_cursor s else ret s) (base_ctx R C s)"
    using base_ctx_refl [OF s] draw_cursor_ok by auto
  have 2: "returns (for_each flush_item [0..<?n] s1) (?done ?n)" if "base_ctx R C s s1" for s1
    by (rule returns_for_upt) (use that in \<open>auto intro: flush_item_ok\<close>)
  have 3: "returns (if (old_cursor_x s2 \<noteq> cursor_x s2 \<or> old_cursor_y s2 \<noteq> cursor_y s2 \<or> \<not> cursor_enabled s2) \<and>
               old_cursor_x s2 < cols s2 \<and> old_cursor_y s2 < rows s2
            then rbind (grid_get (unat (old_cursor_x s2 + old_cursor_y s2 * cols s2)) s2) (\<lambda>c.
                 plot_char c (old_cursor_x s2) (old_cursor_y s2) s2)
            else ret s2) (\<lambda>s3. base_ctx R C s s3 \<and> qmap s3 = qmap s2)"
    if s2: "base_ctx R C s s2" for s2
  proof (cases "old_cursor_x s2 < cols s2 \<and> old_cursor_y s2 < rows s2")
    case True
    have base: "fb_base R C s2" and "cols s2 = C" "rows s2 = R" using s2 by (auto simp: base_ctx_def)
    then have cell: "unat (old_cursor_x s2 + old_cursor_y s2 * cols s2) < cells R C"
      using base_ctx_cell [OF s2] True by auto
    have "returns (plot_char (grid s2 (unat (old_cursor_x s2 + old_cursor_y s2 * cols s2))) x y s2)
        (\<lambda>s3. base_ctx R C s s3 \<and> qmap s3 = qmap s2)" for x y
      using base_ctx_plot [OF s2 arrays_get(4) [OF base cell]] by (rule returns_mono) auto
    then show ?thesis using s2 arrays_get(1) [OF base cell] by auto
  qed (use s2 in auto)
  have 4: "kept R C s (call_flush (s3\<lparr>old_cursor_x := x, old_cursor_y := y, queue_i := 0\<rparr>))"
    if "base_ctx R C s s3" "\<And>i. qmap s3 i = None" for s3 x y
    using emptied_queue [OF that, where x = x and y = y] call_flush_kept by auto
  have none: "qmap s2 i = None" if "?done ?n s2" for s2 i
  proof (cases "qmap s2 i")
    case (Some j)
    then have "j < unat (queue_i s2)" "?n \<le> j" "queue_i s2 = queue_i s"
      using that by (auto simp: base_ctx_def fb_base_def queue_ok_def)
    then show ?thesis by simp
  qed
  have step: "returns (rbind (m s2) (\<lambda>s3. ret (call_flush (s3\<lparr>old_cursor_x := cursor_x s3, old_cursor_y := cursor_y s3,
      queue_i := 0\<rparr>)))) (kept R C s)"
    if "?done ?n s2" "returns (m s2) (\<lambda>s3. base_ctx R C s s3 \<and> qmap s3 = qmap s2)" for s2 m
    using that(2) by (rule returns_bind) (simp add: 4 none [OF that(1)])
  show ?thesis unfolding flanterm_fb_double_buffer_flush_def
    using 1
  proof (rule returns_bind)
    fix s1 assume s1: "base_ctx R C s s1"
    then have n: "queue_i s1 = queue_i s" by (simp add: base_ctx_def)
    show "returns (rbind (for_each flush_item [0..<unat (queue_i s1)] s1) (\<lambda>s.
     rbind (if ((old_cursor_x s \<noteq> cursor_x s \<or> old_cursor_y s \<noteq> cursor_y s) \<or> \<not> cursor_enabled s) \<and>
               old_cursor_x s < cols s \<and> old_cursor_y s < rows s
            then rbind (grid_get (unat (old_cursor_x s + old_cursor_y s * cols s)) s) (\<lambda>c.
                 plot_char c (old_cursor_x s) (old_cursor_y s) s)
            else ret s) (\<lambda>s.
     ret (call_flush (s\<lparr>old_cursor_x := cursor_x s, old_cursor_y := cursor_y s, queue_i := 0\<rparr>))))) (kept R C s)"
      unfolding n using 2 [OF s1] by (rule returns_bind) (rule step, assumption, simp only: disj_assoc, rule 3, blast)
  qed
qed

section \<open>The backend meets its contract\<close>

lemma flanterm_fb_raw_putchar_ok:
  assumes s: "fb_ctx R C s" and m: "scroll_bottom_margin s \<le> R"
  shows "returns (flanterm_fb_raw_putchar c s) (kept R C s)"
proof -
  let ?s1 = "s\<lparr>cursor_x := 0, cursor_y := cursor_y s + 1\<rparr>"
  have s1: "kept R C s (?s1\<lparr>cursor_y := y\<rparr>)" "kept R C s ?s1" for y using s by (auto simp: fb_ctx_def)
  have "returns (flanterm_fb_scroll (?s1\<lparr>cursor_y := y\<rparr>)) (kept R C (?s1\<lparr>cursor_y := y\<rparr>))" for y
    using s1(1) m by (intro flanterm_fb_scroll_ok) auto
  then have scroll: "returns (flanterm_fb_scroll (?s1\<lparr>cursor_y := y\<rparr>)) (kept R C s)" for y
    by (rule returns_mono) auto
  have "returns (if cursor_x s \<ge> cols s \<and> (cursor_y s < scroll_bottom_margin s - 1 \<or> scroll_enabled s) then
              let s = ?s1 in
              rbind (if cursor_y s = scroll_bottom_margin s
                     then flanterm_fb_scroll (s\<lparr>cursor_y := cursor_y s - 1\<rparr>) else ret s) (\<lambda>s.
              ret (if cursor_y s \<ge> cols s then s\<lparr>cursor_y := cols s - 1\<rparr> else s))
            else ret s) (kept R C s)"
    unfolding Let_def using s s1 scroll
    by (auto simp: fb_ctx_def intro!: returns_bind [where P = "kept R C s"])
  then show ?thesis unfolding flanterm_fb_raw_putchar_def
  proof (rule returns_bind)
    fix s' assume "kept R C s s'"
    then have "kept R C s (s'\<lparr>cursor_x := cursor_x s' + 1\<rparr>)" by (auto simp: fb_ctx_def)
    moreover have "(ucast c :: u32) < 256"
    proof -
      have "unat c < 2 ^ LENGTH(8)" by (rule unsigned_less)
      then show ?thesis by (simp add: word_less_nat_alt unsigned_ucast_eq take_bit_nat_eq_self)
    qed
    ultimately show "returns (let ch = \<lparr>fc_c = ucast c, fc_fg = text_fg s', fc_bg = text_bg s'\<rparr>; x = cursor_x s'
       in push_to_queue ch x (cursor_y s') (s'\<lparr>cursor_x := cursor_x s' + 1\<rparr>)) (kept R C s)"
      unfolding Let_def by (intro push_kept) auto
  qed
qed

text \<open>The invariant reads only the backend's own fields.\<close>

definition fbB :: "u64 \<Rightarrow> u64 \<Rightarrow> 'a flanterm_fb_context_ext \<Rightarrow> bool" where
  "fbB R C m = fb_ok R C (flanterm_context.extend (core (zero_fb_context (\<lambda>_. 0))) m)"

lemma fbB_more: "fbB R C (flanterm_context.more s) = fb_ok R C s"
  by (cases s) (simp add: fbB_def fb_ok_def fb_base_def arrays_ok_def queue_ok_def plot_ok_def queue_mapped_def
    flanterm_context.defs zero_fb_context_def)

abbreviation console_ok :: "u64 \<Rightarrow> u64 \<Rightarrow> 'a flanterm_fb_context_scheme \<Rightarrow> bool" where
  "console_ok R C \<equiv> term_inv (fbB R C) R C"

lemma console_ctx:
  assumes "console_ok R C s"
  shows "fb_ctx R C s" "scroll_bottom_margin s \<le> R" "0 < scroll_bottom_margin s" "0 < R" "0 < C"
  using assms by (auto simp: term_inv_def fb_ctx_def fbB_more)

lemma console_kept:
  assumes "console_ok R C s" "kept R C s s'"
  shows "console_ok R C s'"
  using assms by (simp add: term_inv_def fb_ctx_def fbB_more flanterm_context.truncate_def)

lemma console_returns:
  assumes "console_ok R C s" "returns m (kept R C s)"
  shows "returns m (console_ok R C)"
  using assms(2) by (rule returns_mono) (rule console_kept [OF assms(1)])

lemma colours_ok:
  assumes "fb_ctx R C s"
  shows "length (ansi_colours s) = 8" "length (ansi_bright_colours s) = 8"
  using assms by (auto simp: fb_ctx_def fb_ok_def fb_base_def arrays_ok_def)

lemmas colour_ops =
  flanterm_fb_set_text_fg_def flanterm_fb_set_text_bg_def flanterm_fb_set_text_fg_bright_def
  flanterm_fb_set_text_bg_bright_def flanterm_fb_set_text_fg_rgb_def flanterm_fb_set_text_bg_rgb_def
  flanterm_fb_set_text_fg_default_def flanterm_fb_set_text_bg_default_def flanterm_fb_set_text_fg_default_bright_def
  flanterm_fb_set_text_bg_default_bright_def flanterm_fb_swap_palette_def flanterm_fb_save_state_def
  flanterm_fb_restore_state_def flanterm_fb_set_cursor_pos_def

lemma state_ops_kept:
  assumes "fb_ctx R C s"
  shows "v < 8 \<Longrightarrow> returns (flanterm_fb_set_text_fg v s) (kept R C s)"
    "v < 8 \<Longrightarrow> returns (flanterm_fb_set_text_bg v s) (kept R C s)"
    "v < 8 \<Longrightarrow> returns (flanterm_fb_set_text_fg_bright v s) (kept R C s)"
    "v < 8 \<Longrightarrow> returns (flanterm_fb_set_text_bg_bright v s) (kept R C s)"
    "returns (flanterm_fb_set_text_fg_rgb w s) (kept R C s)" "returns (flanterm_fb_set_text_bg_rgb w s) (kept R C s)"
    "returns (flanterm_fb_set_text_fg_default s) (kept R C s)" "returns (flanterm_fb_set_text_bg_default s) (kept R C s)"
    "returns (flanterm_fb_set_text_fg_default_bright s) (kept R C s)"
    "returns (flanterm_fb_set_text_bg_default_bright s) (kept R C s)"
    "returns (flanterm_fb_swap_palette s) (kept R C s)" "returns (flanterm_fb_save_state s) (kept R C s)"
    "returns (flanterm_fb_restore_state s) (kept R C s)" "returns (flanterm_fb_set_cursor_pos x y s) (kept R C s)"
  using assms colours_ok [OF assms] by (simp_all add: colour_ops fb_ctx_def Let_def word_less_nat_alt)

lemma cursor_pos_ok:
  assumes "console_ok R C s"
  shows "fst (flanterm_fb_get_cursor_pos s) < C" "snd (flanterm_fb_get_cursor_pos s) < R"
proof -
  have "v - 1 < v" if "0 < v" for v :: u64
    using that unat_minus_one [of v] by (cases "v = 0") (auto simp: word_less_nat_alt)
  then show "fst (flanterm_fb_get_cursor_pos s) < C" "snd (flanterm_fb_get_cursor_pos s) < R"
    using console_ctx [OF assms] by (auto simp: flanterm_fb_get_cursor_pos_def fb_ctx_def)
qed

interpretation fbt: terminal_backend fb_backend "fbB R C" R C for R C
proof unfold_locales
  fix s :: "'a flanterm_fb_context_scheme"
  assume s: "console_ok R C s"
  note ctx = console_ctx [OF s]
  note via = console_returns [OF s]
  show "returns (raw_putchar fb_backend c s) (console_ok R C)" for c
    unfolding fb_backend_def by (simp add: via flanterm_fb_raw_putchar_ok ctx)
  show "returns (clear_screen fb_backend m s) (console_ok R C)" for m
    unfolding fb_backend_def by (simp add: via flanterm_fb_clear_ok ctx)
  show "returns (set_cursor_pos fb_backend x y s) (console_ok R C)" for x y
    unfolding fb_backend_def by (simp add: via state_ops_kept ctx)
  show "fst (get_cursor_pos fb_backend s) < C \<and> snd (get_cursor_pos fb_backend s) < R"
    unfolding fb_backend_def using cursor_pos_ok [OF s] by simp
  show "v < 8 \<Longrightarrow> returns (set_text_fg fb_backend v s) (console_ok R C)"
    "v < 8 \<Longrightarrow> returns (set_text_bg fb_backend v s) (console_ok R C)"
    "v < 8 \<Longrightarrow> returns (set_text_fg_bright fb_backend v s) (console_ok R C)"
    "v < 8 \<Longrightarrow> returns (set_text_bg_bright fb_backend v s) (console_ok R C)"
    "returns (set_text_fg_rgb fb_backend w s) (console_ok R C)"
    "returns (set_text_bg_rgb fb_backend w s) (console_ok R C)"
    "returns (set_text_fg_default fb_backend s) (console_ok R C)"
    "returns (set_text_bg_default fb_backend s) (console_ok R C)"
    "returns (set_text_fg_default_bright fb_backend s) (console_ok R C)"
    "returns (set_text_bg_default_bright fb_backend s) (console_ok R C)"
    "returns (swap_palette fb_backend s) (console_ok R C)"
    "returns (save_state_op fb_backend s) (console_ok R C)"
    "returns (restore_state_op fb_backend s) (console_ok R C)" for v w
    unfolding fb_backend_def by (simp_all add: via state_ops_kept ctx)
  show "returns (move_character fb_backend nx ny ox oy s) (console_ok R C)" for nx ny ox oy
    unfolding fb_backend_def by (simp add: via flanterm_fb_move_character_ok ctx)
  show "returns (scroll_up fb_backend s) (console_ok R C)"
    unfolding fb_backend_def by (simp add: via flanterm_fb_scroll_ok ctx)
  show "returns (revscroll fb_backend s) (console_ok R C)"
    unfolding fb_backend_def by (simp add: via flanterm_fb_revscroll_ok ctx)
  show "returns (double_buffer_flush fb_backend s) (console_ok R C)"
    unfolding fb_backend_def by (simp add: via flanterm_fb_double_buffer_flush_ok ctx)
  show "callback fb_backend = Some f \<Longrightarrow> returns (f k p q r s) (console_ok R C)" for f k p q r
    by (simp add: fb_backend_def)
qed

section \<open>Initialisation\<close>

text \<open>A refresh of a context with an empty queue draws it and changes nothing else.\<close>

lemma refresh_pixel_plotted: "canvas s = None \<Longrightarrow> plotted s s' \<Longrightarrow> returns (refresh_pixel y x s') (plotted s)"
proof -
  assume "canvas s = None" and p: "plotted s s'"
  then have "canvas s' = None" by (auto simp: plotted_def)
  then show ?thesis unfolding refresh_pixel_def Let_def split_beta by (simp add: plotted_vram [OF p])
qed

lemma refresh_background:
  assumes "canvas s = None"
  shows "returns (for_each (\<lambda>y. for_each (\<lambda>x. refresh_pixel (of_nat y) (of_nat x)) [0..<w]) [0..<h] s) (plotted s)"
proof (rule returns_for_each)
  fix y s' assume s': "plotted s s'"
  show "returns (for_each (\<lambda>x. refresh_pixel (of_nat y) (of_nat x)) [0..<w] s') (plotted s)"
    by (rule returns_for_each) (rule s', rule refresh_pixel_plotted [OF assms])
qed (rule plotted_refl)

lemma flanterm_fb_full_refresh_ok:
  assumes s: "fb_ctx R C s" and q: "queue_i s = 0"
  shows "returns (flanterm_fb_full_refresh s) (kept R C s)"
proof -
  let ?P = "base_ctx R C s"
  have "returns (for_each (\<lambda>y. for_each (\<lambda>x. refresh_pixel (of_nat y) (of_nat x)) [0..<unat (width s)])
      [0..<unat (height s)] s) (plotted s)"
    using s by (intro refresh_background) (auto simp: fb_ctx_def fb_ok_def fb_base_def arrays_ok_def)
  then have 1: "returns (for_each (\<lambda>y. for_each (\<lambda>x. refresh_pixel (of_nat y) (of_nat x)) [0..<unat (width s)])
      [0..<unat (height s)] s) ?P"
    by (rule returns_mono) (rule base_ctx_plotted [OF base_ctx_refl [OF s]])
  have 2: "returns (for_each (\<lambda>i s. rbind (grid_get i s) (\<lambda>c. plot_char c (of_nat i mod cols s) (of_nat i div cols s) s))
              [0..<unat (rows s1 * cols s1)] s1) ?P" if s1: "?P s1" for s1
  proof (rule returns_for_each)
    fix i s2 assume i: "i \<in> set [0..<unat (rows s1 * cols s1)]" and s2: "?P s2"
    have base: "fb_base R C s2" using s2 by (simp add: base_ctx_def)
    have "i < cells R C" using i s1 unat_mult_le [of R C] by (simp add: base_ctx_def cells_def)
    note get = arrays_get(1,4) [OF base this]
    have "returns (plot_char (grid s2 i) x y s2) ?P" for x y
      using base_ctx_plot [OF s2 get(2)] by (rule returns_mono) auto
    then show "returns (rbind (grid_get i s2) (\<lambda>c. plot_char c (of_nat i mod cols s2) (of_nat i div cols s2) s2)) ?P"
      using get(1) by simp
  qed (use s1 in simp)
  have 3: "returns (if cursor_enabled s2 then draw_cursor s2 else ret s2) ?P" if "?P s2" for s2
    using that draw_cursor_ok by auto
  have 4: "kept R C s (call_flush s3)" if "?P s3" for s3
    using that q call_flush_kept [of R C s3] by (auto simp: base_ctx_def fb_ctx_def fb_ok_def queue_mapped_def)
  show ?thesis unfolding flanterm_fb_full_refresh_def
    by (rule returns_bind [OF 1], rule returns_bind [OF 2], assumption, rule returns_bind [OF 3], assumption) (simp add: 4)
qed

section \<open>The pool suffices\<close>

text \<open>An allocation consumes at most its size and 16 bytes of rounding; \<open>n\<close> bounds what is already used.\<close>

definition bump_used :: "nat \<Rightarrow> bump \<Rightarrow> bool" where
  "bump_used n bs \<longleftrightarrow> \<not> bump_allocated_instance bs \<and>
     (if base_offset_added bs then unat (bump_alloc_ptr bs) \<le> n else bump_alloc_ptr bs = 0 \<and> 16 \<le> n)"

lemma bump_alloc_room:
  assumes p: "bump_used n bs"
    and sz: "n + unat sz + 16 \<le> 873000" and pool: "pool \<noteq> 0" "unat pool + 873000 < 2 ^ 64"
  shows "fst (bump_alloc pool sz bs) \<noteq> NULL \<and> bump_used (n + unat sz + 16) (snd (bump_alloc pool sz bs))"
proof -
  define bs1 where "bs1 = (if \<not> base_offset_added bs then
                  (let bs = (if pool AND 0xF \<noteq> 0
                             then bs\<lparr>bump_alloc_ptr := bump_alloc_ptr bs + (0x10 - (pool AND 0xF))\<rparr> else bs)
                   in bs\<lparr>base_offset_added := True\<rparr>) else bs)"
  define sz1 where "sz1 = (if sz AND 0xF \<noteq> 0 then (sz + 0x10) AND NOT 0xF else sz)"
  have "pool AND 0xF \<le> 0xF" "(sz + 0x10) AND NOT 0xF \<le> sz + 0x10" by (rule word_and_le1, rule word_and_le2)
  then have le: "unat (pool AND 0xF) \<le> 15" "unat ((sz + 0x10) AND NOT 0xF) \<le> unat (sz + 0x10)"
    unfolding word_le_nat_alt by simp_all
  from le(1) have "unat (0x10 - (pool AND 0xF)) \<le> 16" by (simp add: unat_sub word_le_nat_alt)
  then have n1: "unat (bump_alloc_ptr bs1) \<le> n" "base_offset_added bs1" "\<not> bump_allocated_instance bs1"
    using p by (auto simp: bs1_def bump_used_def Let_def split: if_splits)
  have "unat (sz + 0x10) \<le> unat sz + 16" by (simp add: unat_word_ariths)
  with le(2) have "unat ((sz + 0x10) AND NOT 0xF) \<le> unat sz + 16" by (rule le_trans)
  then have sz1: "unat sz1 \<le> unat sz + 16" unfolding sz1_def by simp
  have next_ptr: "unat (bump_alloc_ptr bs1 + sz1) = unat (bump_alloc_ptr bs1) + unat sz1"
    using n1(1) sz1 sz by (simp add: unat_word_ariths)
  have "unat (pool + bump_alloc_ptr bs1) = unat pool + unat (bump_alloc_ptr bs1)"
    using n1(1) sz pool(2) by (simp add: unat_word_ariths)
  moreover have "unat pool > 0" using pool(1) by (simp add: unat_gt_0)
  ultimately have "pool + bump_alloc_ptr bs1 \<noteq> NULL" by auto
  moreover have "bump_alloc pool sz bs = (if bump_alloc_ptr bs1 + sz1 > FLANTERM_FB_BUMP_ALLOC_POOL_SIZE then (NULL, bs1)
         else (pool + bump_alloc_ptr bs1, bs1\<lparr>bump_alloc_ptr := bump_alloc_ptr bs1 + sz1\<rparr>))"
    unfolding bump_alloc_def Let_def bs1_def sz1_def by (rule refl)
  moreover have "\<not> bump_alloc_ptr bs1 + sz1 > FLANTERM_FB_BUMP_ALLOC_POOL_SIZE"
    using next_ptr n1(1) sz1 sz by (simp add: FLANTERM_FB_BUMP_ALLOC_POOL_SIZE_def word_less_nat_alt)
  ultimately show ?thesis using n1 next_ptr sz1 by (simp add: bump_used_def)
qed

lemma init_allocs_room:
  assumes "bump_used n bs" "n + (\<Sum>sz\<leftarrow>szs. unat sz + 16) \<le> 873000" "pool \<noteq> 0" "unat pool + 873000 < 2 ^ 64"
  shows "fst (init_allocs pool szs bs)"
  using assms(1,2)
proof (induction szs arbitrary: n bs)
  case (Cons sz szs)
  have "fst (bump_alloc pool sz bs) \<noteq> NULL \<and> bump_used (n + unat sz + 16) (snd (bump_alloc pool sz bs))"
    using Cons.prems assms(3,4) by (intro bump_alloc_room) auto
  moreover have "fst (init_allocs pool szs bs')" if "bump_used (n + unat sz + 16) bs'" for bs'
    using Cons.prems that by (intro Cons.IH) auto
  ultimately show ?case by (auto simp: init_allocs_def split: prod.split)
qed (simp add: init_allocs_def)

section \<open>The console after initialisation\<close>

text \<open>
  The scale \<open>k\<close> and the size of the framebuffer, at most 1920 by 1200 and at least one glyph in each
  direction, give between 1 and 15975 cells.
\<close>

definition size_ok :: "nat \<Rightarrow> u64 \<Rightarrow> u64 \<Rightarrow> bool" where
  "size_ok k w h \<longleftrightarrow> k \<in> {1, 2, 4} \<and> 9 * k \<le> unat w \<and> unat w \<le> 1920 \<and> 16 * k \<le> unat h \<and> unat h \<le> 1200"

lemma grid_dimensions:
  assumes "size_ok k w h"
  defines "C \<equiv> w div (9 * of_nat k)" and "R \<equiv> h div (16 * of_nat k)"
  shows "0 < C" "0 < R" "cells R C \<le> 15975"
proof -
  have k: "unat (9 * of_nat k :: u64) = 9 * k" "unat (16 * of_nat k :: u64) = 16 * k" "0 < k"
    using assms(1) by (auto simp: size_ok_def)
  then have u: "unat C = unat w div (9 * k)" "unat R = unat h div (16 * k)" by (simp_all add: C_def R_def unat_div)
  have "1 \<le> unat w div (9 * k)" "1 \<le> unat h div (16 * k)"
    using assms(1) k(3) by (auto simp: size_ok_def less_eq_div_iff_mult_less_eq)
  then show "0 < C" "0 < R" using u by (simp_all add: word_less_nat_alt)
  have "unat w div (9 * k) \<le> 1920 div 9" "unat h div (16 * k) \<le> 1200 div 16"
    using assms(1) k(3) div_le_mono2 [of 9 "9 * k" "unat w"] div_le_mono2 [of 16 "16 * k" "unat h"]
      div_le_mono [of "unat w" 1920 9] div_le_mono [of "unat h" 1200 16] by (auto simp: size_ok_def)
  then have "unat R * unat C \<le> 75 * 213" unfolding u by (intro mult_le_mono) auto
  then show "cells R C \<le> 15975" by (simp add: cells_def)
qed

text \<open>What \<open>init_geometry\<close> needs of the context it completes.\<close>

definition blank :: "flanterm_fb_context \<Rightarrow> bool" where
  "blank s \<longleftrightarrow> canvas s = None \<and> queue_i s = 0 \<and> (\<forall>i. qmap s i = None) \<and>
     length (ansi_colours s) = 8 \<and> length (ansi_bright_colours s) = 8 \<and> length (esc_values s) = FLANTERM_MAX_ESC_VALUES \<and>
     saved_state_current_charset s = 0 \<and> saved_state_current_primary s = 0 \<and> saved_state_current_bg s = 0"

lemma init_geometry_fields:
  "rows (init_geometry sx sy 0 s) = height s div (16 * sy)"
  "cols (init_geometry sx sy 0 s) = width s div (9 * sx)"
  "canvas (init_geometry sx sy 0 s) = canvas s" "queue_i (init_geometry sx sy 0 s) = queue_i s"
  "qmap (init_geometry sx sy 0 s) = qmap s" "ansi_colours (init_geometry sx sy 0 s) = ansi_colours s"
  "ansi_bright_colours (init_geometry sx sy 0 s) = ansi_bright_colours s"
  "fc_c (grid (init_geometry sx sy 0 s) i) = 0x20" "font_bool_size (init_geometry sx sy 0 s) = 36864"
  "esc_values (init_geometry sx sy 0 s) = esc_values s"
  "saved_state_current_charset (init_geometry sx sy 0 s) = saved_state_current_charset s"
  "saved_state_current_primary (init_geometry sx sy 0 s) = saved_state_current_primary s"
  "saved_state_current_bg (init_geometry sx sy 0 s) = saved_state_current_bg s"
  "font_width (init_geometry sx sy 0 s) = 9" "font_height (init_geometry sx sy 0 s) = 16"
  "font_scale_y (init_geometry sx sy 0 s) = sy" "glyph_height (init_geometry sx sy 0 s) = 16 * sy"
  "plot_char_fn (init_geometry sx sy 0 s) =
     (if sx = 1 \<and> sy = 1 then PLOT_UNSCALED_UNCANVAS else PLOT_SCALED_UNCANVAS)"
  by (simp_all add: init_geometry_def Let_def FLANTERM_FB_FONT_GLYPHS_def)

lemma init_geometry_sizes:
  assumes "size_ok k (width s) (height s)" "blank s"
  defines "s' \<equiv> init_geometry (of_nat k) (of_nat k) 0 s"
  shows "rows s' = height s div (16 * of_nat k)" "cols s' = width s div (9 * of_nat k)"
    "unat (grid_size s') = 12 * cells (rows s') (cols s')" "unat (queue_size s') = 32 * cells (rows s') (cols s')"
    "unat (map_size s') = 8 * cells (rows s') (cols s')" "unat (font_bool_size s') = 36864"
proof -
  show rc: "rows s' = height s div (16 * of_nat k)" "cols s' = width s div (9 * of_nat k)"
    by (simp_all add: s'_def init_geometry_fields)
  let ?R = "rows s'" and ?C = "cols s'"
  have c: "cells ?R ?C \<le> 15975" unfolding rc by (rule grid_dimensions(3) [OF assms(1)])
  then have m: "unat (?R * ?C) = cells ?R ?C" unfolding cells_def by (simp add: unat_word_ariths)
  have mul: "unat (?R * ?C * of_nat n) = n * cells ?R ?C" if "n \<le> 32" for n
  proof -
    have "cells ?R ?C * n \<le> 15975 * 32" using c that by (intro mult_le_mono)
    moreover have "unat (of_nat n :: u64) = n" using that by (intro unat_of_nat_lt) simp
    ultimately show ?thesis unfolding unat_word_ariths(2) [of "?R * ?C"] m by (simp add: mult.commute)
  qed
  have "grid_size s' = ?R * ?C * of_nat 12" "queue_size s' = ?R * ?C * of_nat 32" "map_size s' = ?R * ?C * of_nat 8"
    by (simp_all add: s'_def init_geometry_def Let_def)
  then show "unat (grid_size s') = 12 * cells ?R ?C" "unat (queue_size s') = 32 * cells ?R ?C"
    "unat (map_size s') = 8 * cells ?R ?C"
    using mul [of 12] mul [of 32] mul [of 8] by simp_all
  show "unat (font_bool_size s') = 36864"
    by (simp add: s'_def init_geometry_fields)
qed

lemma init_geometry_ok:
  assumes "size_ok k (width s) (height s)" "blank s"
  defines "s' \<equiv> init_geometry (of_nat k) (of_nat k) 0 s"
  shows "fb_ctx (rows s') (cols s') s'" "queue_i s' = 0"
proof -
  note sizes = init_geometry_sizes [OF assms(1,2), folded s'_def]
  have c: "cells (rows s') (cols s') < 2 ^ 59"
    using grid_dimensions(3) [OF assms(1)] unfolding sizes(1,2) by simp
  show q: "queue_i s' = 0" using assms(2) by (simp add: s'_def init_geometry_fields blank_def)
  have "arrays_ok (rows s') (cols s') s'"
    unfolding arrays_ok_def using sizes(3-5) c q assms(2) by (simp add: blank_def) (simp add: s'_def init_geometry_fields)
  moreover have "queue_ok (rows s') (cols s') s'" "queue_mapped (cols s') s'"
    using q assms(2) by (simp_all add: queue_ok_def queue_mapped_def s'_def init_geometry_fields blank_def)
  moreover have "plot_ok s'"
    using assms(1) sizes(6) by (auto simp: size_ok_def plot_ok_def s'_def init_geometry_fields)
  ultimately show "fb_ctx (rows s') (cols s') s'" by (simp add: fb_ctx_def fb_ok_def fb_base_def)
qed

lemma scale_and_limit:
  fixes w h p :: u64
  assumes "9 \<le> w" "16 \<le> h"
  obtains k fb' w' h' where "auto_scale w h 0 0 = (of_nat k, of_nat k)" "limit_size fb w h p = (fb', w', h')" "size_ok k w' h'"
proof -
  define k :: nat where "k = (if w \<ge> 5120 \<and> h \<ge> 2880 then 4 else if w \<ge> 2560 \<and> h \<ge> 1440 then 2 else 1)"
  obtain fb' w' h' where l: "limit_size fb w h p = (fb', w', h')" by (cases "limit_size fb w h p")
  have wh: "w' = min w 1920" "h' = min h 1200"
    using l by (auto simp: limit_size_def Let_def FLANTERM_FB_WIDTH_LIMIT_def FLANTERM_FB_HEIGHT_LIMIT_def min_def split: if_splits)
  have "auto_scale w h 0 0 = (of_nat k, of_nat k)" by (simp add: auto_scale_def Let_def k_def)
  moreover have "size_ok k w' h'"
    using assms unfolding wh by (auto simp: size_ok_def k_def min_def word_le_nat_alt)
  ultimately show ?thesis using l that by blast
qed

lemma reinit_console:
  assumes "size_ok k (width s) (height s)" "blank s"
  defines "s' \<equiv> init_geometry (of_nat k) (of_nat k) 0 s"
  shows "console_ok (rows s') (cols s') (flanterm_context_reinit s')"
proof -
  have "flanterm_context.more (flanterm_context_reinit s') = flanterm_context.more s'"
    by (simp add: flanterm_context_reinit_def)
  moreover have "fbB (rows s') (cols s') (flanterm_context.more s')"
    using init_geometry_ok(1) [OF assms(1,2), folded s'_def] by (simp add: fb_ctx_def fbB_more)
  moreover have "0 < rows s'" "0 < cols s'"
    using init_geometry_sizes(1,2) [OF assms(1,2), folded s'_def] grid_dimensions(1,2) [OF assms(1)] by simp_all
  moreover have "length (esc_values s') = FLANTERM_MAX_ESC_VALUES" "saved_state_current_charset s' = 0"
    "saved_state_current_primary s' = 0" "saved_state_current_bg s' = 0"
    using assms(2) by (simp_all add: s'_def init_geometry_fields blank_def)
  ultimately show ?thesis unfolding term_inv_def by (simp add: flanterm_context_reinit_def)
qed

lemma flanterm_fb_init_console:
  assumes "9 \<le> w" "16 \<le> h" "8 \<le> rs" "bump_used 16 bs" "pool \<noteq> 0" "unat pool + 873000 < 2 ^ 64"
  shows "returns (flanterm_fb_init pool vm fb w h p rs rsh rs gsh rs bsh 0 0 0 0 bs)
    (\<lambda>(r, bs'). \<exists>a s. r = Some (a, s) \<and> a \<noteq> NULL \<and> console_ok (rows s) (cols s) s \<and> bump_allocated_instance bs')"
proof -
  obtain k fb' w' h' where sc: "auto_scale w h 0 0 = (of_nat k, of_nat k)" "limit_size fb w h p = (fb', w', h')"
    "size_ok k w' h'" using assms(1,2) by (rule scale_and_limit)
  define s0 where "s0 = (let s = default_colours (init_masks rs rsh rs gsh rs bsh (zero_fb_context vm)) in
     s\<lparr>text_fg := default_fg s, text_bg := 0xFFFFFFFF, rotation := 0, framebuffer := fb', width := w', height := h', pitch := p\<rparr>)"
  define s1 where "s1 = init_geometry (of_nat k) (of_nat k) 0 s0"
  have s0: "blank s0" "size_ok k (width s0) (height s0)"
    using sc(3) by (simp_all add: s0_def Let_def default_colours_def init_masks_def zero_fb_context_def blank_def)
  note sizes = init_geometry_sizes [OF s0(2,1), folded s1_def]
  obtain a bs1 where b: "bump_alloc pool 816 bs = (a, bs1)" "a \<noteq> NULL" "bump_used (16 + 816 + 16) bs1"
    using bump_alloc_room [OF assms(4), of 816 pool] assms(5,6) by (cases "bump_alloc pool 816 bs") auto
  let ?szs = "[8 * 16 * FLANTERM_FB_FONT_GLYPHS div 8, font_bool_size s1, grid_size s1, queue_size s1, map_size s1]"
  obtain ok bs2 where al: "init_allocs pool ?szs bs1 = (ok, bs2)" by (cases "init_allocs pool ?szs bs1")
  have "(\<Sum>sz\<leftarrow>?szs. unat sz + 16) \<le> 4096 + 36864 + 52 * 15975 + 80"
    using sizes grid_dimensions(3) [OF s0(2)] by (simp add: FLANTERM_FB_FONT_GLYPHS_def)
  then have ok using init_allocs_room [OF b(3), of ?szs pool] assms(5,6) al by simp
  let ?R = "rows s1" and ?C = "cols s1"
  have con: "console_ok ?R ?C (flanterm_context_reinit s1)" unfolding s1_def by (rule reinit_console [OF s0(2,1)])
  then have ctx: "fb_ctx ?R ?C (flanterm_context_reinit s1)" by (rule console_ctx)
  have "returns (flanterm_fb_full_refresh (flanterm_context_reinit s1)) (console_ok ?R ?C)"
    by (rule console_returns [OF con], rule flanterm_fb_full_refresh_ok [OF ctx])
      (use init_geometry_ok(2) [OF s0(2,1)] in \<open>simp add: flanterm_context_reinit_def s1_def\<close>)
  then obtain s2 where s2: "flanterm_fb_full_refresh (flanterm_context_reinit s1) = ret s2" "console_ok ?R ?C s2"
    by (rule returnsE)
  have rot: "(if (0 :: int) = 1 \<or> (0 :: int) = 3 then (h, w) else (w, h)) = (w, h)" by simp
  have "rows s2 = ?R" "cols s2 = ?C" using s2(2) by (auto simp: term_inv_def)
  moreover have "flanterm_fb_init pool vm fb w h p rs rsh rs gsh rs bsh 0 0 0 0 bs =
      ret (Some (a, s2), bs2\<lparr>bump_allocated_instance := True\<rparr>)"
    unfolding flanterm_fb_init_def Let_def rot prod.case sc(1,2) b(1) s0_def [unfolded Let_def, symmetric] s1_def [symmetric] al
      s2(1) rbind_simps using assms(3,4) b(2) \<open>ok\<close> by (simp add: bump_used_def)
  ultimately show ?thesis using s2(2) b(2) by simp
qed

section \<open>Properties of the console\<close>

text \<open>A console of 25 rows and 80 columns, as after initialisation.\<close>

definition demo_console :: flanterm_fb_context where
  "demo_console = flanterm_context_reinit (init_geometry 1 1 0
     (default_colours (init_masks 8 16 8 8 8 0 (zero_fb_context (\<lambda>_. 0)))\<lparr>width := 720, height := 400\<rparr>))"

lemma demo_console_ok: "console_ok 25 80 demo_console"
proof -
  let ?s = "default_colours (init_masks 8 16 8 8 8 0 (zero_fb_context (\<lambda>_. 0)))\<lparr>width := 720, height := 400\<rparr>"
  have "size_ok 1 (width ?s) (height ?s)" "blank ?s"
    by (simp_all add: size_ok_def blank_def default_colours_def init_masks_def zero_fb_context_def)
  from reinit_console [OF this] show ?thesis by (simp add: demo_console_def init_geometry_fields)
qed





text \<open>The parser is between two sequences.\<close>

definition idle :: "'a flanterm_context_scheme \<Rightarrow> bool" where
  "idle s \<longleftrightarrow> \<not> discard_next s \<and> unicode_remaining s = 0 \<and> \<not> escape s \<and> \<not> control_sequence s \<and> \<not> osc s \<and> g_select s = 0 \<and>
     \<not> dec_private s"

text \<open>In the middle of a control sequence that has no values.\<close>

definition in_csi :: "bool \<Rightarrow> 'a flanterm_context_scheme \<Rightarrow> bool" where
  "in_csi unhandled s \<longleftrightarrow> \<not> discard_next s \<and> unicode_remaining s = 0 \<and> escape s \<and> control_sequence s \<and> \<not> osc s \<and> g_select s = 0 \<and>
     \<not> dec_private s \<and> \<not> rrr s \<and> csi_unhandled s = unhandled"

lemma csi_start:
  assumes "idle s"
  shows "returns (for_each (flanterm_putchar b) [0x1B, 0x5B] s) (\<lambda>s'. in_csi False s' \<and> autoflush s' = autoflush s)"
  using assms
  by (simp add: idle_def in_csi_def flanterm_putchar_def putchar_byte_def escape_parse_def control_char_def split_beta Let_def)

lemma csi_unknown:
  assumes "in_csi False s"
  shows "returns (flanterm_putchar b 0x21 s) (\<lambda>s'. in_csi True s' \<and> autoflush s' = autoflush s)"
  using assms
  by (simp add: in_csi_def flanterm_putchar_def putchar_byte_def escape_parse_def control_sequence_parse_def csi_final_def
    csi_dispatch_def split_beta Let_def)

lemma csi_skipped:
  assumes "in_csi True s"
  shows "returns (flanterm_putchar b 0x70 s) (\<lambda>s'. idle s' \<and> \<not> scroll_enabled s' \<and> autoflush s' = autoflush s)"
  using assms
  by (simp add: in_csi_def idle_def flanterm_putchar_def putchar_byte_def escape_parse_def control_sequence_parse_def csi_final_def
    csi_cleanup_def split_beta Let_def)

lemma unhandled_csi_parsed:
  fixes s :: "'a flanterm_context_scheme"
  assumes "idle s"
  shows "returns (for_each (flanterm_putchar b) [0x1B, 0x5B, 0x21, 0x70] s)
    (\<lambda>s'. idle s' \<and> \<not> scroll_enabled s' \<and> autoflush s' = autoflush s)"
proof -
  let ?P = "\<lambda>s'. idle s' \<and> \<not> scroll_enabled s' \<and> autoflush s' = autoflush s"
  have two: "returns (for_each (flanterm_putchar b) [0x21, 0x70] s1) ?P"
    if s1: "in_csi False s1 \<and> autoflush s1 = autoflush s" for s1
    unfolding for_each.simps(2) using csi_unknown [OF conjunct1 [OF s1], of b]
  proof (rule returns_bind)
    fix s2 :: "'a flanterm_context_scheme"
    assume s2: "in_csi True s2 \<and> autoflush s2 = autoflush s1"
    have "returns (flanterm_putchar b 0x70 s2) ?P"
      using csi_skipped [OF conjunct1 [OF s2], of b] s1 s2 by simp
    then show "returns (rbind (flanterm_putchar b 0x70 s2) (for_each (flanterm_putchar b) [])) ?P"
      by (rule returns_bind) simp
  qed
  have "returns (for_each (flanterm_putchar b) ([0x1B, 0x5B] @ [0x21, 0x70]) s) ?P"
    unfolding for_each_append using csi_start [OF assms, of b] two by (rule returns_bind)
  then show ?thesis by simp
qed

lemma idle_core: "core s' = core s \<Longrightarrow> idle s' = idle s \<and> scroll_enabled s' = scroll_enabled s"
  by (simp add: idle_def flanterm_context.truncate_def)

text \<open>A control sequence that the parser does not know, such as a soft reset, turns scrolling off for
  good: \<open>scroll_enabled\<close> is cleared before the sequence is recognised and is not restored on that path. The
  parser is idle again afterwards, so text that reaches the last line overwrites it.\<close>

theorem unhandled_csi_disables_scroll:
  assumes "console_ok R C s" "idle s" "autoflush s"
  shows "returns (flanterm_write fb_backend [0x1B, 0x5B, 0x21, 0x70] s)
    (\<lambda>s'. console_ok R C s' \<and> idle s' \<and> \<not> scroll_enabled s')"
proof -
  let ?text = "[0x1B, 0x5B, 0x21, 0x70] :: u8 list"
  obtain s1 where s1: "for_each (flanterm_putchar fb_backend) ?text s = ret s1"
    "idle s1" "\<not> scroll_enabled s1" "autoflush s1"
    by (rule returnsE [OF unhandled_csi_parsed [OF assms(2), of fb_backend]]) (use assms(3) in auto)
  have "returns (for_each (flanterm_putchar fb_backend) ?text s) (console_ok R C)"
    by (rule returns_for_each [of "console_ok R C"]) (auto intro: assms(1) fbt.flanterm_putchar_ok)
  then have ok: "console_ok R C s1" using s1(1) by simp
  have "returns (flanterm_fb_double_buffer_flush s1) (kept R C s1)"
    by (rule flanterm_fb_double_buffer_flush_ok [OF console_ctx(1) [OF ok]])
  then have "returns (flanterm_fb_double_buffer_flush s1) (\<lambda>s'. console_ok R C s' \<and> idle s' \<and> \<not> scroll_enabled s')"
    by (rule returns_mono) (use console_kept [OF ok] idle_core [of _ s1] s1(2,3) in auto)
  moreover have "double_buffer_flush fb_backend s1 = flanterm_fb_double_buffer_flush s1" by (simp add: fb_backend_def)
  ultimately show ?thesis unfolding flanterm_write_def s1(1) rbind_simps using s1(4) by simp
qed

theorem unhandled_csi_disables_scroll_witness:
  "returns (flanterm_write fb_backend [0x1B, 0x5B, 0x21, 0x70] demo_console)
    (\<lambda>s'. console_ok 25 80 s' \<and> idle s' \<and> \<not> scroll_enabled s')"
  by (rule unhandled_csi_disables_scroll [OF demo_console_ok])
    (simp_all add: demo_console_def idle_def flanterm_context_reinit_def init_geometry_def default_colours_def init_masks_def
      zero_fb_context_def Let_def)

end
