(* ===== verification/Framebuffer.thy ===== *)
theory Framebuffer
  imports Interrupts Flanterm_Fb_Safe
begin

text \<open>
  The framebuffer of the kernel, \<open>drivers/video/fb0.c\<close>: its description from the boot loader, the console
  on it, and single pixels. The console context and the static data of its allocator are fields of the
  state; video memory is the field \<open>vram\<close> of the context.
\<close>

section \<open>Definitions\<close>

text \<open>What the boot loader says about one framebuffer.\<close>

record limine_framebuffer =
  lf_address :: addr
  lf_width :: u64
  lf_height :: u64
  lf_pitch :: u64
  lf_bpp :: u16
  lf_red_mask_size :: u8
  lf_red_mask_shift :: u8
  lf_green_mask_size :: u8
  lf_green_mask_shift :: u8
  lf_blue_mask_size :: u8
  lf_blue_mask_shift :: u8

record fb_info_t =
  fb_addr :: addr
  fb_width :: u32
  fb_height :: u32
  fb_bpp :: u32
  fb_pitch :: u32
  red_size :: u8
  red_shift :: u8
  green_size :: u8
  green_shift :: u8
  blue_size :: u8
  blue_shift :: u8
  ft_ctx :: addr

record fbdev = drv +
  fb_info :: fb_info_t
  ft :: flanterm_fb_context
  bump_st :: bump
  term_buffer :: "u8 list"
  term_buffer_index :: u64

text \<open>\<open>pool\<close> is the address of \<open>bump_alloc_pool\<close>; \<open>resp\<close> is the response of the boot loader, if there is one.\<close>

definition framebuffer_install ::
  "addr \<Rightarrow> limine_framebuffer list option \<Rightarrow> 'a fbdev_scheme \<Rightarrow> 'a fbdev_scheme result" where
  "framebuffer_install pool resp s =
     (case resp of
        None \<Rightarrow> fails (Panic ''no framebuffer found!'')
      | Some [] \<Rightarrow> fails (Panic ''no framebuffer found!'')
      | Some (fb # _) \<Rightarrow>
          let i = (fb_info s)\<lparr>
                fb_addr := lf_address fb,
                fb_width := ucast (lf_width fb),
                fb_height := ucast (lf_height fb),
                fb_bpp := ucast (lf_bpp fb),
                fb_pitch := ucast (lf_pitch fb),
                red_size := lf_red_mask_size fb, red_shift := lf_red_mask_shift fb,
                green_size := lf_green_mask_size fb, green_shift := lf_green_mask_shift fb,
                blue_size := lf_blue_mask_size fb, blue_shift := lf_blue_mask_shift fb\<rparr>
          in
          rbind (flanterm_fb_init pool (vram (ft s)) (fb_addr i) (ucast (fb_width i)) (ucast (fb_height i)) (ucast (fb_pitch i))
                   (red_size i) (red_shift i) (green_size i) (green_shift i) (blue_size i) (blue_shift i)
                   0 0 0 0 (bump_st s)) (\<lambda>(r, bs).
          ret (case r of
                 None \<Rightarrow> s\<lparr>fb_info := i\<lparr>ft_ctx := NULL\<rparr>, bump_st := bs\<rparr>
               | Some (a, c) \<Rightarrow> s\<lparr>fb_info := i\<lparr>ft_ctx := a\<rparr>, ft := c, bump_st := bs\<rparr>)))"

text \<open>The console, with the text that was kept while there was none.\<close>

definition console_write :: "u8 list \<Rightarrow> 'a fbdev_scheme \<Rightarrow> 'a fbdev_scheme result" where
  "console_write buf s = rbind (flanterm_write fb_backend buf (ft s)) (\<lambda>c. ret (s\<lparr>ft := c\<rparr>))"

definition TERM_BUFFER_SIZE :: u64 where "TERM_BUFFER_SIZE = 4096"

definition framebuffer_write :: "addr \<Rightarrow> 'a fbdev_scheme \<Rightarrow> 'a fbdev_scheme result" where
  "framebuffer_write str s =
     (if fb_addr (fb_info s) = NULL then ret s else
      rbind (ends (strlen (mem s) str)) (\<lambda>len.
      let bytes = map (\<lambda>i. mem s (str + of_nat i)) [0..<unat len] in
      if ft_ctx (fb_info s) = NULL then
        if term_buffer_index s + len \<ge> TERM_BUFFER_SIZE then ret s
        else
        let s = fold (\<lambda>c s. s\<lparr>term_buffer := (term_buffer s)[unat (term_buffer_index s) := c],
                              term_buffer_index := term_buffer_index s + 1\<rparr>) bytes s
        in ret (s\<lparr>term_buffer := (term_buffer s)[unat (term_buffer_index s) := 0]\<rparr>)
      else
        rbind (if term_buffer_index s > 0
               then rbind (console_write (take (unat (term_buffer_index s)) (term_buffer s)) s) (\<lambda>s.
                    ret (s\<lparr>term_buffer_index := 0, term_buffer := (term_buffer s)[0 := 0]\<rparr>))
               else ret s) (console_write bytes)))"

definition framebuffer_draw_pixel :: "u32 \<Rightarrow> u32 \<Rightarrow> u32 \<Rightarrow> 'a fbdev_scheme \<Rightarrow> 'a fbdev_scheme" where
  "framebuffer_draw_pixel x y col s =
     (if sint x < 0 \<or> sint x \<ge> sint (fb_width (fb_info s)) \<or> sint y < 0 \<or> sint y \<ge> sint (fb_height (fb_info s)) then s
      else let a = fb_addr (fb_info s) + 4 * ucast (y * drop_bit 2 (fb_pitch (fb_info s))) + 4 * scast x
           in s\<lparr>ft := (ft s)\<lparr>vram := (vram (ft s))(a := col)\<rparr>\<rparr>)"

section \<open>Properties\<close>

text \<open>
  The invariant: the buffer of early text has its size and is not full, and the console, if there is one,
  meets its own.
\<close>

definition fbdev_ok :: "'a fbdev_scheme \<Rightarrow> bool" where
  "fbdev_ok s \<longleftrightarrow> length (term_buffer s) = 4096 \<and> unat (term_buffer_index s) < 4096 \<and>
     (ft_ctx (fb_info s) \<noteq> NULL \<longrightarrow> console_ok (rows (ft s)) (cols (ft s)) (ft s))"

lemma console_write_ok:
  assumes "fbdev_ok s" "ft_ctx (fb_info s) \<noteq> NULL"
  shows "returns (console_write buf s) (\<lambda>s'. \<exists>c. s' = s\<lparr>ft := c\<rparr> \<and> console_ok (rows c) (cols c) c)"
proof -
  let ?R = "rows (ft s)" and ?C = "cols (ft s)"
  have "console_ok ?R ?C (ft s)" using assms by (simp add: fbdev_ok_def)
  then have "returns (flanterm_write fb_backend buf (ft s)) (console_ok ?R ?C)" by (rule fbt.flanterm_write_ok)
  then show ?thesis unfolding console_write_def
  proof (rule returns_bind)
    fix c :: flanterm_fb_context assume c: "console_ok ?R ?C c"
    then have "rows c = ?R" "cols c = ?C" by (auto simp: term_inv_def)
    then show "returns (ret (s\<lparr>ft := c\<rparr>)) (\<lambda>s'. \<exists>c. s' = s\<lparr>ft := c\<rparr> \<and> console_ok (rows c) (cols c) c)"
      using c by auto
  qed
qed

lemma buffer_text_ok:
  assumes "length (term_buffer s) = 4096" "unat (term_buffer_index s) + length bytes < 4096"
  shows "let s' = fold (\<lambda>c s. s\<lparr>term_buffer := (term_buffer s)[unat (term_buffer_index s) := c],
                              term_buffer_index := term_buffer_index s + 1\<rparr>) bytes s
    in length (term_buffer s') = 4096 \<and> unat (term_buffer_index s') = unat (term_buffer_index s) + length bytes \<and>
       fb_info s' = fb_info s \<and> ft s' = ft s \<and> mem s' = mem s \<and> port_log s' = port_log s"
  using assms
proof (induction bytes arbitrary: s)
  case (Cons c bytes)
  have "unat (term_buffer_index s + 1) = unat (term_buffer_index s) + 1"
    using Cons.prems by (simp add: unat_word_ariths)
  then show ?case
    using Cons.prems Cons.IH [of "s\<lparr>term_buffer := (term_buffer s)[unat (term_buffer_index s) := c],
      term_buffer_index := term_buffer_index s + 1\<rparr>"] by (simp add: Let_def)
qed simp

abbreviation kept_fb :: "'a fbdev_scheme \<Rightarrow> 'a fbdev_scheme \<Rightarrow> bool" where
  "kept_fb s s' \<equiv> fbdev_ok s' \<and> fb_info s' = fb_info s \<and> mem s' = mem s \<and> port_log s' = port_log s"

lemma console_write_kept:
  assumes "kept_fb s s'" "ft_ctx (fb_info s) \<noteq> NULL"
  shows "returns (console_write buf s') (kept_fb s)"
  using console_write_ok [of s' buf] assms by (auto simp: fbdev_ok_def elim!: returns_mono)

lemma framebuffer_write_ok:
  assumes s: "fbdev_ok s" and str: "cstring (mem s) str cs" and short: "length cs < 2 ^ 63"
  shows "returns (framebuffer_write str s) (kept_fb s)"
proof -
  let ?bytes = "map (\<lambda>i. mem s (str + of_nat i)) [0..<length cs]"
  have len: "strlen (mem s) str = Some (of_nat (length cs))" "unat (of_nat (length cs) :: u64) = length cs"
    using str cstring_length [OF str] by (auto simp: strlen_cstring unat_of_nat_lt)
  consider "fb_addr (fb_info s) = NULL" | "fb_addr (fb_info s) \<noteq> NULL" "ft_ctx (fb_info s) = NULL"
    | "fb_addr (fb_info s) \<noteq> NULL" "ft_ctx (fb_info s) \<noteq> NULL" by blast
  then show ?thesis
  proof cases
    case 2
    have sum: "unat (term_buffer_index s) + length cs < 4096"
      if "\<not> TERM_BUFFER_SIZE \<le> term_buffer_index s + of_nat (length cs)"
      using that s short len(2) by (simp add: TERM_BUFFER_SIZE_def fbdev_ok_def word_le_nat_alt unat_word_ariths)
    show ?thesis using 2 s len buffer_text_ok [of s ?bytes] sum
      by (auto simp: framebuffer_write_def fbdev_ok_def Let_def)
  next
    case 3
    have "returns (rbind (console_write buf s) (\<lambda>s. ret (s\<lparr>term_buffer_index := 0, term_buffer := (term_buffer s)[0 := 0]\<rparr>)))
      (kept_fb s)" for buf
      using console_write_ok [OF s 3(2), of buf] by (rule returns_bind) (use s 3 in \<open>auto simp: fbdev_ok_def\<close>)
    then have "returns (if term_buffer_index s > 0
               then rbind (console_write (take (unat (term_buffer_index s)) (term_buffer s)) s) (\<lambda>s.
                    ret (s\<lparr>term_buffer_index := 0, term_buffer := (term_buffer s)[0 := 0]\<rparr>))
               else ret s) (kept_fb s)"
      using s by simp
    then have "returns (rbind (if term_buffer_index s > 0
               then rbind (console_write (take (unat (term_buffer_index s)) (term_buffer s)) s) (\<lambda>s.
                    ret (s\<lparr>term_buffer_index := 0, term_buffer := (term_buffer s)[0 := 0]\<rparr>))
               else ret s) (console_write ?bytes)) (kept_fb s)"
      by (rule returns_bind) (rule console_write_kept [OF _ 3(2)])
    then show ?thesis using 3 len by (simp add: framebuffer_write_def Let_def)
  qed (use s in \<open>simp add: framebuffer_write_def\<close>)
qed

text \<open>What the boot loader has to provide: a framebuffer with room for a glyph and usable colours.\<close>

definition usable_fb :: "limine_framebuffer \<Rightarrow> bool" where
  "usable_fb fb \<longleftrightarrow> 9 \<le> (ucast (lf_width fb) :: u32) \<and> 16 \<le> (ucast (lf_height fb) :: u32) \<and>
     8 \<le> lf_red_mask_size fb \<and> lf_green_mask_size fb = lf_red_mask_size fb \<and> lf_blue_mask_size fb = lf_red_mask_size fb"

definition pool_ok :: "addr \<Rightarrow> bool" where
  "pool_ok pool \<longleftrightarrow> pool \<noteq> 0 \<and> unat pool + 873000 < 2 ^ 64"

lemma ucast_ge: "(ucast (a :: u32) :: u64) \<le> ucast b \<longleftrightarrow> a \<le> b"
  by (simp add: word_le_nat_alt unat_ucast_32)

lemma framebuffer_install_ok:
  assumes "usable_fb fb" "pool_ok pool" "bump_used 16 (bump_st s)" "fbdev_ok s"
  shows "returns (framebuffer_install pool (Some (fb # fbs)) s)
    (\<lambda>s'. fbdev_ok s' \<and> fb_addr (fb_info s') = lf_address fb \<and> ft_ctx (fb_info s') \<noteq> NULL \<and> mem s' = mem s \<and>
      port_log s' = port_log s)"
proof -
  let ?w = "ucast (ucast (lf_width fb) :: u32) :: u64" and ?h = "ucast (ucast (lf_height fb) :: u32) :: u64"
  let ?rs = "lf_red_mask_size fb"
  have "9 \<le> ?w" "16 \<le> ?h" using assms(1) ucast_ge [of 9] ucast_ge [of 16] by (simp_all add: usable_fb_def)
  then have "returns (flanterm_fb_init pool (vram (ft s)) (lf_address fb) ?w ?h p ?rs rsh ?rs gsh ?rs bsh 0 0 0 0 (bump_st s))
    (\<lambda>(r, bs'). \<exists>a s. r = Some (a, s) \<and> a \<noteq> NULL \<and> console_ok (rows s) (cols s) s \<and> bump_allocated_instance bs')" for p rsh gsh bsh
    using assms by (intro flanterm_fb_init_console) (auto simp: usable_fb_def pool_ok_def)
  then show ?thesis using assms(1,4) unfolding framebuffer_install_def
    by (auto simp: usable_fb_def Let_def fbdev_ok_def intro!: returns_bind)
qed

end
