(* ===== verification/Ubsan.thy ===== *)
theory Ubsan
  imports Prelude
begin

text \<open>
  The handlers of the undefined behaviour sanitizer (\<open>system/ubsan.c\<close>), which all end in \<open>panic\<close>, and the operations on
  \<open>int\<close> and on pointers as the sanitizer compiles them: with a test and a call of the handler.
\<close>

section \<open>The handlers\<close>

definition stack_chk_fail :: "'a result" where
  "stack_chk_fail = fails (Panic ''stack smashing detected'')"

definition ubsan_handle_pointer_overflow :: "'a result" where
  "ubsan_handle_pointer_overflow = fails (Panic ''pointer overflow detected'')"

definition ubsan_handle_type_mismatch :: "'a result" where
  "ubsan_handle_type_mismatch = fails (Panic ''type mismatch detected'')"

definition ubsan_handle_function_type_mismatch :: "'a result" where
  "ubsan_handle_function_type_mismatch = fails (Panic ''function type mismatch detected'')"

definition ubsan_handle_load_invalid_value :: "'a result" where
  "ubsan_handle_load_invalid_value = fails (Panic ''load invalid value detected'')"

definition ubsan_handle_divrem_overflow :: "'a result" where
  "ubsan_handle_divrem_overflow = fails (Panic ''division/remainder overflow detected'')"

definition ubsan_handle_shift_out_of_bounds :: "'a result" where
  "ubsan_handle_shift_out_of_bounds = fails (Panic ''shift out of bounds detected'')"

definition ubsan_handle_out_of_bounds :: "'a result" where
  "ubsan_handle_out_of_bounds = fails (Panic ''out of bounds detected'')"

definition ubsan_handle_add_overflow :: "'a result" where
  "ubsan_handle_add_overflow = fails (Panic ''addition overflow detected'')"

definition ubsan_handle_sub_overflow :: "'a result" where
  "ubsan_handle_sub_overflow = fails (Panic ''subtraction overflow detected'')"

definition ubsan_handle_mul_overflow :: "'a result" where
  "ubsan_handle_mul_overflow = fails (Panic ''multiplication overflow detected'')"

definition ubsan_handle_negate_overflow :: "'a result" where
  "ubsan_handle_negate_overflow = fails (Panic ''negation overflow detected'')"

definition ubsan_handle_invalid_builtin :: "'a result" where
  "ubsan_handle_invalid_builtin = fails (Panic ''invalid builtin detected'')"

definition ubsan_handle_builtin_unreachable :: "'a result" where
  "ubsan_handle_builtin_unreachable = fails (Panic ''unreachable builtin executed'')"

section \<open>Checked arithmetic\<close>

definition int_range :: "int \<Rightarrow> bool" where
  "int_range i \<longleftrightarrow> - (2 ^ 31) \<le> i \<and> i < 2 ^ 31"

definition iadd :: "int \<Rightarrow> int \<Rightarrow> int result" where
  "iadd a b = (if int_range (a + b) then ret (a + b) else ubsan_handle_add_overflow)"

definition isub :: "int \<Rightarrow> int \<Rightarrow> int result" where
  "isub a b = (if int_range (a - b) then ret (a - b) else ubsan_handle_sub_overflow)"

definition imul :: "int \<Rightarrow> int \<Rightarrow> int result" where
  "imul a b = (if int_range (a * b) then ret (a * b) else ubsan_handle_mul_overflow)"

definition ineg :: "int \<Rightarrow> int result" where
  "ineg a = (if int_range (- a) then ret (- a) else ubsan_handle_negate_overflow)"

text \<open>A pointer plus an unsigned and a signed offset in bytes.\<close>

definition ptr_plus :: "addr \<Rightarrow> u64 \<Rightarrow> addr result" where
  "ptr_plus p n = (if p + n < p then ubsan_handle_pointer_overflow else ret (p + n))"

definition ptr_off :: "addr \<Rightarrow> int \<Rightarrow> addr result" where
  "ptr_off p n =
     (let q = p + word_of_int n in
      if 0 \<le> n \<and> q < p \<or> n < 0 \<and> p < q then ubsan_handle_pointer_overflow else ret q)"

end
