(* ===== verification/Nanoprintf.thy ===== *)
theory Nanoprintf
  imports Libc_String Ubsan
begin

text \<open>
  Formatted output, \<open>libc/stdio/nanoprintf.h\<close>, as \<open>printf.c\<close> configures it: field widths, precisions,
  large and binary conversions, no floating point and no write-back. A C string that is only read is the
  list of its bytes up to the terminator. The arguments are a list of 64-bit slots, as the calling
  convention passes integers and pointers; \<open>va_arg\<close> takes the next slot and truncates it to its type.
  Values of type \<open>int\<close> are integers in the range of 32 bits: the kernel is compiled with the undefined
  behaviour sanitizer, so arithmetic that leaves the range panics in \<open>system/ubsan.c\<close>.
\<close>

section \<open>Definitions\<close>

subsection \<open>Format specifiers\<close>

datatype npf_opt = NPF_FMT_SPEC_OPT_NONE | NPF_FMT_SPEC_OPT_LITERAL | NPF_FMT_SPEC_OPT_STAR

datatype npf_len_mod =
    NPF_FMT_SPEC_LEN_MOD_NONE
  | NPF_FMT_SPEC_LEN_MOD_SHORT
  | NPF_FMT_SPEC_LEN_MOD_LONG_DOUBLE
  | NPF_FMT_SPEC_LEN_MOD_CHAR
  | NPF_FMT_SPEC_LEN_MOD_LONG
  | NPF_FMT_SPEC_LEN_MOD_LARGE_LONG_LONG
  | NPF_FMT_SPEC_LEN_MOD_LARGE_INTMAX
  | NPF_FMT_SPEC_LEN_MOD_LARGE_SIZET
  | NPF_FMT_SPEC_LEN_MOD_LARGE_PTRDIFFT

datatype npf_conv =
    NPF_FMT_SPEC_CONV_NONE
  | NPF_FMT_SPEC_CONV_PERCENT
  | NPF_FMT_SPEC_CONV_CHAR
  | NPF_FMT_SPEC_CONV_STRING
  | NPF_FMT_SPEC_CONV_SIGNED_INT
  | NPF_FMT_SPEC_CONV_BINARY
  | NPF_FMT_SPEC_CONV_OCTAL
  | NPF_FMT_SPEC_CONV_HEX_INT
  | NPF_FMT_SPEC_CONV_UNSIGNED_INT
  | NPF_FMT_SPEC_CONV_POINTER

record npf_format_spec =
  field_width :: int
  field_width_opt :: npf_opt
  left_justified :: bool
  leading_zero_pad :: bool
  prec :: int
  prec_opt :: npf_opt
  prepend :: u8
  alt_form :: bool
  case_adjust :: u8
  length_modifier :: npf_len_mod
  conv_spec :: npf_conv

definition NANOPRINTF_CONVERSION_BUFFER_SIZE :: nat where "NANOPRINTF_CONVERSION_BUFFER_SIZE = 23"

definition npf_max :: "int \<Rightarrow> int \<Rightarrow> int" where
  "npf_max x y = (if x > y then x else y)"

text \<open>The byte at the cursor; behind the last byte of the string stands its terminator.\<close>

definition at :: "u8 list \<Rightarrow> u8" where
  "at cur = (case cur of [] \<Rightarrow> 0 | c # _ \<Rightarrow> c)"

definition is_digit :: "u8 \<Rightarrow> bool" where
  "is_digit c \<longleftrightarrow> c \<ge> 0x30 \<and> c \<le> 0x39"

fun parse_flags :: "u8 list \<Rightarrow> npf_format_spec \<Rightarrow> u8 list \<times> npf_format_spec" where
  "parse_flags [] fs = ([], fs)"
| "parse_flags (c # cur) fs =
     (if c = 0x2D then parse_flags cur (fs\<lparr>left_justified := True, leading_zero_pad := False\<rparr>)
      else if c = 0x30 then parse_flags cur (fs\<lparr>leading_zero_pad := \<not> left_justified fs\<rparr>)
      else if c = 0x2B then parse_flags cur (fs\<lparr>prepend := 0x2B\<rparr>)
      else if c = 0x20 then parse_flags cur (if prepend fs = 0 then fs\<lparr>prepend := 0x20\<rparr> else fs)
      else if c = 0x23 then parse_flags cur (fs\<lparr>alt_form := True\<rparr>)
      else (c # cur, fs))"

fun parse_number :: "int \<Rightarrow> u8 list \<Rightarrow> (int \<times> u8 list) result" where
  "parse_number n [] = ret (n, [])"
| "parse_number n (c # cur) =
     (if is_digit c
      then rbind (imul n 10) (\<lambda>p. rbind (iadd p (uint c - 0x30)) (\<lambda>n. parse_number n cur))
      else ret (n, c # cur))"

definition parse_field_width :: "u8 list \<Rightarrow> npf_format_spec \<Rightarrow> (u8 list \<times> npf_format_spec) result" where
  "parse_field_width cur fs =
     (let fs = fs\<lparr>field_width := 0, field_width_opt := NPF_FMT_SPEC_OPT_NONE\<rparr> in
      if at cur = 0x2A then ret (tl cur, fs\<lparr>field_width_opt := NPF_FMT_SPEC_OPT_STAR\<rparr>)
      else let fs = (if is_digit (at cur) then fs\<lparr>field_width_opt := NPF_FMT_SPEC_OPT_LITERAL\<rparr> else fs) in
      rbind (parse_number 0 cur) (\<lambda>(n, cur). ret (cur, fs\<lparr>field_width := n\<rparr>)))"

definition parse_prec :: "u8 list \<Rightarrow> npf_format_spec \<Rightarrow> (u8 list \<times> npf_format_spec) result" where
  "parse_prec cur fs =
     (let fs = fs\<lparr>prec := 0, prec_opt := NPF_FMT_SPEC_OPT_NONE\<rparr> in
      if at cur \<noteq> 0x2E then ret (cur, fs)
      else let cur = tl cur in
      if at cur = 0x2A then ret (tl cur, fs\<lparr>prec_opt := NPF_FMT_SPEC_OPT_STAR\<rparr>)
      else let (cur, fs) = (if at cur = 0x2D then (tl cur, fs)
                            else (cur, fs\<lparr>prec_opt := NPF_FMT_SPEC_OPT_LITERAL\<rparr>))
      in rbind (parse_number 0 cur) (\<lambda>(n, cur). ret (cur, fs\<lparr>prec := n\<rparr>)))"

definition parse_length_modifier :: "u8 list \<Rightarrow> u8 list \<times> npf_len_mod" where
  "parse_length_modifier cur =
     (let c = at cur in
      if c = 0x68 then
        (if at (tl cur) = 0x68 then (tl (tl cur), NPF_FMT_SPEC_LEN_MOD_CHAR) else (tl cur, NPF_FMT_SPEC_LEN_MOD_SHORT))
      else if c = 0x6C then
        (if at (tl cur) = 0x6C then (tl (tl cur), NPF_FMT_SPEC_LEN_MOD_LARGE_LONG_LONG)
         else (tl cur, NPF_FMT_SPEC_LEN_MOD_LONG))
      else if c = 0x6A then (tl cur, NPF_FMT_SPEC_LEN_MOD_LARGE_INTMAX)
      else if c = 0x7A then (tl cur, NPF_FMT_SPEC_LEN_MOD_LARGE_SIZET)
      else if c = 0x74 then (tl cur, NPF_FMT_SPEC_LEN_MOD_LARGE_PTRDIFFT)
      else (cur, NPF_FMT_SPEC_LEN_MOD_NONE))"

text \<open>The common end of the integer conversions.\<close>

definition int_conv :: "npf_conv \<Rightarrow> npf_format_spec \<Rightarrow> npf_format_spec" where
  "int_conv cv fs =
     (let fs = fs\<lparr>conv_spec := cv\<rparr>
      in if prec_opt fs \<noteq> NPF_FMT_SPEC_OPT_NONE then fs\<lparr>leading_zero_pad := False\<rparr> else fs)"

text \<open>The pointer and binary conversions, then all of them.\<close>

definition parse_conv_p_b :: "u8 \<Rightarrow> npf_format_spec \<Rightarrow> npf_format_spec option" where
  "parse_conv_p_b c fs =
     (if c = 0x70 then Some (fs\<lparr>conv_spec := NPF_FMT_SPEC_CONV_POINTER, prec_opt := NPF_FMT_SPEC_OPT_NONE\<rparr>)
      else if c = 0x42 then Some (fs\<lparr>conv_spec := NPF_FMT_SPEC_CONV_BINARY, case_adjust := 0\<rparr>)
      else if c = 0x62 then Some (fs\<lparr>conv_spec := NPF_FMT_SPEC_CONV_BINARY\<rparr>)
      else None)"

definition parse_conv :: "u8 \<Rightarrow> npf_format_spec \<Rightarrow> npf_format_spec option" where
  "parse_conv c fs =
     (if c = 0x25 then Some (fs\<lparr>conv_spec := NPF_FMT_SPEC_CONV_PERCENT, prec_opt := NPF_FMT_SPEC_OPT_NONE\<rparr>)
      else if c = 0x63 then Some (fs\<lparr>conv_spec := NPF_FMT_SPEC_CONV_CHAR, prec_opt := NPF_FMT_SPEC_OPT_NONE\<rparr>)
      else if c = 0x73 then Some (fs\<lparr>conv_spec := NPF_FMT_SPEC_CONV_STRING, leading_zero_pad := False\<rparr>)
      else if c = 0x69 \<or> c = 0x64 then Some (int_conv NPF_FMT_SPEC_CONV_SIGNED_INT fs)
      else if c = 0x6F then Some (int_conv NPF_FMT_SPEC_CONV_OCTAL fs)
      else if c = 0x75 then Some (int_conv NPF_FMT_SPEC_CONV_UNSIGNED_INT fs)
      else if c = 0x58 then Some (int_conv NPF_FMT_SPEC_CONV_HEX_INT (fs\<lparr>case_adjust := 0\<rparr>))
      else if c = 0x78 then Some (int_conv NPF_FMT_SPEC_CONV_HEX_INT fs)
      else parse_conv_p_b c fs)"

text \<open>
  \<open>cur\<close> is the text after the percent sign. The result is the specifier and the text after it, or \<open>None\<close> when
  the function returns 0.
\<close>

definition npf_parse_format_spec :: "u8 list \<Rightarrow> (npf_format_spec \<times> u8 list) option result" where
  "npf_parse_format_spec cur =
     (let (cur, fs) = parse_flags cur
            \<lparr>field_width = 0, field_width_opt = NPF_FMT_SPEC_OPT_NONE, left_justified = False, leading_zero_pad = False,
             prec = 0, prec_opt = NPF_FMT_SPEC_OPT_NONE, prepend = 0, alt_form = False, case_adjust = 0x20,
             length_modifier = NPF_FMT_SPEC_LEN_MOD_NONE, conv_spec = NPF_FMT_SPEC_CONV_NONE\<rparr>
      in
      rbind (parse_field_width cur fs) (\<lambda>(cur, fs).
      rbind (parse_prec cur fs) (\<lambda>(cur, fs).
      let (cur, lm) = parse_length_modifier cur
      in ret (map_option (\<lambda>fs. (fs, tl cur)) (parse_conv (at cur) (fs\<lparr>length_modifier := lm\<rparr>))))))"

subsection \<open>Conversions\<close>

text \<open>The digits of \<open>val\<close>, least significant first, as they are stored in the conversion buffer.\<close>

definition digit_char :: "u64 \<Rightarrow> u8 \<Rightarrow> u8" where
  "digit_char d case_adj = (if d < 10 then 0x30 else 0x41 - 10 + case_adj) + ucast d"

partial_function (option) npf_utoa_rev :: "u64 \<Rightarrow> u8 list \<Rightarrow> u64 \<Rightarrow> u8 \<Rightarrow> u8 list result" where
  "npf_utoa_rev val buf base case_adj =
     (if length buf \<ge> NANOPRINTF_CONVERSION_BUFFER_SIZE then fails (Bad_Access ''cbuf'')
      else let buf = buf @ [digit_char (val mod base) case_adj];
               val = val div base
           in if val \<noteq> 0 then npf_utoa_rev val buf base case_adj else ret buf)"

text \<open>The number of bits of \<open>u\<close>: 64 minus the number of leading zeros that \<open>__builtin_clzll\<close> counts.\<close>

function bit_length :: "u64 \<Rightarrow> nat" where
  "bit_length u = (if u = 0 then 0 else Suc (bit_length (drop_bit 1 u)))"
  by auto
termination
  by (relation "measure unat") (simp_all add: drop_bit_eq_div unat_div unat_gt_0)

definition npf_bin_len :: "u64 \<Rightarrow> nat" where
  "npf_bin_len u = (if u = 0 then 1 else bit_length u)"

definition va_arg :: "u64 list \<Rightarrow> (u64 \<times> u64 list) result" where
  "va_arg args = (case args of [] \<Rightarrow> fails (Bad_Access ''va_arg'') | a # args \<Rightarrow> ret (a, args))"

definition int_of_slot :: "u64 \<Rightarrow> int" where
  "int_of_slot a = sint (ucast a :: u32)"

text \<open>\<open>NPF_EXTRACT\<close> for the signed and for the unsigned conversions.\<close>

definition extract_signed :: "npf_len_mod \<Rightarrow> u64 \<Rightarrow> u64" where
  "extract_signed lm a =
     (case lm of
        NPF_FMT_SPEC_LEN_MOD_NONE \<Rightarrow> scast (ucast a :: u32)
      | NPF_FMT_SPEC_LEN_MOD_SHORT \<Rightarrow> scast (ucast a :: u16)
      | NPF_FMT_SPEC_LEN_MOD_LONG_DOUBLE \<Rightarrow> scast (ucast a :: u32)
      | NPF_FMT_SPEC_LEN_MOD_CHAR \<Rightarrow> scast (ucast a :: u8)
      | _ \<Rightarrow> a)"

definition extract_unsigned :: "npf_len_mod \<Rightarrow> u64 \<Rightarrow> u64" where
  "extract_unsigned lm a =
     (case lm of
        NPF_FMT_SPEC_LEN_MOD_NONE \<Rightarrow> ucast (ucast a :: u32)
      | NPF_FMT_SPEC_LEN_MOD_SHORT \<Rightarrow> ucast (ucast a :: u16)
      | NPF_FMT_SPEC_LEN_MOD_LONG_DOUBLE \<Rightarrow> ucast (ucast a :: u32)
      | NPF_FMT_SPEC_LEN_MOD_CHAR \<Rightarrow> ucast (ucast a :: u8)
      | _ \<Rightarrow> a)"

text \<open>The text of a conversion: \<open>cbuf\<close> in the order it is written out, with its sign and its prefix.\<close>

record npf_conversion =
  cbuf :: "u8 list"
  sign_c :: u8
  need_0x :: u8
  is_zero :: bool

definition plain :: "u8 list \<Rightarrow> npf_conversion" where
  "plain cs = \<lparr>cbuf = cs, sign_c = 0, need_0x = 0, is_zero = False\<rparr>"

text \<open>The length of a string argument, bounded by the precision if there is one; an \<open>int\<close>.\<close>

partial_function (option) npf_strnlen :: "mem \<Rightarrow> addr \<Rightarrow> npf_format_spec \<Rightarrow> int \<Rightarrow> int result" where
  "npf_strnlen m s fs cbuf_len =
     (if (prec_opt fs = NPF_FMT_SPEC_OPT_NONE \<or> cbuf_len < prec fs) \<and> m s \<noteq> 0
      then rbind (iadd cbuf_len 1) (\<lambda>n. npf_strnlen m (s + 1) fs n)
      else ret cbuf_len)"

definition convert_string :: "mem \<Rightarrow> npf_format_spec \<Rightarrow> addr \<Rightarrow> npf_conversion result" where
  "convert_string m fs s =
     (if s = NULL then ret (plain [])
      else rbind (npf_strnlen m s fs 0) (\<lambda>n. ret (plain (map (\<lambda>i. m (s + of_nat i)) [0..<nat n]))))"

definition convert_signed :: "npf_format_spec \<Rightarrow> u64 \<Rightarrow> npf_conversion result" where
  "convert_signed fs a =
     (let val = extract_signed (length_modifier fs) a;
          sc = (if sint val < 0 then 0x2D else prepend fs)
      in
      if val = 0 \<and> prec_opt fs \<noteq> NPF_FMT_SPEC_OPT_NONE \<and> prec fs = 0
      then ret \<lparr>cbuf = [], sign_c = sc, need_0x = 0, is_zero = True\<rparr>
      else rbind (npf_utoa_rev (if sint val < 0 then 0 - val else val) [] 10 (case_adjust fs)) (\<lambda>ds.
           ret \<lparr>cbuf = rev ds, sign_c = sc, need_0x = 0, is_zero = (val = 0)\<rparr>))"

definition unsigned_base :: "npf_format_spec \<Rightarrow> u64" where
  "unsigned_base fs =
     (if conv_spec fs = NPF_FMT_SPEC_CONV_OCTAL then 8 else if conv_spec fs = NPF_FMT_SPEC_CONV_HEX_INT then 16 else 10)"

definition bin_digits :: "u64 \<Rightarrow> u8 list" where
  "bin_digits val = map (\<lambda>k. 0x30 + ucast (drop_bit k val AND 1)) (rev [0..<npf_bin_len val])"

definition convert_unsigned :: "npf_format_spec \<Rightarrow> u64 \<Rightarrow> (npf_conversion \<times> npf_format_spec) result" where
  "convert_unsigned fs a =
     (let val = extract_unsigned (length_modifier fs) a;
          octal = conv_spec fs = NPF_FMT_SPEC_CONV_OCTAL;
          none = val = 0 \<and> prec_opt fs \<noteq> NPF_FMT_SPEC_OPT_NONE \<and> prec fs = 0
      in
      rbind (if none then ret []
             else if conv_spec fs = NPF_FMT_SPEC_CONV_BINARY then ret (bin_digits val)
             else rbind (npf_utoa_rev val [] (unsigned_base fs) (case_adjust fs)) (\<lambda>ds. ret (rev ds))) (\<lambda>cs.
      rbind (if val \<noteq> 0 \<and> alt_form fs \<and> octal
             then if length cs \<ge> NANOPRINTF_CONVERSION_BUFFER_SIZE then fails (Bad_Access ''cbuf'') else ret (0x30 # cs)
             else ret cs) (\<lambda>cs.
      let nx = (if val \<noteq> 0 \<and> alt_form fs then
                  if conv_spec fs = NPF_FMT_SPEC_CONV_HEX_INT then 0x58 + case_adjust fs
                  else if conv_spec fs = NPF_FMT_SPEC_CONV_BINARY then 0x42 + case_adjust fs else 0
                else 0)
      in ret (\<lparr>cbuf = cs, sign_c = 0, need_0x = nx, is_zero = (val = 0)\<rparr>,
              if none \<and> octal \<and> alt_form fs then fs\<lparr>prec := 1\<rparr> else fs))))"

definition convert_pointer :: "u64 \<Rightarrow> npf_conversion result" where
  "convert_pointer a =
     rbind (npf_utoa_rev a [] 16 0x20) (\<lambda>ds. ret \<lparr>cbuf = rev ds, sign_c = 0, need_0x = 0x78, is_zero = False\<rparr>)"

definition npf_convert ::
  "mem \<Rightarrow> npf_format_spec \<Rightarrow> u64 list \<Rightarrow> (npf_conversion \<times> npf_format_spec \<times> u64 list) result" where
  "npf_convert m fs args =
     (if conv_spec fs = NPF_FMT_SPEC_CONV_PERCENT then ret (plain [0x25], fs, args)
      else if conv_spec fs = NPF_FMT_SPEC_CONV_NONE then ret (plain [], fs, args)
      else rbind (va_arg args) (\<lambda>(a, args).
      if conv_spec fs = NPF_FMT_SPEC_CONV_CHAR then ret (plain [ucast a], fs, args)
      else if conv_spec fs = NPF_FMT_SPEC_CONV_STRING then rbind (convert_string m fs a) (\<lambda>cv. ret (cv, fs, args))
      else if conv_spec fs = NPF_FMT_SPEC_CONV_SIGNED_INT then rbind (convert_signed fs a) (\<lambda>cv. ret (cv, fs, args))
      else if conv_spec fs = NPF_FMT_SPEC_CONV_POINTER then rbind (convert_pointer a) (\<lambda>cv. ret (cv, fs, args))
      else rbind (convert_unsigned fs a) (\<lambda>(cv, fs). ret (cv, fs, args))))"

text \<open>The arguments of \<open>*\<close> widths and precisions.\<close>

definition star_args :: "npf_format_spec \<Rightarrow> u64 list \<Rightarrow> (npf_format_spec \<times> u64 list) result" where
  "star_args fs args =
     rbind (if field_width_opt fs = NPF_FMT_SPEC_OPT_STAR
            then rbind (va_arg args) (\<lambda>(a, args).
                 let w = int_of_slot a in
                 if w < 0 then rbind (ineg w) (\<lambda>w. ret (fs\<lparr>field_width := w, left_justified := True\<rparr>, args))
                 else ret (fs\<lparr>field_width := w\<rparr>, args))
            else ret (fs, args)) (\<lambda>(fs, args).
     if prec_opt fs = NPF_FMT_SPEC_OPT_STAR
     then rbind (va_arg args) (\<lambda>(a, args).
          let p = int_of_slot a in
          ret (if p < 0 then fs\<lparr>prec := p, prec_opt := NPF_FMT_SPEC_OPT_NONE\<rparr> else fs\<lparr>prec := p\<rparr>, args))
     else ret (fs, args))"

subsection \<open>Layout\<close>

definition pad_char :: "npf_format_spec \<Rightarrow> bool \<Rightarrow> u8" where
  "pad_char fs z =
     (if field_width_opt fs \<noteq> NPF_FMT_SPEC_OPT_NONE then
        if leading_zero_pad fs then
          if conv_spec fs \<noteq> NPF_FMT_SPEC_CONV_STRING \<and> conv_spec fs \<noteq> NPF_FMT_SPEC_CONV_CHAR \<and>
             conv_spec fs \<noteq> NPF_FMT_SPEC_CONV_PERCENT
          then if prec_opt fs \<noteq> NPF_FMT_SPEC_OPT_NONE \<and> prec fs = 0 \<and> z then 0x20 else 0x30
          else 0
        else 0x20
      else 0)"

definition prec_pad :: "npf_format_spec \<Rightarrow> int \<Rightarrow> int result" where
  "prec_pad fs len =
     (if conv_spec fs \<noteq> NPF_FMT_SPEC_CONV_STRING then rbind (isub (prec fs) len) (\<lambda>d. ret (npf_max 0 d)) else ret 0)"

definition field_pad :: "npf_format_spec \<Rightarrow> npf_conversion \<Rightarrow> int \<Rightarrow> int result" where
  "field_pad fs cv pp =
     rbind (isub (field_width fs) (int (length (cbuf cv)))) (\<lambda>p.
     rbind (isub p (of_bool (sign_c cv \<noteq> 0))) (\<lambda>p.
     rbind (if need_0x cv \<noteq> 0 then isub p 2 else ret p) (\<lambda>p.
     rbind (isub p pp) (\<lambda>p. ret (npf_max 0 p)))))"

definition prefix_0x :: "u8 \<Rightarrow> u8 list" where
  "prefix_0x nx = (if nx \<noteq> 0 then [0x30, nx] else [])"

definition opt_char :: "u8 \<Rightarrow> u8 list" where
  "opt_char c = (if c \<noteq> 0 then [c] else [])"

text \<open>All the characters of one conversion, in the order they are put.\<close>

definition layout :: "npf_format_spec \<Rightarrow> npf_conversion \<Rightarrow> u8 list result" where
  "layout fs cv =
     (let pad_c = pad_char fs (is_zero cv) in
      rbind (prec_pad fs (int (length (cbuf cv)))) (\<lambda>pp.
      rbind (field_pad fs cv pp) (\<lambda>fp.
      let pad = replicate (nat fp) pad_c;
          nx = prefix_0x (need_0x cv);
          sign = opt_char (sign_c cv);
          (before, sign) =
            (if \<not> left_justified fs \<and> pad_c \<noteq> 0
             then if pad_c = 0x30 then (sign @ nx @ pad, []) else (pad @ nx, sign)
             else (nx, sign));
          payload = (if conv_spec fs = NPF_FMT_SPEC_CONV_STRING then cbuf cv
                     else sign @ replicate (nat pp) 0x30 @ cbuf cv);
          after = (if left_justified fs \<and> pad_c \<noteq> 0 then pad else [])
      in ret (before @ payload @ after))))"

subsection \<open>Output\<close>

record npf_bufputc_ctx =
  bpc_dst :: addr
  bpc_len :: u64
  bpc_cur :: u64

definition npf_bufputc :: "u8 \<Rightarrow> mem \<times> npf_bufputc_ctx \<Rightarrow> mem \<times> npf_bufputc_ctx" where
  "npf_bufputc c st =
     (case st of (m, bpc) \<Rightarrow>
        if bpc_cur bpc < bpc_len bpc
        then (m(bpc_dst bpc + bpc_cur bpc := c), bpc\<lparr>bpc_cur := bpc_cur bpc + 1\<rparr>) else (m, bpc))"

definition npf_bufputc_nop :: "u8 \<Rightarrow> 'c \<Rightarrow> 'c" where
  "npf_bufputc_nop c st = st"

definition npf_putc_cnt :: "(u8 \<Rightarrow> 'c \<Rightarrow> 'c) \<Rightarrow> u8 \<Rightarrow> int \<times> 'c \<Rightarrow> (int \<times> 'c) result" where
  "npf_putc_cnt pc c st = rbind (iadd (fst st) 1) (\<lambda>n. ret (n, pc c (snd st)))"

partial_function (option) vpprintf_loop ::
  "(u8 \<Rightarrow> 'c \<Rightarrow> 'c) \<Rightarrow> mem \<Rightarrow> u8 list \<Rightarrow> u64 list \<Rightarrow> int \<times> 'c \<Rightarrow> (int \<times> 'c) result" where
  "vpprintf_loop pc m cur args st =
     (if cur = [] then ret st
      else let c = hd cur; rest = tl cur in
      rbind (if c \<noteq> 0x25 then ret None else npf_parse_format_spec rest) (\<lambda>r.
      if r = None then rbind (npf_putc_cnt pc c st) (\<lambda>st. vpprintf_loop pc m rest args st)
      else let (fs, rest) = the r in
      rbind (star_args fs args) (\<lambda>(fs, args).
      rbind (npf_convert m fs args) (\<lambda>(cv, fs, args).
      rbind (layout fs cv) (\<lambda>cs.
      rbind (for_each (npf_putc_cnt pc) cs st) (\<lambda>st. vpprintf_loop pc m rest args st))))))"

definition npf_vpprintf ::
  "(u8 \<Rightarrow> 'c \<Rightarrow> 'c) \<Rightarrow> mem \<Rightarrow> u8 list \<Rightarrow> u64 list \<Rightarrow> 'c \<Rightarrow> (int \<times> 'c) result" where
  "npf_vpprintf pc m format args ctx = vpprintf_loop pc m format args (0, ctx)"

definition npf_pprintf ::
  "(u8 \<Rightarrow> 'c \<Rightarrow> 'c) \<Rightarrow> mem \<Rightarrow> u8 list \<Rightarrow> u64 list \<Rightarrow> 'c \<Rightarrow> (int \<times> 'c) result" where
  "npf_pprintf pc m format args ctx = npf_vpprintf pc m format args ctx"

text \<open>
  \<open>format\<close> and the strings among the arguments are as in the memory before the call. The sanitizer checks that
  the address \<open>buffer + (bufsz - 1)\<close> does not wrap around, and with it every address that is written before.
\<close>

definition npf_vsnprintf :: "addr \<Rightarrow> u64 \<Rightarrow> u8 list \<Rightarrow> u64 list \<Rightarrow> mem \<Rightarrow> (int \<times> mem) result" where
  "npf_vsnprintf buffer bufsz format args m =
     (let ctx = \<lparr>bpc_dst = buffer, bpc_len = bufsz, bpc_cur = 0\<rparr>;
          pc = (if buffer \<noteq> NULL then npf_bufputc else npf_bufputc_nop)
      in
      rbind (npf_vpprintf pc m format args (m, ctx)) (\<lambda>(n, st).
      let m = fst (pc 0 st) in
      if buffer \<noteq> NULL \<and> bufsz \<noteq> 0 then
        if buffer + (bufsz - 1) < buffer then ubsan_handle_pointer_overflow
        else ret (n, m(buffer + (bufsz - 1) := 0))
      else ret (n, m)))"

definition npf_snprintf :: "addr \<Rightarrow> u64 \<Rightarrow> u8 list \<Rightarrow> u64 list \<Rightarrow> mem \<Rightarrow> (int \<times> mem) result" where
  "npf_snprintf buffer bufsz format args m = npf_vsnprintf buffer bufsz format args m"

end
