(* ===== verification/Nanoprintf_Correct.thy ===== *)
theory Nanoprintf_Correct
  imports Nanoprintf
begin

text \<open>
  Formatted output is correct: numbers come out as their numerals, the conversion buffer never overflows, and
  \<open>npf_vsnprintf\<close> leaves in its buffer the formatted text cut to the size, terminated, and nothing outside it.
\<close>

section \<open>Numerals\<close>

text \<open>The digits of a number, least significant first, and the number of a list of digits.\<close>

fun rdigits :: "nat \<Rightarrow> nat \<Rightarrow> nat list" where
  "rdigits b n = (if b < 2 \<or> n < b then [n] else n mod b # rdigits b (n div b))"

declare rdigits.simps [simp del]

definition digits_value :: "nat \<Rightarrow> nat list \<Rightarrow> nat" where
  "digits_value b ds = foldr (\<lambda>d v. d + b * v) ds 0"

lemma digits_value_rdigits: "digits_value b (rdigits b n) = n"
proof (induction b n rule: rdigits.induct)
  case (1 b n)
  then show ?case by (subst rdigits.simps) (auto simp: digits_value_def)
qed

lemma rdigits_less: "2 \<le> b \<Longrightarrow> d \<in> set (rdigits b n) \<Longrightarrow> d < b"
proof (induction b n rule: rdigits.induct)
  case (1 b n)
  from 1(3) show ?case by (subst (asm) rdigits.simps) (use 1 in \<open>auto split: if_splits\<close>)
qed

lemma length_rdigits: "2 \<le> b \<Longrightarrow> n < b ^ Suc k \<Longrightarrow> length (rdigits b n) \<le> Suc k"
proof (induction k arbitrary: n)
  case 0
  then show ?case by (subst rdigits.simps) simp
next
  case (Suc k)
  have "n div b < b ^ Suc k" using Suc.prems by (simp add: div_less_iff_less_mult mult.commute)
  then have "length (rdigits b (n div b)) \<le> Suc k" using Suc.prems by (intro Suc.IH)
  then show ?case by (subst rdigits.simps) simp
qed

lemma rdigits_no_leading_zero: "2 \<le> b \<Longrightarrow> n \<noteq> 0 \<Longrightarrow> last (rdigits b n) \<noteq> 0"
proof (induction b n rule: rdigits.induct)
  case (1 b n)
  have "rdigits b (n div b) \<noteq> []" by (subst rdigits.simps) simp
  then show ?case using 1 by (subst rdigits.simps) (auto simp: div_eq_0_iff)
qed

text \<open>\<open>npf_utoa_rev\<close> writes the digits and stays in the buffer.\<close>

lemma npf_utoa_rev_digits:
  fixes base :: u64
  assumes "2 \<le> unat base" "length buf + length (rdigits (unat base) (unat val)) \<le> NANOPRINTF_CONVERSION_BUFFER_SIZE"
  shows "npf_utoa_rev val buf base adj =
    ret (buf @ map (\<lambda>d. digit_char (of_nat d) adj) (rdigits (unat base) (unat val)))"
  using assms(2)
proof (induction "unat val" arbitrary: val buf rule: less_induct)
  case less
  have m: "unat (val mod base) = unat val mod unat base" "unat (val div base) = unat val div unat base"
    by (simp_all add: unat_mod unat_div)
  have ds: "rdigits (unat base) (unat val) =
      (if unat val < unat base then [unat val] else unat val mod unat base # rdigits (unat base) (unat val div unat base))"
    using assms(1) by (subst rdigits.simps) simp
  have c: "digit_char (val mod base) adj = digit_char (of_nat (unat val mod unat base)) adj"
    by (simp flip: m(1))
  show ?case
  proof (cases "unat val < unat base")
    case True
    then have "val div base = 0" using m(2) by (simp flip: unat_eq_zero)
    then show ?thesis using True ds c less.prems by (subst npf_utoa_rev.simps) (simp add: Let_def)
  next
    case False
    then have nz: "val div base \<noteq> 0" using m(2) assms(1) by (simp add: div_eq_0_iff flip: unat_eq_zero)
    have "unat (val div base) < unat val" using m(2) False assms(1) by simp
    from less.hyps [OF this, of "buf @ [digit_char (val mod base) adj]"] less.prems False ds m(2)
    show ?thesis using nz c by (subst npf_utoa_rev.simps) (simp add: Let_def)
  qed
qed

text \<open>A 64-bit number has at most 22 digits to a base of 8 or more, so the buffer has room for a leading zero.\<close>

lemma length_rdigits_word: "8 \<le> b \<Longrightarrow> length (rdigits b (unat (val :: u64))) \<le> 22"
proof -
  assume b: "8 \<le> b"
  have "unat val < 2 ^ 64" by (rule unat_lt64)
  also have "\<dots> \<le> (8 :: nat) ^ 22" by simp
  also have "\<dots> \<le> b ^ 22" using b by (rule power_mono) simp
  finally show ?thesis using length_rdigits [of b "unat val" 21] b by simp
qed

definition numeral_text :: "u64 \<Rightarrow> u8 \<Rightarrow> u64 \<Rightarrow> u8 list" where
  "numeral_text base adj val = rev (map (\<lambda>d. digit_char (of_nat d) adj) (rdigits (unat base) (unat val)))"

lemma npf_utoa_rev_text:
  assumes "base \<in> {8, 10, 16}"
  shows "npf_utoa_rev val [] base adj = ret (rev (numeral_text base adj val))"
proof -
  have b: "8 \<le> unat base" using assms by auto
  then show ?thesis using length_rdigits_word [OF b, of val]
    by (simp add: npf_utoa_rev_digits numeral_text_def NANOPRINTF_CONVERSION_BUFFER_SIZE_def)
qed

lemma length_numeral_text: "base \<in> {8, 10, 16} \<Longrightarrow> length (numeral_text base adj val) \<le> 22"
  using length_rdigits_word [of "unat base" val] by (auto simp: numeral_text_def)

section \<open>The conversion buffer\<close>

text \<open>With the numerals evaluated, no conversion can leave the buffer.\<close>

lemma unsigned_base_cases: "unsigned_base fs \<in> {8, 10, 16}"
  by (simp add: unsigned_base_def)

lemma convert_signed_eq:
  "convert_signed fs a =
     (let val = extract_signed (length_modifier fs) a;
          sc = (if sint val < 0 then 0x2D else prepend fs);
          none = val = 0 \<and> prec_opt fs \<noteq> NPF_FMT_SPEC_OPT_NONE \<and> prec fs = 0
      in ret \<lparr>cbuf = (if none then [] else numeral_text 10 (case_adjust fs) (if sint val < 0 then 0 - val else val)),
              sign_c = sc, need_0x = 0, is_zero = (val = 0)\<rparr>)"
  by (simp add: convert_signed_def npf_utoa_rev_text Let_def)

lemma convert_pointer_eq:
  "convert_pointer a = ret \<lparr>cbuf = numeral_text 16 0x20 a, sign_c = 0, need_0x = 0x78, is_zero = False\<rparr>"
  by (simp add: convert_pointer_def npf_utoa_rev_text)

definition unsigned_text :: "npf_format_spec \<Rightarrow> u64 \<Rightarrow> u8 list" where
  "unsigned_text fs val =
     (if val = 0 \<and> prec_opt fs \<noteq> NPF_FMT_SPEC_OPT_NONE \<and> prec fs = 0 then []
      else if conv_spec fs = NPF_FMT_SPEC_CONV_BINARY then bin_digits val
      else (if val \<noteq> 0 \<and> alt_form fs \<and> conv_spec fs = NPF_FMT_SPEC_CONV_OCTAL then [0x30] else []) @
           numeral_text (unsigned_base fs) (case_adjust fs) val)"

lemma convert_unsigned_eq:
  "convert_unsigned fs a =
     (let val = extract_unsigned (length_modifier fs) a;
          octal = conv_spec fs = NPF_FMT_SPEC_CONV_OCTAL
      in ret (\<lparr>cbuf = unsigned_text fs val, sign_c = 0,
               need_0x = (if val \<noteq> 0 \<and> alt_form fs then
                  if conv_spec fs = NPF_FMT_SPEC_CONV_HEX_INT then 0x58 + case_adjust fs
                  else if conv_spec fs = NPF_FMT_SPEC_CONV_BINARY then 0x42 + case_adjust fs else 0
                else 0), is_zero = (val = 0)\<rparr>,
              if val = 0 \<and> prec_opt fs \<noteq> NPF_FMT_SPEC_OPT_NONE \<and> prec fs = 0 \<and> octal \<and> alt_form fs
              then fs\<lparr>prec := 1\<rparr> else fs))"
proof -
  let ?val = "extract_unsigned (length_modifier fs) a"
  have len: "\<not> NANOPRINTF_CONVERSION_BUFFER_SIZE \<le> length (numeral_text (unsigned_base fs) (case_adjust fs) ?val)"
    using length_numeral_text [OF unsigned_base_cases, of fs "case_adjust fs" ?val]
    by (simp add: NANOPRINTF_CONVERSION_BUFFER_SIZE_def)
  show ?thesis unfolding convert_unsigned_def Let_def npf_utoa_rev_text [OF unsigned_base_cases] unsigned_text_def
    using len by auto
qed

section \<open>The parser consumes its specifier\<close>

lemma length_parse_flags: "parse_flags cur fs = (cur', fs') \<Longrightarrow> length cur' \<le> length cur"
proof (induction cur fs rule: parse_flags.induct)
  case (2 c cur fs)
  then show ?case by (auto split: if_splits dest: le_SucI)
qed simp

lemma length_parse_number: "parse_number n cur = ret (n', cur') \<Longrightarrow> length cur' \<le> length cur"
proof (induction n cur rule: parse_number.induct)
  case (2 n c cur)
  then show ?case by (auto split: if_splits dest: le_SucI elim!: rbind_retE)
qed simp

lemma length_parse_field_width: "parse_field_width cur fs = ret (cur', fs') \<Longrightarrow> length cur' \<le> length cur"
  by (auto simp: parse_field_width_def Let_def split: if_splits dest: length_parse_number elim!: rbind_retE)

lemma length_parse_prec: "parse_prec cur fs = ret (cur', fs') \<Longrightarrow> length cur' \<le> length cur"
  by (auto simp: parse_prec_def Let_def split: if_splits dest!: length_parse_number elim!: rbind_retE)

lemma length_parse_length_modifier: "parse_length_modifier cur = (cur', lm) \<Longrightarrow> length cur' \<le> length cur"
  by (auto simp: parse_length_modifier_def Let_def split: if_splits)

lemma parse_conv_0: "parse_conv 0 fs = None"
  by (simp add: parse_conv_def parse_conv_p_b_def)

lemma length_parse_format_spec:
  assumes "npf_parse_format_spec cur = ret (Some (fs, rest))"
  shows "length rest < length cur"
proof -
  obtain c1 c2 c3 c4 fs1 fs2 fs3 lm fs0 where p: "parse_flags cur fs0 = (c1, fs1)" "parse_field_width c1 fs1 = ret (c2, fs2)"
    "parse_prec c2 fs2 = ret (c3, fs3)" "parse_length_modifier c3 = (c4, lm)"
    "parse_conv (at c4) (fs3\<lparr>length_modifier := lm\<rparr>) = Some fs" "rest = tl c4"
    using assms by (auto simp: npf_parse_format_spec_def Let_def split_beta prod_eq_iff elim!: rbind_retE)
  have "c4 \<noteq> []" using p(5) parse_conv_0 by (auto simp: at_def)
  moreover have "length c4 \<le> length cur"
    using length_parse_flags [OF p(1)] length_parse_field_width [OF p(2)] length_parse_prec [OF p(3)]
      length_parse_length_modifier [OF p(4)] by linarith
  ultimately show ?thesis using p(6) by (cases c4) auto
qed

section \<open>The text of a format\<close>

text \<open>The characters of one specifier, and the arguments that are left.\<close>

definition field_text :: "mem \<Rightarrow> npf_format_spec \<Rightarrow> u64 list \<Rightarrow> (u8 list \<times> u64 list) result" where
  "field_text m fs args =
     rbind (star_args fs args) (\<lambda>(fs, args).
     rbind (npf_convert m fs args) (\<lambda>(cv, fs, args).
     rbind (layout fs cv) (\<lambda>cs. ret (cs, args))))"

text \<open>The text that a format stands for: its ordinary characters and the texts of its specifiers.\<close>

partial_function (option) format_text :: "mem \<Rightarrow> u8 list \<Rightarrow> u64 list \<Rightarrow> u8 list result" where
  "format_text m cur args =
     (if cur = [] then ret []
      else let c = hd cur; rest = tl cur in
      rbind (if c \<noteq> 0x25 then ret None else npf_parse_format_spec rest) (\<lambda>r.
      if r = None then rbind (format_text m rest args) (\<lambda>cs. ret (c # cs))
      else rbind (field_text m (fst (the r)) args) (\<lambda>(cs, args).
           rbind (format_text m (snd (the r)) args) (\<lambda>cs'. ret (cs @ cs')))))"

lemma putc_all:
  assumes "0 \<le> n" "n + int (length cs) < 2 ^ 31"
  shows "for_each (npf_putc_cnt pc) cs (n, ctx) = ret (n + int (length cs), fold pc cs ctx)"
  using assms
proof (induction cs arbitrary: n ctx)
  case (Cons c cs)
  have "npf_putc_cnt pc c (n, ctx) = ret (n + 1, pc c ctx)"
    using Cons.prems by (simp add: npf_putc_cnt_def iadd_def int_range_def)
  then show ?case using Cons.IH [of "n + 1" "pc c ctx"] Cons.prems by (simp add: algebra_simps)
qed simp

lemma vpprintf_loop_step:
  "cur \<noteq> [] \<Longrightarrow> vpprintf_loop pc m cur args st =
     rbind (if hd cur \<noteq> 0x25 then ret None else npf_parse_format_spec (tl cur)) (\<lambda>r.
     if r = None then rbind (npf_putc_cnt pc (hd cur) st) (vpprintf_loop pc m (tl cur) args)
     else rbind (field_text m (fst (the r)) args) (\<lambda>(cs, args).
          rbind (for_each (npf_putc_cnt pc) cs st) (vpprintf_loop pc m (snd (the r)) args)))"
  by (subst vpprintf_loop.simps) (simp add: Let_def field_text_def rbind_assoc case_prod_unfold cong: if_cong)

text \<open>The rest of the format is shorter, whatever the step was.\<close>

lemma step_shorter:
  assumes "cur \<noteq> []" "(if hd cur \<noteq> 0x25 then ret None else npf_parse_format_spec (tl cur)) = ret (Some p)"
  shows "length (snd p) < length cur"
  using assms length_parse_format_spec [of "tl cur" "fst p" "snd p"] by (cases cur) (auto split: if_splits)

text \<open>\<open>npf_vpprintf\<close> puts the characters of the text, one after the other, and counts them.\<close>

lemma vpprintf_loop_text:
  assumes "format_text m cur args = ret cs" "0 \<le> n" "n + int (length cs) < 2 ^ 31"
  shows "vpprintf_loop pc m cur args (n, ctx) = ret (n + int (length cs), fold pc cs ctx)"
  using assms
proof (induction "length cur" arbitrary: cur args cs n ctx rule: less_induct)
  case less
  show ?case
  proof (cases "cur = []")
    case True
    then show ?thesis using less.prems by (subst vpprintf_loop.simps, subst (asm) format_text.simps) simp
  next
    case False
    let ?r = "if hd cur \<noteq> 0x25 then ret None else npf_parse_format_spec (tl cur)"
    obtain r where r: "?r = ret r"
      using less.prems(1) False by (subst (asm) format_text.simps) (auto simp: Let_def elim!: rbind_retE)
    show ?thesis
    proof (cases r)
      case None
      then obtain cs' where cs': "format_text m (tl cur) args = ret cs'" "cs = hd cur # cs'"
        using less.prems(1) False r by (subst (asm) format_text.simps) (auto simp: Let_def elim!: rbind_retE)
      have "npf_putc_cnt pc (hd cur) (n, ctx) = ret (n + 1, pc (hd cur) ctx)"
        using less.prems(2,3) cs'(2) by (simp add: npf_putc_cnt_def iadd_def int_range_def)
      moreover have "vpprintf_loop pc m (tl cur) args (n + 1, pc (hd cur) ctx) =
          ret (n + 1 + int (length cs'), fold pc cs' (pc (hd cur) ctx))"
        using less.prems(2,3) cs' False by (intro less.hyps) auto
      ultimately show ?thesis using vpprintf_loop_step [OF False, of pc m args "(n, ctx)"] r None cs'(2) by simp
    next
      case (Some p)
      then obtain cs1 args1 cs2 where cs: "field_text m (fst p) args = ret (cs1, args1)"
        "format_text m (snd p) args1 = ret cs2" "cs = cs1 @ cs2"
        using less.prems(1) False r by (subst (asm) format_text.simps) (auto simp: Let_def elim!: rbind_retE)
      have "for_each (npf_putc_cnt pc) cs1 (n, ctx) = ret (n + int (length cs1), fold pc cs1 ctx)"
        using less.prems(2,3) cs(3) by (intro putc_all) auto
      moreover have "vpprintf_loop pc m (snd p) args1 (n + int (length cs1), fold pc cs1 ctx) =
          ret (n + int (length cs1) + int (length cs2), fold pc cs2 (fold pc cs1 ctx))"
        using less.prems(2,3) cs step_shorter [OF False] r Some by (intro less.hyps) auto
      ultimately show ?thesis using vpprintf_loop_step [OF False, of pc m args "(n, ctx)"] r Some cs by simp
    qed
  qed
qed

lemma npf_vpprintf_text:
  assumes "format_text m format args = ret cs" "length cs < 2 ^ 31"
  shows "npf_vpprintf pc m format args ctx = ret (int (length cs), fold pc cs ctx)"
proof -
  have "int (length cs) < 2 ^ 31" using assms(2) by simp
  then show ?thesis using vpprintf_loop_text [OF assms(1), of 0 pc ctx] by (simp add: npf_vpprintf_def)
qed

section \<open>Output to a buffer\<close>

lemma fold_npf_bufputc:
  fixes m :: mem and len :: u64
  shows "fold npf_bufputc cs (m, \<lparr>bpc_dst = dst, bpc_len = len, bpc_cur = 0\<rparr>) =
    (write_block m dst (take (unat len) cs),
     \<lparr>bpc_dst = dst, bpc_len = len, bpc_cur = of_nat (min (length cs) (unat len))\<rparr>)"
proof (induction cs rule: rev_induct)
  case (snoc c cs)
  have lt: "unat len < 2 ^ 64" by (rule unat_lt64)
  show ?case
  proof (cases "length cs < unat len")
    case True
    then have "(of_nat (length cs) :: u64) < len" using lt by (simp add: word_less_nat_alt unat_of_nat_lt)
    then show ?thesis using snoc True lt by (simp add: npf_bufputc_def write_block_snoc fun_upd_def)
  next
    case False
    then show ?thesis using snoc by (simp add: npf_bufputc_def min_def)
  qed
qed simp

lemma last_offset:
  fixes bufsz :: u64
  assumes "bufsz \<noteq> 0"
  shows "0 < unat bufsz" "unat bufsz < 2 ^ 64" "unat (bufsz - 1) = unat bufsz - 1" "bufsz - 1 = of_nat (unat bufsz - 1)"
proof -
  show u: "unat (bufsz - 1) = unat bufsz - 1" using assms by (rule unat_minus_one)
  have "of_nat (unat (bufsz - 1)) = bufsz - 1" by simp
  then show "bufsz - 1 = of_nat (unat bufsz - 1)" unfolding u by simp
  show "0 < unat bufsz" "unat bufsz < 2 ^ 64" using assms unat_lt64(1) by (auto simp: unat_gt_0)
qed

lemma npf_vsnprintf_text:
  assumes ft: "format_text m format args = ret cs" "length cs < 2 ^ 31" and buf: "buffer \<noteq> NULL" "bufsz \<noteq> 0"
    "buffer \<le> buffer + (bufsz - 1)"
  shows "npf_vsnprintf buffer bufsz format args m =
    ret (int (length cs), (write_block m buffer (take (unat bufsz - 1) cs @ [0]))(buffer + (bufsz - 1) := 0))"
proof -
  let ?ctx = "\<lparr>bpc_dst = buffer, bpc_len = bufsz, bpc_cur = 0\<rparr>"
  note z = last_offset(1,2,4) [OF buf(2)]
  have "npf_vsnprintf buffer bufsz format args m =
      ret (int (length cs), (fst (fold npf_bufputc (cs @ [0]) (m, ?ctx)))(buffer + (bufsz - 1) := 0))"
    unfolding npf_vsnprintf_def Let_def using npf_vpprintf_text [OF ft, of npf_bufputc "(m, ?ctx)"] buf by (simp add: leD)
  also have "fst (fold npf_bufputc (cs @ [0]) (m, ?ctx)) = write_block m buffer (take (unat bufsz) (cs @ [0]))"
    by (simp only: fold_npf_bufputc fst_conv)
  also have "(write_block m buffer (take (unat bufsz) (cs @ [0])))(buffer + (bufsz - 1) := 0) =
      (write_block m buffer (take (unat bufsz - 1) cs @ [0]))(buffer + (bufsz - 1) := 0)"
  proof (cases "length cs < unat bufsz")
    case True
    then show ?thesis by simp
  next
    case False
    then have t: "take (unat bufsz) (cs @ [0]) = take (unat bufsz - 1) cs @ [cs ! (unat bufsz - 1)]"
      using z(1) by (simp flip: take_Suc_conv_app_nth)
    show ?thesis unfolding t z(3) using False z(2) by (simp add: write_block_snoc)
  qed
  finally show ?thesis .
qed

lemma buffer_text:
  fixes bufsz :: u64 and cs :: "u8 list" and m :: mem and buffer :: addr
  assumes "bufsz \<noteq> 0"
  defines "k \<equiv> min (length cs) (unat bufsz - 1)"
  defines "m' \<equiv> (write_block m buffer (take (unat bufsz - 1) cs @ [0]))(buffer + (bufsz - 1) := 0)"
  shows "read_block m' buffer (Suc k) = take k cs @ [0]" "\<And>a. a \<notin> region buffer (unat bufsz) \<Longrightarrow> m' a = m a"
proof -
  note z = last_offset [OF assms(1)]
  have off: "unat (buffer + of_nat i - buffer) = i" if "i < 2 ^ 64" for i
    using that by (simp add: unat_of_nat_lt)
  show "read_block m' buffer (Suc k) = take k cs @ [0]"
  proof (rule nth_equalityI)
    fix i assume "i < length (read_block m' buffer (Suc k))"
    then have i: "i \<le> k" "i < 2 ^ 64" "k < 2 ^ 64" using z(2) by (auto simp: k_def)
    show "read_block m' buffer (Suc k) ! i = (take k cs @ [0]) ! i"
      using i z(1-3) off [OF i(2)] by (auto simp: m'_def write_block_def nth_append k_def addr_offset_eq min_def)
  qed (simp add: k_def)
  fix a assume "a \<notin> region buffer (unat bufsz)"
  then have "\<not> unat (a - buffer) < unat bufsz" using z(2) by (simp add: region_iff)
  then show "m' a = m a" using z(1-3) by (auto simp: m'_def write_block_def addr_offset_eq)
qed

section \<open>No conversion leaves its buffer\<close>

definition fits :: "'a result \<Rightarrow> bool" where
  "fits r \<longleftrightarrow> r \<noteq> fails (Bad_Access ''cbuf'')"

lemma fits_simps [simp]: "fits (ret x)" "fits (fails e) \<longleftrightarrow> e \<noteq> Bad_Access ''cbuf''" "fits diverges"
  by (auto simp: fits_def)

lemma fits_bind: "fits r \<Longrightarrow> (\<And>x. fits (f x)) \<Longrightarrow> fits (rbind r f)"
  by (cases r rule: result_cases) auto

lemmas ubsan_defs = ubsan_handle_add_overflow_def ubsan_handle_sub_overflow_def ubsan_handle_mul_overflow_def
  ubsan_handle_negate_overflow_def

lemma fits_arith [simp]: "fits (iadd a b)" "fits (isub a b)" "fits (imul a b)" "fits (ineg a)" "fits (va_arg args)"
  by (simp_all add: iadd_def isub_def imul_def ineg_def va_arg_def ubsan_defs split: list.split)

lemma fits_parse_number: "fits (parse_number n cur)"
proof (induction n cur rule: parse_number.induct)
  case (2 n c cur)
  then show ?case by (auto intro!: fits_bind)
qed simp

lemma fits_parse: "fits (npf_parse_format_spec cur)"
proof -
  have "fits (parse_field_width cur fs)" "fits (parse_prec cur fs)" for cur fs
    by (auto simp: parse_field_width_def parse_prec_def Let_def split: prod.split intro!: fits_bind fits_parse_number)
  then show ?thesis by (auto simp: npf_parse_format_spec_def Let_def split: prod.split intro!: fits_bind)
qed

lemma fits_strnlen: "fits (npf_strnlen m s fs n)"
proof (cases "npf_strnlen m s fs n")
  case (Some r)
  have "r \<noteq> Inl (Bad_Access ''cbuf'')"
  proof (rule npf_strnlen.raw_induct [OF _ Some])
    fix strn m s fs n r
    assume IH: "\<And>m s fs n r. strn m s fs n = Some r \<Longrightarrow> r \<noteq> Inl (Bad_Access ''cbuf'')"
      and eq: "(if (prec_opt fs = NPF_FMT_SPEC_OPT_NONE \<or> n < prec fs) \<and> m s \<noteq> 0
        then rbind (iadd n 1) (strn m (s + 1) fs) else ret n) = Some r"
    have "fits (strn m s fs n)" for m s fs n
      using IH [of m s fs n "Inl (Bad_Access ''cbuf'')"] by (auto simp: fits_def fails_def)
    then have "fits (if (prec_opt fs = NPF_FMT_SPEC_OPT_NONE \<or> n < prec fs) \<and> m s \<noteq> 0
        then rbind (iadd n 1) (strn m (s + 1) fs) else ret n)"
      by (auto intro!: fits_bind)
    then show "r \<noteq> Inl (Bad_Access ''cbuf'')" using eq by (auto simp: fits_def fails_def)
  qed
  then show ?thesis using Some by (simp add: fits_def fails_def)
qed (simp add: fits_def fails_def)

lemma fits_field: "fits (field_text m fs args)"
proof -
  have "fits (star_args fs args)" for fs args
    by (auto simp: star_args_def Let_def intro!: fits_bind split: prod.split)
  moreover have "fits (npf_convert m fs args)" for fs args
    by (auto simp: npf_convert_def convert_signed_eq convert_unsigned_eq convert_pointer_eq convert_string_def Let_def
        intro!: fits_bind fits_strnlen split: prod.split)
  moreover have "fits (layout fs cv)" for fs cv
    by (auto simp: layout_def prec_pad_def field_pad_def Let_def split_beta intro!: fits_bind)
  ultimately show ?thesis by (auto simp: field_text_def intro!: fits_bind split: prod.split)
qed

lemma fits_putc: "fits (for_each (npf_putc_cnt pc) cs st)"
  by (induction cs arbitrary: st) (auto simp: npf_putc_cnt_def intro!: fits_bind)

text \<open>C34. The conversion buffer of \<open>npf_vpprintf\<close> never overflows: whatever the format, the arguments and the
  memory are, no digit is written behind its 23 bytes. The longest case is the octal numeral of a 64-bit
  number with the leading zero of the alternative form.\<close>

theorem npf_cbuf_fits: "npf_vpprintf pc m format args ctx \<noteq> fails (Bad_Access ''cbuf'')"
proof -
  have "fits (vpprintf_loop pc m cur args st)" for cur args st
  proof (induction "length cur" arbitrary: cur args st rule: less_induct)
    case less
    show ?case
    proof (cases "cur = []")
      case True
      then show ?thesis by (subst vpprintf_loop.simps) simp
    next
      case False
      let ?r = "if hd cur \<noteq> 0x25 then ret None else npf_parse_format_spec (tl cur)"
      show ?thesis
      proof (cases ?r rule: result_cases)
        case (returns r)
        have "fits (vpprintf_loop pc m (tl cur) args st)" for args st
          using False by (intro less.hyps) auto
        moreover have "fits (vpprintf_loop pc m (snd (the r)) args st)" if "r \<noteq> None" for args st
          using step_shorter [OF False] returns that by (intro less.hyps) auto
        ultimately show ?thesis unfolding vpprintf_loop_step [OF False] returns
          by (auto simp: npf_putc_cnt_def intro!: fits_bind fits_field fits_putc split: prod.split)
      next
        case (fails e)
        then have "fits (fails e)" using fits_parse [of "tl cur"] by (auto split: if_splits)
        then show ?thesis unfolding vpprintf_loop_step [OF False] fails by simp
      next
        case diverges
        then show ?thesis unfolding vpprintf_loop_step [OF False] by simp
      qed
    qed
  qed
  then show ?thesis by (simp add: npf_vpprintf_def fits_def)
qed

section \<open>Numbers come out as their numerals\<close>

definition char_digit :: "u8 \<Rightarrow> nat" where
  "char_digit c = (if c \<le> 0x39 then unat (c - 0x30) else if c \<le> 0x5A then unat (c - 0x41) + 10 else unat (c - 0x61) + 10)"

text \<open>Reading a numeral, most significant digit first, and a number with a sign.\<close>

definition read_num :: "nat \<Rightarrow> u8 list \<Rightarrow> nat" where
  "read_num b cs = foldl (\<lambda>v c. v * b + char_digit c) 0 cs"

definition read_int :: "u8 list \<Rightarrow> int" where
  "read_int cs = (case cs of c # ds \<Rightarrow> if c = 0x2D then - int (read_num 10 ds) else int (read_num 10 cs) | [] \<Rightarrow> 0)"

lemma char_digit_digit_char:
  assumes "d < 16" "adj \<in> {0, 0x20}"
  shows "char_digit (digit_char (of_nat d) adj) = d"
proof -
  have "d \<in> {0,1,2,3,4,5,6,7,8,9,10,11,12,13,14,15}" using assms(1) by (simp; arith)
  then show ?thesis using assms(2) by (auto simp: char_digit_def digit_char_def)
qed

lemma read_num_rev:
  assumes "\<And>d. d \<in> set ds \<Longrightarrow> char_digit (f d) = d"
  shows "read_num b (rev (map f ds)) = digits_value b ds"
  using assms by (induction ds) (auto simp: read_num_def digits_value_def foldl_conv_foldr algebra_simps)

lemma read_numeral_text:
  assumes "base \<in> {8, 10, 16}" "adj \<in> {0, 0x20}"
  shows "read_num (unat base) (numeral_text base adj val) = unat val"
proof -
  have "char_digit (digit_char (of_nat d) adj) = d" if "d \<in> set (rdigits (unat base) (unat val))" for d
  proof -
    have "d < unat base" using rdigits_less [OF _ that] assms(1) by auto
    also have "\<dots> \<le> 16" using assms(1) by auto
    finally show ?thesis using assms(2) by (rule char_digit_digit_char)
  qed
  then show ?thesis unfolding numeral_text_def by (simp add: read_num_rev digits_value_rdigits)
qed

lemma digit_char_not_sign: "d < 16 \<Longrightarrow> adj \<in> {0, 0x20} \<Longrightarrow> digit_char (of_nat d) adj \<noteq> 0x2D"
proof -
  assume d: "d < 16" and adj: "adj \<in> {0, 0x20}"
  have "d \<in> {0,1,2,3,4,5,6,7,8,9,10,11,12,13,14,15}" using d by (simp; arith)
  then show ?thesis using adj by (auto simp: digit_char_def)
qed

lemma read_int_sign: "read_int (0x2D # cs) = - int (read_num 10 cs)"
  by (simp add: read_int_def)

lemma read_int_numeral:
  assumes "adj \<in> {0, 0x20}"
  shows "read_int (numeral_text 10 adj val) = int (unat val)"
proof (cases "numeral_text 10 adj val")
  case Nil
  then show ?thesis using rdigits.simps [of 10 "unat val"] by (simp add: numeral_text_def split: if_splits)
next
  case (Cons c cs)
  then have "c \<in> set (numeral_text 10 adj val)" by simp
  then obtain d where "d \<in> set (rdigits 10 (unat val))" "c = digit_char (of_nat d) adj" by (auto simp: numeral_text_def)
  then have "c \<noteq> 0x2D" using rdigits_less [of 10 d "unat val"] digit_char_not_sign [of d adj] assms by auto
  then show ?thesis using Cons read_numeral_text [of 10 adj val] assms by (simp add: read_int_def)
qed

lemma len64_eq: "LENGTH(64) = 64"
  by simp

lemma unat_uminus_negative:
  fixes a :: u64
  assumes "sint a < 0"
  shows "int (unat (0 - a)) = - sint a"
proof -
  have "uint (0 - a) = uint (word_of_int (- sint a) :: u64)" by simp
  also have "\<dots> = (- sint a) mod 2 ^ 64" by (subst uint_word_of_int) (simp only: len64_eq)
  also have "\<dots> = - sint a" using assms sint_greater_eq [of a] by simp
  finally show ?thesis by simp
qed

text \<open>A conversion without width, precision and flags is its sign and its numeral.\<close>

lemma layout_plain:
  assumes "field_width fs = 0" "field_width_opt fs = NPF_FMT_SPEC_OPT_NONE" "prec fs = 0" "left_justified fs = False"
    "conv_spec fs \<noteq> NPF_FMT_SPEC_CONV_STRING" "length (cbuf cv) \<le> 64"
  shows "layout fs cv = ret (prefix_0x (need_0x cv) @ opt_char (sign_c cv) @ cbuf cv)"
  using assms
  by (simp add: layout_def pad_char_def prec_pad_def field_pad_def isub_def int_range_def npf_max_def Let_def)

lemma format_text_one:
  assumes "npf_parse_format_spec spec = ret (Some (fs, []))" "field_text m fs args = ret (cs, [])"
  shows "format_text m (0x25 # spec) args = ret cs"
proof -
  have "format_text m [] [] = ret []" by (subst format_text.simps) simp
  then show ?thesis using assms by (subst format_text.simps) (simp add: Let_def)
qed

text \<open>The specifiers \<open>%ld\<close>, \<open>%lu\<close>, \<open>%lx\<close> and \<open>%lX\<close>.\<close>

definition long_spec :: "npf_conv \<Rightarrow> u8 \<Rightarrow> npf_format_spec" where
  "long_spec cv adj =
     \<lparr>field_width = 0, field_width_opt = NPF_FMT_SPEC_OPT_NONE, left_justified = False, leading_zero_pad = False,
      prec = 0, prec_opt = NPF_FMT_SPEC_OPT_NONE, prepend = 0, alt_form = False, case_adjust = adj,
      length_modifier = NPF_FMT_SPEC_LEN_MOD_LONG, conv_spec = cv\<rparr>"

lemma parse_long:
  "npf_parse_format_spec [0x6C, 0x64] = ret (Some (long_spec NPF_FMT_SPEC_CONV_SIGNED_INT 0x20, []))"
  "npf_parse_format_spec [0x6C, 0x75] = ret (Some (long_spec NPF_FMT_SPEC_CONV_UNSIGNED_INT 0x20, []))"
  "npf_parse_format_spec [0x6C, 0x78] = ret (Some (long_spec NPF_FMT_SPEC_CONV_HEX_INT 0x20, []))"
  "npf_parse_format_spec [0x6C, 0x58] = ret (Some (long_spec NPF_FMT_SPEC_CONV_HEX_INT 0, []))"
  by (simp_all add: npf_parse_format_spec_def parse_field_width_def parse_prec_def parse_length_modifier_def
      parse_conv_def parse_conv_p_b_def int_conv_def at_def is_digit_def Let_def long_spec_def)

lemma long_spec_fields [simp]:
  "field_width (long_spec cv adj) = 0" "field_width_opt (long_spec cv adj) = NPF_FMT_SPEC_OPT_NONE"
  "prec (long_spec cv adj) = 0" "prec_opt (long_spec cv adj) = NPF_FMT_SPEC_OPT_NONE"
  "left_justified (long_spec cv adj) = False" "prepend (long_spec cv adj) = 0" "alt_form (long_spec cv adj) = False"
  "case_adjust (long_spec cv adj) = adj" "length_modifier (long_spec cv adj) = NPF_FMT_SPEC_LEN_MOD_LONG"
  "conv_spec (long_spec cv adj) = cv"
  by (simp_all add: long_spec_def)

lemma field_long:
  assumes "npf_convert m (long_spec cv adj) [a] = ret (\<lparr>cbuf = cs, sign_c = sc, need_0x = 0, is_zero = z\<rparr>, long_spec cv adj, [])"
    "cv \<noteq> NPF_FMT_SPEC_CONV_STRING" "length cs \<le> 64"
  shows "field_text m (long_spec cv adj) [a] = ret (opt_char sc @ cs, [])"
  using assms by (simp add: field_text_def star_args_def layout_plain prefix_0x_def)

lemma field_long_unsigned:
  assumes "cv = NPF_FMT_SPEC_CONV_UNSIGNED_INT \<and> b = 10 \<or> cv = NPF_FMT_SPEC_CONV_HEX_INT \<and> b = 16"
  shows "field_text m (long_spec cv adj) [a] = ret (numeral_text b adj a, [])"
proof -
  have "unsigned_text (long_spec cv adj) a = numeral_text b adj a" "b \<in> {8, 10, 16}"
    using assms by (auto simp: unsigned_text_def unsigned_base_def)
  then have "field_text m (long_spec cv adj) [a] = ret (opt_char 0 @ numeral_text b adj a, [])"
    using assms length_numeral_text [of b adj a]
    by (intro field_long [where z = "a = 0"]) (auto simp: npf_convert_def va_arg_def convert_unsigned_eq extract_unsigned_def)
  then show ?thesis by (simp add: opt_char_def)
qed

lemma field_long_signed:
  "field_text m (long_spec NPF_FMT_SPEC_CONV_SIGNED_INT adj) [a] =
    ret (if sint a < 0 then 0x2D # numeral_text 10 adj (0 - a) else numeral_text 10 adj a, [])"
proof -
  let ?v = "if sint a < 0 then 0 - a else a"
  have "field_text m (long_spec NPF_FMT_SPEC_CONV_SIGNED_INT adj) [a] =
      ret (opt_char (if sint a < 0 then 0x2D else 0) @ numeral_text 10 adj ?v, [])"
    using length_numeral_text [of 10 adj ?v]
    by (intro field_long) (simp_all add: npf_convert_def va_arg_def convert_signed_eq extract_signed_def Let_def)
  then show ?thesis by (simp add: opt_char_def)
qed

lemma unat_nonnegative:
  fixes a :: u64
  assumes "\<not> sint a < 0"
  shows "uint a = sint a"
proof -
  have "uint a = uint (word_of_int (sint a) :: u64)" by simp
  also have "\<dots> = sint a mod 2 ^ 64" by (simp add: uint_word_of_int del: of_int_sint)
  also have "\<dots> = sint a" using assms sint_less [of a] by simp
  finally show ?thesis .
qed

lemma read_signed:
  "read_int (if sint a < 0 then 0x2D # numeral_text 10 0x20 (0 - a) else numeral_text 10 0x20 a) = sint a" (is ?thesis)
proof (cases "sint a < 0")
  case True
  then show ?thesis using read_numeral_text [of 10 "0x20" "0 - a"] unat_uminus_negative [of a] by (simp add: read_int_sign)
next
  case False
  then have "int (unat a) = sint a" by (simp add: unat_nonnegative)
  then show ?thesis using False read_int_numeral [of "0x20" a] by simp
qed

lemma npf_long:
  assumes "npf_parse_format_spec spec = ret (Some (fs, []))" "field_text m fs [a] = ret (cs, [])" "length cs \<le> 64"
  shows "npf_vpprintf pc m (0x25 # spec) [a] ctx = ret (int (length cs), fold pc cs ctx)"
  using npf_vpprintf_text [OF format_text_one [OF assms(1,2)]] assms(3) by simp

text \<open>
  C35. A number that is formatted and read back is the same number: \<open>%ld\<close> of every 64-bit value gives a decimal
  numeral with its sign, which reads as the signed value, also for the least value, whose negation overflows;
  \<open>%lu\<close> reads as the unsigned value, \<open>%lx\<close> and \<open>%lX\<close> as the unsigned value to base 16. In every case
  \<open>npf_vpprintf\<close> returns, hands exactly the characters of the numeral to the output function, whatever that
  function is, and returns their number.
\<close>

theorem npf_number_roundtrip:
  "\<exists>d u x X. read_int d = sint a \<and> read_num 10 u = unat a \<and> read_num 16 x = unat a \<and> read_num 16 X = unat a \<and>
     npf_vpprintf pc m [0x25, 0x6C, 0x64] [a] ctx = ret (int (length d), fold pc d ctx) \<and>
     npf_vpprintf pc m [0x25, 0x6C, 0x75] [a] ctx = ret (int (length u), fold pc u ctx) \<and>
     npf_vpprintf pc m [0x25, 0x6C, 0x78] [a] ctx = ret (int (length x), fold pc x ctx) \<and>
     npf_vpprintf pc m [0x25, 0x6C, 0x58] [a] ctx = ret (int (length X), fold pc X ctx)"
proof -
  let ?d = "if sint a < 0 then 0x2D # numeral_text 10 0x20 (0 - a) else numeral_text 10 0x20 a"
  let ?n = "\<lambda>b adj. numeral_text b adj a"
  have len: "length (numeral_text b adj v) \<le> 63" if "b \<in> {10, 16}" for b adj v
    using length_numeral_text [of b adj v] that by auto
  have "length ?d \<le> 64" using len [of 10 "0x20" a] len [of 10 "0x20" "0 - a"] by (cases "sint a < 0") simp_all
  then have "npf_vpprintf pc m [0x25, 0x6C, 0x64] [a] ctx = ret (int (length ?d), fold pc ?d ctx)"
    by (rule npf_long [OF parse_long(1) field_long_signed])
  moreover have "npf_vpprintf pc m [0x25, 0x6C, 0x75] [a] ctx = ret (int (length (?n 10 0x20)), fold pc (?n 10 0x20) ctx)"
    using len [of 10 "0x20" a] by (intro npf_long [OF parse_long(2)]) (simp_all add: field_long_unsigned)
  moreover have "npf_vpprintf pc m [0x25, 0x6C, 0x78] [a] ctx = ret (int (length (?n 16 0x20)), fold pc (?n 16 0x20) ctx)"
    using len [of 16 "0x20" a] by (intro npf_long [OF parse_long(3)]) (simp_all add: field_long_unsigned)
  moreover have "npf_vpprintf pc m [0x25, 0x6C, 0x58] [a] ctx = ret (int (length (?n 16 0)), fold pc (?n 16 0) ctx)"
    using len [of 16 0 a] by (intro npf_long [OF parse_long(4)]) (simp_all add: field_long_unsigned)
  moreover have "read_num 10 (?n 10 0x20) = unat a" "read_num 16 (?n 16 0x20) = unat a" "read_num 16 (?n 16 0) = unat a"
    using read_numeral_text [of 10 "0x20" a] read_numeral_text [of 16 "0x20" a] read_numeral_text [of 16 0 a] by simp_all
  ultimately show ?thesis using read_signed [of a] by blast
qed

text \<open>
  C33. \<open>npf_vsnprintf\<close> into a buffer of at least one byte that does not wrap around returns the length of the whole text, as the C standard
  asks, and leaves in the buffer the text cut to the size of the buffer less one, followed by the terminator. Nothing
  outside the buffer changes. The text is that of the reference definition \<open>format_text\<close>, which knows no buffer.
\<close>

theorem npf_vsnprintf_correct:
  assumes "format_text m format args = ret cs" "length cs < 2 ^ 31" "buffer \<noteq> NULL" "bufsz \<noteq> 0" "buffer \<le> buffer + (bufsz - 1)"
  defines "k \<equiv> min (length cs) (unat bufsz - 1)"
  shows "\<exists>m'. npf_vsnprintf buffer bufsz format args m = ret (int (length cs), m') \<and>
    read_block m' buffer (Suc k) = take k cs @ [0] \<and> (\<forall>a. a \<notin> region buffer (unat bufsz) \<longrightarrow> m' a = m a)"
  using npf_vsnprintf_text [OF assms(1-5)] buffer_text [OF assms(4), where m = m and buffer = buffer and cs = cs] by (simp add: k_def)

lemma format_example: "format_text m [0x78, 0x3D, 0x25, 0x6C, 0x75] [42] = ret [0x78, 0x3D, 0x34, 0x32]"
proof -
  have d: "numeral_text 10 0x20 42 = [0x34, 0x32]"
    by (simp add: numeral_text_def rdigits.simps digit_char_def)
  have "format_text m [0x25, 0x6C, 0x75] [42] = ret [0x34, 0x32]"
    using format_text_one [OF parse_long(2) field_long_unsigned] d by simp
  then show ?thesis
    by (subst format_text.simps, simp, subst format_text.simps, simp)
qed

theorem npf_vsnprintf_correct_witness:
  "\<exists>m'. npf_vsnprintf 0x1000 4 [0x78, 0x3D, 0x25, 0x6C, 0x75] [42] (\<lambda>_. 0) = ret (4, m') \<and>
     read_block m' 0x1000 4 = [0x78, 0x3D, 0x34, 0]"
proof -
  from npf_vsnprintf_correct [OF format_example, of "0x1000" 4] obtain m' where m':
    "npf_vsnprintf 0x1000 4 [0x78, 0x3D, 0x25, 0x6C, 0x75] [42] (\<lambda>_. 0) = ret (4, m')"
    "read_block m' 0x1000 (Suc (Suc (Suc (Suc 0)))) = [0x78, 0x3D, 0x34, 0]"
    by auto
  have "(4 :: nat) = Suc (Suc (Suc (Suc 0)))" by simp
  then show ?thesis using m' by metis
qed

end
