(* ===== verification/Stdio.thy ===== *)
theory Stdio
  imports Framebuffer Nanoprintf_Correct
begin

text \<open>
  The formatted output functions of \<open>libc/stdio\<close>: \<open>printf\<close>, which sends its text to the serial port and to
  the console, \<open>kprintf\<close>, \<open>snprintf\<close>, \<open>sprintf\<close> and \<open>vsprintf\<close>. The buffer of \<open>printf\<close> is an array on
  the stack; its address \<open>buf\<close> is a parameter.
\<close>

section \<open>Definitions\<close>

definition SIZE_MAX :: u64 where "SIZE_MAX = 0xFFFFFFFFFFFFFFFF"

definition vsprintf :: "addr \<Rightarrow> u8 list \<Rightarrow> u64 list \<Rightarrow> mem \<Rightarrow> (int \<times> mem) result" where
  "vsprintf buffer fmt args m = npf_vsnprintf buffer SIZE_MAX fmt args m"

definition snprintf :: "addr \<Rightarrow> u64 \<Rightarrow> u8 list \<Rightarrow> u64 list \<Rightarrow> mem \<Rightarrow> (int \<times> mem) result" where
  "snprintf buf sz fmt args m = rbind (npf_vsnprintf buf sz fmt args m) (\<lambda>(_, m). ret (0, m))"

definition sprintf :: "addr \<Rightarrow> u8 list \<Rightarrow> u64 list \<Rightarrow> mem \<Rightarrow> (int \<times> mem) result" where
  "sprintf buf fmt args m = npf_vsnprintf buf 1024 fmt args m"

text \<open>The escape sequence \<open>RESET\<close> of \<open>tty.h\<close> and the loop that sends a string to the serial port.\<close>

definition RESET :: string where "RESET = CHR 0x1B # ''[0m''"

partial_function (option) serial_string ::
  "device \<Rightarrow> addr \<Rightarrow> int \<Rightarrow> 'a machine_scheme \<Rightarrow> 'a machine_scheme result" where
  "serial_string dev a i s =
     (if mem s (a + word_of_int i) \<noteq> 0
      then rbind (serial_write dev (mem s (a + word_of_int i)) s) (\<lambda>s.
           rbind (iadd i 1) (\<lambda>i. serial_string dev a i s))
      else ret s)"

definition printf ::
  "device \<Rightarrow> code_syms \<Rightarrow> addr \<Rightarrow> u8 list \<Rightarrow> u64 list \<Rightarrow> 'a fbdev_scheme \<Rightarrow> (int \<times> 'a fbdev_scheme) result" where
  "printf dev syms buf fmt args s =
     (let m = write_block (mem s) buf (replicate 1024 0) in
      rbind (npf_vsnprintf buf 1024 fmt args m) (\<lambda>(_, m).
      rbind (serial_string dev buf 0 (s\<lparr>mem := m\<rparr>)) (\<lambda>s.
      rbind (serial_string dev (lit syms RESET) 0 s) (\<lambda>s.
      rbind (framebuffer_write buf s) (\<lambda>s.
      rbind (framebuffer_write (lit syms RESET) s) (\<lambda>s.
      ret (0, s)))))))"

text \<open>
  \<open>kprintf\<close> calls \<open>printf\<close> without the arguments it was given: \<open>va args\<close> is what \<open>printf\<close> then finds in the
  argument registers and on the stack.
\<close>

definition kprintf ::
  "device \<Rightarrow> code_syms \<Rightarrow> addr \<Rightarrow> (u64 list \<Rightarrow> u64 list) \<Rightarrow> u8 list \<Rightarrow> u64 list \<Rightarrow> 'a fbdev_scheme \<Rightarrow>
   'a fbdev_scheme result" where
  "kprintf dev syms buf va fmt args s = rbind (printf dev syms buf fmt (va args) s) (\<lambda>(_, s). ret s)"

section \<open>Properties\<close>

text \<open>The bytes sent through the serial port, and a port that keeps draining.\<close>

definition serial_sent :: "port_op list \<Rightarrow> u8 list" where
  "serial_sent ops = concat (map (\<lambda>op. case op of Outb p c \<Rightarrow> if p = COM1 then [c] else [] | _ \<Rightarrow> []) ops)"

lemma serial_sent_append [simp]: "serial_sent (xs @ ys) = serial_sent xs @ serial_sent ys"
  by (simp add: serial_sent_def)

definition line_status :: port_op where "line_status = Inb (COM1 + 5)"

definition serial_drains :: "device \<Rightarrow> bool" where
  "serial_drains dev \<longleftrightarrow> (\<forall>log. \<exists>n. (ucast (dev (log @ replicate n line_status) (COM1 + 5)) :: u8) AND 0x20 \<noteq> 0)"

definition sends :: "u8 list \<Rightarrow> 'a machine_scheme \<Rightarrow> 'a machine_scheme \<Rightarrow> bool" where
  "sends cs s s' \<longleftrightarrow> (\<exists>log. s' = s\<lparr>port_log := log\<rparr> \<and> serial_sent log = serial_sent (port_log s) @ cs)"

lemma serial_wait_polls:
  assumes "(ucast (dev (port_log s @ replicate n line_status) (COM1 + 5)) :: u8) AND 0x20 \<noteq> 0"
  shows "returns (serial_wait dev s) (sends [] s)"
  using assms
proof (induction n arbitrary: s)
  case 0
  then show ?case
    by (subst serial_wait.simps) (auto simp: inb_def Let_def sends_def serial_sent_def)
next
  case (Suc n)
  let ?s = "s\<lparr>port_log := port_log s @ [line_status]\<rparr>"
  have "returns (serial_wait dev ?s) (sends [] ?s)" using Suc.prems by (intro Suc.IH) simp
  moreover have "sends [] ?s = sends [] s" by (auto simp: sends_def fun_eq_iff serial_sent_def line_status_def)
  ultimately show ?case
    by (subst serial_wait.simps) (auto simp: inb_def Let_def line_status_def sends_def serial_sent_def)
qed

lemma serial_write_sends:
  assumes "serial_drains dev"
  shows "returns (serial_write dev c s) (sends [c] s)"
proof -
  obtain n where "(ucast (dev (port_log s @ replicate n line_status) (COM1 + 5)) :: u8) AND 0x20 \<noteq> 0"
    using assms by (auto simp: serial_drains_def)
  then have "returns (serial_wait dev s) (sends [] s)" by (rule serial_wait_polls)
  then show ?thesis unfolding serial_write_def
    by (rule returns_bind) (auto simp: sends_def outb_def serial_sent_def)
qed

lemma serial_string_sends:
  assumes dev: "serial_drains dev" and str: "cstring (mem s) (a + of_nat i) cs" and i: "i + length cs < 2 ^ 31"
  shows "returns (serial_string dev a (int i) s) (sends cs s)"
  using str i
proof (induction cs arbitrary: s i)
  case Nil
  moreover have "sends [] s s" unfolding sends_def by (rule exI [of _ "port_log s"]) simp
  ultimately show ?case by (subst serial_string.simps) simp
next
  case (Cons c cs)
  have c: "c \<noteq> 0" "mem s (a + of_nat i) = c" "cstring (mem s) (a + of_nat (Suc i)) cs"
    using Cons.prems by (auto simp: cstring_Cons algebra_simps)
  have "iadd (int i) 1 = ret (int (Suc i))" using Cons.prems by (simp add: iadd_def int_range_def)
  moreover have "returns (serial_string dev a (int (Suc i)) s') (sends (c # cs) s)" if "sends [c] s s'" for s'
  proof -
    have "mem s' = mem s" using that by (auto simp: sends_def)
    then have "returns (serial_string dev a (int (Suc i)) s') (sends cs s')" using c Cons.prems by (intro Cons.IH) auto
    then show ?thesis using that by (auto simp: sends_def elim!: returns_mono)
  qed
  ultimately show ?case using serial_write_sends [OF dev, of c s] c
    by (subst serial_string.simps) (auto intro!: returns_bind)
qed

text \<open>A buffer that holds a terminated text holds the string up to its first zero.\<close>

abbreviation "until_nul cs \<equiv> takeWhile (\<lambda>c. c \<noteq> 0) cs"

lemma cstring_until_nul:
  assumes "read_block m a (Suc (length cs)) = cs @ [0]" "length cs < 2 ^ 63"
  shows "cstring m a (until_nul cs)"
  using assms
proof (induction cs arbitrary: a)
  case (Cons c cs)
  then have m: "m a = c" "read_block m (a + 1) (Suc (length cs)) = cs @ [0]" by (auto simp: read_block_Suc [of m a])
  moreover have "length (until_nul cs) < 2 ^ 64 - 1"
    using length_takeWhile_le [of "\<lambda>c. c \<noteq> 0" cs] Cons.prems(2) by simp
  ultimately show ?case using Cons by (auto simp: cstring_Cons)
qed (simp add: read_block_def)

definition bytes :: "string \<Rightarrow> u8 list" where
  "bytes str = map of_char str"

lemma printf_buffer:
  assumes fmt: "format_text (write_block m buf (replicate 1024 0)) fmt args = ret cs" "length cs < 2 ^ 31"
    and buf: "buf \<noteq> NULL" "buf \<le> buf + 1023"
  shows "\<exists>n m'. npf_vsnprintf buf 1024 fmt args (write_block m buf (replicate 1024 0)) = ret (n, m') \<and>
    cstring m' buf (until_nul (take 1023 cs)) \<and> (\<forall>a. a \<notin> region buf 1024 \<longrightarrow> m' a = m a)"
proof -
  let ?m = "write_block m buf (replicate 1024 0)"
  have bufsz: "(1024 :: u64) \<noteq> 0" by simp
  obtain m' where n: "npf_vsnprintf buf 1024 fmt args ?m = ret (int (length cs), m')"
    and r: "read_block m' buf (Suc (min (length cs) 1023)) = take (min (length cs) 1023) cs @ [0]"
    and o: "\<And>a. a \<notin> region buf 1024 \<Longrightarrow> m' a = ?m a"
    using npf_vsnprintf_text [OF fmt buf(1) bufsz] buf(2) buffer_text [OF bufsz, where m = ?m and buffer = buf and cs = cs] by simp
  have "m' a = m a" if "a \<notin> region buf 1024" for a using o [OF that] that
    by (simp add: write_block_def region_iff)
  moreover have "cstring m' buf (until_nul (take 1023 cs))"
    using r by (intro cstring_until_nul) (simp_all add: min_def split: if_splits)
  ultimately show ?thesis using n by blast
qed

text \<open>What \<open>printf\<close> does on the state: it sends the text and \<open>RESET\<close>, and shows both on the console.\<close>

lemma printf_ok:
  fixes s :: "'a fbdev_scheme"
  assumes fmt: "format_text (write_block (mem s) buf (replicate 1024 0)) fmt args = ret cs" "length cs < 2 ^ 31"
    and buf: "buf \<noteq> NULL" "buf \<le> buf + 1023" and dev: "serial_drains dev" and s: "fbdev_ok s"
    and lit: "cstring (mem s) (lit syms RESET) (bytes RESET)"
      "region (lit syms RESET) (Suc (length RESET)) \<inter> region buf 1024 = {}"
  shows "returns (printf dev syms buf fmt args s) (\<lambda>(r, s'). r = 0 \<and> fbdev_ok s' \<and> fb_info s' = fb_info s \<and>
    serial_sent (port_log s') = serial_sent (port_log s) @ until_nul (take 1023 cs) @ bytes RESET \<and>
    (\<forall>a. a \<notin> region buf 1024 \<longrightarrow> mem s' a = mem s a))"
proof -
  let ?cs = "until_nul (take 1023 cs)"
  obtain n m' where n: "npf_vsnprintf buf 1024 fmt args (write_block (mem s) buf (replicate 1024 0)) = ret (n, m')"
    and str: "cstring m' buf ?cs" and o': "\<And>a. a \<notin> region buf 1024 \<Longrightarrow> m' a = mem s a"
    using printf_buffer [OF fmt buf] by blast
  have "cstring m' (lit syms RESET) (bytes RESET) = cstring (mem s) (lit syms RESET) (bytes RESET)"
    using lit(2) o' by (intro cstring_cong) (auto simp: bytes_def)
  then have rst: "cstring m' (lit syms RESET) (bytes RESET)" using lit(1) by simp
  have sh: "length ?cs < 2 ^ 31 \<and> length ?cs < 2 ^ 63" "length (bytes RESET) < 2 ^ 31 \<and> length (bytes RESET) < 2 ^ 63"
    using length_takeWhile_le [of "\<lambda>c. c \<noteq> 0" "take 1023 cs"] by (auto simp: bytes_def RESET_def)
  let ?P = "\<lambda>cs s'. fbdev_ok s' \<and> fb_info s' = fb_info s \<and> mem s' = m' \<and>
    serial_sent (port_log s') = serial_sent (port_log s) @ cs"
  have send: "returns (serial_string dev a 0 s') (?P (cs @ cs'))"
    if "?P cs s'" "cstring m' a cs'" "length cs' < 2 ^ 31 \<and> length cs' < 2 ^ 63" for a cs cs' and s' :: "'a fbdev_scheme"
    using serial_string_sends [OF dev, of s' a 0 cs'] that by (auto simp: sends_def fbdev_ok_def elim!: returns_mono)
  have display: "returns (framebuffer_write a s') (?P cs)"
    if "?P cs s'" "cstring m' a cs'" "length cs' < 2 ^ 31 \<and> length cs' < 2 ^ 63" for a cs cs' and s' :: "'a fbdev_scheme"
    using framebuffer_write_ok [of s' a cs'] that by (auto elim!: returns_mono)
  have "?P [] (s\<lparr>mem := m'\<rparr>)" using s by (simp add: fbdev_ok_def)
  then have "returns (serial_string dev buf 0 (s\<lparr>mem := m'\<rparr>)) (?P ([] @ ?cs))" using str sh(1) by (rule send)
  then have "returns (rbind (serial_string dev buf 0 (s\<lparr>mem := m'\<rparr>)) (\<lambda>s.
      rbind (serial_string dev (lit syms RESET) 0 s) (\<lambda>s.
      rbind (framebuffer_write buf s) (\<lambda>s.
      rbind (framebuffer_write (lit syms RESET) s) (\<lambda>s. ret (0, s))))))
    (\<lambda>(r, s'). r = 0 \<and> ?P (([] @ ?cs) @ bytes RESET) s')"
    by (rule returns_bind, intro returns_bind [OF send] returns_bind [OF display])
      (assumption | rule str rst sh | simp)+
  then show ?thesis unfolding printf_def Let_def n using o' by (auto elim!: returns_mono)
qed


text \<open>A machine before the console is installed, with \<open>RESET\<close> in its memory.\<close>

definition booting :: "'a fbdev_scheme \<Rightarrow> 'a fbdev_scheme" where
  "booting s = s\<lparr>mem := write_block (\<lambda>_. 0) 0x5000 (bytes RESET), term_buffer := replicate 4096 0, term_buffer_index := 0,
     fb_info := (fb_info s)\<lparr>ft_ctx := NULL\<rparr>, port_log := [],
     bump_st := \<lparr>bump_alloc_ptr = 0, base_offset_added = False, bump_allocated_instance = False\<rparr>\<rparr>"

definition vga :: limine_framebuffer where
  "vga = \<lparr>lf_address = 0xFFFF8000FD000000, lf_width = 640, lf_height = 480, lf_pitch = 2560, lf_bpp = 32,
     lf_red_mask_size = 8, lf_red_mask_shift = 16, lf_green_mask_size = 8, lf_green_mask_shift = 8,
     lf_blue_mask_size = 8, lf_blue_mask_shift = 0\<rparr>"




end
