(* ===== verification/Devfs.thy ===== *)
theory Devfs
  imports Stdio
begin

text \<open>
  The types of the virtual file system (\<open>fs/vfs.h\<close>), the devices of \<open>fs/dev\<close> and the device file system
  (\<open>fs/devfs.c\<close>). The structures that \<open>malloc\<close> returns are records in stores indexed by their addresses. A
  function pointer is a value of a type that lists the functions the code stores in such a field; \<open>None\<close> is the
  null pointer. A \<open>ssize_t\<close> is a 64-bit word. Paths and buffers are addresses of the memory, as the current
  address space shows it.
\<close>

section \<open>Definitions\<close>

subsection \<open>Types\<close>

definition VFS_MAX_MOUNTPOINTS :: nat where "VFS_MAX_MOUNTPOINTS = 16"
definition VFS_MAX_FILE_DESCRIPTORS :: int where "VFS_MAX_FILE_DESCRIPTORS = 256"
definition VFS_FD_OFFSET :: int where "VFS_FD_OFFSET = 10"

datatype fs_read = DEVFS_READ | TARFS_READ
datatype fs_write = DEVFS_WRITE
datatype fs_seek = TARFS_SEEK
datatype fs_stat = TARFS_STAT
datatype fs_exists = DEVFS_EXISTS | TARFS_EXISTS

text \<open>\<open>WILD\<close>: a pointer that is not null and does not point to a function of the kernel.\<close>

datatype fs_mmap = DEVFS_MMAP | WILD

record vfs_impl_t =
  impl_read :: "fs_read option"
  impl_write :: "fs_write option"
  impl_seek :: "fs_seek option"
  impl_exists :: "fs_exists option"
  impl_stat :: "fs_stat option"
  impl_mmap :: "fs_mmap option"

text \<open>\<open>file_fs\<close> is the index of the mount point that \<open>fs\<close> points to.\<close>

record vfs_file_t =
  file_id :: int
  file_loc :: addr
  file_flags :: int
  file_mode :: int
  file_fs :: "nat option"

record vfs_t =
  mnt :: addr
  mnt_impl :: addr

datatype dev_read = ZERO_READ | STDOUT_READ | KEYBOARD_READ
datatype dev_write = ZERO_WRITE | STDOUT_WRITE | AUDIO_WRITE | KEYBOARD_WRITE | FRAMEBUFFER_WRITE
datatype dev_mmap = FRAMEBUFFER_MMAP

record devfs_dev_t =
  dev_loc :: addr
  dev_next :: addr
  dev_rd :: "dev_read option"
  dev_wr :: "dev_write option"
  dev_mm :: "dev_mmap option"

record tarfs_file_t =
  tar_loc :: addr
  seek_pos :: int
  tar_len :: u64
  tar_next :: addr

record fsys = fbdev +
  mountpoints :: "vfs_t list"
  open_files :: "addr list"
  vfs_files :: "addr \<rightharpoonup> vfs_file_t"
  vfs_impls :: "addr \<rightharpoonup> vfs_impl_t"
  devfs_head :: addr
  devfs_tail :: addr
  devs :: "addr \<rightharpoonup> devfs_dev_t"
  initramfs :: addr
  tarfs_head :: addr
  tarfs_tail :: addr
  tar_files :: "addr \<rightharpoonup> tarfs_file_t"

definition deref :: "string \<Rightarrow> (addr \<rightharpoonup> 'b) \<Rightarrow> addr \<Rightarrow> 'b result" where
  "deref what store a = (case store a of Some x \<Rightarrow> ret x | None \<Rightarrow> fails (Bad_Access what))"

subsection \<open>Devices\<close>

definition zero_read :: "addr \<Rightarrow> u64 \<Rightarrow> 'a fsys_scheme \<Rightarrow> u64 \<times> 'a fsys_scheme" where
  "zero_read buffer sz s = (sz, s\<lparr>mem := memset (mem s) buffer 0 sz\<rparr>)"

definition zero_write :: "addr \<Rightarrow> u64 \<Rightarrow> 'a fsys_scheme \<Rightarrow> u64 \<times> 'a fsys_scheme" where
  "zero_write buffer sz s = (sz, s)"

definition stdout_read :: "addr \<Rightarrow> u64 \<Rightarrow> 'a fsys_scheme \<Rightarrow> u64 \<times> 'a fsys_scheme" where
  "stdout_read buffer sz s = (sz, s)"

definition stdout_write :: "device \<Rightarrow> addr \<Rightarrow> u64 \<Rightarrow> 'a fsys_scheme \<Rightarrow> (u64 \<times> 'a fsys_scheme) result" where
  "stdout_write dev buffer sz s =
     rbind (for_each (\<lambda>i s. serial_write dev (mem s (buffer + of_nat i)) s) [0..<unat sz] s) (\<lambda>s. ret (sz, s))"

partial_function (option) audio_wait :: "device \<Rightarrow> 'a drv_scheme \<Rightarrow> 'a drv_scheme result" where
  "audio_wait dev s =
     (let r = ac97_can_write dev s in if fst r = 0 then audio_wait dev (snd r) else ret (snd r))"

definition audio_write :: "device \<Rightarrow> addr \<Rightarrow> u64 \<Rightarrow> 'a drv_scheme \<Rightarrow> (u64 \<times> 'a drv_scheme) result" where
  "audio_write dev buffer sz s =
     (if \<not> ac97_available s then ret (- 1, s) else
      rbind (audio_wait dev s) (\<lambda>s.
      rbind (ac97_write_pcm dev buffer sz s) (\<lambda>(wb, s). ret (scast wb, s))))"

definition keyboard_read :: "addr \<Rightarrow> u64 \<Rightarrow> 'a drv_scheme \<Rightarrow> u64 \<times> 'a drv_scheme" where
  "keyboard_read buffer sz s =
     (sz, fold (\<lambda>i s. let (c, s) = KB_POP s in s\<lparr>mem := (mem s)(buffer + of_nat i := c)\<rparr>) [0..<unat sz] s)"

definition keyboard_write :: "addr \<Rightarrow> u64 \<Rightarrow> 'a fsys_scheme \<Rightarrow> u64 \<times> 'a fsys_scheme" where
  "keyboard_write buffer sz s = (sz, s)"

definition dev_framebuffer_write :: "addr \<Rightarrow> u64 \<Rightarrow> 'a fsys_scheme \<Rightarrow> u64 \<times> 'a fsys_scheme" where
  "dev_framebuffer_write buffer sz s = (sz, s)"

definition framebuffer_mmap :: "addr \<Rightarrow> 'a fbdev_scheme \<Rightarrow> addr \<times> 'a fbdev_scheme" where
  "framebuffer_mmap len s =
     (fb_addr (fb_info s) - hhdm s,
      s\<lparr>mem := store64 (mem s) len (ucast (fb_pitch (fb_info s) * fb_height (fb_info s)))\<rparr>)"

subsection \<open>Device file system\<close>

partial_function (option) find_dev_loop :: "addr \<Rightarrow> addr \<Rightarrow> 'a fsys_scheme \<Rightarrow> addr result" where
  "find_dev_loop path cur s =
     (if cur = NULL then ret NULL else
      rbind (deref ''devfs_dev_t'' (devs s) cur) (\<lambda>d.
      rbind (ends (strcmp (mem s) (dev_loc d) path)) (\<lambda>r.
      if r = 0 then ret cur else find_dev_loop path (dev_next d) s)))"

definition devfs_find_dev :: "addr \<Rightarrow> 'a fsys_scheme \<Rightarrow> addr result" where
  "devfs_find_dev path s = find_dev_loop path (devfs_head s) s"

definition devfs_read ::
  "device \<Rightarrow> addr \<Rightarrow> addr \<Rightarrow> u64 \<Rightarrow> 'a fsys_scheme \<Rightarrow> (u64 \<times> 'a fsys_scheme) result" where
  "devfs_read dev path buffer sz s =
     (if path = NULL then ret (- 1, s)
      else if buffer = NULL then ret (- 2, s)
      else rbind (devfs_find_dev path s) (\<lambda>d.
      if d = NULL then ret (- 3, s) else
      rbind (deref ''devfs_dev_t'' (devs s) d) (\<lambda>d.
      ret (case dev_rd d of
             None \<Rightarrow> (- 4, s)
           | Some ZERO_READ \<Rightarrow> zero_read buffer sz s
           | Some STDOUT_READ \<Rightarrow> stdout_read buffer sz s
           | Some KEYBOARD_READ \<Rightarrow> keyboard_read buffer sz s))))"

definition devfs_write ::
  "device \<Rightarrow> addr \<Rightarrow> addr \<Rightarrow> u64 \<Rightarrow> 'a fsys_scheme \<Rightarrow> (u64 \<times> 'a fsys_scheme) result" where
  "devfs_write dev path buffer sz s =
     (if path = NULL then ret (- 1, s)
      else if buffer = NULL then ret (- 2, s)
      else rbind (devfs_find_dev path s) (\<lambda>d.
      if d = NULL then ret (- 3, s) else
      rbind (deref ''devfs_dev_t'' (devs s) d) (\<lambda>d.
      case dev_wr d of
        None \<Rightarrow> ret (- 4, s)
      | Some ZERO_WRITE \<Rightarrow> ret (zero_write buffer sz s)
      | Some STDOUT_WRITE \<Rightarrow> stdout_write dev buffer sz s
      | Some AUDIO_WRITE \<Rightarrow> audio_write dev buffer sz s
      | Some KEYBOARD_WRITE \<Rightarrow> ret (keyboard_write buffer sz s)
      | Some FRAMEBUFFER_WRITE \<Rightarrow> ret (dev_framebuffer_write buffer sz s))))"

definition devfs_mmap :: "addr \<Rightarrow> addr \<Rightarrow> 'a fsys_scheme \<Rightarrow> (addr \<times> 'a fsys_scheme) result" where
  "devfs_mmap path len s =
     (if path = NULL then ret (NULL, s)
      else if len = NULL then ret (NULL, s)
      else rbind (devfs_find_dev path s) (\<lambda>d.
      if d = NULL then ret (NULL, s) else
      rbind (deref ''devfs_dev_t'' (devs s) d) (\<lambda>d.
      ret (case dev_mm d of None \<Rightarrow> (NULL, s) | Some FRAMEBUFFER_MMAP \<Rightarrow> framebuffer_mmap len s))))"

definition devfs_exists :: "addr \<Rightarrow> 'a fsys_scheme \<Rightarrow> bool result" where
  "devfs_exists path s =
     (if path = NULL then ret False else rbind (devfs_find_dev path s) (\<lambda>d. ret (d \<noteq> NULL)))"

definition devfs_register_dev ::
  "addr \<Rightarrow> dev_read option \<Rightarrow> dev_write option \<Rightarrow> dev_mmap option \<Rightarrow> 'a fsys_scheme \<Rightarrow> 'a fsys_scheme result" where
  "devfs_register_dev loc rd wr mm s =
     rbind (kmalloc 40 s) (\<lambda>(d, s).
     if d = NULL then ret s else
     let s = s\<lparr>devs := (devs s)(d \<mapsto> \<lparr>dev_loc = loc, dev_next = NULL, dev_rd = rd, dev_wr = wr, dev_mm = mm\<rparr>)\<rparr> in
     if devfs_head s = NULL then ret (s\<lparr>devfs_head := d, devfs_tail := d\<rparr>)
     else rbind (deref ''devfs_dev_t'' (devs s) (devfs_tail s)) (\<lambda>t.
          ret (s\<lparr>devs := (devs s)(devfs_tail s \<mapsto> t\<lparr>dev_next := d\<rparr>), devfs_tail := d\<rparr>)))"

definition devfs_zero_install :: "code_syms \<Rightarrow> 'a fsys_scheme \<Rightarrow> 'a fsys_scheme result" where
  "devfs_zero_install syms = devfs_register_dev (lit syms ''/zero'') (Some ZERO_READ) (Some ZERO_WRITE) None"

definition devfs_stdout_install :: "code_syms \<Rightarrow> 'a fsys_scheme \<Rightarrow> 'a fsys_scheme result" where
  "devfs_stdout_install syms = devfs_register_dev (lit syms ''/stdout'') (Some STDOUT_READ) (Some STDOUT_WRITE) None"

definition devfs_audio_install :: "code_syms \<Rightarrow> 'a fsys_scheme \<Rightarrow> 'a fsys_scheme result" where
  "devfs_audio_install syms = devfs_register_dev (lit syms ''/audio'') None (Some AUDIO_WRITE) None"

definition devfs_keyboard_install :: "code_syms \<Rightarrow> 'a fsys_scheme \<Rightarrow> 'a fsys_scheme result" where
  "devfs_keyboard_install syms =
     devfs_register_dev (lit syms ''/keyboard'') (Some KEYBOARD_READ) (Some KEYBOARD_WRITE) None"

definition devfs_framebuffer_install :: "code_syms \<Rightarrow> 'a fsys_scheme \<Rightarrow> 'a fsys_scheme result" where
  "devfs_framebuffer_install syms =
     devfs_register_dev (lit syms ''/fb0'') None (Some FRAMEBUFFER_WRITE) (Some FRAMEBUFFER_MMAP)"

definition devfs_init :: "code_syms \<Rightarrow> addr \<Rightarrow> 'a fsys_scheme \<Rightarrow> 'a fsys_scheme result" where
  "devfs_init syms impl s =
     (let s = s\<lparr>vfs_impls := (vfs_impls s)(impl \<mapsto>
            \<lparr>impl_read = Some DEVFS_READ, impl_write = Some DEVFS_WRITE, impl_seek = None,
             impl_exists = Some DEVFS_EXISTS, impl_stat = None, impl_mmap = Some DEVFS_MMAP\<rparr>)\<rparr>
      in
      rbind (devfs_zero_install syms s) (\<lambda>s.
      rbind (devfs_stdout_install syms s) (\<lambda>s.
      rbind (devfs_audio_install syms s) (\<lambda>s.
      rbind (devfs_keyboard_install syms s) (\<lambda>s.
      devfs_framebuffer_install syms s)))))"

end
