(* ===== verification/Tarfs.thy ===== *)
theory Tarfs
  imports Devfs
begin

text \<open>
  The read-only file system on the tar archive that the boot loader passes, \<open>fs/tarfs.c\<close>. The archive is plain
  memory at \<open>initramfs\<close>. The loop over its headers ends at the first block that is not a header; on a broken
  archive it may not end.
\<close>

section \<open>Definitions\<close>

text \<open>
  \<open>file->seek_pos\<close> is never set: it is what \<open>malloc\<close> left in its place, four bytes at offset 8.
\<close>

definition tarfs_add_file :: "addr \<Rightarrow> u64 \<Rightarrow> 'a fsys_scheme \<Rightarrow> 'a fsys_scheme result" where
  "tarfs_add_file loc sz s =
     rbind (kmalloc 56 s) (\<lambda>(file, s).
     rbind (ASSERT (file \<noteq> NULL)) (\<lambda>_.
     rbind (if mem s loc = 0x2E then ret (loc + 1, s)
            else rbind (ends (strlen (mem s) loc)) (\<lambda>n.
                 rbind (kmalloc (n + 2) s) (\<lambda>(new_loc, s).
                 rbind (ASSERT (new_loc \<noteq> NULL)) (\<lambda>_.
                 rbind (ends (strcpy ((mem s)(new_loc := 0x2F)) (new_loc + 1) loc)) (\<lambda>(_, m).
                 ret (new_loc, s\<lparr>mem := m\<rparr>)))))) (\<lambda>(loc, s).
     let s = s\<lparr>tar_files := (tar_files s)(file \<mapsto>
           \<lparr>tar_loc = loc, seek_pos = sint (load32 (mem s) (file + 8)), tar_len = sz, tar_next = NULL\<rparr>)\<rparr> in
     if tarfs_head s = NULL then ret (s\<lparr>tarfs_head := file, tarfs_tail := file\<rparr>)
     else rbind (deref ''tarfs_file_t'' (tar_files s) (tarfs_tail s)) (\<lambda>t.
          ret (s\<lparr>tar_files := (tar_files s)(tarfs_tail s \<mapsto> t\<lparr>tar_next := file\<rparr>), tarfs_tail := file\<rparr>)))))"

text \<open>A path that no file has ends in \<open>UNREACHABLE\<close>.\<close>

partial_function (option) find_file_loop :: "addr \<Rightarrow> addr \<Rightarrow> 'a fsys_scheme \<Rightarrow> addr result" where
  "find_file_loop path cur s =
     (if cur = NULL then rbind (ASSERT False) (\<lambda>_. ret NULL) else
      rbind (deref ''tarfs_file_t'' (tar_files s) cur) (\<lambda>f.
      rbind (ends (strcmp (mem s) (tar_loc f) path)) (\<lambda>r.
      if r = 0 then ret cur else find_file_loop path (tar_next f) s)))"

definition tarfs_find_file :: "addr \<Rightarrow> 'a fsys_scheme \<Rightarrow> addr result" where
  "tarfs_find_file path s = find_file_loop path (tarfs_head s) s"

fun oct2bin_loop :: "mem \<Rightarrow> addr \<Rightarrow> nat \<Rightarrow> int \<Rightarrow> int result" where
  "oct2bin_loop m c 0 n = ret n"
| "oct2bin_loop m c (Suc k) n =
     rbind (imul n 8) (\<lambda>n.
     rbind (isub (uint (m c)) 0x30) (\<lambda>d.
     rbind (iadd n d) (\<lambda>n. oct2bin_loop m (c + 1) k n)))"

definition oct2bin :: "mem \<Rightarrow> addr \<Rightarrow> nat \<Rightarrow> int result" where
  "oct2bin m str sz = oct2bin_loop m str sz 0"

text \<open>Whether \<open>ptr\<close> is a header, and \<open>ptr += (((file_size + 511) / 512) + 1) * 512\<close>.\<close>

definition is_header :: "code_syms \<Rightarrow> mem \<Rightarrow> addr \<Rightarrow> bool" where
  "is_header syms m ptr \<longleftrightarrow> memcmp m (ptr + 257) (lit syms ''ustar'') 5 = 0"

definition next_header :: "addr \<Rightarrow> int \<Rightarrow> addr result" where
  "next_header ptr file_size =
     rbind (iadd file_size 511) (\<lambda>x.
     rbind (iadd (x sdiv 512) 1) (\<lambda>x.
     rbind (imul x 512) (\<lambda>x. ret (ptr + word_of_int x))))"

text \<open>The end of \<open>tarfs_read\<close>, when the header of the file is found.\<close>

definition read_entry ::
  "addr \<Rightarrow> addr \<Rightarrow> u64 \<Rightarrow> addr \<Rightarrow> int \<Rightarrow> 'a fsys_scheme \<Rightarrow> (u64 \<times> 'a fsys_scheme) result" where
  "read_entry tar_path buffer sz ptr file_size s =
     rbind (tarfs_find_file tar_path s) (\<lambda>file.
     rbind (ASSERT (file \<noteq> NULL)) (\<lambda>_.
     rbind (deref ''tarfs_file_t'' (tar_files s) file) (\<lambda>f.
     let pos = word_of_int (seek_pos f) :: u64; fsz = word_of_int file_size :: u64 in
     if pos > fsz then ret (0, s) else
     let data = ptr + 512 + pos;
         remaining = fsz - pos;
         bytes_to_read = (if remaining < sz then remaining else sz)
     in
     if bytes_to_read = 0 then ret (0, s) else
     rbind (memcpy (mem s) buffer data bytes_to_read) (\<lambda>(_, m).
     ret (bytes_to_read, s\<lparr>mem := m, tar_files := (tar_files s)(file \<mapsto>
       f\<lparr>seek_pos := int_of_slot (word_of_int (seek_pos f) + bytes_to_read)\<rparr>)\<rparr>)))))"

partial_function (option) tarfs_read_loop ::
  "code_syms \<Rightarrow> addr \<Rightarrow> addr \<Rightarrow> u64 \<Rightarrow> addr \<Rightarrow> 'a fsys_scheme \<Rightarrow> (u64 \<times> 'a fsys_scheme) result" where
  "tarfs_read_loop syms tar_path buffer sz ptr s =
     (if is_header syms (mem s) ptr then
        rbind (oct2bin (mem s) (ptr + 0x7C) 11) (\<lambda>file_size.
        rbind (ends (strcmp (mem s) ptr (tar_path + 1))) (\<lambda>r.
        if r = 0 then read_entry tar_path buffer sz ptr file_size s
        else rbind (next_header ptr file_size) (\<lambda>ptr. tarfs_read_loop syms tar_path buffer sz ptr s)))
      else ret (- 1, s))"

definition tarfs_read ::
  "code_syms \<Rightarrow> addr \<Rightarrow> addr \<Rightarrow> u64 \<Rightarrow> 'a fsys_scheme \<Rightarrow> (u64 \<times> 'a fsys_scheme) result" where
  "tarfs_read syms path buffer sz s = tarfs_read_loop syms path buffer sz (initramfs s) s"

definition tarfs_seek :: "addr \<Rightarrow> u64 \<Rightarrow> int \<Rightarrow> 'a fsys_scheme \<Rightarrow> (u64 \<times> 'a fsys_scheme) result" where
  "tarfs_seek path offset whence s =
     (if path = NULL then ret (- 1, s) else
      rbind (tarfs_find_file path s) (\<lambda>file.
      if file = NULL then ret (- 1, s) else
      rbind (deref ''tarfs_file_t'' (tar_files s) file) (\<lambda>f.
      let pos = int_of_slot offset in
      ret (word_of_int pos, s\<lparr>tar_files := (tar_files s)(file \<mapsto> f\<lparr>seek_pos := pos\<rparr>)\<rparr>))))"

text \<open>A \<open>vfs_file_stat_t\<close> is an \<open>int\<close>, four bytes of padding and a \<open>size_t\<close>.\<close>

definition tarfs_stat :: "addr \<Rightarrow> addr \<Rightarrow> 'a fsys_scheme \<Rightarrow> (u64 \<times> 'a fsys_scheme) result" where
  "tarfs_stat path stat s =
     (if path = NULL then ret (- 1, s)
      else if stat = NULL then ret (- 2, s)
      else rbind (tarfs_find_file path s) (\<lambda>file.
      if file = NULL then ret (- 1, s) else
      rbind (deref ''tarfs_file_t'' (tar_files s) file) (\<lambda>f.
      ret (0, s\<lparr>mem := store64 (store_le (mem s) stat 4 0) (stat + 8) (tar_len f)\<rparr>))))"

definition tarfs_exists :: "addr \<Rightarrow> 'a fsys_scheme \<Rightarrow> bool result" where
  "tarfs_exists path s =
     (if path = NULL then ret False else rbind (tarfs_find_file path s) (\<lambda>file. ret (file \<noteq> NULL)))"

text \<open>The modules of the boot loader, each with the addresses of its path and of its contents.\<close>

fun find_initramfs :: "code_syms \<Rightarrow> mem \<Rightarrow> (addr \<times> addr) list \<Rightarrow> addr \<Rightarrow> addr result" where
  "find_initramfs syms m [] old = ret old"
| "find_initramfs syms m ((path, address) # ms) old =
     rbind (ends (strcmp m path (lit syms ''/boot/initramfs.tar''))) (\<lambda>r.
     if r = 0 then ret address else find_initramfs syms m ms old)"

partial_function (option) register_loop :: "code_syms \<Rightarrow> addr \<Rightarrow> 'a fsys_scheme \<Rightarrow> 'a fsys_scheme result" where
  "register_loop syms ptr s =
     (if is_header syms (mem s) ptr then
        rbind (oct2bin (mem s) (ptr + 0x7C) 11) (\<lambda>file_size.
        rbind (if file_size > 0 then tarfs_add_file ptr (word_of_int file_size) s else ret s) (\<lambda>s.
        rbind (next_header ptr file_size) (\<lambda>ptr. register_loop syms ptr s)))
      else ret s)"

text \<open>\<open>impl->mmap\<close> is not set: the pointer is what \<open>malloc\<close> left in its place, at offset 40.\<close>

definition tarfs_init ::
  "code_syms \<Rightarrow> (addr \<times> addr) list \<Rightarrow> addr \<Rightarrow> 'a fsys_scheme \<Rightarrow> 'a fsys_scheme result" where
  "tarfs_init syms modules impl s =
     (let s = s\<lparr>vfs_impls := (vfs_impls s)(impl \<mapsto>
            \<lparr>impl_read = Some TARFS_READ, impl_write = None, impl_seek = Some TARFS_SEEK,
             impl_exists = Some TARFS_EXISTS, impl_stat = Some TARFS_STAT,
             impl_mmap = (if load64 (mem s) (impl + 40) = 0 then None else Some WILD)\<rparr>)\<rparr>
      in
      rbind (find_initramfs syms (mem s) modules (initramfs s)) (\<lambda>a.
      let s = s\<lparr>initramfs := a\<rparr> in
      if a = NULL then fails (Panic ''no initramfs provided!'') else register_loop syms a s))"

end
