(* ===== verification/Tarfs_Correct.thy ===== *)
theory Tarfs_Correct
  imports Tarfs
begin

text \<open>
  Reading a file of the archive is correct: successive calls of \<open>tarfs_read\<close> deliver the bytes of the file one after
  the other, whatever the sizes of the requests. The archive is described by the list of its names and contents.
\<close>

section \<open>Archives\<close>

text \<open>A number as octal digits, the memory a file takes, and the archive at an address.\<close>

definition octal :: "nat \<Rightarrow> nat \<Rightarrow> u8 list" where
  "octal k n = map (\<lambda>i. 0x30 + of_nat (n div 8 ^ (k - 1 - i) mod 8)) [0..<k]"

definition entry_bytes :: "u8 list \<Rightarrow> nat" where
  "entry_bytes d = 512 * (1 + (length d + 511) div 512)"

fun archive_at :: "code_syms \<Rightarrow> mem \<Rightarrow> addr \<Rightarrow> (u8 list \<times> u8 list) list \<Rightarrow> bool" where
  "archive_at syms m a [] \<longleftrightarrow> \<not> is_header syms m a"
| "archive_at syms m a ((nm, d) # es) \<longleftrightarrow>
     is_header syms m a \<and> length nm < 100 \<and> cstring m a nm \<and> length d < 2 ^ 30 \<and>
     read_block m (a + 0x7C) 11 = octal 11 (length d) \<and> read_block m (a + 512) (length d) = d \<and>
     archive_at syms m (a + of_nat (entry_bytes d)) es"

fun archive_bytes :: "(u8 list \<times> u8 list) list \<Rightarrow> nat" where
  "archive_bytes [] = 512"
| "archive_bytes ((nm, d) # es) = entry_bytes d + archive_bytes es"

text \<open>The list of registered files: their paths and their addresses.\<close>

fun tar_chain :: "mem \<Rightarrow> (addr \<rightharpoonup> tarfs_file_t) \<Rightarrow> addr \<Rightarrow> (u8 list \<times> addr) list \<Rightarrow> bool" where
  "tar_chain m st p [] \<longleftrightarrow> p = NULL"
| "tar_chain m st p ((nm, f) # fs) \<longleftrightarrow>
     p = f \<and> f \<noteq> NULL \<and> (\<exists>t. st f = Some t \<and> cstring m (tar_loc t) nm \<and> tar_chain m st (tar_next t) fs)"

section \<open>Numbers in headers\<close>

lemma octal_Suc: "octal (Suc k) n = (0x30 + of_nat (n div 8 ^ k mod 8)) # octal k n"
proof -
  have "[0..<Suc k] = 0 # map Suc [0..<k]" by (simp add: map_Suc_upt upt_conv_Cons del: upt_Suc)
  then show ?thesis unfolding octal_def by (simp add: comp_def del: upt_Suc)
qed

lemma octal_mod: "octal k (n mod 8 ^ k) = octal k n"
proof -
  have "n mod 8 ^ k div 8 ^ (k - 1 - i) mod 8 = n div 8 ^ (k - 1 - i) mod 8" if "i < k" for i
  proof -
    have k: "(8 :: nat) ^ k = 8 ^ (k - 1 - i) * (8 * 8 ^ i)"
      using that by (simp flip: power_Suc power_add)
    show ?thesis unfolding k by (simp add: mod_mult2_eq)
  qed
  then show ?thesis by (simp add: octal_def)
qed

lemma oct2bin_loop_octal:
  assumes "read_block m c k = octal k n" "n < 8 ^ k" "v * 8 ^ k + n < 2 ^ 31"
  shows "oct2bin_loop m c k (int v) = ret (int (v * 8 ^ k + n))"
  using assms
proof (induction k arbitrary: c v n)
  case 0
  then show ?case by simp
next
  case (Suc k)
  let ?q = "n div 8 ^ k" and ?r = "n mod 8 ^ k"
  have q: "?q < 8" "n = ?q * 8 ^ k + ?r" using Suc.prems(2) by (simp_all add: div_less_iff_less_mult mult.commute)
  have rd: "m c = 0x30 + of_nat ?q" "read_block m (c + 1) k = octal k ?r"
    using Suc.prems(1) q(1) by (auto simp: read_block_Suc octal_Suc octal_mod)
  have dig: "uint (m c) - 0x30 = int ?q"
  proof -
    have "?q \<in> {0, 1, 2, 3, 4, 5, 6, 7}" using q(1) by (simp; arith)
    then show ?thesis unfolding rd(1) by auto
  qed
  have sum: "(v * 8 + ?q) * 8 ^ k + ?r = v * 8 ^ Suc k + n" using q(2) by (simp add: algebra_simps)
  have small: "v * 8 + ?q < 2 ^ 31"
  proof -
    have "v * 8 + ?q \<le> (v * 8 + ?q) * 8 ^ k" by simp
    also have "\<dots> \<le> v * 8 ^ Suc k + n" using sum by linarith
    finally show ?thesis using Suc.prems(3) by simp
  qed
  have "oct2bin_loop m (c + 1) k (int (v * 8 + ?q)) = ret (int ((v * 8 + ?q) * 8 ^ k + ?r))"
    using rd(2) Suc.prems(3) sum by (intro Suc.IH) simp_all
  moreover have "imul (int v) 8 = ret (int (v * 8))" "isub (uint (m c)) 0x30 = ret (int ?q)"
      "iadd (int (v * 8)) (int ?q) = ret (int (v * 8 + ?q))"
    using small q(1) dig by (simp_all add: imul_def isub_def iadd_def int_range_def)
  ultimately show ?case by (simp add: sum)
qed

lemma oct2bin_octal:
  assumes "read_block m c 11 = octal 11 n" "n < 2 ^ 30"
  shows "oct2bin m c 11 = ret (int n)"
  using oct2bin_loop_octal [OF assms(1), of 0] assms(2) by (simp add: oct2bin_def)

lemma next_header_entry:
  assumes "length d < 2 ^ 30"
  shows "next_header a (int (length d)) = ret (a + of_nat (entry_bytes d))"
proof -
  let ?x = "(length d + 511) div 512"
  have "(int (length d) + 511) sdiv 512 = int ?x"
    by (simp add: signed_divide_int_def zdiv_int)
  moreover have "?x < 2 ^ 22 - 1" using assms by (simp add: div_less_iff_less_mult)
  ultimately show ?thesis using assms
    by (simp add: next_header_def iadd_def imul_def int_range_def entry_bytes_def)
qed

section \<open>Finding a file\<close>

lemma find_file_loop_chain:
  assumes "tar_chain (mem s) (tar_files s) p fs" "cstring (mem s) path nm" "map_of fs nm = Some f"
  shows "find_file_loop path p s = ret f"
  using assms(1,3)
proof (induction fs arbitrary: p)
  case (Cons e fs)
  obtain nm' f' where e: "e = (nm', f')" by (cases e)
  obtain t where t: "p = f'" "f' \<noteq> NULL" "tar_files s f' = Some t" "cstring (mem s) (tar_loc t) nm'"
    "tar_chain (mem s) (tar_files s) (tar_next t) fs"
    using Cons.prems(1) by (auto simp: e)
  obtain r where r: "strcmp (mem s) (tar_loc t) path = Some r" "r = 0 \<longleftrightarrow> nm' = nm"
    using strcmp_cstring [OF t(4) assms(2)] by blast
  show ?case
  proof (cases "nm' = nm")
    case True
    then show ?thesis using Cons.prems(2) t r by (subst find_file_loop.simps) (simp add: e deref_def)
  next
    case False
    then have "map_of fs nm = Some f" using Cons.prems(2) by (simp add: e)
    from Cons.IH [OF t(5) this] show ?thesis using False t r by (subst find_file_loop.simps) (simp add: e deref_def)
  qed
qed simp

text \<open>The address of a file, and the block of its data, from the archive.\<close>

lemma region_part: "i + n \<le> k \<Longrightarrow> region (a + of_nat i) n \<subseteq> region a k"
  unfolding region_def by (auto simp: add.assoc simp flip: of_nat_add)

lemma tarfs_read_loop_found:
  assumes "archive_at syms (mem s) a es" "cstring (mem s) (path + 1) nm" "map_of es nm = Some d"
  shows "\<exists>p. tarfs_read_loop syms path buf sz a s = read_entry path buf sz p (int (length d)) s \<and>
    read_block (mem s) (p + 512) (length d) = d \<and> length d < 2 ^ 30 \<and>
    region (p + 512) (length d) \<subseteq> region a (archive_bytes es)"
  using assms(1,3)
proof (induction es arbitrary: a)
  case (Cons e es)
  obtain nm' d' where e: "e = (nm', d')" by (cases e)
  have h: "is_header syms (mem s) a" "cstring (mem s) a nm'" "length d' < 2 ^ 30"
    "read_block (mem s) (a + 0x7C) 11 = octal 11 (length d')" "read_block (mem s) (a + 512) (length d') = d'"
    "archive_at syms (mem s) (a + of_nat (entry_bytes d')) es"
    using Cons.prems(1) by (simp_all add: e)
  obtain r where r: "strcmp (mem s) a (path + 1) = Some r" "r = 0 \<longleftrightarrow> nm' = nm"
    using strcmp_cstring [OF h(2) assms(2)] by blast
  have step: "tarfs_read_loop syms path buf sz a s =
      (if nm' = nm then read_entry path buf sz a (int (length d')) s
       else tarfs_read_loop syms path buf sz (a + of_nat (entry_bytes d')) s)"
    using h(1) r oct2bin_octal [OF h(4,3)] next_header_entry [OF h(3)] by (subst tarfs_read_loop.simps) simp
  have le: "512 + length d' \<le> entry_bytes d'" by (simp add: entry_bytes_def)
  show ?case
  proof (cases "nm' = nm")
    case True
    then have "d' = d" using Cons.prems(2) by (simp add: e)
    moreover have "region (a + of_nat 512) (length d') \<subseteq> region a (archive_bytes (e # es))"
      by (rule region_part) (use le in \<open>simp add: e\<close>)
    ultimately show ?thesis using True h step by (intro exI [of _ a]) simp
  next
    case False
    then have "map_of es nm = Some d" using Cons.prems(2) by (simp add: e)
    from Cons.IH [OF h(6) this] obtain p where
      p: "tarfs_read_loop syms path buf sz (a + of_nat (entry_bytes d')) s = read_entry path buf sz p (int (length d)) s"
      "read_block (mem s) (p + 512) (length d) = d" "length d < 2 ^ 30"
      "region (p + 512) (length d) \<subseteq> region (a + of_nat (entry_bytes d')) (archive_bytes es)" by blast
    moreover have "region (a + of_nat (entry_bytes d')) (archive_bytes es) \<subseteq> region a (archive_bytes (e # es))"
      by (rule region_part) (simp add: e)
    ultimately show ?thesis using step False by (intro exI [of _ p]) auto
  qed
qed simp

lemma tarfs_read_loop_missing:
  assumes "archive_at syms (mem s) a es" "cstring (mem s) (path + 1) nm" "map_of es nm = None"
  shows "tarfs_read_loop syms path buf sz a s = ret (- 1, s)"
  using assms(1,3)
proof (induction es arbitrary: a)
  case Nil
  then show ?case by (subst tarfs_read_loop.simps) simp
next
  case (Cons e es)
  obtain nm' d' where e: "e = (nm', d')" by (cases e)
  have h: "is_header syms (mem s) a" "cstring (mem s) a nm'" "length d' < 2 ^ 30"
    "read_block (mem s) (a + 0x7C) 11 = octal 11 (length d')" "archive_at syms (mem s) (a + of_nat (entry_bytes d')) es"
    using Cons.prems(1) by (simp_all add: e)
  have ne: "nm' \<noteq> nm" "map_of es nm = None" using Cons.prems(2) by (auto simp: e split: if_splits)
  obtain r where r: "strcmp (mem s) a (path + 1) = Some r" "r \<noteq> 0"
    using strcmp_cstring [OF h(2) assms(2)] ne(1) by blast
  show ?case using h(1) r oct2bin_octal [OF h(4,3)] next_header_entry [OF h(3)] Cons.IH [OF h(5) ne(2)]
    by (subst tarfs_read_loop.simps) simp
qed

section \<open>Reading\<close>

text \<open>The state after the bytes \<open>chunk\<close> have been delivered to \<open>buf\<close>.\<close>

definition delivered :: "addr \<Rightarrow> addr \<Rightarrow> tarfs_file_t \<Rightarrow> nat \<Rightarrow> u8 list \<Rightarrow> 'a fsys_scheme \<Rightarrow> 'a fsys_scheme" where
  "delivered buf f t pos chunk s = s\<lparr>mem := write_block (mem s) buf chunk,
     tar_files := (tar_files s)(f \<mapsto> t\<lparr>seek_pos := int (pos + length chunk)\<rparr>)\<rparr>"

lemma int_of_slot_of_nat:
  assumes "n < 2 ^ 31"
  shows "int_of_slot (of_nat n) = int n"
proof -
  have "take_bit 64 n = n" "signed_take_bit 31 (int n) = int n"
    using assms by (simp_all add: take_bit_nat_eq_self signed_take_bit_int_eq_self)
  then show ?thesis by (simp add: int_of_slot_def unsigned_of_nat signed_of_nat)
qed

lemma read_entry_delivers:
  assumes find: "tarfs_find_file path s = ret f" "f \<noteq> NULL" "tar_files s f = Some t" "seek_pos t = int pos"
    and d: "read_block (mem s) (p + 512) (length d) = d" "length d < 2 ^ 30" "pos \<le> length d"
    and buf: "buf \<noteq> NULL" "NULL \<notin> region (p + 512) (length d)"
      "region (p + 512) (length d) \<inter> region buf (unat sz) = {}"
  defines "n \<equiv> min (unat sz) (length d - pos)"
  shows "read_entry path buf sz p (int (length d)) s =
    ret (of_nat n, delivered buf f t pos (take n (drop pos d)) s)"
proof -
  let ?fsz = "of_nat (length d) :: u64" and ?pos = "of_nat pos :: u64"
  have u: "unat ?fsz = length d" "unat ?pos = pos" using d(2,3) by (simp_all add: unat_of_nat_lt)
  have rem: "unat (?fsz - ?pos) = length d - pos" using u d(3) by (simp add: unat_sub word_le_nat_alt)
  have le: "\<not> ?pos > ?fsz" using u d(3) by (simp add: word_less_nat_alt)
  let ?n = "if ?fsz - ?pos < sz then ?fsz - ?pos else sz"
  have un: "unat ?n = n" using rem by (simp add: n_def word_less_nat_alt)
  have "?n = of_nat (unat ?n)" by simp
  then have n: "?n = of_nat n" by (simp only: un)
  have n31: "n < 2 ^ 30" "pos + n < 2 ^ 31" using d(2,3) by (simp_all add: n_def)
  have src: "region (p + 512 + ?pos) n \<subseteq> region (p + 512) (length d)"
    by (rule region_part) (use d(3) in \<open>simp add: n_def\<close>)
  have rb: "read_block (mem s) (p + 512 + ?pos) n = take n (drop pos d)"
  proof -
    have "read_block (mem s) (p + 512 + ?pos) n = take n (drop pos (read_block (mem s) (p + 512) (length d)))"
    proof (rule nth_equalityI)
      fix i assume "i < length (read_block (mem s) (p + 512 + ?pos) n)"
      then have "i < n" "pos + i < length d" using d(3) by (auto simp: n_def)
      then show "read_block (mem s) (p + 512 + ?pos) n ! i = take n (drop pos (read_block (mem s) (p + 512) (length d))) ! i"
        by (simp add: algebra_simps)
    qed (use d(3) in \<open>simp add: n_def\<close>)
    then show ?thesis by (simp add: d(1))
  qed
  show ?thesis
  proof (cases "n = 0")
    case True
    have "tar_files s = (tar_files s)(f \<mapsto> t\<lparr>seek_pos := int pos\<rparr>)" using find(3,4) by auto
    then have "delivered buf f t pos [] s = s" by (simp add: delivered_def)
    then show ?thesis using True find le n by (simp add: read_entry_def deref_def Let_def)
  next
    case False
    have "p + 512 + ?pos \<in> region (p + 512 + ?pos) n" using False by (cases n) (auto simp: region_Suc)
    then have "p + 512 + ?pos \<noteq> NULL" using src buf(2) by auto
    moreover have "region (p + 512 + ?pos) n \<inter> region buf n = {}"
      using src buf(3) region_part [of 0 n "unat sz" buf] by (auto simp: n_def)
    moreover have "(of_nat n :: u64) > 0" "unat (of_nat n :: u64) = n"
      using False n31 by (simp_all add: word_less_nat_alt unat_of_nat_lt)
    ultimately have "memcpy (mem s) buf (p + 512 + ?pos) (of_nat n) = ret (buf, write_block (mem s) buf (take n (drop pos d)))"
      using memcpy_disjoint [of buf "p + 512 + ?pos" "of_nat n"] buf(1) rb by simp
    moreover have "int_of_slot (?pos + of_nat n) = int (pos + n)"
      using int_of_slot_of_nat [OF n31(2)] by simp
    moreover have "(of_nat n :: u64) \<noteq> 0" using \<open>(of_nat n :: u64) > 0\<close> by simp
    moreover have "length (take n (drop pos d)) = n" using d(3) by (simp add: n_def)
    ultimately show ?thesis using find le n
      by (simp add: read_entry_def deref_def Let_def delivered_def)
  qed
qed

section \<open>What a read leaves alone\<close>

lemma is_header_cong:
  assumes "\<And>x. x \<in> region a 512 \<union> region (lit syms ''ustar'') 5 \<Longrightarrow> m' x = m x"
  shows "is_header syms m' a \<longleftrightarrow> is_header syms m a"
proof -
  have "region (a + of_nat 257) 5 \<subseteq> region a 512" by (rule region_part) simp
  then have "read_block m' (a + 257) 5 = read_block m (a + 257) 5" "read_block m' (lit syms ''ustar'') 5 = read_block m (lit syms ''ustar'') 5"
    using assms by (auto intro!: read_block_cong)
  then show ?thesis by (simp add: is_header_def memcmp_eq_0)
qed

lemma archive_at_cong:
  assumes "\<And>x. x \<in> region a (archive_bytes es) \<union> region (lit syms ''ustar'') 5 \<Longrightarrow> m' x = m x" "archive_at syms m a es"
  shows "archive_at syms m' a es"
  using assms
proof (induction es arbitrary: a)
  case Nil
  then show ?case using is_header_cong [of a syms m' m] by simp
next
  case (Cons e es)
  obtain nm d where e: "e = (nm, d)" by (cases e)
  have h: "length nm < 100" "is_header syms m a" "cstring m a nm" "length d < 2 ^ 30"
    "read_block m (a + 0x7C) 11 = octal 11 (length d)" "read_block m (a + 512) (length d) = d"
    "archive_at syms m (a + of_nat (entry_bytes d)) es"
    using Cons.prems(2) by (simp_all add: e)
  have le: "512 + length d \<le> entry_bytes d" by (simp add: entry_bytes_def)
  have all: "region a (entry_bytes d) \<subseteq> region a (archive_bytes (e # es))"
    using region_part [of 0 "entry_bytes d" "archive_bytes (e # es)" a] by (simp add: e)
  have sub: "region (a + of_nat i) k \<subseteq> region a (archive_bytes (e # es))" if "i + k \<le> 512 + length d" for i k
    using region_part [of i k "entry_bytes d" a] that le all by auto
  have "m' x = m x" if "x \<in> region (a + of_nat (entry_bytes d)) (archive_bytes es) \<union> region (lit syms ''ustar'') 5" for x
    using Cons.prems(1) [of x] region_part [of "entry_bytes d" "archive_bytes es" "archive_bytes (e # es)" a] that
    by (auto simp: e)
  then have "archive_at syms m' (a + of_nat (entry_bytes d)) es" using h(7) by (rule Cons.IH)
  moreover have "is_header syms m' a"
    using is_header_cong [of a syms m' m] Cons.prems(1) sub [of 0 512] h(2) by auto
  moreover have rb: "read_block m' (a + of_nat i) k = read_block m (a + of_nat i) k" if "i + k \<le> 512 + length d" for i k
    by (rule read_block_cong) (use sub [OF that] Cons.prems(1) in auto)
  have "cstring m' a nm" using rb [of 0 "Suc (length nm)"] h(1,3) by (simp add: cstring_def)
  moreover have "read_block m' (a + 0x7C) 11 = octal 11 (length d)" "read_block m' (a + 512) (length d) = d"
    using rb [of 124 11] rb [of 512 "length d"] h(5,6) by simp_all
  ultimately show ?case using h by (simp add: e)
qed

lemma tar_chain_cong:
  assumes "tar_chain m st p fs"
    and "\<And>nm f t. (nm, f) \<in> set fs \<Longrightarrow> st f = Some t \<Longrightarrow>
      (\<exists>t'. st' f = Some t' \<and> tar_loc t' = tar_loc t \<and> tar_next t' = tar_next t) \<and>
      (\<forall>x\<in>region (tar_loc t) (Suc (length nm)). m' x = m x)"
  shows "tar_chain m' st' p fs"
  using assms
proof (induction fs arbitrary: p)
  case (Cons e fs)
  obtain nm f where e: "e = (nm, f)" by (cases e)
  obtain t where t: "p = f" "f \<noteq> NULL" "st f = Some t" "cstring m (tar_loc t) nm" "tar_chain m st (tar_next t) fs"
    using Cons.prems(1) by (auto simp: e)
  obtain t' where t': "st' f = Some t'" "tar_loc t' = tar_loc t" "tar_next t' = tar_next t"
    and eq: "\<forall>x\<in>region (tar_loc t) (Suc (length nm)). m' x = m x"
    using Cons.prems(2) [of nm f t] t(3) by (auto simp: e)
  have "cstring m' (tar_loc t) nm" using cstring_cong [of "tar_loc t" nm m m'] eq t(4) by auto
  moreover have "tar_chain m' st' (tar_next t) fs" using t(5) Cons.prems(2) by (intro Cons.IH) (auto simp: e)
  ultimately show ?case using t t' by (simp add: e)
qed simp

text \<open>
  The file system seen from one file: the archive, the registered files, the path, the contents \<open>d\<close> of the file and
  the position \<open>pos\<close> of the next read; and the addresses that reading it looks at.
\<close>

definition tar_view ::
  "code_syms \<Rightarrow> (u8 list \<times> u8 list) list \<Rightarrow> (u8 list \<times> addr) list \<Rightarrow> addr \<Rightarrow> u8 list \<Rightarrow> u8 list \<Rightarrow> nat \<Rightarrow> 'a fsys_scheme \<Rightarrow> bool" where
  "tar_view syms es fs path nm d pos s \<longleftrightarrow>
     archive_at syms (mem s) (initramfs s) es \<and> NULL \<notin> region (initramfs s) (archive_bytes es) \<and>
     tar_chain (mem s) (tar_files s) (tarfs_head s) fs \<and> cstring (mem s) path (0x2F # nm) \<and> map_of es nm = Some d \<and>
     pos \<le> length d \<and> (\<exists>f t. map_of fs (0x2F # nm) = Some f \<and> tar_files s f = Some t \<and> seek_pos t = int pos)"

definition tar_foot ::
  "code_syms \<Rightarrow> (u8 list \<times> u8 list) list \<Rightarrow> (u8 list \<times> addr) list \<Rightarrow> addr \<Rightarrow> u8 list \<Rightarrow> 'a fsys_scheme \<Rightarrow> addr set" where
  "tar_foot syms es fs path nm s =
     region (initramfs s) (archive_bytes es) \<union> region (lit syms ''ustar'') 5 \<union> region path (Suc (Suc (length nm))) \<union>
     (\<Union>(nm, f)\<in>set fs. region (tar_loc (the (tar_files s f))) (Suc (length nm)))"

lemma tar_chain_nonnull: "tar_chain m st p fs \<Longrightarrow> map_of fs nm = Some f \<Longrightarrow> f \<noteq> NULL"
  by (induction fs arbitrary: p) (auto split: if_splits)

lemma delivered_view:
  fixes s :: "'a fsys_scheme"
  assumes v: "tar_view syms es fs path nm d pos s" and f: "map_of fs (0x2F # nm) = Some f" "tar_files s f = Some t"
    and ch: "pos + length chunk \<le> length d" "tar_foot syms es fs path nm s \<inter> region buf (length chunk) = {}"
      "length chunk < 2 ^ 64"
  defines "s' \<equiv> delivered buf f t pos chunk s"
  shows "tar_view syms es fs path nm d (pos + length chunk) s'" "tar_foot syms es fs path nm s' = tar_foot syms es fs path nm s"
    and "\<And>x. x \<notin> region buf (length chunk) \<Longrightarrow> mem s' x = mem s x"
proof -
  show out: "mem s' x = mem s x" if "x \<notin> region buf (length chunk)" for x
    using that ch(3) by (simp add: s'_def delivered_def write_block_outside)
  have same: "mem s' x = mem s x" if "x \<in> tar_foot syms es fs path nm s" for x
    using out [of x] ch(2) that by auto
  have files: "\<exists>t''. tar_files s' g = Some t'' \<and> tar_loc t'' = tar_loc t' \<and> tar_next t'' = tar_next t'"
    if "tar_files s g = Some t'" for g t'
    using that f(2) by (auto simp: s'_def delivered_def)
  have loc: "tar_loc (the (tar_files s' g)) = tar_loc (the (tar_files s g))" for g
    using f(2) by (simp add: s'_def delivered_def)
  note v = v [unfolded tar_view_def]
  have "archive_at syms (mem s') (initramfs s) es"
    by (rule archive_at_cong [where m = "mem s"]) (use same v in \<open>auto simp: tar_foot_def\<close>)
  moreover have "tar_chain (mem s') (tar_files s') (tarfs_head s) fs"
  proof (rule tar_chain_cong [where m = "mem s" and st = "tar_files s"])
    show "tar_chain (mem s) (tar_files s) (tarfs_head s) fs" using v by simp
    fix nm' g t' assume g: "(nm', g) \<in> set fs" "tar_files s g = Some t'"
    then have "region (tar_loc t') (Suc (length nm')) \<subseteq> tar_foot syms es fs path nm s" by (force simp: tar_foot_def)
    then show "(\<exists>t''. tar_files s' g = Some t'' \<and> tar_loc t'' = tar_loc t' \<and> tar_next t'' = tar_next t') \<and>
        (\<forall>x\<in>region (tar_loc t') (Suc (length nm')). mem s' x = mem s x)"
      using files [OF g(2)] same by blast
  qed
  moreover have "cstring (mem s') path (0x2F # nm)"
    using cstring_cong [of path "0x2F # nm" "mem s" "mem s'"] same v by (simp add: tar_foot_def)
  ultimately show "tar_view syms es fs path nm d (pos + length chunk) s'"
    using v f(1) ch(1) unfolding tar_view_def by (auto simp: s'_def delivered_def)
  show "tar_foot syms es fs path nm s' = tar_foot syms es fs path nm s"
    using loc by (simp add: tar_foot_def s'_def delivered_def)
qed

lemma tarfs_read_step:
  fixes s :: "'a fsys_scheme"
  assumes v: "tar_view syms es fs path nm d pos s" and buf: "buf \<noteq> NULL"
    and foot: "tar_foot syms es fs path nm s \<inter> region buf (unat sz) = {}"
  defines "n \<equiv> min (unat sz) (length d - pos)"
  shows "\<exists>s'. tarfs_read syms path buf sz s = ret (of_nat n, s') \<and> read_block (mem s') buf n = take n (drop pos d) \<and>
    tar_view syms es fs path nm d (pos + n) s' \<and> tar_foot syms es fs path nm s' = tar_foot syms es fs path nm s \<and>
    (\<forall>x. x \<notin> region buf n \<longrightarrow> mem s' x = mem s x)"
proof -
  note w = v [unfolded tar_view_def]
  obtain f t where f: "map_of fs (0x2F # nm) = Some f" "tar_files s f = Some t" "seek_pos t = int pos" using w by blast
  have find: "tarfs_find_file path s = ret f" unfolding tarfs_find_file_def
    using find_file_loop_chain w f(1) by blast
  have "cstring (mem s) (path + 1) nm" using w by (simp add: cstring_Cons)
  then obtain p where p: "tarfs_read syms path buf sz s = read_entry path buf sz p (int (length d)) s"
    "read_block (mem s) (p + 512) (length d) = d" "length d < 2 ^ 30"
    "region (p + 512) (length d) \<subseteq> region (initramfs s) (archive_bytes es)"
    unfolding tarfs_read_def using tarfs_read_loop_found w by blast
  let ?chunk = "take n (drop pos d)"
  have nn: "f \<noteq> NULL" using w f(1) tar_chain_nonnull by blast
  have read: "tarfs_read syms path buf sz s = ret (of_nat n, delivered buf f t pos ?chunk s)"
    unfolding p(1) n_def using w f find p(2-4) nn buf foot
    by (intro read_entry_delivers) (auto simp: tar_foot_def)
  have len: "length ?chunk = n" "n \<le> unat sz" "n < 2 ^ 64" "pos + n \<le> length d"
    using w p(3) by (auto simp: n_def)
  have "tar_foot syms es fs path nm s \<inter> region buf (length ?chunk) = {}"
    using foot region_part [of 0 n "unat sz" buf] len(1,2) by auto
  note dv = delivered_view [OF v f(1,2) _ this, unfolded len(1), OF len(4,3)]
  have "read_block (mem (delivered buf f t pos ?chunk s)) buf n = ?chunk"
    using len by (intro nth_equalityI) (auto simp: delivered_def write_block_def unat_of_nat_lt)
  then show ?thesis using read dv by blast
qed

section \<open>Successive reads\<close>

text \<open>A reader that asks for the sizes \<open>szs\<close> and collects what it gets.\<close>

fun read_seq :: "code_syms \<Rightarrow> addr \<Rightarrow> addr \<Rightarrow> u64 list \<Rightarrow> 'a fsys_scheme \<Rightarrow> (u8 list \<times> 'a fsys_scheme) result" where
  "read_seq syms path buf [] s = ret ([], s)"
| "read_seq syms path buf (sz # szs) s =
     rbind (tarfs_read syms path buf sz s) (\<lambda>(n, s).
     rbind (read_seq syms path buf szs s) (\<lambda>(cs, s').
     ret (read_block (mem s) buf (unat n) @ cs, s')))"

abbreviation asked :: "u64 list \<Rightarrow> nat" where
  "asked szs \<equiv> sum_list (map unat szs)"

lemma read_seq_ok:
  assumes "tar_view syms es fs path nm d pos s" "buf \<noteq> NULL" "tar_foot syms es fs path nm s \<inter> region buf k = {}"
    "\<forall>sz\<in>set szs. unat sz \<le> k"
  shows "returns (read_seq syms path buf szs s) (\<lambda>(cs, s'). cs = take (asked szs) (drop pos d) \<and>
    tar_view syms es fs path nm d (min (length d) (pos + asked szs)) s' \<and> (\<forall>x. x \<notin> region buf k \<longrightarrow> mem s' x = mem s x))"
  using assms
proof (induction szs arbitrary: s pos)
  case Nil
  then have "min (length d) pos = pos" by (simp add: tar_view_def)
  then show ?case using Nil.prems(1) by simp
next
  case (Cons sz szs)
  let ?n = "min (unat sz) (length d - pos)"
  have pos: "pos \<le> length d" using Cons.prems(1) by (simp add: tar_view_def)
  have sub: "region buf i \<subseteq> region buf k" if "i \<le> k" for i using region_part [of 0 i k buf] that by simp
  have "tar_foot syms es fs path nm s \<inter> region buf (unat sz) = {}"
    using Cons.prems(3,4) sub [of "unat sz"] by auto
  from tarfs_read_step [OF Cons.prems(1,2) this] obtain s1 where s1: "tarfs_read syms path buf sz s = ret (of_nat ?n, s1)"
    "read_block (mem s1) buf ?n = take ?n (drop pos d)" "tar_view syms es fs path nm d (pos + ?n) s1"
    "tar_foot syms es fs path nm s1 = tar_foot syms es fs path nm s" "\<And>x. x \<notin> region buf ?n \<Longrightarrow> mem s1 x = mem s x" by blast
  have u: "unat (of_nat ?n :: u64) = ?n" using unat_lt64 [of sz] by (simp add: unat_of_nat_lt)
  have fr: "mem s1 x = mem s x" if "x \<notin> region buf k" for x
  proof -
    have "?n \<le> k" using Cons.prems(4) by (simp add: min_le_iff_disj)
    then show ?thesis using s1(5) [of x] that sub [of ?n] by blast
  qed
  have cat: "take ?n (drop pos d) @ take (asked szs) (drop (pos + ?n) d) = take (asked (sz # szs)) (drop pos d)"
    by (simp add: min_def take_add add.commute)
  have m: "min (length d) (pos + ?n + asked szs) = min (length d) (pos + asked (sz # szs))" using pos by auto
  have "returns (read_seq syms path buf szs s1) (\<lambda>(cs, s'). cs = take (asked szs) (drop (pos + ?n) d) \<and>
      tar_view syms es fs path nm d (min (length d) (pos + ?n + asked szs)) s' \<and> (\<forall>x. x \<notin> region buf k \<longrightarrow> mem s' x = mem s1 x))"
    using Cons.prems s1(3,4) by (intro Cons.IH) auto
  then show ?case unfolding m using s1(1,2) u cat fr by (auto elim!: returnsE)
qed

text \<open>
  C19. Reading a file of the archive in pieces of any sizes gives its contents: from position \<open>pos\<close> of a file with
  contents \<open>d\<close>, the pieces that successive calls of \<open>tarfs_read\<close> deliver make up the bytes of \<open>d\<close> from \<open>pos\<close> on, as
  many as were asked for or as there are. All calls return, the position moves on with the bytes and never beyond the
  end, and nothing changes but the buffer. A path whose name after the leading slash is not the name of an entry of
  the archive gives \<open>-1\<close> and changes nothing. This is also the case for every entry that is stored with a leading dot,
  although such an entry is registered, without the dot, and can be opened.
\<close>

theorem tarfs_read_sequential:
  assumes "tar_view syms es fs path nm d pos s" "buf \<noteq> NULL" "tar_foot syms es fs path nm s \<inter> region buf k = {}"
    "\<forall>sz\<in>set szs. unat sz \<le> k"
  shows "returns (read_seq syms path buf szs s) (\<lambda>(cs, s'). cs = take (asked szs) (drop pos d) \<and>
      tar_view syms es fs path nm d (min (length d) (pos + asked szs)) s' \<and>
      (\<forall>x. x \<notin> region buf k \<longrightarrow> mem s' x = mem s x)) \<and>
    (\<forall>path' nm' sz. cstring (mem s) (path' + 1) nm' \<and> map_of es nm' = None \<longrightarrow>
      tarfs_read syms path' buf sz s = ret (- 1, s))"
proof -
  have "archive_at syms (mem s) (initramfs s) es" using assms(1) by (simp add: tar_view_def)
  then show ?thesis using read_seq_ok [OF assms] tarfs_read_loop_missing unfolding tarfs_read_def by blast
qed

text \<open>An archive with one file \<open>x\<close> of two bytes.\<close>

definition small_archive :: mem where
  "small_archive =
     write_block (write_block (write_block (write_block (write_block (write_block (\<lambda>_. 0)
       0x5000 (bytes ''ustar'')) 0x6000 (bytes ''/x'')) 0x10000 (bytes ''x'')) 0x1007C (bytes ''00000000002''))
       0x10101 (bytes ''ustar'')) 0x10200 (bytes ''hi'')"

definition small_tarfs :: "'a fsys_scheme \<Rightarrow> 'a fsys_scheme" where
  "small_tarfs s = s\<lparr>mem := small_archive, initramfs := 0x10000, tarfs_head := 0x7000,
     tar_files := [0x7000 \<mapsto> \<lparr>tar_loc = 0x6000, seek_pos = 0, tar_len = 2, tar_next = NULL\<rparr>]\<rparr>"

lemma block_numerals:
  "read_block m a (numeral k) = m a # read_block m (a + 1) (pred_numeral k)"
  "region a (numeral k) = insert a (region (a + 1) (pred_numeral k))"
  "octal (numeral k) n = (0x30 + of_nat (n div 8 ^ pred_numeral k mod 8)) # octal (pred_numeral k) n"
  unfolding numeral_eq_Suc [of k] by (rule read_block_Suc region_Suc octal_Suc)+

lemma block_0: "read_block m a 0 = []" "octal 0 n = []"
  by (simp_all add: read_block_def octal_def)

lemmas block_eval = block_numerals block_0 read_block_Suc region_Suc octal_Suc

lemma small_view:
  "tar_view (syms\<lparr>lit := \<lambda>_. 0x5000\<rparr>) [(bytes ''x'', bytes ''hi'')] [(bytes ''/x'', 0x7000)] 0x6000 (bytes ''x'') (bytes ''hi'') 0
     (small_tarfs s)"
proof -
  let ?syms = "syms\<lparr>lit := \<lambda>_. 0x5000\<rparr>"
  have "is_header ?syms small_archive 0x10000" "\<not> is_header ?syms small_archive 0x10400"
    by (simp_all add: is_header_def memcmp_eq_0 small_archive_def block_eval write_block_def bytes_def)
  moreover have "cstring small_archive 0x10000 (bytes ''x'')" "cstring small_archive 0x6000 (bytes ''/x'')"
    by (simp_all add: cstring_def small_archive_def block_eval write_block_def bytes_def)
  moreover have "read_block small_archive 0x1007C 11 = octal 11 (length (bytes ''hi''))"
    by (simp add: small_archive_def block_eval write_block_def bytes_def)
  moreover have "read_block small_archive 0x10200 (length (bytes ''hi'')) = bytes ''hi''"
    by (simp add: small_archive_def block_eval write_block_def bytes_def)
  moreover have "NULL \<notin> region 0x10000 (archive_bytes [(bytes ''x'', bytes ''hi'')])"
    by (simp add: region_iff entry_bytes_def bytes_def)
  ultimately show ?thesis
    by (simp add: tar_view_def small_tarfs_def entry_bytes_def bytes_def)
qed

theorem tarfs_read_sequential_witness:
  "\<forall>s syms. returns (read_seq (syms\<lparr>lit := \<lambda>_. 0x5000\<rparr>) 0x6000 0x8000 [1, 5] (small_tarfs s)) (\<lambda>(cs, s'). cs = bytes ''hi'')"
proof (intro allI)
  fix s :: "'a fsys_scheme" and syms :: code_syms
  have b: "region (0x8000 :: addr) 5 = {0x8000, 0x8001, 0x8002, 0x8003, 0x8004}" by (simp add: block_eval)
  have foot: "tar_foot (syms\<lparr>lit := \<lambda>_. 0x5000\<rparr>) [(bytes ''x'', bytes ''hi'')] [(bytes ''/x'', 0x7000)] 0x6000 (bytes ''x'')
      (small_tarfs s) \<inter> region 0x8000 5 = {}"
    unfolding b by (simp add: tar_foot_def small_tarfs_def bytes_def region_iff entry_bytes_def)
  have "returns (read_seq (syms\<lparr>lit := \<lambda>_. 0x5000\<rparr>) 0x6000 0x8000 [1, 5] (small_tarfs s)) (\<lambda>(cs, s').
      cs = take (asked [1, 5]) (drop 0 (bytes ''hi'')) \<and>
      tar_view (syms\<lparr>lit := \<lambda>_. 0x5000\<rparr>) [(bytes ''x'', bytes ''hi'')] [(bytes ''/x'', 0x7000)] 0x6000 (bytes ''x'') (bytes ''hi'')
        (min (length (bytes ''hi'')) (0 + asked [1, 5])) s' \<and>
      (\<forall>x. x \<notin> region 0x8000 5 \<longrightarrow> mem s' x = mem (small_tarfs s) x))"
    by (rule conjunct1 [OF tarfs_read_sequential [OF small_view _ foot]]) simp_all
  then show "returns (read_seq (syms\<lparr>lit := \<lambda>_. 0x5000\<rparr>) 0x6000 0x8000 [1, 5] (small_tarfs s)) (\<lambda>(cs, s'). cs = bytes ''hi'')"
    by (rule returns_mono) (simp add: bytes_def case_prod_unfold)
qed

end
