(* ===== verification/Vfs.thy ===== *)
theory Vfs
  imports Tarfs
begin

text \<open>
  The virtual file system, \<open>fs/vfs.c\<close>, and its layer for system calls, \<open>fs/vfs_sys.c\<close>: mount points, the table of
  open files, and the operations that dispatch to the file system of a file. The index of an array with a
  constant bound is checked by the sanitizer.
\<close>

section \<open>Definitions\<close>

definition get_open :: "int \<Rightarrow> 'a fsys_scheme \<Rightarrow> addr result" where
  "get_open i s = (if 0 \<le> i \<and> i < VFS_MAX_FILE_DESCRIPTORS then ret (open_files s ! nat i) else ubsan_handle_out_of_bounds)"

definition set_open :: "int \<Rightarrow> addr \<Rightarrow> 'a fsys_scheme \<Rightarrow> 'a fsys_scheme result" where
  "set_open i f s = (if 0 \<le> i \<and> i < VFS_MAX_FILE_DESCRIPTORS
     then ret (s\<lparr>open_files := (open_files s)[nat i := f]\<rparr>) else ubsan_handle_out_of_bounds)"

definition startswith :: "mem \<Rightarrow> addr \<Rightarrow> addr \<Rightarrow> bool result" where
  "startswith m str pre =
     rbind (ends (strlen m pre)) (\<lambda>prefix_len.
     rbind (ends (strncmp m str pre prefix_len)) (\<lambda>r. ret (r = 0)))"

fun find_mnt_loop :: "addr \<Rightarrow> nat list \<Rightarrow> 'a fsys_scheme \<Rightarrow> nat option result" where
  "find_mnt_loop path [] s = ret None"
| "find_mnt_loop path (i # js) s =
     (if mnt (mountpoints s ! i) \<noteq> NULL then
        rbind (startswith (mem s) path (mnt (mountpoints s ! i))) (\<lambda>b.
        if b then ret (Some i) else find_mnt_loop path js s)
      else find_mnt_loop path js s)"

definition vfs_find_mnt :: "addr \<Rightarrow> 'a fsys_scheme \<Rightarrow> nat option result" where
  "vfs_find_mnt path s = (if path = NULL then ret None else find_mnt_loop path [0..<VFS_MAX_MOUNTPOINTS] s)"

fun get_fd_loop :: "addr \<Rightarrow> int list \<Rightarrow> 'a fsys_scheme \<Rightarrow> (int \<times> 'a fsys_scheme) result" where
  "get_fd_loop file [] s = ret (- 1, s)"
| "get_fd_loop file (i # js) s =
     rbind (get_open i s) (\<lambda>old.
     if old = NULL then
       rbind (set_open i file s) (\<lambda>s.
       rbind (deref ''vfs_file_t'' (vfs_files s) file) (\<lambda>f.
       ret (i, s\<lparr>vfs_files := (vfs_files s)(file \<mapsto> f\<lparr>file_id := i\<rparr>)\<rparr>)))
     else get_fd_loop file js s)"

definition vfs_get_fd :: "addr \<Rightarrow> 'a fsys_scheme \<Rightarrow> (int \<times> 'a fsys_scheme) result" where
  "vfs_get_fd file s =
     (if file = NULL then ret (- 1, s)
      else get_fd_loop file [VFS_FD_OFFSET..VFS_MAX_FILE_DESCRIPTORS - 1] s)"

definition vfs_get_from_fd :: "int \<Rightarrow> 'a fsys_scheme \<Rightarrow> addr" where
  "vfs_get_from_fd fd s =
     (if fd < 0 \<or> fd \<ge> VFS_MAX_FILE_DESCRIPTORS \<or> open_files s ! nat fd = NULL then NULL else open_files s ! nat fd)"

definition call_exists :: "fs_exists \<Rightarrow> addr \<Rightarrow> 'a fsys_scheme \<Rightarrow> bool result" where
  "call_exists f loc s = (case f of DEVFS_EXISTS \<Rightarrow> devfs_exists loc s | TARFS_EXISTS \<Rightarrow> tarfs_exists loc s)"

text \<open>\<open>path\<close> is kept in the file as a pointer, not copied. The object is in the store from the allocation on.\<close>

definition vfs_open :: "addr \<Rightarrow> int \<Rightarrow> int \<Rightarrow> 'a fsys_scheme \<Rightarrow> (addr \<times> 'a fsys_scheme) result" where
  "vfs_open path flags mode s =
     (if path = NULL then ret (NULL, s) else
      rbind (vfs_find_mnt path s) (\<lambda>m.
      case m of None \<Rightarrow> ret (NULL, s) | Some i \<Rightarrow>
      let mp = mountpoints s ! i in
      if mnt_impl mp = NULL then ret (NULL, s) else
      rbind (deref ''vfs_impl_t'' (vfs_impls s) (mnt_impl mp)) (\<lambda>impl.
      case impl_exists impl of None \<Rightarrow> ret (NULL, s) | Some exf \<Rightarrow>
      rbind (ends (strlen (mem s) (mnt mp))) (\<lambda>n.
      let loc_wo_mnt = path + n - 1 in
      rbind (kmalloc 32 s) (\<lambda>(file, s).
      if file = NULL then ret (NULL, s) else
      rbind (call_exists exf loc_wo_mnt s) (\<lambda>b.
      if \<not> b then rbind (kfree file s) (\<lambda>s. ret (NULL, s)) else
      let s = s\<lparr>vfs_files := (vfs_files s)(file \<mapsto>
            \<lparr>file_id = 0, file_loc = path, file_flags = flags, file_mode = mode, file_fs = Some i\<rparr>)\<rparr> in
      rbind (vfs_get_fd file s) (\<lambda>(id, s).
      let s = s\<lparr>vfs_files := (vfs_files s)(file \<mapsto>
            \<lparr>file_id = id, file_loc = path, file_flags = flags, file_mode = mode, file_fs = Some i\<rparr>)\<rparr> in
      rbind (set_open id file s) (\<lambda>s.
      ret (file, s)))))))))"

text \<open>
  The operations on an open file start in the same way: the checks that return \<open>-1\<close> to \<open>-4\<close>, and the path
  without its mount point. \<open>file_op\<close> is this common part; \<open>f\<close> is the rest.
\<close>

definition file_op ::
  "addr \<Rightarrow> (vfs_impl_t \<Rightarrow> addr \<Rightarrow> ('b \<times> 'a fsys_scheme) result) \<Rightarrow> (int \<Rightarrow> 'b) \<Rightarrow> 'a fsys_scheme \<Rightarrow>
   ('b \<times> 'a fsys_scheme) result" where
  "file_op file f err s =
     (if file = NULL then ret (err (- 1), s) else
      rbind (deref ''vfs_file_t'' (vfs_files s) file) (\<lambda>fl.
      if file_loc fl = NULL then ret (err (- 2), s) else
      case file_fs fl of None \<Rightarrow> ret (err (- 3), s) | Some i \<Rightarrow>
      let mp = mountpoints s ! i in
      if mnt_impl mp = NULL then ret (err (- 4), s) else
      rbind (deref ''vfs_impl_t'' (vfs_impls s) (mnt_impl mp)) (\<lambda>impl.
      rbind (ends (strlen (mem s) (mnt mp))) (\<lambda>n.
      f impl (file_loc fl + n - 1)))))"

text \<open>A \<open>ssize_t\<close> result becomes an \<open>int\<close>.\<close>

definition as_int :: "(u64 \<times> 's) result \<Rightarrow> (int \<times> 's) result" where
  "as_int r = rbind r (\<lambda>(n, s). ret (int_of_slot n, s))"

definition vfs_read ::
  "code_syms \<Rightarrow> device \<Rightarrow> addr \<Rightarrow> addr \<Rightarrow> u64 \<Rightarrow> 'a fsys_scheme \<Rightarrow> (int \<times> 'a fsys_scheme) result" where
  "vfs_read syms dev file buffer sz s =
     file_op file (\<lambda>impl loc.
       case impl_read impl of
         None \<Rightarrow> ret (0, s)
       | Some DEVFS_READ \<Rightarrow> as_int (devfs_read dev loc buffer sz s)
       | Some TARFS_READ \<Rightarrow> as_int (tarfs_read syms loc buffer sz s)) id s"

definition vfs_write ::
  "device \<Rightarrow> addr \<Rightarrow> addr \<Rightarrow> u64 \<Rightarrow> 'a fsys_scheme \<Rightarrow> (int \<times> 'a fsys_scheme) result" where
  "vfs_write dev file buffer sz s =
     file_op file (\<lambda>impl loc.
       case impl_write impl of
         None \<Rightarrow> ret (0, s)
       | Some DEVFS_WRITE \<Rightarrow> as_int (devfs_write dev loc buffer sz s)) id s"

definition vfs_seek :: "addr \<Rightarrow> u64 \<Rightarrow> int \<Rightarrow> 'a fsys_scheme \<Rightarrow> (int \<times> 'a fsys_scheme) result" where
  "vfs_seek file offset whence s =
     file_op file (\<lambda>impl loc.
       case impl_seek impl of
         None \<Rightarrow> ret (0, s)
       | Some TARFS_SEEK \<Rightarrow> as_int (tarfs_seek loc offset whence s)) id s"

definition vfs_stat :: "addr \<Rightarrow> addr \<Rightarrow> 'a fsys_scheme \<Rightarrow> (int \<times> 'a fsys_scheme) result" where
  "vfs_stat file stat s =
     file_op file (\<lambda>impl loc.
       case impl_stat impl of
         None \<Rightarrow> ret (0, s)
       | Some TARFS_STAT \<Rightarrow> as_int (tarfs_stat loc stat s)) id s"

text \<open>\<open>vfs_exists\<close> passes the whole path.\<close>

definition vfs_exists :: "addr \<Rightarrow> 'a fsys_scheme \<Rightarrow> int result" where
  "vfs_exists file s =
     (if file = NULL then ret (- 1) else
      rbind (deref ''vfs_file_t'' (vfs_files s) file) (\<lambda>fl.
      if file_loc fl = NULL then ret (- 2) else
      case file_fs fl of None \<Rightarrow> ret (- 3) | Some i \<Rightarrow>
      rbind (deref ''vfs_impl_t'' (vfs_impls s) (mnt_impl (mountpoints s ! i))) (\<lambda>impl.
      case impl_exists impl of
        None \<Rightarrow> fails (Bad_Access ''exists'')
      | Some f \<Rightarrow> rbind (call_exists f (file_loc fl) s) (\<lambda>b. ret (if b then 1 else 0)))))"

definition vfs_mmap :: "addr \<Rightarrow> addr \<Rightarrow> int \<Rightarrow> int \<Rightarrow> 'a fsys_scheme \<Rightarrow> (addr \<times> 'a fsys_scheme) result" where
  "vfs_mmap file len prot flags s =
     file_op file (\<lambda>impl loc.
       case impl_mmap impl of
         None \<Rightarrow> ret (NULL, s)
       | Some DEVFS_MMAP \<Rightarrow> devfs_mmap loc len s
       | Some WILD \<Rightarrow> fails (Bad_Access ''mmap'')) (\<lambda>_. NULL) s"

definition vfs_close :: "addr \<Rightarrow> 'a fsys_scheme \<Rightarrow> (int \<times> 'a fsys_scheme) result" where
  "vfs_close file s =
     (if file = NULL then ret (- 1, s) else
      rbind (deref ''vfs_file_t'' (vfs_files s) file) (\<lambda>fl.
      if file_id fl < 0 \<or> file_id fl \<ge> VFS_MAX_FILE_DESCRIPTORS \<or> open_files s ! nat (file_id fl) = NULL
      then ret (- 2, s) else
      rbind (set_open (file_id fl) NULL s) (\<lambda>s.
      rbind (kfree file s) (\<lambda>s.
      ret (0, s\<lparr>vfs_files := (vfs_files s)(file := None)\<rparr>)))))"

definition vfs_install :: "code_syms \<Rightarrow> (addr \<times> addr) list \<Rightarrow> 'a fsys_scheme \<Rightarrow> 'a fsys_scheme result" where
  "vfs_install syms modules s =
     rbind (kmalloc 48 s) (\<lambda>(devfs, s).
     let s = s\<lparr>mountpoints := (mountpoints s)[0 := \<lparr>mnt = lit syms ''/dev/'', mnt_impl = devfs\<rparr>]\<rparr> in
     rbind (devfs_init syms devfs s) (\<lambda>s.
     rbind (kmalloc 48 s) (\<lambda>(tarfs, s).
     let s = s\<lparr>mountpoints := (mountpoints s)[1 := \<lparr>mnt = lit syms ''/init/'', mnt_impl = tarfs\<rparr>]\<rparr> in
     tarfs_init syms modules tarfs s)))"

subsection \<open>System call layer\<close>

definition MLIBC_HACK :: "int \<Rightarrow> int" where
  "MLIBC_HACK r = (if r < 0 then 0 else r)"

definition vfs_sys_open :: "addr \<Rightarrow> int \<Rightarrow> int \<Rightarrow> 'a fsys_scheme \<Rightarrow> (int \<times> 'a fsys_scheme) result" where
  "vfs_sys_open path flags mode s =
     rbind (vfs_open path flags mode s) (\<lambda>(file, s).
     if file = NULL then ret (- 1, s)
     else rbind (deref ''vfs_file_t'' (vfs_files s) file) (\<lambda>fl. ret (file_id fl, s)))"

definition vfs_sys_read ::
  "code_syms \<Rightarrow> device \<Rightarrow> int \<Rightarrow> addr \<Rightarrow> u64 \<Rightarrow> 'a fsys_scheme \<Rightarrow> (int \<times> 'a fsys_scheme) result" where
  "vfs_sys_read syms dev fd buffer sz s =
     rbind (vfs_read syms dev (vfs_get_from_fd fd s) buffer sz s) (\<lambda>(r, s). ret (MLIBC_HACK r, s))"

definition vfs_sys_write ::
  "device \<Rightarrow> int \<Rightarrow> addr \<Rightarrow> u64 \<Rightarrow> 'a fsys_scheme \<Rightarrow> (int \<times> 'a fsys_scheme) result" where
  "vfs_sys_write dev fd buffer sz s =
     rbind (vfs_write dev (vfs_get_from_fd fd s) buffer sz s) (\<lambda>(r, s). ret (MLIBC_HACK r, s))"

definition vfs_sys_seek :: "int \<Rightarrow> u64 \<Rightarrow> int \<Rightarrow> 'a fsys_scheme \<Rightarrow> (int \<times> 'a fsys_scheme) result" where
  "vfs_sys_seek fd offset whence s =
     rbind (vfs_seek (vfs_get_from_fd fd s) offset whence s) (\<lambda>(r, s). ret (MLIBC_HACK r, s))"

definition vfs_sys_mmap :: "int \<Rightarrow> addr \<Rightarrow> int \<Rightarrow> int \<Rightarrow> 'a fsys_scheme \<Rightarrow> (addr \<times> 'a fsys_scheme) result" where
  "vfs_sys_mmap fd len prot flags s = vfs_mmap (vfs_get_from_fd fd s) len prot flags s"

definition vfs_sys_close :: "int \<Rightarrow> 'a fsys_scheme \<Rightarrow> (int \<times> 'a fsys_scheme) result" where
  "vfs_sys_close fd s = vfs_close (vfs_get_from_fd fd s) s"

end
