(* ===== verification/Kheap_Frame.thy ===== *)
theory Kheap_Frame
  imports Kheap_Alloc
begin

text \<open>
  What the heap leaves alone: \<open>kmalloc\<close> and \<open>kfree\<close> change nothing of a state beyond the fields of the heap and of the
  layers below it. With the block contract of \<open>Block_Allocator\<close> this is what the owners of heap objects rely on.
\<close>

section \<open>Layers below\<close>

lemma pmm_allocate_more:
  assumes "pmm_allocate s = ret (p, s')"
  shows "pmm.more s' = pmm.more s"
proof -
  have sync: "pmm.more (int_disable t) = pmm.more t" "pmm.more (int_resume t) = pmm.more t" for t :: "'a pmm_scheme"
    by (simp_all add: int_disable_def int_resume_def Let_def)
  show ?thesis using assms by (auto simp: rbind_eq_ret pmm_allocate_def Let_def sync split: option.splits)
qed

lemma vmm_more_of_pmm: "pmm.more s' = pmm.more s \<Longrightarrow> vmm.more s' = vmm.more s"
  by (cases s rule: vmm.cases_scheme, cases s' rule: vmm.cases_scheme) simp

lemma vmm_get_next_level_more:
  assumes "vmm_get_next_level t i al fl s = ret (u, s')"
  shows "vmm.more s' = vmm.more s"
  using assms
  by (auto simp: rbind_eq_ret vmm_get_next_level_def Let_def set_entry_def split: if_splits dest!: pmm_allocate_more vmm_more_of_pmm)

lemma vmm_map_page_more:
  assumes "vmm_map_page root v f fl s = ret (b, s')"
  shows "vmm.more s' = vmm.more s"
  using assms
  by (auto simp: rbind_eq_ret vmm_map_page_def Let_def set_entry_def simp del: spin_unlock_eq split: if_splits dest!: vmm_get_next_level_more)

section \<open>The heap\<close>

lemma heap_more_of_vmm: "vmm.more s' = vmm.more s \<Longrightarrow> heap.more s' = heap.more s"
  by (cases s rule: heap.cases_scheme, cases s' rule: heap.cases_scheme) simp

lemma heap_map_pages_more: "heap_map_pages js base s = ret s' \<Longrightarrow> heap.more s' = heap.more s"
proof (induction js arbitrary: s)
  case (Cons j js)
  from Cons.prems obtain f s1 s2 where *: "pmm_allocate s = ret (f, s1)"
    "vmm_map_page (kernel_pagemap s1) (base + of_nat j * PAGE_SIZE) f (PTE_PRESENT OR PTE_WRITABLE OR PTE_NX) s1 = ret (True, s2)"
    "heap_map_pages js base s2 = ret s'"
    by (auto simp: rbind_eq_ret Let_def split: if_splits)
  show ?case
    using Cons.IH [OF *(3)] heap_more_of_vmm [OF vmm_map_page_more [OF *(2)]]
      heap_more_of_vmm [OF vmm_more_of_pmm [OF pmm_allocate_more [OF *(1)]]] by simp
qed simp

lemma set_header_more [simp]:
  "heap.more (set_size b v s) = heap.more s" "heap.more (set_next b v s) = heap.more s"
  by (simp_all add: set_size_def set_next_def)

lemma heap_insert_more: "heap.more (heap_insert prev b s) = heap.more s"
  by (simp add: heap_insert_def Let_def)

lemma heap_take_more: "heap.more (heap_take n prev b s) = heap.more s"
  by (simp add: heap_take_def Let_def)

lemma heap_expand_pages_more:
  assumes "heap_expand_pages n s = ret (b, s')"
  shows "heap.more s' = heap.more s"
  using assms
  by (auto simp: rbind_eq_ret heap_expand_pages_def Let_def heap_insert_more split: if_splits dest!: heap_map_pages_more)

lemma kmalloc_loop_returns:
  "kmalloc_loop n prev b s = Some r \<Longrightarrow> \<forall>p s'. r = Inr (p, s') \<longrightarrow> heap.more s' = heap.more s"
proof (erule kmalloc_loop.raw_induct [rotated])
  fix loop and n prev b :: u64 and s :: "'a heap_scheme" and r
  assume IH: "\<And>n prev b s r. loop n prev b s = Some r \<Longrightarrow> \<forall>p s'. r = Inr (p, s') \<longrightarrow> heap.more s' = heap.more s"
    and body: "(if b \<noteq> NULL then
        if hb_size (mem s) b \<ge> n
        then let s = heap_take n prev b s in ret (b + header_sz, s\<lparr>heap_lock := spin_unlock (heap_lock s)\<rparr>)
        else loop n b (hb_next (mem s) b) s
      else rbind (heap_expand_pages 16 s) (\<lambda>(ok, s).
        rbind (if ok then ret s else
               rbind (heap_expand_pages 1 s) (\<lambda>(ok, s).
               if ok then ret s else fails (Panic ''out of memory''))) (\<lambda>s.
        loop n NULL (heap_head s) s))) = Some r"
  show "\<forall>p s'. r = Inr (p, s') \<longrightarrow> heap.more s' = heap.more s"
  proof (intro allI impI)
    fix p s' assume r: "r = Inr (p, s')"
    have step: "heap.more s' = heap.more t" if "loop n prev b t = ret (p, s')" for n prev b t
      using IH [of n prev b t "Inr (p, s')"] that by (simp add: ret_def)
    show "heap.more s' = heap.more s"
      using body unfolding r ret_def [symmetric]
      by (auto simp: rbind_eq_ret Let_def heap_take_more ret_def [symmetric] split: if_splits
          dest!: step heap_expand_pages_more)
  qed
qed

lemma kmalloc_loop_more: "kmalloc_loop n prev b s = ret (p, s') \<Longrightarrow> heap.more s' = heap.more s"
  using kmalloc_loop_returns [of n prev b s "Inr (p, s')"] by (simp add: ret_def)

lemma kmalloc_more: "kmalloc sz s = ret (p, s') \<Longrightarrow> heap.more s' = heap.more s"
  by (auto simp: kmalloc_def rbind_eq_ret Let_def split: if_splits dest!: kmalloc_loop_more)

lemma kfree_more: "kfree p s = ret s' \<Longrightarrow> heap.more s' = heap.more s"
  by (auto simp: kfree_def rbind_eq_ret Let_def heap_insert_more split: if_splits)

end
