(* ===== verification/Vfs_Correct.thy ===== *)
theory Vfs_Correct
  imports Vfs Kheap_Frame Kheap_Correct
begin

text \<open>
  The table of open files. \<open>fd_inv\<close> is its well-formedness: every used slot holds a live heap block that is a file
  with the number of the slot, and the slots of the standard streams stay empty. Opening takes the lowest free slot,
  closing frees the slot and the block, and neither touches another descriptor.
\<close>

section \<open>The invariant\<close>

definition fd_inv :: "(addr \<times> nat) set \<Rightarrow> 'a fsys_scheme \<Rightarrow> bool" where
  "fd_inv L s \<longleftrightarrow>
     heap_live L s \<and> length (open_files s) = nat VFS_MAX_FILE_DESCRIPTORS \<and>
     (\<forall>i<nat VFS_MAX_FILE_DESCRIPTORS. open_files s ! i \<noteq> NULL \<longrightarrow> VFS_FD_OFFSET \<le> int i \<and>
        (\<exists>n f. (open_files s ! i, n) \<in> L \<and> vfs_files s (open_files s ! i) = Some f \<and> file_id f = int i))"

lemma heap_live_files [simp]:
  "heap_live L (s\<lparr>open_files := x\<rparr>) = heap_live L s" "heap_live L (s\<lparr>vfs_files := y\<rparr>) = heap_live L s"
  by (simp_all add: heap_live_def heap_inv_def heap_rel_def heap_room_def heap_base_def vmm_inv_def pt_inv_def pmm_inv_def
      irq_inv_def hhdm_ok_def tables_def managed_frames_def free_frames_def free_set_def)

lemma heap_more_fields:
  assumes "heap.more s' = heap.more s"
  shows "open_files s' = open_files s" "vfs_files s' = vfs_files s" "mountpoints s' = mountpoints s"
  using assms by (cases s rule: fsys.cases_scheme, cases s' rule: fsys.cases_scheme, simp)+

lemma fd_invD:
  assumes "fd_inv L s" "i < 256" "open_files s ! i \<noteq> NULL"
  obtains n f where "10 \<le> i" "(open_files s ! i, n) \<in> L" "vfs_files s (open_files s ! i) = Some f" "file_id f = int i"
  using assms by (fastforce simp: fd_inv_def VFS_MAX_FILE_DESCRIPTORS_def VFS_FD_OFFSET_def)

lemma fd_inv_mono:
  assumes "fd_inv L s" "heap_live L' s'" "L \<subseteq> L'" "open_files s' = open_files s" "vfs_files s' = vfs_files s"
  shows "fd_inv L' s'"
  using assms(1,2,3) unfolding fd_inv_def assms(4,5) by blast

lemma fd_distinct:
  assumes "fd_inv L s" "i < 256" "j < 256" "open_files s ! i = open_files s ! j" "open_files s ! i \<noteq> NULL"
  shows "i = j"
proof -
  from assms(4,5) have "open_files s ! j \<noteq> NULL" by simp
  then obtain g where g: "vfs_files s (open_files s ! j) = Some g" "file_id g = int j"
    by (rule fd_invD [OF assms(1,3)])
  obtain f where "vfs_files s (open_files s ! i) = Some f" "file_id f = int i" by (rule fd_invD [OF assms(1,2,5)])
  then show ?thesis using g assms(4) by simp
qed

section \<open>Opening\<close>

lemma get_fd_loop_ret:
  assumes "get_fd_loop file [k..255] s = ret (fd, s')" "0 \<le> k"
  shows "fd = - 1 \<and> s' = s \<or>
    (k \<le> fd \<and> fd < 256 \<and> open_files s ! nat fd = NULL \<and> (\<forall>j. k \<le> j \<and> j < fd \<longrightarrow> open_files s ! nat j \<noteq> NULL) \<and>
     (\<exists>f. vfs_files s file = Some f \<and> s' = s\<lparr>open_files := (open_files s)[nat fd := file],
        vfs_files := (vfs_files s)(file \<mapsto> f\<lparr>file_id := fd\<rparr>)\<rparr>))"
  using assms
proof (induction "nat (256 - k)" arbitrary: k)
  case 0
  then have "[k..255] = []" by simp
  then show ?case using "0.prems"(1) by simp
next
  case (Suc n)
  then have "k < 256" by simp
  then have l: "[k..255] = k # [k + 1..255]" "k < 256" by (simp only: upto_rec1) fact
  show ?case
  proof (cases "open_files s ! nat k = NULL")
    case True
    let ?s = "s\<lparr>open_files := (open_files s)[nat k := file]\<rparr>"
    have "rbind (deref ''vfs_file_t'' (vfs_files s) file) (\<lambda>f.
        ret (k, ?s\<lparr>vfs_files := (vfs_files s)(file \<mapsto> f\<lparr>file_id := k\<rparr>)\<rparr>)) = ret (fd, s')"
      using Suc.prems l(2) True unfolding l(1)
      by (simp add: get_open_def set_open_def VFS_MAX_FILE_DESCRIPTORS_def)
    then obtain f where f: "vfs_files s file = Some f" "fd = k" "s' = ?s\<lparr>vfs_files := (vfs_files s)(file \<mapsto> f\<lparr>file_id := k\<rparr>)\<rparr>"
      by (cases "vfs_files s file") (auto simp: deref_def)
    show ?thesis unfolding f(2,3) using f(1) l(2) True by (intro disjI2 conjI exI [of _ f]) auto
  next
    case False
    then have run: "get_fd_loop file [k + 1..255] s = ret (fd, s')"
      using Suc.prems l(2) unfolding l(1) by (auto simp: get_open_def VFS_MAX_FILE_DESCRIPTORS_def)
    have "n = nat (256 - (k + 1))" using Suc.hyps(2) by simp
    note IH = Suc.hyps(1) [OF this run]
    have low: "\<forall>j. k \<le> j \<and> j < fd \<longrightarrow> open_files s ! nat j \<noteq> NULL"
      if *: "\<forall>j. k + 1 \<le> j \<and> j < fd \<longrightarrow> open_files s ! nat j \<noteq> NULL"
    proof (intro allI impI)
      fix j assume j: "k \<le> j \<and> j < fd"
      show "open_files s ! nat j \<noteq> NULL" using False * j by (cases "j = k") simp_all
    qed
    have "0 \<le> k + 1" using Suc.prems(2) by simp
    from IH [OF this] show ?thesis
    proof (elim disjE conjE)
      assume "k + 1 \<le> fd" "fd < 256" "open_files s ! nat fd = NULL"
        "\<forall>j. k + 1 \<le> j \<and> j < fd \<longrightarrow> open_files s ! nat j \<noteq> NULL"
        "\<exists>f. vfs_files s file = Some f \<and> s' = s\<lparr>open_files := (open_files s)[nat fd := file],
          vfs_files := (vfs_files s)(file \<mapsto> f\<lparr>file_id := fd\<rparr>)\<rparr>"
      moreover note low [OF this(4)]
      ultimately show ?thesis by (intro disjI2 conjI) simp_all
    qed (intro disjI1 conjI)
  qed
qed

text \<open>The new table of a successful call, and what a call that fails leaves.\<close>

definition opens :: "addr \<Rightarrow> int \<Rightarrow> int \<Rightarrow> addr \<Rightarrow> int \<Rightarrow> 'a fsys_scheme \<Rightarrow> 'a fsys_scheme \<Rightarrow> bool" where
  "opens path flags mode file fd s s' \<longleftrightarrow>
     VFS_FD_OFFSET \<le> fd \<and> fd < VFS_MAX_FILE_DESCRIPTORS \<and> open_files s ! nat fd = NULL \<and>
     (\<forall>j. VFS_FD_OFFSET \<le> j \<and> j < fd \<longrightarrow> open_files s ! nat j \<noteq> NULL) \<and>
     open_files s' = (open_files s)[nat fd := file] \<and>
     (\<exists>m. vfs_files s' = (vfs_files s)(file \<mapsto>
        \<lparr>file_id = fd, file_loc = path, file_flags = flags, file_mode = mode, file_fs = Some m\<rparr>))"

lemma fd_inv_opens:
  assumes inv: "fd_inv L s" and o: "opens path flags mode file fd s s'" and live: "heap_live (insert (file, n) L) s'"
    and new: "file \<notin> fst ` L"
  shows "fd_inv (insert (file, n) L) s'"
  unfolding fd_inv_def
proof (intro conjI allI impI)
  have len: "length (open_files s) = 256" using inv by (simp add: fd_inv_def VFS_MAX_FILE_DESCRIPTORS_def)
  have fd: "10 \<le> fd" "fd < 256" "open_files s' = (open_files s)[nat fd := file]"
    using o by (simp_all add: opens_def VFS_MAX_FILE_DESCRIPTORS_def VFS_FD_OFFSET_def)
  obtain m where files: "vfs_files s' = (vfs_files s)(file \<mapsto>
        \<lparr>file_id = fd, file_loc = path, file_flags = flags, file_mode = mode, file_fs = Some m\<rparr>)"
    using o by (auto simp: opens_def)
  show "heap_live (insert (file, n) L) s'" by fact
  show "length (open_files s') = nat VFS_MAX_FILE_DESCRIPTORS" using len fd(3) by (simp add: VFS_MAX_FILE_DESCRIPTORS_def)
  fix i assume i: "i < nat VFS_MAX_FILE_DESCRIPTORS" "open_files s' ! i \<noteq> NULL"
  have lt: "i < 256" using i(1) by (simp add: VFS_MAX_FILE_DESCRIPTORS_def)
  have "10 \<le> int i \<and> (\<exists>k f. (open_files s' ! i, k) \<in> insert (file, n) L \<and> vfs_files s' (open_files s' ! i) = Some f \<and> file_id f = int i)"
  proof (cases "i = nat fd")
    case True
    then show ?thesis using fd files len by auto
  next
    case False
    then have eq: "open_files s' ! i = open_files s ! i" using fd(3) by simp
    then have "open_files s ! i \<noteq> NULL" using i(2) by simp
    then obtain k f where k: "10 \<le> i" "(open_files s ! i, k) \<in> L" "vfs_files s (open_files s ! i) = Some f" "file_id f = int i"
      by (rule fd_invD [OF inv lt])
    then have "open_files s ! i \<noteq> file" using new by force
    then show ?thesis unfolding eq files using k by auto
  qed
  then show "VFS_FD_OFFSET \<le> int i" "\<exists>k f. (open_files s' ! i, k) \<in> insert (file, n) L \<and>
      vfs_files s' (open_files s' ! i) = Some f \<and> file_id f = int i"
    by (simp_all add: VFS_FD_OFFSET_def)
qed

lemma vfs_open_registers:
  assumes "rbind (vfs_get_fd file (s\<lparr>vfs_files := (vfs_files s)(file \<mapsto>
            \<lparr>file_id = 0, file_loc = path, file_flags = flags, file_mode = mode, file_fs = Some m\<rparr>)\<rparr>)) (\<lambda>(fd, s).
        let s = s\<lparr>vfs_files := (vfs_files s)(file \<mapsto>
            \<lparr>file_id = fd, file_loc = path, file_flags = flags, file_mode = mode, file_fs = Some m\<rparr>)\<rparr> in
        rbind (set_open fd file s) (\<lambda>s. ret (file, s))) = ret (r, s')" and "file \<noteq> NULL"
  shows "r = file" "\<exists>fd. opens path flags mode file fd s s'" "heap_live L s' = heap_live L s"
proof -
  let ?f = "\<lambda>fd. \<lparr>file_id = fd, file_loc = path, file_flags = flags, file_mode = mode, file_fs = Some m\<rparr>"
  let ?s = "s\<lparr>vfs_files := (vfs_files s)(file \<mapsto> ?f 0)\<rparr>"
  obtain fd s1 where a: "vfs_get_fd file ?s = ret (fd, s1)"
    "rbind (set_open fd file (s1\<lparr>vfs_files := (vfs_files s1)(file \<mapsto> ?f fd)\<rparr>)) (\<lambda>s. ret (file, s)) = ret (r, s')"
    using assms(1) by (auto simp: rbind_eq_ret Let_def)
  have rng: "0 \<le> fd" "r = file" "s' = s1\<lparr>vfs_files := (vfs_files s1)(file \<mapsto> ?f fd), open_files := (open_files s1)[nat fd := file]\<rparr>"
    using a(2) by (auto simp: set_open_def ubsan_handle_out_of_bounds_def split: if_splits)
  have "get_fd_loop file [10..255] ?s = ret (fd, s1)"
    using a(1) assms(2) by (simp add: vfs_get_fd_def VFS_MAX_FILE_DESCRIPTORS_def VFS_FD_OFFSET_def)
  from get_fd_loop_ret [OF this] rng(1) have g: "10 \<le> fd" "fd < 256" "open_files s ! nat fd = NULL"
    "\<forall>j. 10 \<le> j \<and> j < fd \<longrightarrow> open_files s ! nat j \<noteq> NULL"
    "s1 = s\<lparr>open_files := (open_files s)[nat fd := file], vfs_files := (vfs_files s)(file \<mapsto> ?f fd)\<rparr>"
    by auto
  show "r = file" by fact
  have "opens path flags mode file fd s s'"
    unfolding opens_def rng(3) VFS_MAX_FILE_DESCRIPTORS_def VFS_FD_OFFSET_def using g(1-4) by (auto simp: g(5))
  then show "\<exists>fd. opens path flags mode file fd s s'" ..
  show "heap_live L s' = heap_live L s" unfolding rng(3) g(5) by simp
qed

text \<open>\<open>vfs_open\<close> from its allocation on.\<close>

definition open_new ::
  "addr \<Rightarrow> int \<Rightarrow> int \<Rightarrow> fs_exists \<Rightarrow> addr \<Rightarrow> nat \<Rightarrow> addr \<Rightarrow> 'a fsys_scheme \<Rightarrow> (addr \<times> 'a fsys_scheme) result" where
  "open_new path flags mode exf loc m g s =
     (if g = NULL then ret (NULL, s) else
      rbind (call_exists exf loc s) (\<lambda>b.
      if \<not> b then rbind (kfree g s) (\<lambda>s. ret (NULL, s)) else
      let s = s\<lparr>vfs_files := (vfs_files s)(g \<mapsto>
            \<lparr>file_id = 0, file_loc = path, file_flags = flags, file_mode = mode, file_fs = Some m\<rparr>)\<rparr> in
      rbind (vfs_get_fd g s) (\<lambda>(fd, s).
      let s = s\<lparr>vfs_files := (vfs_files s)(g \<mapsto>
            \<lparr>file_id = fd, file_loc = path, file_flags = flags, file_mode = mode, file_fs = Some m\<rparr>)\<rparr> in
      rbind (set_open fd g s) (\<lambda>s. ret (g, s)))))"

lemma vfs_open_new:
  assumes "vfs_open path flags mode s = ret (r, s')"
  shows "r = NULL \<and> s' = s \<or>
    (\<exists>g s1 exf loc m. kmalloc 32 s = ret (g, s1) \<and> open_new path flags mode exf loc m g s1 = ret (r, s'))"
proof (cases "path = NULL")
  case True
  then show ?thesis using assms by (simp add: vfs_open_def)
next
  case False
  note run = assms [unfolded vfs_open_def Let_def open_new_def [unfolded Let_def, symmetric]]
  obtain mo where mo: "vfs_find_mnt path s = ret mo" using run False by (auto elim: rbind_retE)
  show ?thesis
  proof (cases "\<exists>i. mo = Some i \<and> mnt_impl (mountpoints s ! i) \<noteq> NULL")
    case True
    then obtain i where i: "mo = Some i" "mnt_impl (mountpoints s ! i) \<noteq> NULL" by blast
    obtain impl where impl: "deref ''vfs_impl_t'' (vfs_impls s) (mnt_impl (mountpoints s ! i)) = ret impl"
      using run False mo i by (auto elim: rbind_retE)
    show ?thesis using run False mo i impl
      by (cases "impl_exists impl") (auto simp: rbind_eq_ret [of "kmalloc _ _"] rbind_eq_ret [of "ends _"])
  qed (use run False mo in \<open>auto split: option.splits\<close>)
qed

lemma vfs_open_cases:
  assumes "vfs_open path flags mode s = ret (r, s')"
  obtains (early) "r = NULL" "s' = s"
    | (null) "kmalloc 32 s = ret (NULL, s')" "r = NULL"
    | (absent) g s1 where "kmalloc 32 s = ret (g, s1)" "kfree g s1 = ret s'" "r = NULL"
    | (opened) g s1 where "kmalloc 32 s = ret (g, s1)" "g \<noteq> NULL" "r = g"
      "\<exists>fd. opens path flags mode g fd s1 s'" "\<And>L. heap_live L s' = heap_live L s1"
proof -
  consider "r = NULL" "s' = s" | g s1 exf loc m where "kmalloc 32 s = ret (g, s1)"
    "open_new path flags mode exf loc m g s1 = ret (r, s')"
    using vfs_open_new [OF assms] by blast
  then show thesis
  proof cases
    case 1
    then show ?thesis by (rule early)
  next
    case (2 g s1 exf loc m)
    note run = 2(2) [unfolded open_new_def]
    show ?thesis
    proof (cases "g = NULL")
      case True
      then show ?thesis using 2(1) run by (intro null) simp_all
    next
      case False
      then obtain b where b: "call_exists exf loc s1 = ret b" using run by (auto elim: rbind_retE)
      show ?thesis
      proof (cases b)
        case True
        note reg = vfs_open_registers [OF _ False, of s1 path flags mode m r s']
        show ?thesis using 2(1) run b True False reg unfolding Let_def by (intro opened) simp_all
      next
        case n: False
        then show ?thesis using 2(1) run b False by (intro absent) (auto elim: rbind_retE)
      qed
    qed
  qed
qed

lemma kmalloc_file:
  assumes "heap_live L s" "kmalloc 32 s = ret (p, s')"
  obtains n where "(p, n) \<notin> L" "heap_live (insert (p, n) L) s'" "p \<notin> fst ` L" "heap.more s' = heap.more s"
proof -
  obtain n where n: "(p, n) \<notin> L" "heap_live (insert (p, n) L) s'"
    using kheap.alloc_law [OF assms(1), of 32] assms(2) by auto
  have neq: "p \<noteq> q" if "(q, k) \<in> L" for q k
    using kheap.live_distinct_start [OF n(2), of p n q k] that n(1) by auto
  then have "p \<notin> fst ` L" by force
  then show thesis using that n kmalloc_more [OF assms(2)] by blast
qed

lemma vfs_open_ret:
  assumes inv: "fd_inv L s" and run: "vfs_open path flags mode s = ret (r, s')"
  shows "\<exists>L'. fd_inv L' s'"
    "r = NULL \<and> open_files s' = open_files s \<and> vfs_files s' = vfs_files s \<or>
     r \<noteq> NULL \<and> r \<notin> fst ` L \<and> (\<exists>fd. opens path flags mode r fd s s')"
proof -
  have live: "heap_live L s" using inv by (simp add: fd_inv_def)
  have "(\<exists>L'. fd_inv L' s') \<and> (r = NULL \<and> open_files s' = open_files s \<and> vfs_files s' = vfs_files s \<or>
     r \<noteq> NULL \<and> r \<notin> fst ` L \<and> (\<exists>fd. opens path flags mode r fd s s'))"
  proof (cases rule: vfs_open_cases [OF run])
    case 1
    then show ?thesis using inv by blast
  next
    case 2
    obtain n where n: "heap_live (insert (NULL, n) L) s'" "heap.more s' = heap.more s"
      using kmalloc_file [OF live 2(1)] by blast
    note f = heap_more_fields [OF n(2)]
    show ?thesis using fd_inv_mono [OF inv n(1) subset_insertI f(1,2)] f 2 by blast
  next
    case (3 g s1)
    obtain n where n: "(g, n) \<notin> L" "heap_live (insert (g, n) L) s1" "heap.more s1 = heap.more s"
      using kmalloc_file [OF live 3(1)] by blast
    have "heap_live (insert (g, n) L - {(g, n)}) s'"
      using kheap.release_law [OF n(2) insertI1] 3(2) by auto
    then have l: "heap_live L s'" using n(1) by simp
    note f = heap_more_fields [OF trans [OF kfree_more [OF 3(2)] n(3)]]
    show ?thesis using fd_inv_mono [OF inv l subset_refl f(1,2)] f 3 by blast
  next
    case (4 g s1)
    obtain n where n: "heap_live (insert (g, n) L) s1" "g \<notin> fst ` L" "heap.more s1 = heap.more s"
      using kmalloc_file [OF live 4(1)] by blast
    note f = heap_more_fields [OF n(3)]
    obtain fd where o: "opens path flags mode g fd s s'" using 4(4) f by (auto simp: opens_def)
    have "fd_inv (insert (g, n) L) s'" using fd_inv_opens [OF inv o _ n(2)] n(1) 4(5) by simp
    then show ?thesis using o n(2) 4(2,3) by blast
  qed
  then show "\<exists>L'. fd_inv L' s'" "r = NULL \<and> open_files s' = open_files s \<and> vfs_files s' = vfs_files s \<or>
     r \<noteq> NULL \<and> r \<notin> fst ` L \<and> (\<exists>fd. opens path flags mode r fd s s')"
    by blast+
qed

section \<open>Closing\<close>

lemma get_from_fd: "vfs_get_from_fd fd s = (if 0 \<le> fd \<and> fd < 256 then open_files s ! nat fd else NULL)"
  by (simp add: vfs_get_from_fd_def VFS_MAX_FILE_DESCRIPTORS_def)

lemma fd_inv_close:
  assumes inv: "fd_inv L s" and fd: "vfs_get_from_fd fd s \<noteq> NULL"
  shows "\<exists>L' s'. vfs_sys_close fd s = ret (0, s') \<and> fd_inv L' s' \<and> open_files s' = (open_files s)[nat fd := NULL] \<and>
    vfs_files s' = (vfs_files s)(vfs_get_from_fd fd s := None)"
proof -
  let ?g = "vfs_get_from_fd fd s" and ?t = "s\<lparr>open_files := (open_files s)[nat fd := NULL]\<rparr>"
  have r: "0 \<le> fd" "fd < 256" "?g = open_files s ! nat fd" using fd by (auto simp: get_from_fd split: if_splits)
  have lt: "nat fd < 256" "open_files s ! nat fd \<noteq> NULL" using r fd by auto
  obtain n f where f: "(?g, n) \<in> L" "vfs_files s ?g = Some f" "file_id f = fd"
    using fd_invD [OF inv lt] r(1,3) by (metis int_nat_eq)
  have len: "length (open_files s) = 256" and live: "heap_live L ?t"
    using inv by (simp_all add: fd_inv_def VFS_MAX_FILE_DESCRIPTORS_def)
  obtain s1 where s1: "kfree ?g ?t = ret s1" "heap_live (L - {(?g, n)}) s1"
    using kheap.release_law [OF live f(1)] by blast
  note m = heap_more_fields [OF kfree_more [OF s1(1)]]
  let ?s = "s1\<lparr>vfs_files := (vfs_files s1)(?g := None)\<rparr>"
  have run: "vfs_sys_close fd s = ret (0, ?s)"
    using fd f(2,3) r s1(1)
    by (simp add: vfs_sys_close_def vfs_close_def deref_def set_open_def VFS_MAX_FILE_DESCRIPTORS_def)
  have "10 \<le> i \<and> (\<exists>k h. (open_files ?s ! i, k) \<in> L - {(?g, n)} \<and> vfs_files ?s (open_files ?s ! i) = Some h \<and> file_id h = int i)"
    if i: "i < 256" "open_files ?s ! i \<noteq> NULL" for i
  proof -
    have ne: "i \<noteq> nat fd" using i(2) m(1) len lt(1) by auto
    then have eq: "open_files ?s ! i = open_files s ! i" using m(1) by simp
    then have nn: "open_files s ! i \<noteq> NULL" using i(2) by simp
    have other: "open_files s ! i \<noteq> ?g" using fd_distinct [OF inv i(1) lt(1) _ nn] ne r(3) by auto
    obtain k h where "10 \<le> i" "(open_files s ! i, k) \<in> L" "vfs_files s (open_files s ! i) = Some h" "file_id h = int i"
      by (rule fd_invD [OF inv i(1) nn])
    then show ?thesis unfolding eq using other m(2) by auto
  qed
  then have "fd_inv (L - {(?g, n)}) ?s"
    using s1(2) len m(1) by (simp add: fd_inv_def VFS_MAX_FILE_DESCRIPTORS_def VFS_FD_OFFSET_def)
  then show ?thesis using run m by (intro exI [of _ "L - {(?g, n)}"] exI [of _ ?s]) simp
qed

section \<open>Descriptors\<close>

lemma fd_table_open:
  assumes inv: "fd_inv L s" and run: "vfs_sys_open path flags mode s = ret (fd, s')"
  shows "(\<exists>L'. fd_inv L' s') \<and>
    (fd = - 1 \<and> (\<forall>i. vfs_get_from_fd i s' = vfs_get_from_fd i s) \<and> vfs_files s' = vfs_files s \<or>
     VFS_FD_OFFSET \<le> fd \<and> fd < VFS_MAX_FILE_DESCRIPTORS \<and> vfs_get_from_fd fd s = NULL \<and>
     (\<forall>i. VFS_FD_OFFSET \<le> i \<and> i < fd \<longrightarrow> vfs_get_from_fd i s \<noteq> NULL) \<and>
     vfs_get_from_fd fd s' \<noteq> NULL \<and>
     (\<exists>m. vfs_files s' (vfs_get_from_fd fd s') =
        Some \<lparr>file_id = fd, file_loc = path, file_flags = flags, file_mode = mode, file_fs = Some m\<rparr>) \<and>
     (\<forall>i. i \<noteq> fd \<longrightarrow> vfs_get_from_fd i s' = vfs_get_from_fd i s \<and>
        (vfs_get_from_fd i s \<noteq> NULL \<longrightarrow> vfs_files s' (vfs_get_from_fd i s) = vfs_files s (vfs_get_from_fd i s))))"
proof -
  obtain r where r: "vfs_open path flags mode s = ret (r, s')"
    "if r = NULL then fd = - 1 else (\<exists>f. vfs_files s' r = Some f \<and> fd = file_id f)"
    using run by (auto simp: vfs_sys_open_def rbind_eq_ret deref_def split: if_splits option.splits)
  have len: "length (open_files s) = 256" using inv by (simp add: fd_inv_def VFS_MAX_FILE_DESCRIPTORS_def)
  show ?thesis
  proof (cases "r = NULL")
    case True
    then show ?thesis using vfs_open_ret [OF inv r(1)] r(2) by (simp add: get_from_fd)
  next
    case False
    then obtain k where new: "r \<notin> fst ` L" and o: "opens path flags mode r k s s'"
      using vfs_open_ret(2) [OF inv r(1)] by blast
    then have k: "k = fd" using r(2) False by (auto simp: opens_def)
    have rng: "10 \<le> fd" "fd < 256" and tab: "open_files s' = (open_files s)[nat fd := r]"
      using o by (simp_all add: opens_def k VFS_MAX_FILE_DESCRIPTORS_def VFS_FD_OFFSET_def)
    have "vfs_files s' g = vfs_files s g" if g: "g = vfs_get_from_fd i s" "g \<noteq> NULL" for i g
    proof -
      have i: "nat i < 256" "open_files s ! nat i \<noteq> NULL" "g = open_files s ! nat i"
        using g by (auto simp: get_from_fd split: if_splits)
      obtain n where "(g, n) \<in> L" unfolding i(3) by (rule fd_invD [OF inv i(1,2)])
      then have "g \<noteq> r" using new by force
      then show ?thesis using o by (auto simp: opens_def)
    qed
    moreover have "vfs_get_from_fd i s' = (if i = fd then r else vfs_get_from_fd i s)" for i
      using rng tab len by (auto simp: get_from_fd nth_list_update)
    moreover have "\<exists>m. vfs_files s' r =
        Some \<lparr>file_id = fd, file_loc = path, file_flags = flags, file_mode = mode, file_fs = Some m\<rparr>"
      using o by (auto simp: opens_def k)
    moreover have "vfs_get_from_fd fd s = NULL" "\<forall>i. 10 \<le> i \<and> i < fd \<longrightarrow> vfs_get_from_fd i s \<noteq> NULL"
      using o rng by (simp_all add: opens_def k get_from_fd VFS_FD_OFFSET_def)
    ultimately show ?thesis
      using vfs_open_ret(1) [OF inv r(1)] rng False
      by (simp add: VFS_MAX_FILE_DESCRIPTORS_def VFS_FD_OFFSET_def)
  qed
qed

text \<open>
  C18. The table of open files stays well-formed, and descriptors behave as independent names. From a
  well-formed table, a call of \<open>vfs_sys_open\<close> that returns leaves a well-formed table; it returns either -1 with
  the table as it was, or the lowest free descriptor from \<open>VFS_FD_OFFSET\<close> on, which then names a new file with the
  given path, flags and mode, while every other descriptor keeps its file. \<open>vfs_sys_close\<close> of a descriptor in use
  returns 0, frees it and keeps all others, and of any other number returns -1 and changes nothing.
\<close>

theorem fd_table_correct:
  assumes "fd_inv L s"
  shows "(vfs_sys_open path flags mode s = ret (fd, s') \<longrightarrow> (\<exists>L'. fd_inv L' s') \<and>
      (fd = - 1 \<and> (\<forall>i. vfs_get_from_fd i s' = vfs_get_from_fd i s) \<and> vfs_files s' = vfs_files s \<or>
       VFS_FD_OFFSET \<le> fd \<and> fd < VFS_MAX_FILE_DESCRIPTORS \<and> vfs_get_from_fd fd s = NULL \<and>
       (\<forall>i. VFS_FD_OFFSET \<le> i \<and> i < fd \<longrightarrow> vfs_get_from_fd i s \<noteq> NULL) \<and>
       vfs_get_from_fd fd s' \<noteq> NULL \<and>
       (\<exists>m. vfs_files s' (vfs_get_from_fd fd s') =
          Some \<lparr>file_id = fd, file_loc = path, file_flags = flags, file_mode = mode, file_fs = Some m\<rparr>) \<and>
       (\<forall>i. i \<noteq> fd \<longrightarrow> vfs_get_from_fd i s' = vfs_get_from_fd i s \<and>
          (vfs_get_from_fd i s \<noteq> NULL \<longrightarrow> vfs_files s' (vfs_get_from_fd i s) = vfs_files s (vfs_get_from_fd i s))))) \<and>
    (if vfs_get_from_fd k s = NULL then vfs_sys_close k s = ret (- 1, s)
     else \<exists>L' t. vfs_sys_close k s = ret (0, t) \<and> fd_inv L' t \<and>
       (\<forall>i. vfs_get_from_fd i t = (if i = k then NULL else vfs_get_from_fd i s)))"
proof (intro conjI impI)
  have len: "length (open_files s) = 256" using assms by (simp add: fd_inv_def VFS_MAX_FILE_DESCRIPTORS_def)
  show "if vfs_get_from_fd k s = NULL then vfs_sys_close k s = ret (- 1, s)
     else \<exists>L' t. vfs_sys_close k s = ret (0, t) \<and> fd_inv L' t \<and>
       (\<forall>i. vfs_get_from_fd i t = (if i = k then NULL else vfs_get_from_fd i s))"
  proof (cases "vfs_get_from_fd k s = NULL")
    case True
    then show ?thesis by (simp add: vfs_sys_close_def vfs_close_def)
  next
    case False
    then have k: "0 \<le> k" "k < 256" by (auto simp: get_from_fd split: if_splits)
    obtain L' t where t: "vfs_sys_close k s = ret (0, t)" "fd_inv L' t" "open_files t = (open_files s)[nat k := NULL]"
      using fd_inv_close [OF assms False] by blast
    have "vfs_get_from_fd i t = (if i = k then NULL else vfs_get_from_fd i s)" for i
      using k len t(3) by (auto simp: get_from_fd nth_list_update)
    then show ?thesis using False t by auto
  qed
qed (use fd_table_open [OF assms] in blast)+

section \<open>An instance\<close>

text \<open>A heap with one block of 112 bytes, which is the file of descriptor 10.\<close>

definition vfs_example :: "heap \<Rightarrow> 'a fsys_scheme \<Rightarrow> 'a fsys_scheme" where
  "vfs_example h s = (heap.extend h (heap.more s))\<lparr>open_files := (replicate 256 NULL)[10 := 0xFFFF810000000010],
     vfs_files := [0xFFFF810000000010 \<mapsto> \<lparr>file_id = 10, file_loc = 0x5000, file_flags = 0, file_mode = 0, file_fs = Some 0\<rparr>]\<rparr>"

lemma heap_live_extend: "heap_live L (heap.extend h m) = heap_live L h"
proof -
  let ?s = "heap.extend h m"
  have fields: "mem ?s = mem h" "hhdm ?s = hhdm h" "bitmap ?s = bitmap h" "highest_page ?s = highest_page h"
    "used_pages ?s = used_pages h" "free_pages ?s = free_pages h" "total_ram_pages ?s = total_ram_pages h"
    "pmm_lock ?s = pmm_lock h" "vmm_lock ?s = vmm_lock h" "if_flag ?s = if_flag h" "sync_depth ?s = sync_depth h"
    "kernel_pagemap ?s = kernel_pagemap h" "heap_start ?s = heap_start h" "heap_size ?s = heap_size h"
    "heap_head ?s = heap_head h" "heap_lock ?s = heap_lock h"
    by (simp_all add: heap.defs)
  show ?thesis
    unfolding heap_live_def heap_inv_def heap_rel_def heap_room_def heap_base_def vmm_inv_def pt_inv_def pmm_inv_def
      irq_inv_def hhdm_ok_def tables_def managed_frames_def free_frames_def free_set_def fields ..
qed

lemma vfs_example_inv:
  obtains h where "fd_inv {(0xFFFF810000000010, 112)} (vfs_example h s)"
proof -
  obtain h :: heap where h: "heap_inv [(128, True), (3968, False)] h" "heap_base h = 0xFFFF810000000000"
    by (rule allocated_example)
  have "heap_live {(0xFFFF810000000010, 112)} h"
    unfolding heap_live_def by (rule exI [of _ "[(128, True), (3968, False)]"]) (simp add: h used_tiles_def payload_def)
  then have "heap_live {(0xFFFF810000000010, 112)} (vfs_example h s)" by (simp add: vfs_example_def heap_live_extend)
  then have "fd_inv {(0xFFFF810000000010, 112)} (vfs_example h s)"
    by (auto simp: fd_inv_def vfs_example_def VFS_MAX_FILE_DESCRIPTORS_def VFS_FD_OFFSET_def nth_list_update split: if_splits)
  then show thesis by (rule that)
qed

theorem fd_table_correct_witness:
  "\<forall>s. \<exists>h t. vfs_sys_close 10 (vfs_example h s) = ret (0, t) \<and> vfs_get_from_fd 10 t = NULL \<and>
     vfs_sys_close 11 (vfs_example h s) = ret (- 1, vfs_example h s)"
proof
  fix s :: "'a fsys_scheme"
  obtain h where inv: "fd_inv {(0xFFFF810000000010, 112)} (vfs_example h s)" by (rule vfs_example_inv)
  have "vfs_get_from_fd 10 (vfs_example h s) \<noteq> NULL" "vfs_get_from_fd 11 (vfs_example h s) = NULL"
    by (simp_all add: get_from_fd vfs_example_def)
  then have "\<exists>t. vfs_sys_close 10 (vfs_example h s) = ret (0, t) \<and> vfs_get_from_fd 10 t = NULL"
    "vfs_sys_close 11 (vfs_example h s) = ret (- 1, vfs_example h s)"
    using conjunct2 [OF fd_table_correct [OF inv, where k = 10]] conjunct2 [OF fd_table_correct [OF inv, where k = 11]]
    by auto
  then show "\<exists>h t. vfs_sys_close 10 (vfs_example h s) = ret (0, t) \<and> vfs_get_from_fd 10 t = NULL \<and>
      vfs_sys_close 11 (vfs_example h s) = ret (- 1, vfs_example h s)"
    by blast
qed

end
