(* ===== verification/Elf.thy ===== *)
theory Elf
  imports Vfs
begin

text \<open>
  Programs: the loader of ELF files (\<open>system/elf.c\<close>), new address spaces (\<open>vmm_new_pagemap\<close> of \<open>vmm.c\<close>), which
  need both the frames and the heap, the creation of a user process from a file (\<open>process_spawn_elf\<close> of
  \<open>process.c\<close>) and \<open>run_elf\<close> (\<open>kernel/elf.c\<close>). The sanitizer checks that a pointer to a structure is aligned.
\<close>

section \<open>Definitions\<close>

subsection \<open>Address spaces\<close>

text \<open>
  As everywhere in the model a page map is the address \<open>base_virt\<close> of its top table. The lock is held during
  \<open>malloc\<close>.
\<close>

definition vmm_new_pagemap :: "'a heap_scheme \<Rightarrow> (pagemap_t \<times> 'a heap_scheme) result" where
  "vmm_new_pagemap s =
     rbind (spin_lock ''vmm_new_pagemap'' (vmm_lock s)) (\<lambda>l.
     rbind (pmm_allocate (s\<lparr>vmm_lock := l\<rparr>)) (\<lambda>(pml4_phys, s).
     if pml4_phys = NULL then fails (Panic ''failed to allocate new pagemap pml4'') else
     let pml4_virt = pml4_phys + hhdm s;
         m = memset (mem s) pml4_virt 0 (PAGE_SIZE div 2)
     in
     rbind (memcpy m (pml4_virt + 8 * 256) (kernel_pagemap s + 8 * 256) (PAGE_SIZE div 2)) (\<lambda>(_, m).
     rbind (kmalloc 8 (s\<lparr>mem := m\<rparr>)) (\<lambda>(_, s).
     ret (pml4_virt, s\<lparr>vmm_lock := spin_unlock (vmm_lock s)\<rparr>)))))"

subsection \<open>ELF files\<close>

record elf64_header_t =
  magic :: "u8 list"
  elf_class :: u8
  elf_machine :: u16
  entry_point :: u64
  phoff :: u64
  phentsize :: u16
  phnum :: u16

record elf64_phdr_t =
  ph_type :: u32
  ph_flags :: u32
  ph_offset :: u64
  ph_vaddr :: u64
  ph_filesz :: u64
  ph_memsz :: u64

record elf_info_t =
  elf_entry :: u64
  elf_size :: u64
  elf_base :: u64

definition PT_LOAD :: u32 where "PT_LOAD = 1"
definition PF_X :: u32 where "PF_X = 1"
definition PF_W :: u32 where "PF_W = 2"

definition sizeof_elf64_header :: u64 where "sizeof_elf64_header = 64"
definition sizeof_elf64_phdr :: u16 where "sizeof_elf64_phdr = 56"

text \<open>The structures at an address; fields that the loader does not use are left out.\<close>

definition elf64_header :: "mem \<Rightarrow> addr \<Rightarrow> elf64_header_t result" where
  "elf64_header m a =
     (if a mod 8 \<noteq> 0 \<or> a = NULL then ubsan_handle_type_mismatch else
      ret \<lparr>magic = map m [a, a + 1, a + 2, a + 3], elf_class = m (a + 4), elf_machine = load16 m (a + 18),
           entry_point = load64 m (a + 24), phoff = load64 m (a + 32), phentsize = load16 m (a + 54),
           phnum = load16 m (a + 56)\<rparr>)"

definition elf64_phdr :: "mem \<Rightarrow> addr \<Rightarrow> elf64_phdr_t result" where
  "elf64_phdr m a =
     (if a mod 8 \<noteq> 0 \<or> a = NULL then ubsan_handle_type_mismatch else
      ret \<lparr>ph_type = load32 m a, ph_flags = load32 m (a + 4), ph_offset = load64 m (a + 8),
           ph_vaddr = load64 m (a + 16), ph_filesz = load64 m (a + 32), ph_memsz = load64 m (a + 40)\<rparr>)"

definition segment_flags :: "elf64_phdr_t \<Rightarrow> u64" where
  "segment_flags phdr =
     (let flags = PTE_PRESENT OR PTE_USER;
          flags = (if ph_flags phdr AND PF_W \<noteq> 0 then flags OR PTE_WRITABLE else flags)
      in if ph_flags phdr AND PF_X = 0 then flags OR PTE_NX else flags)"

partial_function (option) map_segment ::
  "pagemap_t \<Rightarrow> u64 \<Rightarrow> addr \<Rightarrow> addr \<Rightarrow> 'a vmm_scheme \<Rightarrow> 'a vmm_scheme result" where
  "map_segment pagemap flags a end_page s =
     (if a < end_page then
        rbind (vmm_virt_to_phys pagemap a s) (\<lambda>(exiting_phys, s).
        if exiting_phys \<noteq> 0 then fails (Panic ''elf64_load: virtual address already mapped!\<newline>'') else
        rbind (pmm_allocate s) (\<lambda>(page, s).
        rbind (ASSERT (page \<noteq> 0)) (\<lambda>_.
        rbind (vmm_map_page pagemap a page flags s) (\<lambda>(_, s).
        map_segment pagemap flags (a + PAGE_SIZE) end_page s))))
      else ret s)"

text \<open>The body of the loop for a header of type \<open>PT_LOAD\<close>.\<close>

definition load_segment ::
  "pagemap_t \<Rightarrow> addr \<Rightarrow> u64 \<Rightarrow> elf64_phdr_t \<Rightarrow> 'a vmm_scheme \<Rightarrow> 'a vmm_scheme result" where
  "load_segment pagemap elf_data len phdr s =
     (let start_page = ph_vaddr phdr AND NOT (PAGE_SIZE - 1);
          segment_end = ph_vaddr phdr + ph_memsz phdr;
          end_page = (segment_end + PAGE_SIZE - 1) AND NOT (PAGE_SIZE - 1)
      in
      rbind (ASSERT (start_page < end_page)) (\<lambda>_.
      rbind (ASSERT (end_page > start_page)) (\<lambda>_.
      rbind (ASSERT (start_page mod PAGE_SIZE = 0)) (\<lambda>_.
      rbind (ASSERT (end_page mod PAGE_SIZE = 0)) (\<lambda>_.
      rbind (ASSERT (start_page \<noteq> 0)) (\<lambda>_.
      rbind (map_segment pagemap (segment_flags phdr) start_page end_page s) (\<lambda>s.
      let file_start = ph_offset phdr; file_end = file_start + ph_filesz phdr in
      if file_end > len then fails (Panic ''segment out of bound!\<newline>'') else
      rbind (ptr_plus elf_data file_start) (\<lambda>src.
      rbind (ASSERT (src \<noteq> NULL)) (\<lambda>_.
      rbind (ASSERT (ph_vaddr phdr \<noteq> NULL)) (\<lambda>_.
      rbind (ASSERT (ph_filesz phdr > 0)) (\<lambda>_.
      rbind (vmm_map_copy pagemap (ph_vaddr phdr) src (ph_filesz phdr) s) (\<lambda>s.
      if ph_memsz phdr > ph_filesz phdr
      then vmm_map_zero pagemap (ph_vaddr phdr + ph_filesz phdr) (ph_memsz phdr - ph_filesz phdr) s
      else ret s))))))))))))"

definition load_step ::
  "pagemap_t \<Rightarrow> addr \<Rightarrow> u64 \<Rightarrow> elf64_header_t \<Rightarrow> nat \<Rightarrow> u64 \<times> u64 \<times> 'a vmm_scheme \<Rightarrow> (u64 \<times> u64 \<times> 'a vmm_scheme) result" where
  "load_step pagemap elf_data len header i = (\<lambda>(base_addr, end_addr, s).
     let ph_size = ucast (phentsize header); ph_start = phoff header + of_nat i * ph_size in
     if ph_start + ph_size > len then fails (Panic ''header out of bound!\<newline>'') else
     rbind (ptr_plus elf_data ph_start) (\<lambda>p.
     rbind (elf64_phdr (mem s) p) (\<lambda>phdr.
     if ph_type phdr \<noteq> PT_LOAD then ret (base_addr, end_addr, s) else
     rbind (load_segment pagemap elf_data len phdr s) (\<lambda>s.
     let segment_end = ph_vaddr phdr + ph_memsz phdr in
     ret (if ph_vaddr phdr < base_addr then ph_vaddr phdr else base_addr,
          if segment_end > end_addr then segment_end else end_addr, s)))))"

definition elf64_load ::
  "pagemap_t \<Rightarrow> addr \<Rightarrow> u64 \<Rightarrow> 'a vmm_scheme \<Rightarrow> (elf_info_t \<times> 'a vmm_scheme) result" where
  "elf64_load pagemap elf_data len s =
     (if len < sizeof_elf64_header then fails (Panic ''elf64_load: invalid ELF header size\<newline>'') else
      rbind (elf64_header (mem s) elf_data) (\<lambda>header.
      if magic header \<noteq> [0x7F, 0x45, 0x4C, 0x46] then fails (Panic ''invalid magic\<newline>'')
      else if elf_class header \<noteq> 2 then fails (Panic ''not an elf64\<newline>'')
      else if elf_machine header \<noteq> 0x3E then fails (Panic ''not amd64\<newline>'')
      else if phentsize header \<noteq> sizeof_elf64_phdr then fails (Panic ''invalid phentsize\<newline>'')
      else
      rbind (for_each (load_step pagemap elf_data len header) [0..<unat (phnum header)]
               (0xFFFFFFFFFFFFFFFF, 0, s)) (\<lambda>(base_addr, end_addr, s).
      ret (\<lparr>elf_entry = entry_point header, elf_size = end_addr - base_addr, elf_base = base_addr\<rparr>, s))))"

subsection \<open>User processes\<close>

partial_function (option) map_stack ::
  "pagemap_t \<Rightarrow> u64 \<Rightarrow> addr \<Rightarrow> addr \<Rightarrow> 'a vmm_scheme \<Rightarrow> 'a vmm_scheme result" where
  "map_stack pagemap flags i upper s =
     (if i < upper then
        rbind (pmm_allocate s) (\<lambda>(page, s).
        rbind (vmm_map_page pagemap i page flags s) (\<lambda>(_, s).
        map_stack pagemap flags (i + PAGE_SIZE) upper s))
      else ret s)"

text \<open>
  The four words of the initial stack are stored through the address space that is current, not through the new
  one.
\<close>

definition process_spawn_elf :: "code_syms \<Rightarrow> addr \<Rightarrow> addr \<Rightarrow> u64 \<Rightarrow> 'a proc_scheme \<Rightarrow> 'a proc_scheme result" where
  "process_spawn_elf syms name elf_data len s =
     rbind (vmm_new_pagemap s) (\<lambda>(pagemap, s).
     let flags = PTE_PRESENT OR PTE_WRITABLE OR PTE_USER in
     rbind (elf64_load pagemap elf_data len s) (\<lambda>(elf, s).
     let user_heap = (elf_entry elf + elf_size elf + 0xFFF) AND NOT 0xFFF in
     rbind (pmm_allocate s) (\<lambda>(heap_page, s).
     rbind (vmm_map_page pagemap user_heap heap_page flags s) (\<lambda>(_, s).
     let (stk, m) = PUSH_STACK 0 (PUSH_STACK 0 (PUSH_STACK 0 (PUSH_STACK 0 (USER_STACK_TOP, mem s)))) in
     rbind (map_stack pagemap flags USER_STACK_BASE stk (s\<lparr>mem := m\<rparr>)) (\<lambda>s.
     rbind (process_create_user syms (elf_entry elf) pagemap stk user_heap s) (\<lambda>(new_process, s).
     rbind (get_proc new_process s) (\<lambda>p.
     ret (set_proc new_process (p\<lparr>proc_name := (if name \<noteq> NULL then name else lit syms ''unnamed'')\<rparr>) s))))))))"

text \<open>\<open>stat\<close> is the address of the local variable of that name.\<close>

definition run_elf :: "code_syms \<Rightarrow> device \<Rightarrow> addr \<Rightarrow> addr \<Rightarrow> 'a fsys_scheme \<Rightarrow> 'a fsys_scheme result" where
  "run_elf syms dev stat path s =
     rbind (vfs_open path 0 0 s) (\<lambda>(elf_file, s).
     if elf_file = NULL then ret s else
     rbind (vfs_stat elf_file stat s) (\<lambda>(res, s).
     if res < 0 then ret s else
     let size = load64 (mem s) (stat + 8) in
     rbind (kmalloc size s) (\<lambda>(buf, s).
     if buf = NULL then ret s else
     rbind (vfs_read syms dev elf_file buf size s) (\<lambda>(bytes_read, s).
     if bytes_read < 0 then ret s else
     rbind (vfs_close elf_file s) (\<lambda>(r, s).
     if r < 0 then ret s else
     process_spawn_elf syms path buf (load64 (mem s) (stat + 8)) s)))))"

definition userspace_shell :: "code_syms \<Rightarrow> device \<Rightarrow> addr \<Rightarrow> 'a fsys_scheme \<Rightarrow> 'a fsys_scheme result" where
  "userspace_shell syms dev stat s =
     rbind (run_elf syms dev stat (lit syms ''/init/bin/fb'') s) (\<lambda>s.
     rbind (run_elf syms dev stat (lit syms ''/init/bin/shell'') s) (\<lambda>s.
     run_elf syms dev stat (lit syms ''/init/ports/doom/doomgeneric'') s))"

end
