(* ===== verification/Syscall.thy ===== *)
theory Syscall
  imports Elf
begin

text \<open>
  System calls, \<open>system/syscall.c\<close>. \<open>sysregs_t\<close> is the register frame that \<open>syscall_trap\<close> pushes (theory \<open>Asm\<close>);
  the handler works on it as a value. Buffers and paths of the caller are addresses of the memory as the
  address space of the caller shows it; a page fault inside a system call is not modelled.
\<close>

section \<open>Definitions\<close>

record sysregs_t =
  sr_r15 :: u64
  sr_r14 :: u64
  sr_r13 :: u64
  sr_r12 :: u64
  sr_r11 :: u64
  sr_r10 :: u64
  sr_r9 :: u64
  sr_r8 :: u64
  sr_rbp :: u64
  sr_rdi :: u64
  sr_rsi :: u64
  sr_rdx :: u64
  sr_rcx :: u64
  sr_rbx :: u64
  sr_rax :: u64

text \<open>What a system call needs besides the state: addresses, devices, and the stack slots of local variables.\<close>

record sys_env =
  env_syms :: code_syms
  env_dev :: device
  env_buf :: addr
  env_va :: "u64 list \<Rightarrow> u64 list"
  env_size :: addr

text \<open>\<open>restart\<close> and \<open>fork\<close> are \<open>UNREACHABLE\<close>.\<close>

definition syscall_restart :: "'a fsys_scheme \<Rightarrow> (int \<times> 'a fsys_scheme) result" where
  "syscall_restart s = rbind (ASSERT False) (\<lambda>_. ret (0, s))"

definition syscall_fork :: "'a fsys_scheme \<Rightarrow> (int \<times> 'a fsys_scheme) result" where
  "syscall_fork s = rbind (ASSERT False) (\<lambda>_. ret (- 1, s))"

definition neg_to_minus_one :: "int \<Rightarrow> int" where
  "neg_to_minus_one r = (if r < 0 then - 1 else r)"

definition syscall_read :: "sys_env \<Rightarrow> sysregs_t \<Rightarrow> 'a fsys_scheme \<Rightarrow> (int \<times> 'a fsys_scheme) result" where
  "syscall_read env r s =
     rbind (vfs_sys_read (env_syms env) (env_dev env) (int_of_slot (sr_rdi r)) (sr_rsi r) (sr_rdx r) s) (\<lambda>(n, s).
     ret (neg_to_minus_one n, s))"

text \<open>The loop for descriptor 1: one character after the other, up to a zero.\<close>

fun write_console :: "sys_env \<Rightarrow> addr \<Rightarrow> nat list \<Rightarrow> 'a fsys_scheme \<Rightarrow> 'a fsys_scheme result" where
  "write_console env buf [] s = ret s"
| "write_console env buf (i # js) s =
     (let c = mem s (buf + of_nat i) in
      if c = 0 then ret s else
      rbind (kprintf (env_dev env) (env_syms env) (env_buf env) (env_va env) [0x25, 0x63] [ucast (scast c :: u32)] s) (\<lambda>s.
      write_console env buf js s))"

definition syscall_write :: "sys_env \<Rightarrow> sysregs_t \<Rightarrow> 'a fsys_scheme \<Rightarrow> (int \<times> 'a fsys_scheme) result" where
  "syscall_write env r s =
     (let fd = int_of_slot (sr_rdi r); buf = sr_rsi r; len = sr_rdx r in
      if fd < VFS_FD_OFFSET then
        if fd = 1 then rbind (write_console env buf [0..<unat len] s) (\<lambda>s. ret (int_of_slot len, s))
        else ret (- 1, s)
      else rbind (vfs_sys_write (env_dev env) fd buf len s) (\<lambda>(n, s). ret (neg_to_minus_one n, s)))"

definition syscall_open :: "sysregs_t \<Rightarrow> 'a fsys_scheme \<Rightarrow> (int \<times> 'a fsys_scheme) result" where
  "syscall_open r s =
     rbind (vfs_sys_open (sr_rdi r) (int_of_slot (sr_rsi r)) (int_of_slot (sr_rdx r)) s) (\<lambda>(n, s).
     ret (neg_to_minus_one n, s))"

definition syscall_close :: "sysregs_t \<Rightarrow> 'a fsys_scheme \<Rightarrow> (int \<times> 'a fsys_scheme) result" where
  "syscall_close r s =
     rbind (vfs_sys_close (int_of_slot (sr_rdi r)) s) (\<lambda>(n, s). ret (neg_to_minus_one n, s))"

definition syscall_seek :: "sysregs_t \<Rightarrow> 'a fsys_scheme \<Rightarrow> (int \<times> 'a fsys_scheme) result" where
  "syscall_seek r s =
     rbind (vfs_sys_seek (int_of_slot (sr_rdi r)) (sr_rsi r) (int_of_slot (sr_rdx r)) s) (\<lambda>(n, s).
     ret (neg_to_minus_one n, s))"

definition syscall_write_fsbase :: "sysregs_t \<Rightarrow> 'a fsys_scheme \<Rightarrow> (int \<times> 'a fsys_scheme) result" where
  "syscall_write_fsbase r s =
     (if sr_rdi r \<le> 0x00007FFFFFFFFFFF then ret (0, wrmsr MSR_FS_BASE (sr_rdi r) s) else ret (- 1, s))"

definition syscall_get_thread_id :: "'a fsys_scheme \<Rightarrow> (int \<times> 'a fsys_scheme) result" where
  "syscall_get_thread_id s =
     rbind (process_get_current s) (\<lambda>a. rbind (get_proc a s) (\<lambda>p. ret (sint (proc_id p), s)))"

definition ALIGN_UP :: "u64 \<Rightarrow> u64 \<Rightarrow> u64" where
  "ALIGN_UP v align = (v + align - 1) AND NOT (align - 1)"

text \<open>The two loops of \<open>syscall_mmap\<close>: over the memory of a file, and over fresh frames.\<close>

fun mmap_file :: "nat \<Rightarrow> addr \<Rightarrow> u64 \<Rightarrow> 'a proc_scheme \<Rightarrow> 'a proc_scheme result" where
  "mmap_file 0 a data s = ret s"
| "mmap_file (Suc n) a data s =
     rbind (get_proc a s) (\<lambda>p.
     rbind (vmm_map_page (proc_pagemap p) (user_heap_position p) data (PTE_PRESENT OR PTE_USER OR PTE_WRITABLE) s) (\<lambda>(_, s).
     mmap_file n a (data + PAGE_SIZE)
       (set_proc a (p\<lparr>user_heap_position := user_heap_position p + PAGE_SIZE\<rparr>) s)))"

fun mmap_anon :: "nat \<Rightarrow> addr \<Rightarrow> 'a proc_scheme \<Rightarrow> 'a proc_scheme result" where
  "mmap_anon 0 a s = ret s"
| "mmap_anon (Suc n) a s =
     rbind (pmm_allocate s) (\<lambda>(page, s).
     rbind (ASSERT (page \<noteq> 0)) (\<lambda>_.
     rbind (get_proc a s) (\<lambda>p.
     rbind (vmm_map_page (proc_pagemap p) (user_heap_position p) page
              (PTE_PRESENT OR PTE_USER OR PTE_WRITABLE OR PTE_NX) s) (\<lambda>(_, s).
     mmap_anon n a (set_proc a (p\<lparr>user_heap_position := user_heap_position p + PAGE_SIZE\<rparr>) s)))))"

definition syscall_mmap :: "sys_env \<Rightarrow> sysregs_t \<Rightarrow> 'a fsys_scheme \<Rightarrow> (int \<times> 'a fsys_scheme) result" where
  "syscall_mmap env r s =
     (let fd = sr_r8 r; offset = sr_r9 r; flags = sr_r10 r;
          s = s\<lparr>mem := store64 (mem s) (env_size env) (sr_rsi r)\<rparr>
      in
      rbind (process_get_current s) (\<lambda>a.
      rbind (get_proc a s) (\<lambda>current.
      let heap_start = user_heap_position current;
          heap_pages = ucast (ALIGN_UP (sr_rsi r) PAGE_SIZE div PAGE_SIZE) :: u32
      in
      rbind (if int_of_slot fd \<noteq> - 1
             then rbind (vfs_sys_mmap (int_of_slot fd) (env_size env) (int_of_slot flags) (int_of_slot offset) s) (\<lambda>(data, s).
                  rbind (ASSERT (data \<noteq> 0)) (\<lambda>_.
                  mmap_file (unat heap_pages) a data s))
             else mmap_anon (unat heap_pages) a s) (\<lambda>s.
      ret (int_of_slot heap_start, s)))))"

text \<open>\<open>i * PAGE_SIZE\<close> is a product of 32-bit numbers.\<close>

partial_function (option) unmap_loop ::
  "pagemap_t \<Rightarrow> addr \<Rightarrow> u64 \<Rightarrow> u32 \<Rightarrow> 'a vmm_scheme \<Rightarrow> 'a vmm_scheme result" where
  "unmap_loop pagemap base pages i s =
     (if ucast i < pages then
        let virt = base + ucast (i * 4096) in
        rbind (vmm_virt_to_phys pagemap virt s) (\<lambda>(phys, s).
        rbind (ASSERT (phys \<noteq> 0)) (\<lambda>_.
        rbind (pmm_free phys s) (\<lambda>s.
        rbind (vmm_unmap_page pagemap virt s) (\<lambda>(_, s).
        unmap_loop pagemap base pages (i + 1) s))))
      else ret s)"

definition syscall_unmap :: "sysregs_t \<Rightarrow> 'a proc_scheme \<Rightarrow> (int \<times> 'a proc_scheme) result" where
  "syscall_unmap r s =
     rbind (process_get_current s) (\<lambda>a.
     rbind (get_proc a s) (\<lambda>current.
     let adr = sr_rdi r;
         base = adr AND NOT (PAGE_SIZE - 1);
         size = sr_rsi r;
         pages = ALIGN_UP size PAGE_SIZE div PAGE_SIZE
     in
     if adr < user_heap_start current then fails (Panic ''WTF'')
     else if adr + size > user_heap_position current then fails (Panic ''WTF'')
     else rbind (unmap_loop (proc_pagemap current) base pages 0 s) (\<lambda>s. ret (0, s))))"

text \<open>
  \<open>exit\<close>: when \<open>process_exit\<close> hands the processor to another process, nothing of the handler runs any more, also
  not its \<open>IRQ_RES\<close>. Otherwise it goes on as every other call does.
\<close>

definition syscall_exit ::
  "sys_env \<Rightarrow> sysregs_t \<Rightarrow> 'a fsys_scheme \<Rightarrow> (sysregs_t \<times> 'a fsys_scheme) result" where
  "syscall_exit env r s =
     rbind (process_get_current s) (\<lambda>a.
     rbind (process_exit (env_syms env) s) (\<lambda>s.
     rbind (process_get_current s) (\<lambda>b.
     if b \<noteq> a then ret (r, s) else ret (r\<lparr>sr_rax := 0\<rparr>, int_resume s))))"

definition finish ::
  "sysregs_t \<Rightarrow> (int \<times> 'a fsys_scheme) result \<Rightarrow> (sysregs_t \<times> 'a fsys_scheme) result" where
  "finish r m = rbind m (\<lambda>(n, s). ret (r\<lparr>sr_rax := word_of_int n\<rparr>, int_resume s))"

definition syscall_handler ::
  "sys_env \<Rightarrow> sysregs_t \<Rightarrow> 'a fsys_scheme \<Rightarrow> (sysregs_t \<times> 'a fsys_scheme) result" where
  "syscall_handler env r s =
     (let s = int_disable s; n = sr_rax r in
      if n = 0 then finish r (syscall_restart s)
      else if n = 1 then syscall_exit env r s
      else if n = 2 then finish r (syscall_fork s)
      else if n = 3 then finish r (syscall_read env r s)
      else if n = 4 then finish r (syscall_write env r s)
      else if n = 5 then finish r (syscall_open r s)
      else if n = 6 then finish r (syscall_close r s)
      else if n = 8 then finish r (syscall_seek r s)
      else if n = 29 then finish r (syscall_write_fsbase r s)
      else if n = 30 then finish r (syscall_get_thread_id s)
      else if n = 31 then finish r (syscall_mmap env r s)
      else if n = 32 then finish r (syscall_unmap r s)
      else if n = 77 then ret (r\<lparr>sr_rax := ticks s\<rparr>, int_resume s)
      else finish r (ret (- 1, s)))"

definition MSR_EFER :: u64 where "MSR_EFER = 0xC0000080"
definition MSR_STAR :: u64 where "MSR_STAR = 0xC0000081"
definition MSR_LSTAR :: u64 where "MSR_LSTAR = 0xC0000082"
definition MSR_SYSCALL_MASK :: u64 where "MSR_SYSCALL_MASK = 0xC0000084"

text \<open>\<open>trap\<close> is the address of \<open>syscall_trap\<close>.\<close>

definition syscall_install :: "addr \<Rightarrow> 'a machine_scheme \<Rightarrow> 'a machine_scheme" where
  "syscall_install trap s =
     (let efer = rdmsr MSR_EFER s OR 1;
          s = wrmsr MSR_EFER efer s;
          star = push_bit 48 (0x18 OR 3) OR push_bit 32 0x08;
          s = wrmsr MSR_STAR star s;
          s = wrmsr MSR_LSTAR trap s
      in wrmsr MSR_SYSCALL_MASK (NOT 0x2) s)"

end
