(* ===== verification/Fresh_Pages.thy ===== *)
theory Fresh_Pages
  imports Kheap_Refine Process
begin

text \<open>
  Fresh memory for an address space: a frame from \<open>pmm_allocate\<close> that \<open>vmm_map_page\<close> maps. The frame becomes the
  property of the page: it is zero-filled, it is not free any more, and no later operation on the tables of the
  address space writes into it.
\<close>

section \<open>One page\<close>

lemma pt_lookup_agree:
  assumes inv: "vmm_inv root s" and h: "hhdm s' = hhdm s"
    and ent: "\<And>t i. t \<in> tables s \<Longrightarrow> i < 512 \<Longrightarrow> entry (mem s') t i = entry (mem s) t i"
  shows "pt_lookup root s' v = pt_lookup root s v" "path_ok q \<Longrightarrow> table_of root s' q = table_of root s q"
proof -
  have tr: "tree (entry (mem s)) (hhdm s) root (tables s)" using inv by (simp add: vmm_inv_def pt_inv_def)
  note at = table_at_agree [OF tr ent]
  show "path_ok q \<Longrightarrow> table_of root s' q = table_of root s q" using at h by simp
  show "pt_lookup root s' v = pt_lookup root s v"
  proof (cases "table_of root s (vpath v)")
    case None
    then show ?thesis using at [of "vpath v"] h by (simp add: pt_lookup_def)
  next
    case (Some t)
    then show ?thesis using at [of "vpath v"] h ent [OF treeD(1) [OF tr _ Some] table_idx_lt(4)]
      by (simp add: pt_lookup_def)
  qed
qed

lemma take_page_entries:
  assumes "vmm_inv root s" "k \<in> free_set s" "t \<in> tables s" "i < 512"
  shows "entry (mem (take_page k s)) t i = entry (mem s) t i"
proof -
  have pm: "pmm_inv s" and hh: "hhdm_ok s" using assms(1) by (auto simp: vmm_inv_def pt_inv_def)
  have f: "k * PAGE_SIZE \<in> free_frames s" using assms(2) by (simp add: free_frames_def)
  then have fm: "k * PAGE_SIZE \<in> managed_frames s" using free_frames_subset [OF pm] by blast
  have "t \<noteq> k * PAGE_SIZE + hhdm s" using free_table_notin [OF f] assms(3) by auto
  then show ?thesis
    using entry_zero_page [OF tables_aligned(1) [OF pm hh assms(3)] frame_table(1) [OF pm hh fm] assms(4)] by simp
qed

text \<open>The effect of mapping the fresh frame \<open>f\<close> at \<open>v\<close>.\<close>

definition gets_page :: "pagemap_t \<Rightarrow> addr \<Rightarrow> addr \<Rightarrow> u64 \<Rightarrow> 'a vmm_scheme \<Rightarrow> 'a vmm_scheme \<Rightarrow> bool" where
  "gets_page root v f fl s s' \<longleftrightarrow>
     vmm_inv root s' \<and> hhdm s' = hhdm s \<and> vmm.more s' = vmm.more s \<and> managed_frames s' = managed_frames s \<and>
     card (free_frames s) \<le> 4 + card (free_frames s') \<and>
     f \<in> free_frames s \<and> f \<noteq> NULL \<and> free_frames s' \<subseteq> free_frames s - {f} \<and>
     f + hhdm s \<notin> footprint root s' \<and> footprint root s' \<subseteq> footprint root s \<and>
     (\<forall>w. pt_lookup root s' w = (if vpn w = vpn v then Some (leaf_entry f fl) else pt_lookup root s w)) \<and>
     (\<forall>x\<in>region (f + hhdm s) (2 ^ 12). mem s' x = 0) \<and>
     (\<forall>x. outside (footprint root s) x \<longrightarrow> mem s' x = mem s x)"

lemma footprint_aligned:
  assumes "vmm_inv root s" "t \<in> footprint root s"
  shows "page_aligned t"
proof -
  have pm: "pmm_inv s" and hh: "hhdm_ok s" and tr: "tree (entry (mem s)) (hhdm s) root (tables s)"
    using assms(1) by (auto simp: vmm_inv_def pt_inv_def)
  from assms(2) consider q where "path_ok q" "table_of root s q = Some t" | f where "f \<in> free_frames s" "t = f + hhdm s"
    by (auto simp: footprint_def)
  then show ?thesis
  proof cases
    case 1
    then show ?thesis using tables_aligned(1) [OF pm hh treeD(1) [OF tr]] by blast
  next
    case 2
    then show ?thesis using frame_table(1) [OF pm hh] free_frames_subset [OF pm] by blast
  qed
qed

lemma page_outside:
  assumes "vmm_inv root s" "page_aligned g" "g \<notin> footprint root s" "x \<in> region g (2 ^ 12)"
  shows "outside (footprint root s) x"
  unfolding outside_def
proof
  fix t assume t: "t \<in> footprint root s"
  have "region g (2 ^ 12) \<inter> region t (2 ^ 12) = {}"
    using footprint_aligned [OF assms(1) t] assms(2,3) t by (intro aligned_region_disjoint) auto
  then show "x \<notin> region t (2 ^ 12)" using assms(4) by blast
qed


lemma alloc_cases:
  assumes inv: "vmm_inv root s"
  obtains (oom) "pmm_allocate s = fails (Panic ''out of memory in pmm_allocate!'')" "free_frames s = {}"
    | (ok) k where "k \<in> free_set s" "k * PAGE_SIZE \<in> free_frames s" "k * PAGE_SIZE \<noteq> NULL"
      "pmm_allocate s = ret (k * PAGE_SIZE, take_page k s)"
proof -
  have pm: "pmm_inv s" using inv by (auto simp: vmm_inv_def pt_inv_def)
  show thesis
  proof (cases "find_free_page s")
    case None
    then show ?thesis using find_free_page_None [of s]
      by (intro oom) (simp_all add: pmm_allocate_eq [OF pm] free_frames_def)
  next
    case (Some k)
    have k: "k \<in> free_set s" using find_free_page_Some(1) [OF Some] .
    then have f: "k * PAGE_SIZE \<in> free_frames s" by (simp add: free_frames_def)
    then have "k * PAGE_SIZE \<in> managed_frames s" using free_frames_subset [OF pm] by blast
    then show ?thesis using Some k f managed_frame(3) [OF pm]
      by (intro ok [of k]) (simp_all add: pmm_allocate_eq [OF pm])
  qed
qed

lemma take_page_footprint:
  assumes inv: "vmm_inv root s" and k: "k \<in> free_set s"
  shows "footprint root (take_page k s) = footprint root s - {k * PAGE_SIZE + hhdm s}"
proof -
  have pm: "pmm_inv s" and tr: "tree (entry (mem s)) (hhdm s) root (tables s)"
    using inv by (auto simp: vmm_inv_def pt_inv_def)
  have f: "k * PAGE_SIZE \<in> free_frames s" using k by (simp add: free_frames_def)
  have "table_of root (take_page k s) q = table_of root s q" if "path_ok q" for q
    by (rule pt_lookup_agree(2) [OF inv _ _ that]) (use take_page_entries [OF inv k] in simp_all)
  moreover have "k * PAGE_SIZE + hhdm s \<notin> {t. \<exists>q. path_ok q \<and> table_of root s q = Some t}"
    using treeD(1) [OF tr] free_table_notin [OF f] by blast
  ultimately show ?thesis
    by (auto simp: footprint_def free_frames_take_page [OF pm k])
qed

lemma alloc_map_cases:
  assumes inv: "vmm_inv root s"
  obtains (oom) "pmm_allocate s = fails (Panic ''out of memory in pmm_allocate!'')" "card (free_frames s) < 4"
    | (oom2) f s1 where "pmm_allocate s = ret (f, s1)" "f \<noteq> NULL" "vmm.more s1 = vmm.more s"
      "vmm_map_page root v f fl s1 = fails (Panic ''out of memory in pmm_allocate!'')" "card (free_frames s) < 4"
    | (ok) f s1 s2 where "pmm_allocate s = ret (f, s1)" "f \<noteq> NULL" "vmm.more s1 = vmm.more s"
      "vmm_map_page root v f fl s1 = ret (True, s2)" "gets_page root v f fl s s2"
proof (cases rule: alloc_cases [OF inv])
  case 1
  then show ?thesis by (intro oom) simp_all
next
  case (2 k)
  let ?s1 = "take_page k s" and ?f = "k * PAGE_SIZE" and ?g = "k * PAGE_SIZE + hhdm s"
  have pm: "pmm_inv s" and hh: "hhdm_ok s" using inv by (auto simp: vmm_inv_def pt_inv_def)
  have inv1: "vmm_inv root ?s1" by (rule vmm_inv_take_page [OF inv 2(1)])
  have more: "vmm.more ?s1 = vmm.more s" "hhdm ?s1 = hhdm s"
    by (simp_all add: take_page_def sync_settled_def)
  have "finite (free_frames s)" by (simp add: free_frames_def)
  then have c: "Suc (card (free_frames ?s1)) = card (free_frames s)"
    unfolding free_frames_take_page [OF pm 2(1)] using 2(2) by (rule card.remove [symmetric])
  have al: "page_aligned ?g" using frame_table(1) [OF pm hh] free_frames_subset [OF pm] 2(2) by blast
  note blank = memset_take_page [of k s]
  have z: "mem ?s1 x = 0" if "x \<in> region ?g (2 ^ 12)" for x
    using that unfolding blank by (simp add: write_block_def region_iff)
  show ?thesis
  proof (cases rule: map_page_cases [OF inv1, of v ?f fl])
    case 1
    then show ?thesis using 2 more c by (intro oom2) simp_all
  next
    case m: (2 s2)
    note fp = take_page_footprint [OF inv 2(1)]
    have lk: "pt_lookup root ?s1 w = pt_lookup root s w" for w
      by (rule pt_lookup_agree(1) [OF inv]) (use take_page_entries [OF inv 2(1)] in simp_all)
    have "mem s2 x = 0" if "x \<in> region ?g (2 ^ 12)" for x
    proof -
      have "outside (footprint root ?s1) x"
        using page_outside [OF inv1 al _ that] fp by simp
      then show ?thesis using m(2) z [OF that] by (simp add: maps_def)
    qed
    moreover have "mem s2 x = mem s x" if o: "outside (footprint root s) x" for x
    proof -
      have "outside (footprint root ?s1) x" by (rule outside_mono [OF _ o]) (use fp in blast)
      have "x \<notin> region ?g (2 ^ 12)" using o 2(2) by (auto simp: outside_def footprint_def)
      then have "mem ?s1 x = mem s x" unfolding blank by (intro write_block_outside) simp_all
      moreover have "mem s2 x = mem ?s1 x" using m(2) \<open>outside (footprint root ?s1) x\<close> unfolding maps_def by blast
      ultimately show ?thesis by simp
    qed
    ultimately have "gets_page root v ?f fl s s2"
      using m(2) 2 fp free_frames_take_page [OF pm 2(1)] more lk c by (auto simp: gets_page_def maps_def)
    then show ?thesis using 2 more m(1) by (intro ok)
  qed
qed

section \<open>A run of pages\<close>

abbreviation page_no :: "addr \<Rightarrow> nat \<Rightarrow> addr" where
  "page_no v i \<equiv> v + of_nat i * PAGE_SIZE"

lemma unat_vpn: "unat (vpn v) = unat v div 4096 mod 2 ^ 36"
  unfolding vpn_def unsigned_take_bit_eq unat_drop_bit_eq take_bit_eq_mod drop_bit_eq_div
  by (simp add: unat_mod unat_div)

lemma vpn_page_no: "unat (vpn (page_no v i)) = (unat v div 4096 + i) mod 2 ^ 36"
proof -
  have "unat (page_no v i) = (unat v + i * 4096) mod (4096 * 2 ^ 52)"
    by (simp add: PAGE_SIZE_def unat_word_ariths unsigned_of_nat take_bit_eq_mod mod_simps)
  also have "\<dots> div 4096 = (unat v div 4096 + i) mod 2 ^ 52" unfolding mod_mult2_eq by (simp add: add.commute)
  finally show ?thesis unfolding unat_vpn by (simp add: mod_mod_cancel)
qed

lemma page_no_inj:
  assumes "vpn (page_no v i) = vpn (page_no v j)" "i < 2 ^ 36" "j < 2 ^ 36"
  shows "i = j"
proof -
  have "(unat v div 4096 + i) mod 2 ^ 36 = (unat v div 4096 + j) mod 2 ^ 36"
    using vpn_page_no [of v i] vpn_page_no [of v j] assms(1) by simp
  then have "int (2 ^ 36) dvd (int (unat v div 4096 + i) - int (unat v div 4096 + j))"
    using mod_eq_dvd_iff by (metis of_nat_mod)
  then have "int (2 ^ 36) dvd (int i - int j)" by simp
  then have "int i - int j = 0" using assms(2,3) dvd_imp_le_int [of "int i - int j" "int (2 ^ 36)"] by fastforce
  then show ?thesis by simp
qed

lemma page_no_Suc: "page_no (v + PAGE_SIZE) i = page_no v (Suc i)"
  by (simp add: algebra_simps)

text \<open>The effect of mapping the fresh frames \<open>fs\<close> at the pages from \<open>v\<close> on.\<close>

definition fresh_run :: "pagemap_t \<Rightarrow> addr \<Rightarrow> addr list \<Rightarrow> u64 \<Rightarrow> 'a vmm_scheme \<Rightarrow> 'a vmm_scheme \<Rightarrow> bool" where
  "fresh_run root v fs fl s s' \<longleftrightarrow>
     vmm_inv root s' \<and> hhdm s' = hhdm s \<and> managed_frames s' = managed_frames s \<and> distinct fs \<and> set fs \<subseteq> free_frames s \<and> free_frames s' \<subseteq> free_frames s - set fs \<and>
     (\<forall>f\<in>set fs. f + hhdm s \<notin> footprint root s') \<and> footprint root s' \<subseteq> footprint root s \<and>
     (\<forall>i<length fs. pt_lookup root s' (page_no v i) = Some (leaf_entry (fs ! i) fl)) \<and>
     (\<forall>w. (\<forall>i<length fs. vpn w \<noteq> vpn (page_no v i)) \<longrightarrow> pt_lookup root s' w = pt_lookup root s w) \<and>
     (\<forall>f\<in>set fs. \<forall>x\<in>region (f + hhdm s) (2 ^ 12). mem s' x = 0) \<and>
     (\<forall>x. outside (footprint root s) x \<longrightarrow> mem s' x = mem s x)"

lemma fresh_run_Nil: "vmm_inv root s \<Longrightarrow> fresh_run root v [] fl s s"
  by (simp add: fresh_run_def)

lemma fresh_run_lookup:
  assumes g: "gets_page root v f fl s s1" and r: "fresh_run root (v + PAGE_SIZE) fs fl s1 s2" and n: "length fs < 2 ^ 35"
  shows "\<And>i. i < length (f # fs) \<Longrightarrow> pt_lookup root s2 (page_no v i) = Some (leaf_entry ((f # fs) ! i) fl)"
    and "\<And>w. (\<And>i. i < length (f # fs) \<Longrightarrow> vpn w \<noteq> vpn (page_no v i)) \<Longrightarrow> pt_lookup root s2 w = pt_lookup root s w"
proof -
  have run: "i < length fs \<Longrightarrow> pt_lookup root s2 (page_no v (Suc i)) = Some (leaf_entry (fs ! i) fl)" for i
    using r unfolding fresh_run_def page_no_Suc by blast
  have other: "pt_lookup root s2 w = pt_lookup root s1 w"
    if "\<And>i. i < length fs \<Longrightarrow> vpn w \<noteq> vpn (page_no v (Suc i))" for w
    using r that unfolding fresh_run_def page_no_Suc by blast
  have one: "pt_lookup root s1 w = (if vpn w = vpn v then Some (leaf_entry f fl) else pt_lookup root s w)" for w
    using g unfolding gets_page_def by blast
  show "pt_lookup root s2 (page_no v i) = Some (leaf_entry ((f # fs) ! i) fl)" if "i < length (f # fs)" for i
  proof (cases i)
    case 0
    have "vpn (page_no v 0) \<noteq> vpn (page_no v (Suc j))" if "j < length fs" for j
      using page_no_inj [of v 0 "Suc j"] that n by fastforce
    then show ?thesis using other [of v] one [of v] 0 by simp
  next
    case (Suc j)
    then show ?thesis using run [of j] that by simp
  qed
  show "pt_lookup root s2 w = pt_lookup root s w"
    if "\<And>i. i < length (f # fs) \<Longrightarrow> vpn w \<noteq> vpn (page_no v i)" for w
    using other [of w] one [of w] that [of 0] that [of "Suc _"] by simp
qed

lemma fresh_run_Cons:
  assumes inv: "vmm_inv root s" and g: "gets_page root v f fl s s1"
    and r: "fresh_run root (v + PAGE_SIZE) fs fl s1 s2" and n: "length fs < 2 ^ 35"
  shows "fresh_run root v (f # fs) fl s s2"
proof -
  have pm: "pmm_inv s" and hh: "hhdm_ok s" using inv by (auto simp: vmm_inv_def pt_inv_def)
  have f: "f \<in> free_frames s" and h: "hhdm s1 = hhdm s" and inv1: "vmm_inv root s1"
    using g by (auto simp: gets_page_def)
  have al: "page_aligned (f + hhdm s)" using frame_table(1) [OF pm hh] free_frames_subset [OF pm] f by blast
  have nf: "f + hhdm s \<notin> footprint root s1" using g by (simp add: gets_page_def)
  have sub: "footprint root s2 \<subseteq> footprint root s1" "footprint root s1 \<subseteq> footprint root s"
    using g r by (simp_all add: gets_page_def fresh_run_def)
  have kept: "mem s2 x = mem s1 x" if "outside (footprint root s1) x" for x
    using r that by (simp add: fresh_run_def)
  have "mem s2 x = 0" if "x \<in> region (f + hhdm s) (2 ^ 12)" for x
    using kept [OF page_outside [OF inv1 al nf that]] g that by (simp add: gets_page_def)
  moreover have "mem s2 x = mem s x" if "outside (footprint root s) x" for x
    using kept [OF outside_mono [OF sub(2) that]] g that by (simp add: gets_page_def)
  moreover have "\<forall>i<length (f # fs). pt_lookup root s2 (page_no v i) = Some (leaf_entry ((f # fs) ! i) fl)"
    using fresh_run_lookup(1) [OF g r n] by blast
  moreover have "\<forall>w. (\<forall>i<length (f # fs). vpn w \<noteq> vpn (page_no v i)) \<longrightarrow> pt_lookup root s2 w = pt_lookup root s w"
    using fresh_run_lookup(2) [OF g r n] by blast
  moreover have "distinct (f # fs)" "set (f # fs) \<subseteq> free_frames s" "free_frames s2 \<subseteq> free_frames s - set (f # fs)"
    using g r by (auto simp: gets_page_def fresh_run_def)
  moreover have "\<forall>g\<in>set (f # fs). g + hhdm s \<notin> footprint root s2" "footprint root s2 \<subseteq> footprint root s"
    using r nf sub h by (auto simp: fresh_run_def)
  moreover have "vmm_inv root s2" "hhdm s2 = hhdm s" "managed_frames s2 = managed_frames s"
    "\<forall>f\<in>set fs. \<forall>x\<in>region (f + hhdm s) (2 ^ 12). mem s2 x = 0"
    using g r h by (auto simp: gets_page_def fresh_run_def)
  ultimately show ?thesis unfolding fresh_run_def by auto
qed

end
