(* ===== verification/Syscall_Correct.thy ===== *)
theory Syscall_Correct
  imports Syscall Fresh_Pages Vmm_Copy
begin

text \<open>
  Anonymous memory: system call 31 through the handler, the process table, the frame allocator and the page tables.
\<close>

section \<open>What does not touch an address space\<close>

lemma vmm_more_fields:
  fixes s :: "'a proc_scheme"
  assumes "vmm.more s' = vmm.more s"
  shows "procs s' = procs s" "nodes s' = nodes s" "process_head s' = process_head s"
    "vmm.more (set_proc a p s') = vmm.more (set_proc a p s)"
  using assms
  by (cases s rule: proc.cases_scheme, cases s' rule: proc.cases_scheme, simp add: set_proc_def)+

lemma views_set_proc [simp]:
  "vmm_inv root (set_proc a p s) = vmm_inv root s" "pt_lookup root (set_proc a p s) = pt_lookup root s"
  "footprint root (set_proc a p s) = footprint root s" "free_frames (set_proc a p s) = free_frames s"
  "mem (set_proc a p s) = mem s" "hhdm (set_proc a p s) = hhdm s" "managed_frames (set_proc a p s) = managed_frames s"
  by (simp_all add: set_proc_def vmm_inv_def pt_inv_def pmm_inv_def irq_inv_def hhdm_ok_def tables_def managed_frames_def
      free_frames_def free_set_def footprint_def pt_lookup_def fun_eq_iff split: option.split)

lemma set_proc_simps [simp]:
  "procs (set_proc a p s) a = Some p" "set_proc a p (set_proc a q s) = set_proc a p s"
  by (simp_all add: set_proc_def)

lemma fresh_run_set_proc: "fresh_run root v fs fl (set_proc a p s) s' = fresh_run root v fs fl s s'"
  by (simp add: fresh_run_def)

abbreviation "user_flags \<equiv> PTE_PRESENT OR PTE_USER OR PTE_WRITABLE OR PTE_NX"

abbreviation "moved_heap p n \<equiv> p\<lparr>user_heap_position := page_no (user_heap_position p) n\<rparr>"

lemma mmap_anon_ok:
  fixes s :: "'a proc_scheme"
  assumes "vmm_inv (proc_pagemap p) s" "procs s a = Some p" "n \<le> 2 ^ 32"
  shows "(\<exists>fs s'. mmap_anon n a s = ret s' \<and> length fs = n \<and>
      fresh_run (proc_pagemap p) (user_heap_position p) fs user_flags s s' \<and>
      vmm.more s' = vmm.more (set_proc a (moved_heap p n) s)) \<or>
    mmap_anon n a s = fails (Panic ''out of memory in pmm_allocate!'') \<and> card (free_frames s) < 4 * n"
  using assms
proof (induction n arbitrary: p s)
  case 0
  then have "set_proc a (moved_heap p 0) s = s" by (simp add: set_proc_def fun_upd_idem)
  then show ?case using fresh_run_Nil [OF "0"(1)] by (auto intro!: exI [of _ "[]"])
next
  case (Suc n)
  let ?root = "proc_pagemap p" and ?v = "user_heap_position p"
  show ?case
  proof (cases rule: alloc_map_cases [OF Suc.prems(1), where v = ?v and fl = user_flags])
    case 1
    then show ?thesis by simp
  next
    case (2 f s1)
    then have "procs s1 a = Some p" using vmm_more_fields(1) Suc.prems(2) by metis
    then show ?thesis using 2 by (simp add: get_proc_def)
  next
    case (3 f s1 s2)
    let ?p = "p\<lparr>user_heap_position := ?v + PAGE_SIZE\<rparr>"
    let ?s = "set_proc a ?p s2"
    have p1: "procs s1 a = Some p" using vmm_more_fields(1) [OF 3(3)] Suc.prems(2) by simp
    have run: "mmap_anon (Suc n) a s = mmap_anon n a ?s" using 3 p1 by (simp add: get_proc_def)
    have inv: "vmm_inv (proc_pagemap ?p) ?s" and more: "vmm.more s2 = vmm.more s"
      and c: "card (free_frames s) \<le> 4 + card (free_frames s2)" using 3(5) by (simp_all add: gets_page_def)
    have mv: "moved_heap ?p n = moved_heap p (Suc n)" using page_no_Suc [of ?v n] by simp
    consider fs s' where "mmap_anon n a ?s = ret s'" "length fs = n"
        "fresh_run ?root (?v + PAGE_SIZE) fs user_flags s2 s'" "vmm.more s' = vmm.more (set_proc a (moved_heap ?p n) ?s)"
      | "mmap_anon n a ?s = fails (Panic ''out of memory in pmm_allocate!'')" "card (free_frames s2) < 4 * n"
      using Suc.IH [OF inv] Suc.prems(3) by (auto simp: fresh_run_set_proc)
    then show ?thesis
    proof cases
      case (1 fs s')
      have "fresh_run ?root ?v (f # fs) user_flags s s'"
        using fresh_run_Cons [OF Suc.prems(1) 3(5) 1(3)] 1(2) Suc.prems(3) by simp
      moreover have "vmm.more s' = vmm.more (set_proc a (moved_heap p (Suc n)) s)"
        using 1(4) vmm_more_fields(4) [OF more] unfolding mv by simp
      ultimately show ?thesis using run 1(1,2) by (intro disjI1 exI [of _ "f # fs"] exI [of _ s']) simp
    next
      case 2
      then show ?thesis using run c by simp
    qed
  qed
qed

section \<open>Through the handler\<close>

lemma views_sync [simp]:
  fixes s :: "'a vmm_scheme"
  shows "pt_lookup root (int_disable s) = pt_lookup root s" "footprint root (int_disable s) = footprint root s"
    "free_frames (int_disable s) = free_frames s" "vmm.more (int_disable s) = vmm.more s"
    "pt_lookup root (int_resume s) = pt_lookup root s" "footprint root (int_resume s) = footprint root s"
    "free_frames (int_resume s) = free_frames s" "vmm.more (int_resume s) = vmm.more s"
proof -
  show fr: "free_frames (int_disable s) = free_frames s" "free_frames (int_resume s) = free_frames s"
    by (simp_all add: free_frames_def free_set_def)
  show "pt_lookup root (int_disable s) = pt_lookup root s" "pt_lookup root (int_resume s) = pt_lookup root s"
    "footprint root (int_disable s) = footprint root s" "footprint root (int_resume s) = footprint root s"
    by (simp_all add: fr pt_lookup_def footprint_def fun_eq_iff split: option.split)
  show "vmm.more (int_disable s) = vmm.more s" "vmm.more (int_resume s) = vmm.more s"
    by (simp_all add: int_disable_def int_resume_def Let_def)
qed

lemma vmm_inv_sync:
  fixes s :: "'a vmm_scheme"
  assumes "vmm_inv root s"
  shows "vmm_inv root (int_disable s)" "vmm_inv root (int_resume s)"
proof -
  have lock: "vmm_lock (int_disable s) = vmm_lock s" "vmm_lock (int_resume s) = vmm_lock s"
    by (simp_all add: int_disable_def int_resume_def Let_def)
  show "vmm_inv root (int_disable s)" "vmm_inv root (int_resume s)"
    using assms lock irq_inv_ops
    by (auto simp: vmm_inv_def pt_inv_def pmm_inv_def hhdm_ok_def tables_def managed_frames_def free_frames_def free_set_def)
qed

lemma vmm_inv_high_store:
  assumes inv: "vmm_inv root s" and hi: "unat (hhdm s) + 2 ^ 35 \<le> unat a" "unat a + 8 \<le> 2 ^ 64"
  shows "vmm_inv root (s\<lparr>mem := store64 (mem s) a v\<rparr>)"
proof -
  let ?s = "s\<lparr>mem := store64 (mem s) a v\<rparr>"
  have pm: "pmm_inv s" and hh: "hhdm_ok s" and tr: "tree (entry (mem s)) (hhdm s) root (tables s)"
    using inv by (auto simp: vmm_inv_def pt_inv_def)
  have ent: "entry (mem ?s) t i = entry (mem s) t i" if h: "t \<in> tables s" "i < 512" for t i
  proof -
    obtain f where f: "t = f + hhdm s" "f \<in> managed_frames s" using h(1) by (auto simp: tables_def)
    have "x \<notin> region a 8" if "x \<in> region t (2 ^ 12)" for x
      using frame_below [OF pm hh f(2), of x] that hi by (auto simp: f(1) region_iff unat_sub_if')
    then show ?thesis
      by (intro entry_outside [OF tables_aligned(1) [OF pm hh h(1)] h(2)]) (simp add: store64_outside)
  qed
  have "tree (entry (mem ?s)) (hhdm s) root (tables s)" using tree_agree [OF tr ent] .
  moreover have "pmm_inv ?s = pmm_inv s" "hhdm_ok ?s = hhdm_ok s" "tables ?s = tables s"
    by (simp_all add: pmm_inv_def irq_inv_def hhdm_ok_def tables_def managed_frames_def free_frames_def free_set_def)
  ultimately show ?thesis using inv by (simp add: vmm_inv_def pt_inv_def)
qed

definition pages_for :: "u64 \<Rightarrow> nat" where
  "pages_for len = (unat len + 4095) div 4096"

lemma heap_pages:
  assumes "unat len < 2 ^ 43"
  shows "unat (ucast (ALIGN_UP len PAGE_SIZE div PAGE_SIZE) :: u32) = (unat len + 4095) div 4096"
proof -
  have n: "unat (len + 4095) = unat len + 4095" using assms by (simp add: unat_word_ariths)
  have "ALIGN_UP len PAGE_SIZE div PAGE_SIZE = drop_bit 12 ((len + 4095) AND NOT (mask 12))"
    unfolding ALIGN_UP_def page_mask by (simp add: PAGE_SIZE_def drop_bit_eq_div algebra_simps)
  also have "\<dots> = drop_bit 12 (len + 4095)" by (rule bit_word_eqI) (auto simp: bit_simps dest: bit_imp_le_length)
  finally have "unat (ALIGN_UP len PAGE_SIZE div PAGE_SIZE) = (unat len + 4095) div 4096"
    by (simp add: drop_bit_eq_div unat_div n)
  then show ?thesis using assms by (simp add: unsigned_ucast_eq take_bit_eq_mod)
qed


lemma managed_frames_sync [simp]: "managed_frames (int_disable s) = managed_frames s" "managed_frames (int_resume s) = managed_frames s"
  by (simp_all add: managed_frames_def)

lemma fresh_run_int_disable:
  fixes s :: "'a vmm_scheme"
  shows "fresh_run root v fs fl ((int_disable s)\<lparr>mem := m\<rparr>) s' \<Longrightarrow> fresh_run root v fs fl (s\<lparr>mem := m\<rparr>) (int_resume s')"
proof -
  have eq: "(int_disable s)\<lparr>mem := m\<rparr> = int_disable (s\<lparr>mem := m\<rparr>)" by (simp add: int_disable_def Let_def)
  show "fresh_run root v fs fl ((int_disable s)\<lparr>mem := m\<rparr>) s' \<Longrightarrow> fresh_run root v fs fl (s\<lparr>mem := m\<rparr>) (int_resume s')"
    unfolding eq fresh_run_def using vmm_inv_sync(2) [of root s'] by (simp add: managed_frames_def)
qed

text \<open>
  C6. System call 31 without a file (descriptor -1), for \<open>len\<close> bytes: either it maps the \<open>n\<close> pages that hold
  \<open>len\<close> bytes, from the heap position of the current process on, to \<open>n\<close> distinct frames that were free, writable
  for the process and not executable, all zero, moves the heap position behind them and returns the old one in
  \<open>rax\<close> cut to 32 bits with its sign; every other page of the process stays as it was, no frame of a page can be
  handed out again, and nothing but page tables, frames that were free and the process record changes. Or fewer
  than \<open>4 n\<close> frames were free and the kernel panics.
\<close>

theorem mmap_anonymous_correct:
  fixes s :: "'a fsys_scheme"
  assumes "vmm_inv (proc_pagemap p) s" "process_get_current s = ret a" "procs s a = Some p"
    "sr_rax r = 31" "int_of_slot (sr_r8 r) = - 1" "unat (sr_rsi r) < 2 ^ 43"
    "unat (hhdm s) + 2 ^ 35 \<le> unat (env_size env)" "unat (env_size env) + 8 \<le> 2 ^ 64"
  shows "(\<exists>fs s'. syscall_handler env r s =
        ret (r\<lparr>sr_rax := word_of_int (int_of_slot (user_heap_position p))\<rparr>, s') \<and> length fs = pages_for (sr_rsi r) \<and>
      fresh_run (proc_pagemap p) (user_heap_position p) fs user_flags
        (s\<lparr>mem := store64 (mem s) (env_size env) (sr_rsi r)\<rparr>) s' \<and>
      vmm.more s' = vmm.more (set_proc a (moved_heap p (pages_for (sr_rsi r))) s)) \<or>
    syscall_handler env r s = fails (Panic ''out of memory in pmm_allocate!'') \<and> card (free_frames s) < 4 * pages_for (sr_rsi r)"
proof -
  let ?m = "store64 (mem s) (env_size env) (sr_rsi r)"
  let ?s = "(int_disable s)\<lparr>mem := ?m\<rparr>"
  have more: "vmm.more ?s = vmm.more s" using views_sync(4) [of s] by simp
  note f = vmm_more_fields [OF more]
  have inv: "vmm_inv (proc_pagemap p) ?s"
    using vmm_inv_high_store [OF vmm_inv_sync(1) [OF assms(1)], of "env_size env" "sr_rsi r"] assms(7,8) by simp
  have cur: "process_get_current ?s = ret a"
    using assms(2) f(2,3) by (simp add: process_get_current_def get_node_def split: if_splits)
  have handler: "syscall_handler env r s = finish r (rbind (mmap_anon (pages_for (sr_rsi r)) a ?s) (\<lambda>s. ret (int_of_slot (user_heap_position p), s)))"
    using assms(3-5) cur f(1) heap_pages [OF assms(6)]
    by (simp add: syscall_handler_def syscall_mmap_def Let_def get_proc_def pages_for_def)
  have fr: "free_frames ?s = free_frames s" by (simp add: free_frames_def free_set_def)
  have "pages_for (sr_rsi r) \<le> 2 ^ 32" "procs ?s a = Some p" using assms(3,6) f(1) by (simp_all add: pages_for_def)
  from mmap_anon_ok [OF inv this(2,1)] consider fs s' where "mmap_anon (pages_for (sr_rsi r)) a ?s = ret s'" "length fs = pages_for (sr_rsi r)"
      "fresh_run (proc_pagemap p) (user_heap_position p) fs user_flags ?s s'"
      "vmm.more s' = vmm.more (set_proc a (moved_heap p (pages_for (sr_rsi r))) ?s)"
    | "mmap_anon (pages_for (sr_rsi r)) a ?s = fails (Panic ''out of memory in pmm_allocate!'')" "card (free_frames s) < 4 * pages_for (sr_rsi r)"
    using fr by auto
  then show ?thesis
  proof cases
    case (1 fs s')
    then show ?thesis
      using handler fresh_run_int_disable f(4)
      by (intro disjI1 exI [of _ fs] exI [of _ "int_resume s'"]) (simp add: finish_def)
  next
    case 2
    then show ?thesis using handler by (simp add: finish_def)
  qed
qed

section \<open>An instance\<close>

text \<open>One process with the empty address space of \<open>vmm_example\<close>, and the frame of a call for one byte.\<close>

definition user_example :: process_t where
  "user_example = zero_process\<lparr>proc_pagemap := root_example, user_heap_position := 0x400000\<rparr>"

definition syscall_example :: "'a fsys_scheme \<Rightarrow> 'a fsys_scheme" where
  "syscall_example s = (vmm.extend vmm_example (vmm.more s))\<lparr>process_head := 0x9000,
     nodes := [0x9000 \<mapsto> \<lparr>node_process = 0xA000, node_next = 0x9000\<rparr>], procs := [0xA000 \<mapsto> user_example]\<rparr>"

definition mmap_frame :: sysregs_t where
  "mmap_frame = \<lparr>sr_r15 = 0, sr_r14 = 0, sr_r13 = 0, sr_r12 = 0, sr_r11 = 0, sr_r10 = 0, sr_r9 = 0, sr_r8 = 0xFFFFFFFF,
     sr_rbp = 0, sr_rdi = 0, sr_rsi = 1, sr_rdx = 0, sr_rcx = 0, sr_rbx = 0, sr_rax = 31\<rparr>"

lemma syscall_example_views:
  "vmm_inv root_example (syscall_example s)" "free_frames (syscall_example s) = free_frames vmm_example"
proof -
  let ?s = "syscall_example s"
  have fields: "mem ?s = mem vmm_example" "hhdm ?s = hhdm vmm_example" "bitmap ?s = bitmap vmm_example"
    "highest_page ?s = highest_page vmm_example" "used_pages ?s = used_pages vmm_example"
    "free_pages ?s = free_pages vmm_example" "total_ram_pages ?s = total_ram_pages vmm_example"
    "pmm_lock ?s = pmm_lock vmm_example" "vmm_lock ?s = vmm_lock vmm_example" "if_flag ?s = if_flag vmm_example"
    "sync_depth ?s = sync_depth vmm_example"
    by (simp_all add: syscall_example_def vmm.defs)
  show fr: "free_frames ?s = free_frames vmm_example" by (simp add: free_frames_def free_set_def fields)
  show "vmm_inv root_example ?s"
    using vmm_inv_example
    unfolding vmm_inv_def pt_inv_def pmm_inv_def irq_inv_def hhdm_ok_def tables_def managed_frames_def free_set_def fr fields .
qed

theorem mmap_anonymous_correct_witness:
  "\<forall>s env. \<exists>f s'. syscall_handler (env\<lparr>env_size := 0xFFFFFFFFC0000000\<rparr>) mmap_frame (syscall_example s) =
      ret (mmap_frame\<lparr>sr_rax := 0x400000\<rparr>, s') \<and>
    pt_lookup root_example s' 0x400000 = Some (leaf_entry f user_flags)"
proof (intro allI)
  fix s :: "'a fsys_scheme" and env :: sys_env
  let ?env = "env\<lparr>env_size := 0xFFFFFFFFC0000000\<rparr>"
  have p: "proc_pagemap user_example = root_example" "user_heap_position user_example = 0x400000"
    by (simp_all add: user_example_def)
  have cur: "process_get_current (syscall_example s) = ret 0xA000" "procs (syscall_example s) 0xA000 = Some user_example"
    by (simp_all add: syscall_example_def process_get_current_def get_node_def)
  have h: "hhdm (syscall_example s) = 0xFFFF800000000000"
    by (simp add: syscall_example_def vmm.defs vmm_example_def)
  have r: "sr_rax mmap_frame = 31" "int_of_slot (sr_r8 mmap_frame) = - 1" "sr_rsi mmap_frame = 1"
    by (simp_all add: mmap_frame_def int_of_slot_def)
  have n: "pages_for 1 = 1" "int_of_slot 0x400000 = 0x400000" by (simp_all add: pages_for_def int_of_slot_def)
  have "vmm_inv (proc_pagemap user_example) (syscall_example s)" using syscall_example_views(1) p by simp
  from mmap_anonymous_correct [OF this cur r(1,2), of ?env] obtain fs s' where
    "syscall_handler ?env mmap_frame (syscall_example s) =
      ret (mmap_frame\<lparr>sr_rax := word_of_int (int_of_slot 0x400000)\<rparr>, s')" "length fs = 1"
    "fresh_run root_example 0x400000 fs user_flags
      ((syscall_example s)\<lparr>mem := store64 (mem (syscall_example s)) (env_size ?env) 1\<rparr>) s'"
    unfolding r(3) n h p syscall_example_views(2) card_free_vmm_example by auto
  then show "\<exists>f s'. syscall_handler ?env mmap_frame (syscall_example s) = ret (mmap_frame\<lparr>sr_rax := 0x400000\<rparr>, s') \<and>
      pt_lookup root_example s' 0x400000 = Some (leaf_entry f user_flags)"
    unfolding n by (intro exI [of _ "fs ! 0"] exI [of _ s']) (auto simp: fresh_run_def dest: spec [where x = 0])
qed

end
