(* ===== verification/Elf_Correct.thy ===== *)
theory Elf_Correct
  imports Elf Fresh_Pages Vmm_Copy
begin

text \<open>
  Loading a program: after \<open>elf64_load\<close> the bytes behind the addresses of every segment are the bytes of the file,
  followed by zeros, in fresh frames with the permissions of the segment.
\<close>

section \<open>Mapping the pages of a segment\<close>

lemma unat_page_no:
  assumes "unat v + i * 4096 < 2 ^ 64"
  shows "unat (page_no v i) = unat v + i * 4096"
proof -
  have "unat (of_nat i * PAGE_SIZE) = i * 4096"
    using assms by (simp add: PAGE_SIZE_def unat_word_ariths unsigned_of_nat take_bit_eq_mod)
  then show ?thesis using assms by (simp add: unat_add_lt)
qed

lemma map_segment_run:
  fixes s :: "'a vmm_scheme"
  assumes "vmm_inv root s" "n < 2 ^ 35" "unat v + n * 4096 < 2 ^ 64"
    "\<And>i. i < n \<Longrightarrow> pt_lookup root s (page_no v i) = None"
  shows "(\<exists>fs s'. map_segment root fl v (page_no v n) s = ret s' \<and> length fs = n \<and> fresh_run root v fs fl s s' \<and>
      vmm.more s' = vmm.more s \<and> card (free_frames s) \<le> 4 * n + card (free_frames s')) \<or>
    map_segment root fl v (page_no v n) s = fails (Panic ''out of memory in pmm_allocate!'') \<and> card (free_frames s) < 4 * n"
  using assms
proof (induction n arbitrary: v s)
  case 0
  then show ?case using fresh_run_Nil [OF "0.prems"(1)] by (subst map_segment.simps) (auto intro!: exI [of _ "[]"])
next
  case (Suc n)
  have lt: "v < page_no v (Suc n)" using unat_page_no [OF Suc.prems(3)] by (simp add: word_less_nat_alt)
  have "pt_lookup root s v = None" using Suc.prems(4) [of 0] by simp
  then have free: "vmm_virt_to_phys root v s = ret (0, s)"
    using virt_to_phys_lookup [of root s v] Suc.prems(1) by (simp add: vmm_inv_def)
  have step: "map_segment root fl v (page_no v (Suc n)) s =
      rbind (pmm_allocate s) (\<lambda>(page, s). rbind (ASSERT (page \<noteq> 0)) (\<lambda>_.
      rbind (vmm_map_page root v page fl s) (\<lambda>(_, s). map_segment root fl (v + PAGE_SIZE) (page_no v (Suc n)) s)))"
    using lt free by (subst map_segment.simps) simp
  show ?case
  proof (cases rule: alloc_map_cases [OF Suc.prems(1), where v = v and fl = fl])
    case 1
    then show ?thesis unfolding step by simp
  next
    case (2 f s1)
    then show ?thesis unfolding step by simp
  next
    case (3 f s1 s2)
    have g: "vmm_inv root s2" "vmm.more s2 = vmm.more s" "card (free_frames s) \<le> 4 + card (free_frames s2)"
      and look: "\<And>w. pt_lookup root s2 w = (if vpn w = vpn v then Some (leaf_entry f fl) else pt_lookup root s w)"
      using 3(5) by (simp_all add: gets_page_def)
    have next_none: "pt_lookup root s2 (page_no (v + PAGE_SIZE) i) = None" if "i < n" for i
    proof -
      have "vpn (page_no v (Suc i)) \<noteq> vpn (page_no v 0)" using page_no_inj [of v "Suc i" 0] that Suc.prems(2) by fastforce
      then show ?thesis using look Suc.prems(4) [of "Suc i"] that unfolding page_no_Suc by simp
    qed
    have rng: "unat (v + PAGE_SIZE) + n * 4096 < 2 ^ 64"
      using unat_page_no [of v 1] Suc.prems(3) by simp
    have run: "map_segment root fl v (page_no v (Suc n)) s = map_segment root fl (v + PAGE_SIZE) (page_no (v + PAGE_SIZE) n) s2"
      using 3 by (simp only: step page_no_Suc) simp
    from Suc.IH [OF g(1) _ rng next_none] Suc.prems(2)
    consider fs s' where "map_segment root fl (v + PAGE_SIZE) (page_no (v + PAGE_SIZE) n) s2 = ret s'" "length fs = n"
        "fresh_run root (v + PAGE_SIZE) fs fl s2 s'" "vmm.more s' = vmm.more s2"
        "card (free_frames s2) \<le> 4 * n + card (free_frames s')"
      | "map_segment root fl (v + PAGE_SIZE) (page_no (v + PAGE_SIZE) n) s2 = fails (Panic ''out of memory in pmm_allocate!'')"
        "card (free_frames s2) < 4 * n"
      by auto
    then show ?thesis
    proof cases
      case (1 fs s')
      have "fresh_run root v (f # fs) fl s s'"
        using fresh_run_Cons [OF Suc.prems(1) 3(5) 1(3)] 1(2) Suc.prems(2) by simp
      then show ?thesis using 1 run g by (intro disjI1 exI [of _ "f # fs"] exI [of _ s']) simp
    next
      case 2
      then show ?thesis using run g(3) by simp
    qed
  qed
qed

section \<open>The bytes behind fresh pages\<close>

lemma vpn_in_page:
  assumes "page_aligned v"
  shows "vpn (v + of_nat j) = vpn (page_no v (j div 4096))"
proof -
  have "unat (page_no v (j div 4096)) mod 4096 = 0"
    using assms by (simp add: PAGE_SIZE_def unat_word_ariths unsigned_of_nat take_bit_eq_mod mod_mod_cancel mod_add_eq
        dvd_imp_mod_0 mod_simps)
  moreover have "v + of_nat j = page_no v (j div 4096) + of_nat (j mod 4096)"
  proof -
    have "of_nat j = (of_nat (j div 4096 * 4096 + j mod 4096) :: u64)" by simp
    then show ?thesis by (simp only: of_nat_add of_nat_mult) (simp add: PAGE_SIZE_def)
  qed
  ultimately show ?thesis using within_page(1) [of "page_no v (j div 4096)" "j mod 4096"] by (simp add: add.assoc)
qed

lemma frame_of_run:
  assumes inv: "vmm_inv root s" and run: "fresh_run root v fs fl s s'" and v: "page_aligned v"
    and fl: "fl AND PTE_ADDR_MASK = 0" and j: "j < length fs * 4096"
  shows "frame_addr root s' (v + of_nat j) = fs ! (j div 4096)" "j div 4096 < length fs"
    "pt_lookup root s' (v + of_nat j) = Some (leaf_entry (fs ! (j div 4096)) fl)"
proof -
  show lt: "j div 4096 < length fs" using j by (simp add: less_mult_imp_div_less)
  let ?f = "fs ! (j div 4096)"
  have pm: "pmm_inv s" using inv by (auto simp: vmm_inv_def pt_inv_def)
  have "?f \<in> free_frames s" using run lt nth_mem by (auto simp: fresh_run_def)
  then have f: "?f \<in> managed_frames s" using free_frames_subset [OF pm] by blast
  have al: "page_aligned ?f" and "unat ?f < 2 ^ 52"
    using managed_frame(1,2) [OF pm f] by simp_all
  then have "PTE_GET_ADDR (leaf_entry ?f fl) = ?f"
    using PTE_GET_ADDR_leaf [OF _ fl] unfolding page_mask by (simp add: word_unat_eq_iff unat_and_not_mask)
  moreover show "pt_lookup root s' (v + of_nat j) = Some (leaf_entry ?f fl)"
    using run lt pt_lookup_cong [OF vpn_in_page [OF v], of root s' j] by (simp add: fresh_run_def)
  ultimately show "frame_addr root s' (v + of_nat j) = ?f" by (simp add: frame_addr_def)
qed

lemma reach_footprint: "reach root s \<subseteq> footprint root s"
  by (auto simp: reach_def footprint_def)

lemma data_range_run:
  assumes inv: "vmm_inv root s" and run: "fresh_run root v fs fl s s'" and v: "page_aligned v"
    and fl: "fl AND PTE_ADDR_MASK = 0" and k: "k + n \<le> length fs * 4096"
  shows "data_range root s' (v + of_nat k) n"
    "i < n \<Longrightarrow> frame_addr root s' (v + of_nat k + of_nat i) \<in> set fs"
    "i < n \<Longrightarrow> pt_lookup root s' (v + of_nat k + of_nat i) = Some (leaf_entry (frame_addr root s' (v + of_nat k + of_nat i)) fl)"
proof -
  have pm: "pmm_inv s" using inv by (auto simp: vmm_inv_def pt_inv_def)
  have at: "frame_addr root s' (v + of_nat k + of_nat i) = fs ! ((k + i) div 4096)" "(k + i) div 4096 < length fs"
    "pt_lookup root s' (v + of_nat k + of_nat i) = Some (leaf_entry (fs ! ((k + i) div 4096)) fl)" if "i < n" for i
  proof -
    have "k + i < length fs * 4096" using that k by linarith
    from frame_of_run [OF inv run v fl this]
    show "frame_addr root s' (v + of_nat k + of_nat i) = fs ! ((k + i) div 4096)" "(k + i) div 4096 < length fs"
      "pt_lookup root s' (v + of_nat k + of_nat i) = Some (leaf_entry (fs ! ((k + i) div 4096)) fl)"
      by (simp_all only: of_nat_add add.assoc)
  qed
  have mem: "frame_addr root s' (v + of_nat k + of_nat i) \<in> set fs" if "i < n" for i
    unfolding at(1) [OF that] using at(2) [OF that] by (rule nth_mem)
  then show "i < n \<Longrightarrow> frame_addr root s' (v + of_nat k + of_nat i) \<in> set fs" .
  show "i < n \<Longrightarrow> pt_lookup root s' (v + of_nat k + of_nat i) = Some (leaf_entry (frame_addr root s' (v + of_nat k + of_nat i)) fl)"
    by (simp only: at)
  have r: "hhdm s' = hhdm s" "managed_frames s' = managed_frames s" "set fs \<subseteq> free_frames s" "distinct fs"
    "\<forall>f\<in>set fs. f + hhdm s \<notin> footprint root s'"
    using run unfolding fresh_run_def by blast+
  have sub: "set fs \<subseteq> managed_frames s'" using r(3) free_frames_subset [OF pm] unfolding r(2) by (rule subset_trans)
  have out: "f + hhdm s' \<notin> reach root s'" if "f \<in> set fs" for f
    using bspec [OF r(5) that] reach_footprint unfolding r(1) by blast
  note dist = r(4)
  have vp: "vpn (v + of_nat k + of_nat i) = vpn (page_no v ((k + i) div 4096))" for i
    using vpn_in_page [OF v, of "k + i"] by (simp only: of_nat_add add.assoc)
  have "vpn (v + of_nat k + of_nat i) = vpn (v + of_nat k + of_nat j)"
    if "i < n" "j < n" "frame_addr root s' (v + of_nat k + of_nat i) = frame_addr root s' (v + of_nat k + of_nat j)" for i j
  proof -
    have "fs ! ((k + i) div 4096) = fs ! ((k + j) div 4096)" using that(3) unfolding at(1) [OF that(1)] at(1) [OF that(2)] .
    then have "(k + i) div 4096 = (k + j) div 4096"
      unfolding nth_eq_iff_index_eq [OF dist at(2) [OF that(1)] at(2) [OF that(2)]] .
    then show ?thesis by (simp only: vp)
  qed
  moreover have "frame_addr root s' (v + of_nat k + of_nat i) \<in> managed_frames s'"
    "frame_addr root s' (v + of_nat k + of_nat i) + hhdm s' \<notin> reach root s'" if "i < n" for i
    using subsetD [OF sub mem [OF that]] out [OF mem [OF that]] by simp_all
  ultimately show "data_range root s' (v + of_nat k) n" unfolding data_range_def by blast
qed

lemma phys_view_in_frame: "phys_view root s v \<in> region (frame_addr root s v + hhdm s) (2 ^ 12)"
  using phys_view_page [of v 1 root s] by (auto simp: region_def)

text \<open>Writing bytes of a data range keeps the address space.\<close>

lemma write_range:
  assumes inv: "vmm_inv root s" and dr: "data_range root s v n"
    and m: "\<forall>x. x \<notin> (\<lambda>i. phys_view root s (v + of_nat i)) ` {..<n} \<longrightarrow> m x = mem s x"
  shows "vmm_inv root (s\<lparr>mem := m, vmm_lock := unlocked\<rparr>)"
    "pt_lookup root (s\<lparr>mem := m, vmm_lock := unlocked\<rparr>) = pt_lookup root s"
    "footprint root (s\<lparr>mem := m, vmm_lock := unlocked\<rparr>) = footprint root s"
    "data_range root (s\<lparr>mem := m, vmm_lock := unlocked\<rparr>) virt k = data_range root s virt k"
    "frame_addr root (s\<lparr>mem := m, vmm_lock := unlocked\<rparr>) virt = frame_addr root s virt"
    "phys_view root (s\<lparr>mem := m, vmm_lock := unlocked\<rparr>) virt = phys_view root s virt"
proof -
  let ?F = "(\<lambda>i. frame_addr root s (v + of_nat i)) ` {..<n}"
  have pt: "pt_inv root s" using inv by (simp add: vmm_inv_def)
  note wr = write_data_frames [OF pt, of ?F m]
  have f: "f \<in> managed_frames s \<and> f + hhdm s \<notin> reach root s" if "f \<in> ?F" for f
    using dr that by (auto simp: data_range_def)
  have keep: "m x = mem s x" if "\<And>f. f \<in> ?F \<Longrightarrow> x \<notin> region (f + hhdm s) (2 ^ 12)" for x
  proof (rule m [rule_format], rule notI)
    assume "x \<in> (\<lambda>i. phys_view root s (v + of_nat i)) ` {..<n}"
    then obtain i where i: "i < n" "x = phys_view root s (v + of_nat i)" by auto
    show False using that [of "frame_addr root s (v + of_nat i)"] phys_view_in_frame [of root s "v + of_nat i"] i by simp
  qed
  note w = wr [OF f keep]
  show "vmm_inv root (s\<lparr>mem := m, vmm_lock := unlocked\<rparr>)" using w(1) by (simp add: vmm_inv_def)
  show "pt_lookup root (s\<lparr>mem := m, vmm_lock := unlocked\<rparr>) = pt_lookup root s" using w(2) by (simp add: fun_eq_iff)
  show "data_range root (s\<lparr>mem := m, vmm_lock := unlocked\<rparr>) virt k = data_range root s virt k"
    "frame_addr root (s\<lparr>mem := m, vmm_lock := unlocked\<rparr>) virt = frame_addr root s virt"
    "phys_view root (s\<lparr>mem := m, vmm_lock := unlocked\<rparr>) virt = phys_view root s virt"
    using views_mem [OF w(2,3)] by simp_all
  have "footprint root (s\<lparr>mem := m\<rparr>) = footprint root s"
    using w(3) unfolding footprint_def reach_def by (simp add: free_frames_def free_set_def)
  then show "footprint root (s\<lparr>mem := m, vmm_lock := unlocked\<rparr>) = footprint root s" by simp
qed

section \<open>Filling a segment\<close>

lemma data_range_sub:
  assumes "data_range root s v n" "a + b \<le> n"
  shows "data_range root s (v + of_nat a) b"
proof -
  have at: "v + of_nat a + of_nat i = v + of_nat (a + i)" for i by simp
  have lt: "a + i < n" if "i < b" for i using that assms(2) by simp
  show ?thesis using assms(1) lt unfolding data_range_def at by blast
qed

text \<open>The copy and the zero fill together, as \<open>elf64_load\<close> calls them.\<close>

lemma copy_zero_fills:
  fixes s :: "'a vmm_scheme"
  assumes inv: "vmm_inv root s" and dr: "data_range root s v (unat msz)" and n: "unat msz \<le> 2 ^ 48"
    and le: "fsz \<le> msz" and src: "source_ok root s v src (unat fsz)"
  shows "\<exists>m. rbind (vmm_map_copy root v src fsz s) (\<lambda>s. if fsz < msz then vmm_map_zero root (v + fsz) (msz - fsz) s else ret s) =
      ret (s\<lparr>mem := m, vmm_lock := unlocked\<rparr>) \<and>
    (\<forall>i<unat msz. m (phys_view root s (v + of_nat i)) = (if i < unat fsz then mem s (src + of_nat i) else 0)) \<and>
    (\<forall>x. x \<notin> (\<lambda>i. phys_view root s (v + of_nat i)) ` {..<unat msz} \<longrightarrow> m x = mem s x)"
proof -
  let ?p = "\<lambda>i. phys_view root s (v + of_nat i)" and ?k = "unat fsz" and ?n = "unat msz"
  have kn: "?k \<le> ?n" using le by (simp add: word_le_nat_alt)
  have dk: "data_range root s v ?k" using data_range_sub [OF dr, of 0 ?k] kn by simp
  obtain m where m: "vmm_map_copy root v src fsz s = ret (s\<lparr>mem := m, vmm_lock := unlocked\<rparr>)"
    "\<And>i. i < ?k \<Longrightarrow> m (?p i) = mem s (src + of_nat i)" "\<forall>x. x \<notin> ?p ` {..<?k} \<longrightarrow> m x = mem s x"
    using map_copy_fills [OF inv dk _ src] kn n by auto
  let ?s = "s\<lparr>mem := m, vmm_lock := unlocked\<rparr>"
  note w = write_range [OF inv dk m(3)]
  show ?thesis
  proof (cases "fsz < msz")
    case False
    then have "msz = fsz" using le by simp
    then show ?thesis using m by (intro exI [of _ m]) simp
  next
    case True
    have z: "unat (msz - fsz) = ?n - ?k" using le by (simp add: unat_sub)
    have "data_range root ?s (v + of_nat ?k) (?n - ?k)"
      using data_range_sub [OF dr, of ?k "?n - ?k"] kn unfolding w(4) by simp
    then have dz: "data_range root ?s (v + fsz) (unat (msz - fsz))" by (simp add: z)
    define P where "P i = ?p i" for i
    have sh: "phys_view root s (v + fsz + of_nat i) = P (?k + i)" for i by (simp add: P_def add.assoc)
    have nk: "?n - ?k \<le> 2 ^ 48" using n by simp
    obtain m' where m': "vmm_map_zero root (v + fsz) (msz - fsz) ?s = ret (?s\<lparr>mem := m', vmm_lock := unlocked\<rparr>)"
      "\<And>i. i < ?n - ?k \<Longrightarrow> m' (P (?k + i)) = 0"
      "\<And>x. x \<notin> (\<lambda>i. P (?k + i)) ` {..<?n - ?k} \<Longrightarrow> m' x = m x"
      using map_zero_fills [OF w(1) dz] nk unfolding w(6) z sh by auto
    have pt: "pt_inv root s" using inv by (simp add: vmm_inv_def)
    have inj: "i = j" if "i < ?n" "j < ?n" "P i = P j" for i j
      using data_range_inj [OF pt dr that(1,2) n] that(3) unfolding P_def .
    have "m' (P i) = (if i < ?k then mem s (src + of_nat i) else 0)" if i: "i < ?n" for i
    proof (cases "i < ?k")
      case True
      have "P i \<noteq> P (?k + j)" if "j < ?n - ?k" for j using inj [OF i, of "?k + j"] that True by (auto simp: less_diff_conv add.commute)
      then have "m' (P i) = m (P i)" by (intro m'(3)) auto
      then show ?thesis using m(2) [OF True] True by (simp add: P_def)
    next
      case False
      then show ?thesis using m'(2) [of "i - ?k"] i by simp
    qed
    moreover have "m' x = mem s x" if x: "x \<notin> P ` {..<?n}" for x
    proof -
      have ne: "x \<noteq> P i" if "i < ?n" for i using x that by auto
      have "x \<noteq> P (?k + i)" if "i < ?n - ?k" for i using ne [of "?k + i"] that by simp
      then have "m' x = m x" by (intro m'(3)) auto
      moreover have "x \<noteq> ?p i" if "i < ?k" for i using ne [of i] that kn by (simp add: P_def)
      then have "x \<notin> ?p ` {..<?k}" by blast
      ultimately show ?thesis using m(3) by simp
    qed
    ultimately show ?thesis using m(1) m'(1) True unfolding P_def by (intro exI [of _ m']) simp
  qed
qed

section \<open>One segment\<close>

text \<open>The pages of a segment, and the bytes that belong behind its addresses.\<close>

definition seg_vpns :: "elf64_phdr_t \<Rightarrow> u64 set" where
  "seg_vpns ph = (\<lambda>i. vpn (ph_vaddr ph + of_nat i)) ` {..<unat (ph_memsz ph)}"

definition seg_pages :: "elf64_phdr_t \<Rightarrow> nat" where
  "seg_pages ph = (unat (ph_vaddr ph) + unat (ph_memsz ph) + 4095) div 4096 - unat (ph_vaddr ph) div 4096"

definition segment_byte :: "mem \<Rightarrow> addr \<Rightarrow> elf64_phdr_t \<Rightarrow> nat \<Rightarrow> u8" where
  "segment_byte m elf_data ph i = (if i < unat (ph_filesz ph) then m (elf_data + ph_offset ph + of_nat i) else 0)"

definition segment_ok :: "u64 \<Rightarrow> elf64_phdr_t \<Rightarrow> bool" where
  "segment_ok len ph \<longleftrightarrow> 4096 \<le> unat (ph_vaddr ph) \<and> unat (ph_vaddr ph) + unat (ph_memsz ph) \<le> 2 ^ 47 \<and>
     0 < ph_filesz ph \<and> ph_filesz ph \<le> ph_memsz ph \<and> unat (ph_offset ph) + unat (ph_filesz ph) \<le> unat len"

definition segment_loaded :: "pagemap_t \<Rightarrow> mem \<Rightarrow> addr \<Rightarrow> elf64_phdr_t \<Rightarrow> 'a pmm_scheme \<Rightarrow> bool" where
  "segment_loaded root m elf_data ph s \<longleftrightarrow>
     (\<forall>i<unat (ph_memsz ph). let v = ph_vaddr ph + of_nat i; f = frame_addr root s v in
        pt_lookup root s v = Some (leaf_entry f (segment_flags ph)) \<and> f \<in> managed_frames s \<and>
        f + hhdm s \<notin> footprint root s \<and> mem s (phys_view root s v) = segment_byte m elf_data ph i)"

text \<open>The file in memory, apart from every frame that the loader may use.\<close>

definition image_apart :: "pagemap_t \<Rightarrow> addr \<Rightarrow> u64 \<Rightarrow> 'a pmm_scheme \<Rightarrow> bool" where
  "image_apart root elf_data len s \<longleftrightarrow> elf_data \<noteq> 0 \<and> unat elf_data + unat len < 2 ^ 64 \<and>
     (\<forall>x\<in>region elf_data (unat len). outside (footprint root s) x)"

text \<open>A change of the address space that only concerns the pages of \<open>V\<close>.\<close>

definition extends :: "pagemap_t \<Rightarrow> u64 set \<Rightarrow> 'a vmm_scheme \<Rightarrow> 'a vmm_scheme \<Rightarrow> bool" where
  "extends root V s s' \<longleftrightarrow>
     vmm_inv root s' \<and> hhdm s' = hhdm s \<and> vmm.more s' = vmm.more s \<and> managed_frames s' = managed_frames s \<and>
     footprint root s' \<subseteq> footprint root s \<and>
     (\<forall>w. vpn w \<notin> V \<longrightarrow> pt_lookup root s' w = pt_lookup root s w) \<and>
     (\<forall>x. outside (footprint root s) x \<longrightarrow> mem s' x = mem s x)"

lemma extends_refl: "vmm_inv root s \<Longrightarrow> extends root V s s"
  by (simp add: extends_def)

lemma extends_trans:
  assumes "extends root U s s1" "extends root V s1 s2"
  shows "extends root (U \<union> V) s s2"
proof -
  have "footprint root s1 \<subseteq> footprint root s" using assms(1) by (simp add: extends_def)
  then have "mem s2 x = mem s x" if "outside (footprint root s) x" for x
    using outside_mono [OF _ that] that assms by (simp add: extends_def)
  then show ?thesis using assms by (auto simp: extends_def)
qed

lemma segment_loaded_kept:
  assumes inv: "vmm_inv root s" and l: "segment_loaded root m e ph s" and x: "extends root V s s'"
    and V: "V \<inter> seg_vpns ph = {}"
  shows "segment_loaded root m e ph s'"
  unfolding segment_loaded_def Let_def
proof (intro allI impI)
  fix i assume i: "i < unat (ph_memsz ph)"
  let ?v = "ph_vaddr ph + of_nat i"
  have pm: "pmm_inv s" and hh: "hhdm_ok s" using inv by (auto simp: vmm_inv_def pt_inv_def)
  have "vpn ?v \<notin> V" using V i by (auto simp: seg_vpns_def)
  then have lk: "pt_lookup root s' ?v = pt_lookup root s ?v" using x by (simp add: extends_def)
  have h: "hhdm s' = hhdm s" "managed_frames s' = managed_frames s" "footprint root s' \<subseteq> footprint root s"
    using x by (simp_all add: extends_def)
  have f: "frame_addr root s' ?v = frame_addr root s ?v" "phys_view root s' ?v = phys_view root s ?v"
    using lk h by (simp_all add: frame_addr_def phys_view_def)
  have li: "pt_lookup root s ?v = Some (leaf_entry (frame_addr root s ?v) (segment_flags ph))"
    "frame_addr root s ?v \<in> managed_frames s" "frame_addr root s ?v + hhdm s \<notin> footprint root s"
    "mem s (phys_view root s ?v) = segment_byte m e ph i"
    using l i by (simp_all add: segment_loaded_def Let_def)
  have "outside (footprint root s) (phys_view root s ?v)"
    by (rule page_outside [OF inv frame_table(1) [OF pm hh li(2)] li(3) phys_view_in_frame])
  then have "mem s' (phys_view root s ?v) = mem s (phys_view root s ?v)" using x by (simp add: extends_def)
  then show "pt_lookup root s' ?v = Some (leaf_entry (frame_addr root s' ?v) (segment_flags ph)) \<and>
      frame_addr root s' ?v \<in> managed_frames s' \<and> frame_addr root s' ?v + hhdm s' \<notin> footprint root s' \<and>
      mem s' (phys_view root s' ?v) = segment_byte m e ph i"
    unfolding f lk h(1,2) using li h(3) by auto
qed

text \<open>The first page and the end of the pages of a segment, as the loader computes them.\<close>

abbreviation seg_start :: "elf64_phdr_t \<Rightarrow> addr" where
  "seg_start ph \<equiv> ph_vaddr ph AND NOT (PAGE_SIZE - 1)"

abbreviation seg_end :: "elf64_phdr_t \<Rightarrow> addr" where
  "seg_end ph \<equiv> (ph_vaddr ph + ph_memsz ph + PAGE_SIZE - 1) AND NOT (PAGE_SIZE - 1)"

lemma unat_seg_start: "unat (seg_start ph) = unat (ph_vaddr ph) div 4096 * 4096"
  unfolding page_mask by (simp add: unat_and_not_mask)

lemma seg_start_offset: "ph_vaddr ph = seg_start ph + of_nat (unat (ph_vaddr ph) mod 4096)"
proof -
  have "of_nat (unat (seg_start ph) + unat (ph_vaddr ph) mod 4096) = ph_vaddr ph" unfolding unat_seg_start by simp
  then show ?thesis unfolding of_nat_add by simp
qed

lemma seg_bounds:
  assumes "segment_ok len ph"
  shows "seg_end ph = page_no (seg_start ph) (seg_pages ph)" "0 < seg_pages ph" "seg_pages ph < 2 ^ 35"
    "unat (seg_start ph) + seg_pages ph * 4096 < 2 ^ 64"
    "unat (ph_vaddr ph) mod 4096 + unat (ph_memsz ph) \<le> seg_pages ph * 4096"
    "(seg_pages ph - 1) * 4096 < unat (ph_vaddr ph) mod 4096 + unat (ph_memsz ph)" "seg_start ph \<noteq> 0"
    "unat (ph_memsz ph) \<le> 2 ^ 48"
proof -
  define v k where "v = unat (ph_vaddr ph)" and "k = unat (ph_memsz ph)"
  have b: "4096 \<le> v" "v + k \<le> 2 ^ 47" "0 < k"
    using assms unfolding segment_ok_def v_def k_def by (auto simp: word_less_nat_alt word_le_nat_alt)
  have n: "seg_pages ph = (v + k + 4095) div 4096 - v div 4096" by (simp add: seg_pages_def v_def k_def)
  have "unat (ph_vaddr ph + ph_memsz ph) = v + k" using b by (simp add: unat_add_lt v_def k_def)
  then have e: "unat (ph_vaddr ph + ph_memsz ph + PAGE_SIZE - 1) = v + k + 4095"
    using b by (simp add: PAGE_SIZE_def add_diff_eq [symmetric] unat_add_lt)
  have ue: "unat (seg_end ph) = (v + k + 4095) div 4096 * 4096"
    unfolding page_mask [symmetric] using e unat_and_not_mask [of "ph_vaddr ph + ph_memsz ph + PAGE_SIZE - 1" 12]
    unfolding page_mask by simp
  note us = unat_seg_start [of ph, folded v_def]
  define q c N where "q = v div 4096" and "c = v mod 4096" and "N = (v + k + 4095) div 4096"
  have v: "v = 4096 * q + c" "c < 4096" by (simp_all add: q_def c_def)
  have N: "4096 * N \<le> v + k + 4095" "v + k + 4095 < 4096 * N + 4096"
    using div_mult_mod_eq [of "v + k + 4095" 4096] mod_less_divisor [of 4096 "v + k + 4095"] unfolding N_def by linarith+
  have nq: "q + seg_pages ph = N" using b(3) v N unfolding n q_def [symmetric] N_def [symmetric] by linarith
  show "0 < seg_pages ph" using b(3) v N nq by linarith
  have "0 < q" using b(1) v by linarith
  then show "seg_pages ph < 2 ^ 35" "unat (ph_memsz ph) \<le> 2 ^ 48" using b N nq unfolding k_def [symmetric] by simp_all
  show "unat (ph_vaddr ph) mod 4096 + unat (ph_memsz ph) \<le> seg_pages ph * 4096"
    using v N nq unfolding v_def [symmetric] k_def [symmetric] c_def [symmetric] by linarith
  show "(seg_pages ph - 1) * 4096 < unat (ph_vaddr ph) mod 4096 + unat (ph_memsz ph)"
    using v N nq b(3) unfolding v_def [symmetric] k_def [symmetric] c_def [symmetric] by linarith
  show lt: "unat (seg_start ph) + seg_pages ph * 4096 < 2 ^ 64"
    using b N nq unfolding us q_def [symmetric] by simp
  have "v div 4096 \<noteq> 0" using b(1) by simp
  then have "unat (seg_start ph) \<noteq> 0" unfolding us by simp
  then show "seg_start ph \<noteq> 0" by (metis unat_0)
  have "unat (page_no (seg_start ph) (seg_pages ph)) = v div 4096 * 4096 + seg_pages ph * 4096"
    unfolding unat_page_no [OF lt] us ..
  also have "\<dots> = unat (seg_end ph)" using nq unfolding ue q_def [symmetric] N_def [symmetric] by linarith
  finally show "seg_end ph = page_no (seg_start ph) (seg_pages ph)" by (simp only: word_unat_eq_iff)
qed

lemma seg_page_vpn:
  assumes ok: "segment_ok len ph" and i: "i < seg_pages ph"
  shows "vpn (page_no (seg_start ph) i) \<in> seg_vpns ph"
proof -
  let ?o = "unat (ph_vaddr ph) mod 4096"
  have al: "page_aligned (seg_start ph)" unfolding unat_seg_start by simp
  have "i * 4096 \<le> (seg_pages ph - 1) * 4096" using i by simp
  then have lt: "i * 4096 < ?o + unat (ph_memsz ph)" using seg_bounds(6) [OF ok] by (rule le_less_trans)
  have pos: "0 < unat (ph_memsz ph)" using ok by (auto simp: segment_ok_def word_less_nat_alt word_le_nat_alt)
  define j where "j = i * 4096 - ?o"
  have j: "j < unat (ph_memsz ph)" using lt pos unfolding j_def by linarith
  have d: "(?o + j) div 4096 = i"
  proof (cases i)
    case 0
    then show ?thesis by (simp add: j_def)
  next
    case (Suc k)
    then have "?o + j = i * 4096" unfolding j_def using mod_less_divisor [of 4096 "unat (ph_vaddr ph)"] by simp
    then show ?thesis by simp
  qed
  have "ph_vaddr ph + of_nat j = seg_start ph + of_nat (?o + j)"
    by (subst seg_start_offset) (simp only: of_nat_add add.assoc)
  then have "vpn (ph_vaddr ph + of_nat j) = vpn (page_no (seg_start ph) i)"
    using vpn_in_page [OF al, of "?o + j"] unfolding d by (simp only:)
  then show ?thesis using j unfolding seg_vpns_def by (intro image_eqI [of _ _ j]) simp_all
qed

lemma segment_flags_mask: "segment_flags ph AND PTE_ADDR_MASK = 0"
  by (simp add: segment_flags_def Let_def PTE_PRESENT_def PTE_USER_def PTE_WRITABLE_def PTE_NX_def PTE_ADDR_MASK_def)

lemma image_bytes:
  assumes ap: "image_apart root elf_data len s" and b: "unat off + n \<le> unat len"
  shows "unat (elf_data + off) = unat elf_data + unat off" "region (elf_data + off) n \<subseteq> region elf_data (unat len)"
    "x \<in> region (elf_data + off) n \<Longrightarrow> outside (footprint root s) x" "elf_data + off \<noteq> 0"
proof -
  have w: "elf_data \<noteq> 0" "unat elf_data + unat len < 2 ^ 64" "\<forall>x\<in>region elf_data (unat len). outside (footprint root s) x"
    using ap by (simp_all add: image_apart_def)
  show u: "unat (elf_data + off) = unat elf_data + unat off" using w(2) b by (intro unat_add_lt) simp
  have "unat elf_data \<noteq> 0" using w(1) by (simp add: unat_eq_0)
  then have "unat (elf_data + off) \<noteq> 0" unfolding u by simp
  then show "elf_data + off \<noteq> 0" by (metis unat_0)
  show sub: "region (elf_data + off) n \<subseteq> region elf_data (unat len)"
  proof
    fix x assume "x \<in> region (elf_data + off) n"
    then obtain i where "i < n" "x = elf_data + off + of_nat i" by (auto simp: region_def)
    then have "x = elf_data + of_nat (unat off + i)" "unat off + i < unat len" using b by (simp_all add: add.assoc)
    then show "x \<in> region elf_data (unat len)" unfolding region_def by blast
  qed
  show "x \<in> region (elf_data + off) n \<Longrightarrow> outside (footprint root s) x" using sub w(3) by blast
qed

text \<open>The range of a segment whose pages are the fresh frames \<open>fs\<close>, and the file as the source of the copy.\<close>

lemma segment_range:
  assumes "vmm_inv root s" "segment_ok len ph" "fresh_run root (seg_start ph) fs (segment_flags ph) s s1" "length fs = seg_pages ph"
  shows "data_range root s1 (ph_vaddr ph) (unat (ph_memsz ph))"
    "i < unat (ph_memsz ph) \<Longrightarrow> frame_addr root s1 (ph_vaddr ph + of_nat i) \<in> set fs"
    "i < unat (ph_memsz ph) \<Longrightarrow> pt_lookup root s1 (ph_vaddr ph + of_nat i) =
       Some (leaf_entry (frame_addr root s1 (ph_vaddr ph + of_nat i)) (segment_flags ph))"
    "i < unat (ph_memsz ph) \<Longrightarrow> frame_addr root s1 (ph_vaddr ph + of_nat i) + hhdm s1 \<in> footprint root s"
proof -
  have al: "page_aligned (seg_start ph)" unfolding unat_seg_start by simp
  have rng: "unat (ph_vaddr ph) mod 4096 + unat (ph_memsz ph) \<le> length fs * 4096"
    unfolding assms(4) by (rule seg_bounds(5) [OF assms(2)])
  note dr = data_range_run [OF assms(1,3) al segment_flags_mask rng, folded seg_start_offset]
  show "data_range root s1 (ph_vaddr ph) (unat (ph_memsz ph))" by (rule dr(1))
  show mem: "i < unat (ph_memsz ph) \<Longrightarrow> frame_addr root s1 (ph_vaddr ph + of_nat i) \<in> set fs" by (rule dr(2))
  show "i < unat (ph_memsz ph) \<Longrightarrow> pt_lookup root s1 (ph_vaddr ph + of_nat i) =
       Some (leaf_entry (frame_addr root s1 (ph_vaddr ph + of_nat i)) (segment_flags ph))" by (rule dr(3))
  have r: "hhdm s1 = hhdm s" "set fs \<subseteq> free_frames s" using assms(3) unfolding fresh_run_def by blast+
  show "i < unat (ph_memsz ph) \<Longrightarrow> frame_addr root s1 (ph_vaddr ph + of_nat i) + hhdm s1 \<in> footprint root s"
    using mem r by (auto simp: footprint_def)
qed

lemma segment_source:
  assumes "vmm_inv root s" "segment_ok len ph" "fresh_run root (seg_start ph) fs (segment_flags ph) s s1" "length fs = seg_pages ph"
    and ap: "image_apart root elf_data len s"
  shows "source_ok root s1 (ph_vaddr ph) (elf_data + ph_offset ph) (unat (ph_filesz ph))"
proof -
  have bnd: "unat (ph_offset ph) + unat (ph_filesz ph) \<le> unat len" and le: "ph_filesz ph \<le> ph_memsz ph"
    using assms(2) by (simp_all add: segment_ok_def)
  note img = image_bytes [OF ap bnd]
  have "region (elf_data + ph_offset ph) (unat (ph_filesz ph)) \<inter>
      region (frame_addr root s1 (ph_vaddr ph + of_nat i) + hhdm s1) (2 ^ 12) = {}" if "i < unat (ph_filesz ph)" for i
  proof -
    have "i < unat (ph_memsz ph)" using that le by (simp add: word_le_nat_alt)
    from segment_range(4) [OF assms(1-4) this] show ?thesis using img(3) unfolding outside_def by blast
  qed
  moreover have "unat (elf_data + ph_offset ph) + unat (ph_filesz ph) \<le> 2 ^ 64" using ap bnd by (simp add: img(1) image_apart_def)
  ultimately show ?thesis using img(4) by (simp add: source_ok_def)
qed

lemma fill_segment:
  fixes s :: "'a vmm_scheme"
  assumes inv: "vmm_inv root s" and ok: "segment_ok len ph" and ap: "image_apart root elf_data len s"
    and run: "fresh_run root (seg_start ph) fs (segment_flags ph) s s1" "length fs = seg_pages ph" "vmm.more s1 = vmm.more s"
  shows "\<exists>s'. rbind (vmm_map_copy root (ph_vaddr ph) (elf_data + ph_offset ph) (ph_filesz ph) s1) (\<lambda>s.
      if ph_filesz ph < ph_memsz ph then vmm_map_zero root (ph_vaddr ph + ph_filesz ph) (ph_memsz ph - ph_filesz ph) s
      else ret s) = ret s' \<and> extends root (seg_vpns ph) s s' \<and> segment_loaded root (mem s) elf_data ph s' \<and>
      free_frames s' = free_frames s1"
proof -
  let ?v = "ph_vaddr ph" and ?n = "unat (ph_memsz ph)" and ?src = "elf_data + ph_offset ph"
  have r: "vmm_inv root s1" "hhdm s1 = hhdm s" "managed_frames s1 = managed_frames s"
    "\<forall>f\<in>set fs. f + hhdm s \<notin> footprint root s1" "footprint root s1 \<subseteq> footprint root s"
    "\<forall>w. (\<forall>i<length fs. vpn w \<noteq> vpn (page_no (seg_start ph) i)) \<longrightarrow> pt_lookup root s1 w = pt_lookup root s w"
    "\<forall>x. outside (footprint root s) x \<longrightarrow> mem s1 x = mem s x"
    using run(1) unfolding fresh_run_def by blast+
  have bnd: "unat (ph_offset ph) + unat (ph_filesz ph) \<le> unat len" and le: "ph_filesz ph \<le> ph_memsz ph"
    using ok by (simp_all add: segment_ok_def)
  note dr = segment_range [OF inv ok run(1,2)]
  obtain m where m: "rbind (vmm_map_copy root ?v ?src (ph_filesz ph) s1) (\<lambda>s.
      if ph_filesz ph < ph_memsz ph then vmm_map_zero root (?v + ph_filesz ph) (ph_memsz ph - ph_filesz ph) s
      else ret s) = ret (s1\<lparr>mem := m, vmm_lock := unlocked\<rparr>)"
    "\<forall>i<?n. m (phys_view root s1 (?v + of_nat i)) = (if i < unat (ph_filesz ph) then mem s1 (?src + of_nat i) else 0)"
    "\<forall>x. x \<notin> (\<lambda>i. phys_view root s1 (?v + of_nat i)) ` {..<?n} \<longrightarrow> m x = mem s1 x"
    using copy_zero_fills [OF r(1) dr(1) seg_bounds(8) [OF ok] le segment_source [OF inv ok run(1,2) ap]] by blast
  let ?s = "s1\<lparr>mem := m, vmm_lock := unlocked\<rparr>"
  note w = write_range [OF r(1) dr(1) m(3)]
  have "mem ?s x = mem s x" if x: "outside (footprint root s) x" for x
  proof -
    have "x \<noteq> phys_view root s1 (?v + of_nat i)" if "i < ?n" for i
      using dr(4) [OF that] phys_view_in_frame x unfolding outside_def by blast
    then have "x \<notin> (\<lambda>i. phys_view root s1 (?v + of_nat i)) ` {..<?n}" by blast
    then show ?thesis using m(3) r(7) x by simp
  qed
  moreover have "pt_lookup root ?s x = pt_lookup root s x" if "vpn x \<notin> seg_vpns ph" for x
    using r(6) that seg_page_vpn [OF ok] unfolding w(2) run(2) by metis
  ultimately have ext: "extends root (seg_vpns ph) s ?s"
    using w(1,3) r run(3) by (simp add: extends_def managed_frames_def)
  have "segment_loaded root (mem s) elf_data ph ?s"
    unfolding segment_loaded_def Let_def w(2,3,5,6)
  proof (intro allI impI conjI)
    fix i assume i: "i < ?n"
    show "pt_lookup root s1 (?v + of_nat i) = Some (leaf_entry (frame_addr root s1 (?v + of_nat i)) (segment_flags ph))"
      by (rule dr(3) [OF i])
    show "frame_addr root s1 (?v + of_nat i) \<in> managed_frames ?s" "frame_addr root s1 (?v + of_nat i) + hhdm ?s \<notin> footprint root s1"
      using dr(1,2) i r(2,4) by (simp_all add: data_range_def managed_frames_def)
    have "mem s1 (?src + of_nat i) = mem s (?src + of_nat i)" if "i < unat (ph_filesz ph)"
      using that r(7) image_bytes(3) [OF ap bnd, of "?src + of_nat i"] by (auto simp: region_def)
    then show "mem ?s (phys_view root s1 (?v + of_nat i)) = segment_byte (mem s) elf_data ph i"
      using m(2) i by (simp add: segment_byte_def)
  qed
  moreover have "free_frames ?s = free_frames s1" by (simp add: free_frames_def free_set_def)
  ultimately show ?thesis using m(1) ext by blast
qed

lemma ptr_plus_image:
  "image_apart root elf_data len s \<Longrightarrow> unat off \<le> unat len \<Longrightarrow> ptr_plus elf_data off = ret (elf_data + off)"
  using image_bytes(1) [of root elf_data len s off 0] by (simp add: ptr_plus_def word_less_nat_alt)

lemma load_segment_eq:
  assumes ok: "segment_ok len ph" and ap: "image_apart root elf_data len s"
  shows "load_segment root elf_data len ph s =
    rbind (map_segment root (segment_flags ph) (seg_start ph) (page_no (seg_start ph) (seg_pages ph)) s) (\<lambda>s.
    rbind (vmm_map_copy root (ph_vaddr ph) (elf_data + ph_offset ph) (ph_filesz ph) s) (\<lambda>s.
    if ph_filesz ph < ph_memsz ph then vmm_map_zero root (ph_vaddr ph + ph_filesz ph) (ph_memsz ph - ph_filesz ph) s else ret s))"
proof -
  have k: "4096 \<le> unat (ph_vaddr ph)" "0 < ph_filesz ph" "unat (ph_offset ph) + unat (ph_filesz ph) \<le> unat len"
    using ok by (simp_all add: segment_ok_def)
  note b = seg_bounds [OF ok]
  have "unat (seg_start ph) < unat (page_no (seg_start ph) (seg_pages ph))" using b(2) unfolding unat_page_no [OF b(4)] by simp
  then have lt: "seg_start ph < seg_end ph" unfolding b(1) by (simp only: word_less_nat_alt)
  have al: "(x AND NOT (PAGE_SIZE - 1)) mod PAGE_SIZE = 0" for x :: u64
    unfolding page_mod(1) page_mask by (rule bit_word_eqI) (simp add: bit_simps)
  have "unat (ph_offset ph + ph_filesz ph) = unat (ph_offset ph) + unat (ph_filesz ph)"
    using k(3) unat_lt64(1) [of len] by (intro unat_add_lt) simp
  then have fe: "\<not> len < ph_offset ph + ph_filesz ph" using k(3) by (simp add: word_less_nat_alt)
  have nz: "ph_vaddr ph \<noteq> NULL" using k(1) by auto
  have p: "ptr_plus elf_data (ph_offset ph) = ret (elf_data + ph_offset ph)" using ptr_plus_image [OF ap] k(3) by simp
  show ?thesis
    unfolding load_segment_def Let_def p
    using lt al [of "ph_vaddr ph"] al [of "ph_vaddr ph + ph_memsz ph + PAGE_SIZE - 1"] b(7) fe nz k(2) image_bytes(4) [OF ap k(3)]
    unfolding b(1) by simp
qed

text \<open>Loading a segment whose pages are not mapped: it succeeds, or the frames run out.\<close>

lemma load_segment_cases:
  fixes s :: "'a vmm_scheme"
  assumes inv: "vmm_inv root s" and wf: "segment_ok len ph" and ap: "image_apart root elf_data len s"
    and fr: "\<forall>w. vpn w \<in> seg_vpns ph \<longrightarrow> pt_lookup root s w = None"
  obtains (oom) "load_segment root elf_data len ph s = fails (Panic ''out of memory in pmm_allocate!'')"
      "card (free_frames s) < 4 * seg_pages ph"
    | (ok) s' where "load_segment root elf_data len ph s = ret s'" "extends root (seg_vpns ph) s s'"
      "segment_loaded root (mem s) elf_data ph s'" "card (free_frames s) \<le> 4 * seg_pages ph + card (free_frames s')"
proof -
  note b = seg_bounds [OF wf]
  have "pt_lookup root s (page_no (seg_start ph) i) = None" if "i < seg_pages ph" for i
    using fr seg_page_vpn [OF wf that] by simp
  from map_segment_run [OF inv b(3,4) this, of "segment_flags ph"]
  consider fs s1 where "map_segment root (segment_flags ph) (seg_start ph) (page_no (seg_start ph) (seg_pages ph)) s = ret s1"
      "length fs = seg_pages ph" "fresh_run root (seg_start ph) fs (segment_flags ph) s s1" "vmm.more s1 = vmm.more s"
      "card (free_frames s) \<le> 4 * seg_pages ph + card (free_frames s1)"
    | "map_segment root (segment_flags ph) (seg_start ph) (page_no (seg_start ph) (seg_pages ph)) s =
        fails (Panic ''out of memory in pmm_allocate!'')" "card (free_frames s) < 4 * seg_pages ph"
    by blast
  then show thesis
  proof cases
    case (1 fs s1)
    from fill_segment [OF inv wf ap 1(3,2,4)] obtain s' where
      s': "rbind (vmm_map_copy root (ph_vaddr ph) (elf_data + ph_offset ph) (ph_filesz ph) s1) (\<lambda>s.
        if ph_filesz ph < ph_memsz ph then vmm_map_zero root (ph_vaddr ph + ph_filesz ph) (ph_memsz ph - ph_filesz ph) s
        else ret s) = ret s'" "extends root (seg_vpns ph) s s'" "segment_loaded root (mem s) elf_data ph s'"
        "free_frames s' = free_frames s1" by blast
    have "load_segment root elf_data len ph s = ret s'" unfolding load_segment_eq [OF wf ap] using 1(1) s'(1) by simp
    then show thesis using s'(2-4) 1(5) by (intro that(2) [of s']) simp_all
  next
    case 2
    then show thesis using that(1) unfolding load_segment_eq [OF wf ap] by simp
  qed
qed

section \<open>The whole file\<close>

text \<open>The headers of the segments to load among the headers with the numbers \<open>is\<close>.\<close>

definition loads :: "(nat \<Rightarrow> elf64_phdr_t) \<Rightarrow> nat list \<Rightarrow> elf64_phdr_t list" where
  "loads ph is = filter (\<lambda>p. ph_type p = PT_LOAD) (map ph is)"

lemma loads_simps [simp]:
  "loads ph [] = []" "loads ph (i # is) = (if ph_type (ph i) = PT_LOAD then ph i # loads ph is else loads ph is)"
  by (simp_all add: loads_def)

text \<open>What the loader reports of them: the lowest address and the highest end.\<close>

definition low_of :: "elf64_phdr_t list \<Rightarrow> u64 \<Rightarrow> u64" where
  "low_of ps b = fold (\<lambda>p. min (ph_vaddr p)) ps b"

definition high_of :: "elf64_phdr_t list \<Rightarrow> u64 \<Rightarrow> u64" where
  "high_of ps b = fold (\<lambda>p. max (ph_vaddr p + ph_memsz p)) ps b"

lemma elf64_phdr_cong:
  assumes "\<And>x. x \<in> region a 56 \<Longrightarrow> m x = m' x"
  shows "elf64_phdr m a = elf64_phdr m' a"
proof -
  have "load_le m (a + of_nat k) n = load_le m' (a + of_nat k) n" if "k + n \<le> 56" for k n
  proof (rule load_le_cong)
    fix x assume "x \<in> region (a + of_nat k) n"
    then obtain i where "i < n" "x = a + of_nat (k + i)" by (auto simp: region_def add.assoc)
    then show "m x = m' x" using that by (intro assms) (auto simp: region_def simp del: of_nat_add)
  qed
  from this [of 0 4] this [of 4 4] this [of 8 8] this [of 16 8] this [of 32 8] this [of 40 8]
  show ?thesis by (simp add: elf64_phdr_def load32_def load64_def)
qed

lemma segment_loaded_cong:
  assumes "segment_loaded root m e ph s" "segment_ok len ph" "\<forall>x\<in>region e (unat len). m x = m' x"
  shows "segment_loaded root m' e ph s"
proof -
  have "segment_byte m e ph i = segment_byte m' e ph i" for i
  proof (cases "i < unat (ph_filesz ph)")
    case True
    then have "unat (ph_offset ph) + i < unat len" using assms(2) by (simp add: segment_ok_def)
    moreover have "e + ph_offset ph + of_nat i = e + of_nat (unat (ph_offset ph) + i)" by (simp add: add.assoc)
    ultimately have "e + ph_offset ph + of_nat i \<in> region e (unat len)" unfolding region_def by blast
    then show ?thesis using assms(3) by (simp add: segment_byte_def)
  qed (simp add: segment_byte_def)
  then show ?thesis using assms(1) by (simp add: segment_loaded_def)
qed

definition headers_ok ::
  "pagemap_t \<Rightarrow> addr \<Rightarrow> u64 \<Rightarrow> elf64_header_t \<Rightarrow> (nat \<Rightarrow> elf64_phdr_t) \<Rightarrow> nat list \<Rightarrow> mem \<Rightarrow> 'a pmm_scheme \<Rightarrow> bool" where
  "headers_ok root elf_data len header ph is m s \<longleftrightarrow> phentsize header = sizeof_elf64_phdr \<and>
     (\<forall>i\<in>set is. unat (phoff header) + i * 56 + 56 \<le> unat len \<and>
        elf64_phdr m (elf_data + (phoff header + of_nat i * 56)) = ret (ph i)) \<and>
     (\<forall>p\<in>set (loads ph is). segment_ok len p \<and> (\<forall>w. vpn w \<in> seg_vpns p \<longrightarrow> pt_lookup root s w = None)) \<and>
     sorted_wrt (\<lambda>p q. seg_vpns p \<inter> seg_vpns q = {}) (loads ph is)"

lemma load_step_eq:
  assumes h: "headers_ok root elf_data len header ph (i # is) m s" and ap: "image_apart root elf_data len s"
    and m: "\<forall>x\<in>region elf_data (unat len). mem s x = m x"
  shows "load_step root elf_data len header i (b, e, s) =
    (if ph_type (ph i) = PT_LOAD then rbind (load_segment root elf_data len (ph i) s) (\<lambda>s.
       ret (min (ph_vaddr (ph i)) b, max (ph_vaddr (ph i) + ph_memsz (ph i)) e, s)) else ret (b, e, s))"
proof -
  let ?o = "phoff header + of_nat i * 56"
  have k: "unat (phoff header) + i * 56 + 56 \<le> unat len" "elf64_phdr m (elf_data + ?o) = ret (ph i)"
    "phentsize header = sizeof_elf64_phdr" using h by (simp_all add: headers_ok_def)
  have u: "unat ?o = unat (phoff header) + i * 56"
    using k(1) unat_lt64(1) [of len] by (simp add: unat_word_ariths unsigned_of_nat take_bit_eq_mod)
  then have "unat (?o + 56) = unat ?o + 56" using k(1) unat_lt64(1) [of len] by (intro unat_add_lt [of ?o 56, simplified]) simp
  then have le: "\<not> len < ?o + 56" using k(1) u by (simp add: word_less_nat_alt)
  have p: "ptr_plus elf_data ?o = ret (elf_data + ?o)" using ptr_plus_image [OF ap, of ?o] k(1) u by simp
  have "region (elf_data + ?o) 56 \<subseteq> region elf_data (unat len)" using image_bytes(2) [OF ap, of ?o 56] k(1) u by simp
  then have "elf64_phdr (mem s) (elf_data + ?o) = ret (ph i)" using k(2) elf64_phdr_cong [of "elf_data + ?o" "mem s" m] m by auto
  then show ?thesis using le p by (simp add: load_step_def k(3) sizeof_elf64_phdr_def Let_def min_def max_def not_le cong: if_cong) auto
qed

lemma image_kept:
  assumes ap: "image_apart root elf_data len s" and x: "extends root V s s'"
  shows "image_apart root elf_data len s'" "x \<in> region elf_data (unat len) \<Longrightarrow> mem s' x = mem s x"
  using assms outside_mono [of "footprint root s'" "footprint root s"] by (auto simp: image_apart_def extends_def)

abbreviation pages_of :: "elf64_phdr_t list \<Rightarrow> nat" where
  "pages_of ps \<equiv> sum_list (map seg_pages ps)"

lemma headers_ok_Cons:
  assumes h: "headers_ok root e len header ph (i # is) m s" and l: "ph_type (ph i) = PT_LOAD"
    and x: "extends root (seg_vpns (ph i)) s s'"
  shows "headers_ok root e len header ph is m s'" "(\<Union>p\<in>set (loads ph is). seg_vpns p) \<inter> seg_vpns (ph i) = {}"
proof -
  show d: "(\<Union>p\<in>set (loads ph is). seg_vpns p) \<inter> seg_vpns (ph i) = {}" using h l by (auto simp: headers_ok_def)
  have "pt_lookup root s' w = None" if "p \<in> set (loads ph is)" "vpn w \<in> seg_vpns p" for p w
  proof -
    have "vpn w \<notin> seg_vpns (ph i)" using d that by blast
    then have "pt_lookup root s' w = pt_lookup root s w" using x by (simp add: extends_def)
    then show ?thesis using h l that by (simp add: headers_ok_def)
  qed
  then show "headers_ok root e len header ph is m s'" using h l by (simp add: headers_ok_def)
qed

lemma load_headers:
  fixes s :: "'a vmm_scheme"
  assumes "vmm_inv root s" "headers_ok root elf_data len header ph is m s" "image_apart root elf_data len s"
    "\<forall>x\<in>region elf_data (unat len). mem s x = m x"
  shows "(\<exists>s'. for_each (load_step root elf_data len header) is (b, e, s) =
        ret (low_of (loads ph is) b, high_of (loads ph is) e, s') \<and>
      extends root (\<Union>p\<in>set (loads ph is). seg_vpns p) s s' \<and> (\<forall>p\<in>set (loads ph is). segment_loaded root m elf_data p s')) \<or>
    for_each (load_step root elf_data len header) is (b, e, s) = fails (Panic ''out of memory in pmm_allocate!'') \<and>
      card (free_frames s) < 4 * pages_of (loads ph is)"
  using assms
proof (induction "is" arbitrary: b e s)
  case Nil
  then show ?case using extends_refl [OF Nil(1), of "{}"] by (simp add: low_of_def high_of_def)
next
  case (Cons i "is")
  note step = load_step_eq [OF Cons.prems(2,3,4)]
  show ?case
  proof (cases "ph_type (ph i) = PT_LOAD")
    case False
    have "headers_ok root elf_data len header ph is m s" using Cons.prems(2) False by (simp add: headers_ok_def)
    from Cons.IH [OF Cons.prems(1) this Cons.prems(3,4), of b e] show ?thesis using False by (simp add: step)
  next
    case l: True
    let ?p = "ph i" and ?U = "\<Union>p\<in>set (loads ph is). seg_vpns p"
    have wf: "segment_ok len ?p" "\<forall>w. vpn w \<in> seg_vpns ?p \<longrightarrow> pt_lookup root s w = None"
      using Cons.prems(2) l by (simp_all add: headers_ok_def)
    show ?thesis
    proof (cases rule: load_segment_cases [OF Cons.prems(1) wf(1) Cons.prems(3) wf(2)])
      case 1
      then show ?thesis using l by (simp add: step)
    next
      case (2 s1)
      have inv1: "vmm_inv root s1" using 2(2) by (simp add: extends_def)
      have m1: "\<forall>x\<in>region elf_data (unat len). mem s1 x = m x"
        using image_kept(2) [OF Cons.prems(3) 2(2)] Cons.prems(4) by simp
      note ho = headers_ok_Cons [OF Cons.prems(2) l 2(2)]
      have ld: "segment_loaded root m elf_data ?p s1" using segment_loaded_cong [OF 2(3) wf(1) Cons.prems(4)] .
      have run: "for_each (load_step root elf_data len header) (i # is) (b, e, s) =
          for_each (load_step root elf_data len header) is (min (ph_vaddr ?p) b, max (ph_vaddr ?p + ph_memsz ?p) e, s1)"
        using l 2(1) by (simp add: step)
      from Cons.IH [OF inv1 ho(1) image_kept(1) [OF Cons.prems(3) 2(2)] m1, of "min (ph_vaddr ?p) b" "max (ph_vaddr ?p + ph_memsz ?p) e"]
      show ?thesis
      proof (elim disjE exE conjE)
        fix s2
        assume s2: "for_each (load_step root elf_data len header) is (min (ph_vaddr ?p) b, max (ph_vaddr ?p + ph_memsz ?p) e, s1) =
            ret (low_of (loads ph is) (min (ph_vaddr ?p) b), high_of (loads ph is) (max (ph_vaddr ?p + ph_memsz ?p) e), s2)"
          "extends root ?U s1 s2" "\<forall>p\<in>set (loads ph is). segment_loaded root m elf_data p s2"
        then show ?thesis using run l segment_loaded_kept [OF inv1 ld s2(2) ho(2)] extends_trans [OF 2(2) s2(2)]
          by (intro disjI1 exI [of _ s2]) (simp add: low_of_def high_of_def)
      next
        assume "for_each (load_step root elf_data len header) is (min (ph_vaddr ?p) b, max (ph_vaddr ?p + ph_memsz ?p) e, s1) =
            fails (Panic ''out of memory in pmm_allocate!'')" "card (free_frames s1) < 4 * pages_of (loads ph is)"
        then show ?thesis using run l 2(4) by simp
      qed
    qed
  qed
qed

text \<open>
  A file that the loader accepts: the identification of a 64-bit program for this machine, headers inside the file, and
  segments inside the file, above the first page, in the lower half, on pages that are not mapped and are not shared.
\<close>

definition elf_ok ::
  "pagemap_t \<Rightarrow> addr \<Rightarrow> u64 \<Rightarrow> elf64_header_t \<Rightarrow> (nat \<Rightarrow> elf64_phdr_t) \<Rightarrow> 'a pmm_scheme \<Rightarrow> bool" where
  "elf_ok root elf_data len header ph s \<longleftrightarrow> sizeof_elf64_header \<le> len \<and> elf64_header (mem s) elf_data = ret header \<and>
     magic header = [0x7F, 0x45, 0x4C, 0x46] \<and> elf_class header = 2 \<and> elf_machine header = 0x3E \<and>
     image_apart root elf_data len s \<and> headers_ok root elf_data len header ph [0..<unat (phnum header)] (mem s) s"


section \<open>A concrete file\<close>

text \<open>
  A file of 124 bytes with one header: a writable segment of sixteen bytes at \<open>0x400010\<close>, of which the last four bytes of
  the file are the first four.
\<close>

definition elf_bytes :: "u8 list" where
  "elf_bytes = [0x7F, 0x45, 0x4C, 0x46, 2, 1, 1, 0, 0, 0, 0, 0, 0, 0, 0, 0, 2, 0, 0x3E, 0, 1, 0, 0, 0] @
     [0x10, 0, 0x40, 0, 0, 0, 0, 0, 64, 0, 0, 0, 0, 0, 0, 0, 0, 0, 0, 0, 0, 0, 0, 0] @
     [0, 0, 0, 0, 64, 0, 56, 0, 1, 0, 0, 0, 0, 0, 0, 0] @
     [1, 0, 0, 0, 6, 0, 0, 0, 120, 0, 0, 0, 0, 0, 0, 0, 0x10, 0, 0x40, 0, 0, 0, 0, 0] @
     [0, 0, 0, 0, 0, 0, 0, 0, 4, 0, 0, 0, 0, 0, 0, 0, 16, 0, 0, 0, 0, 0, 0, 0] @
     [0, 0, 0, 0, 0, 0, 0, 0, 0xC0, 0xFF, 0xEE, 0x42]"

abbreviation "elf_addr \<equiv> 0xFFFFFFFF90000000 :: addr"

definition elf_mem :: mem where
  "elf_mem x = (if unat (x - elf_addr) < 124 then elf_bytes ! unat (x - elf_addr) else 0)"

definition elf_state :: vmm where
  "elf_state = vmm_example\<lparr>mem := elf_mem\<rparr>"

definition elf_phdr :: elf64_phdr_t where
  "elf_phdr = \<lparr>ph_type = PT_LOAD, ph_flags = 6, ph_offset = 120, ph_vaddr = 0x400010, ph_filesz = 4, ph_memsz = 16\<rparr>"

definition elf_header :: elf64_header_t where
  "elf_header = \<lparr>magic = [0x7F, 0x45, 0x4C, 0x46], elf_class = 2, elf_machine = 0x3E, entry_point = 0x400010,
     phoff = 64, phentsize = 56, phnum = 1\<rparr>"

lemma elf_example_parse:
  "elf64_header elf_mem elf_addr = ret elf_header" "elf64_phdr elf_mem (elf_addr + 64) = ret elf_phdr"
  by (simp_all add: elf64_header_def elf_header_def elf64_phdr_def elf_phdr_def load16_def load32_def load64_def
      load_le_8 load_le_4 load_le_2 elf_mem_def elf_bytes_def PT_LOAD_def)

lemma elf_state_example:
  "vmm_inv root_example elf_state" "pt_lookup root_example elf_state v = None" "card (free_frames elf_state) = 5"
proof -
  have pt: "pt_inv root_example vmm_example" using vmm_inv_example by (simp add: vmm_inv_def)
  have keep: "elf_mem x = mem vmm_example x" if t: "t \<in> reach root_example vmm_example" and x: "x \<in> region t (2 ^ 12)" for t x
  proof -
    have "t = root_example" using t by (auto simp: reach_def table_of_vmm_example split: if_splits)
    then obtain i where i: "i < 4096" "x = root_example + of_nat i" using x by (auto simp: region_def)
    have "x - elf_addr = 0xFFFF800070001000 + of_nat i" by (simp add: i(2))
    then have "unat (x - elf_addr) = 0xFFFF800070001000 + i" using i(1) by (simp add: unat_add_lt unat_of_nat_lt)
    then show ?thesis by (simp add: elf_mem_def vmm_example_def)
  qed
  note w = write_elsewhere [OF pt keep, folded elf_state_def]
  show "vmm_inv root_example elf_state" using w(1) vmm_inv_example by (simp add: vmm_inv_def elf_state_def)
  show "pt_lookup root_example elf_state v = None" using w(2) by (simp add: lookup_vmm_example)
  show "card (free_frames elf_state) = 5"
    using card_free_vmm_example by (simp add: elf_state_def free_frames_def free_set_def)
qed

lemma elf_ok_example: "elf_ok root_example elf_addr 124 elf_header (\<lambda>_. elf_phdr) elf_state"
proof -
  have m: "mem elf_state = elf_mem" and h: "hhdm elf_state = 0xFFFF800000000000"
    by (simp_all add: elf_state_def vmm_example_def)
  have pt: "pt_inv root_example elf_state" using elf_state_example(1) by (simp add: vmm_inv_def)
  have "outside (footprint root_example elf_state) x" if x: "x \<in> region elf_addr 124" for x
  proof (rule footprint_below [OF pt order_refl])
    obtain i where "i < 124" "x = elf_addr + of_nat i" using x by (auto simp: region_def)
    then show "unat (hhdm elf_state) + 2 ^ 35 \<le> unat x" by (simp add: h unat_add_lt unat_of_nat_lt)
  qed
  then have "image_apart root_example elf_addr 124 elf_state" by (simp add: image_apart_def)
  moreover have "segment_ok 124 elf_phdr" by (simp add: segment_ok_def elf_phdr_def)
  moreover have "loads (\<lambda>_. elf_phdr) [0] = [elf_phdr]" by (simp add: elf_phdr_def)
  ultimately show ?thesis using elf_example_parse elf_state_example(2)
    by (simp add: elf_ok_def headers_ok_def m elf_header_def sizeof_elf64_header_def sizeof_elf64_phdr_def)
qed


end
