(* ===== verification/Userspace.thy ===== *)
theory Userspace
  imports Prelude
begin

text \<open>
  The user programs of the repository: the shell (\<open>misc/userspace/user/shell.c\<close>) and the framebuffer demonstration
  (\<open>misc/userspace/mlibc_test/fb.c\<close>). They are linked against a C library that is not part of the repository. What they
  call of it and of the system beneath is a parameter, the record \<open>libc\<close> of functions on an abstract world; only the
  functions on strings are definitions. The contracts of the theorems say what the C standard promises of the others.
  Programs run without the sanitizer; an access outside an object is \<open>Bad_Access\<close>.
\<close>

section \<open>Definitions\<close>

subsection \<open>The C library\<close>

text \<open>
  \<open>c_fread n f\<close> stands for \<open>fread(buf, 1, n, f)\<close> and gives the bytes that arrive, \<open>c_fwrite bs f\<close> for
  \<open>fwrite(bs, 1, |bs|, f)\<close> and gives the count; \<open>c_print\<close> is \<open>printf\<close> with the text that the format and the arguments
  stand for; \<open>c_mmap\<close> takes the length, whether the mapping is shared, and the descriptor.
\<close>

record 'w libc =
  c_fopen :: "string \<Rightarrow> string \<Rightarrow> 'w \<Rightarrow> addr \<times> 'w"
  c_fread :: "nat \<Rightarrow> addr \<Rightarrow> 'w \<Rightarrow> string \<times> 'w"
  c_fwrite :: "string \<Rightarrow> addr \<Rightarrow> 'w \<Rightarrow> nat \<times> 'w"
  c_fclose :: "addr \<Rightarrow> 'w \<Rightarrow> 'w"
  c_setvbuf :: "addr \<Rightarrow> 'w \<Rightarrow> 'w"
  c_stdout :: addr
  c_print :: "string \<Rightarrow> 'w \<Rightarrow> 'w"
  c_malloc :: "nat \<Rightarrow> 'w \<Rightarrow> addr \<times> 'w"
  c_free :: "addr \<Rightarrow> 'w \<Rightarrow> 'w"
  c_memset :: "addr \<Rightarrow> u8 \<Rightarrow> nat \<Rightarrow> 'w \<Rightarrow> 'w"
  c_open :: "string \<Rightarrow> 'w \<Rightarrow> int \<times> 'w"
  c_close :: "int \<Rightarrow> 'w \<Rightarrow> 'w"
  c_mmap :: "nat \<Rightarrow> bool \<Rightarrow> int \<Rightarrow> 'w \<Rightarrow> addr \<times> 'w"
  c_munmap :: "addr \<Rightarrow> nat \<Rightarrow> 'w \<Rightarrow> int \<times> 'w"
  c_syscall :: "int \<Rightarrow> u64 \<Rightarrow> 'w \<Rightarrow> u64 \<times> 'w"

abbreviation "nul \<equiv> CHR 0x00"
abbreviation "backspace \<equiv> CHR 0x08"
abbreviation "newline \<equiv> CHR 0x0A"

text \<open>The texts of \<open>%d\<close>, \<open>%ld\<close>, \<open>%zu\<close> and \<open>%p\<close>.\<close>

fun dec_nat :: "nat \<Rightarrow> string" where
  "dec_nat n = (if n < 10 then [char_of (48 + n)] else dec_nat (n div 10) @ [char_of (48 + n mod 10)])"

definition dec :: "int \<Rightarrow> string" where
  "dec i = (if i < 0 then ''-'' @ dec_nat (nat (- i)) else dec_nat (nat i))"

definition hex_digit :: "nat \<Rightarrow> char" where
  "hex_digit d = (if d < 10 then char_of (48 + d) else char_of (87 + d))"

fun hex_nat :: "nat \<Rightarrow> string" where
  "hex_nat n = (if n < 16 then [hex_digit n] else hex_nat (n div 16) @ [hex_digit (n mod 16)])"

text \<open>The string in a character array.\<close>

definition c_string :: "string \<Rightarrow> string" where
  "c_string buf = takeWhile (\<lambda>c. c \<noteq> nul) buf"

text \<open>
  \<open>strtok\<close> of the C standard on the text that remains: the token, and what remains after the delimiter that ends it.
  The function also overwrites that delimiter in the array, which nobody reads afterwards.
\<close>

definition strtok :: "string \<Rightarrow> string \<Rightarrow> (string \<times> string) option" where
  "strtok s delims =
     (let t = dropWhile (\<lambda>c. c \<in> set delims) s in
      if t = [] then None
      else Some (takeWhile (\<lambda>c. c \<notin> set delims) t, tl (dropWhile (\<lambda>c. c \<notin> set delims) t)))"

subsection \<open>Time\<close>

definition get_pit_cycles :: "'w libc \<Rightarrow> 'w \<Rightarrow> u32 \<times> 'w" where
  "get_pit_cycles lib w = (let (r, w) = c_syscall lib 77 0 w in (ucast r, w))"

partial_function (option) sleep_loop :: "'w libc \<Rightarrow> u32 \<Rightarrow> 'w \<Rightarrow> 'w result" where
  "sleep_loop lib until w = (let (now, w) = get_pit_cycles lib w in if sint now < sint until then sleep_loop lib until w else ret w)"

definition sleep_riria :: "'w libc \<Rightarrow> u32 \<Rightarrow> 'w \<Rightarrow> 'w result" where
  "sleep_riria lib ms w = (let (start, w) = get_pit_cycles lib w in sleep_loop lib (start + ms) w)"

subsection \<open>Commands\<close>

partial_function (option) cat_loop :: "'w libc \<Rightarrow> addr \<Rightarrow> 'w \<Rightarrow> 'w result" where
  "cat_loop lib f w =
     (let (data, w) = c_fread lib 512 f w in
      if data \<noteq> [] then let (_, w) = c_fwrite lib data (c_stdout lib) w in cat_loop lib f w
      else ret w)"

definition cat :: "'w libc \<Rightarrow> string option \<Rightarrow> 'w \<Rightarrow> (int \<times> 'w) result" where
  "cat lib args w =
     (case args of None \<Rightarrow> ret (- 1, c_print lib ''no path specified.'' w)
      | Some path \<Rightarrow>
        let path_to_file = ''/init/'' @ path in
        if 256 \<le> length path_to_file then fails (Bad_Access ''strcat'') else
        let (f, w) = c_fopen lib path_to_file ''r'' w in
        if f = NULL then ret (- 1, c_print lib (''failed to open '' @ path_to_file @ ''\<newline>'') w) else
        rbind (cat_loop lib f w) (\<lambda>w. ret (0, c_fclose lib f w)))"

text \<open>The loop that writes what was read; the value says whether to go on.\<close>

partial_function (option) play_write :: "'w libc \<Rightarrow> addr \<Rightarrow> string \<Rightarrow> nat \<Rightarrow> u64 \<Rightarrow> 'w \<Rightarrow> (bool \<times> 'w) result" where
  "play_write lib f_driver data total_written pcm_pos w =
     (if total_written < length data then
        let (written, w) = c_fwrite lib (drop total_written data) f_driver w in
        if written = 0 then
          ret (False, c_print lib (''audio driver write failed at byte '' @
            dec (sint (pcm_pos + of_nat total_written)) @ ''\<newline>'') w)
        else
          rbind (sleep_riria lib 512 w) (\<lambda>w.
          let total_written = total_written + written;
              w = c_print lib (''played '' @ dec (sint (pcm_pos + of_nat total_written)) @ ''/'' @
                dec (sint (pcm_pos + of_nat (length data))) @ '' bytes\<newline>'') w
          in play_write lib f_driver data total_written pcm_pos w)
      else ret (True, w))"

definition PCM_BUFFER :: nat where "PCM_BUFFER = 128000"

partial_function (option) play_loop :: "'w libc \<Rightarrow> addr \<Rightarrow> addr \<Rightarrow> u64 \<Rightarrow> 'w \<Rightarrow> 'w result" where
  "play_loop lib f_driver f_pcm pcm_pos w =
     (let (data, w) = c_fread lib PCM_BUFFER f_pcm w in
      if data = [] then ret w else
      rbind (play_write lib f_driver data 0 pcm_pos w) (\<lambda>(go_on, w).
      if go_on then play_loop lib f_driver f_pcm (pcm_pos + of_nat (length data)) w else ret w))"

definition play_pcm :: "'w libc \<Rightarrow> string option \<Rightarrow> 'w \<Rightarrow> (int \<times> 'w) result" where
  "play_pcm lib args w =
     (case args of None \<Rightarrow> ret (- 1, c_print lib ''no path specified.\<newline>'' w)
      | Some path \<Rightarrow>
        let path_to_mus = ''/init/audio/'' @ path in
        if 256 \<le> length path_to_mus then ret (- 1, c_print lib ''path too long!\<newline>'' w) else
        let (f_driver, w) = c_fopen lib ''/dev/audio'' ''w'' w in
        if f_driver = NULL then ret (- 1, c_print lib ''failed to open audio driver\<newline>'' w) else
        let w = c_setvbuf lib f_driver w; (f_pcm, w) = c_fopen lib path_to_mus ''r'' w in
        if f_pcm = NULL then
          ret (- 1, c_fclose lib f_driver (c_print lib (''failed to open PCM file '' @ path_to_mus @ ''\<newline>'') w))
        else
        let w = c_setvbuf lib f_pcm w; (buffer, w) = c_malloc lib PCM_BUFFER w in
        if buffer = NULL then
          ret (- 1, c_fclose lib f_pcm (c_fclose lib f_driver (c_print lib ''failed to allocate audio buffer\<newline>'' w)))
        else
        rbind (play_loop lib f_driver f_pcm 0 w) (\<lambda>w.
        ret (0, c_fclose lib f_pcm (c_fclose lib f_driver (c_free lib buffer w)))))"

subsection \<open>Stress tests\<close>

text \<open>A counted loop with an early return: \<open>Some r\<close> once the function has returned \<open>r\<close>.\<close>

fun until_return :: "('x \<Rightarrow> 's \<Rightarrow> int option \<times> 's) \<Rightarrow> 'x list \<Rightarrow> 's \<Rightarrow> int option \<times> 's" where
  "until_return body [] s = (None, s)"
| "until_return body (x # xs) s =
     (case body x s of (Some r, s) \<Rightarrow> (Some r, s) | (None, s) \<Rightarrow> until_return body xs s)"

definition stress_test :: "'w libc \<Rightarrow> 'w \<Rightarrow> int \<times> 'w" where
  "stress_test lib w =
     (let alloc_size = 10 * 1024 * 1024; iterations = 10;
          body = (\<lambda>i w.
            let w = c_print lib (''allocation '' @ dec_nat (i + 1) @ ''/'' @ dec_nat iterations @ '': allocating '' @
                  dec_nat alloc_size @ '' bytes...\<newline>'') w;
                (ptr, w) = c_malloc lib alloc_size w
            in if ptr = NULL then (Some (- 1), c_print lib ''allocation failed!\<newline>'' w)
               else (None, c_free lib ptr (c_print lib (''allocation '' @ dec_nat (i + 1) @ ''/'' @ dec_nat iterations @
                  '': freeing memory...\<newline>'') (c_memset lib ptr 0xAA alloc_size w))))
      in case until_return body [0..<iterations] (c_print lib ''starting memory stress test...\<newline>'' w) of
           (Some r, w) \<Rightarrow> (r, w)
         | (None, w) \<Rightarrow> (0, c_print lib ''memory stress test completed successfully.\<newline>'' w))"

text \<open>The array of pointers is a list; the loops with step two run over the even numbers.\<close>

definition stress_heap_fragmentation :: "'w libc \<Rightarrow> 'w \<Rightarrow> int \<times> 'w" where
  "stress_heap_fragmentation lib w =
     (let blocks = 10000; min_size = 16; max_size = 1024;
          evens = map (\<lambda>k. 2 * k) [0..<blocks div 2];
          allocate = (\<lambda>size value message i (ptrs, w).
            let (ptr, w) = c_malloc lib (size i) w in
            if ptr = NULL then (Some (- 1), ptrs[i := ptr], c_print lib (message @ dec_nat i @ ''\<newline>'') w)
            else (None, ptrs[i := ptr], c_memset lib ptr value (size i) w))
      in case until_return (allocate (\<lambda>i. min_size + i mod (max_size - min_size)) 0xCC ''allocation failed at '') [0..<blocks]
                (replicate blocks NULL, c_print lib ''starting heap fragmentation stress test...\<newline>'' w) of
           (Some r, ptrs, w) \<Rightarrow> (r, w)
         | (None, ptrs, w) \<Rightarrow>
             let (ptrs, w) = fold (\<lambda>i (ptrs, w). (ptrs[i := NULL], c_free lib (ptrs ! i) w)) evens (ptrs, w) in
             (case until_return (allocate (\<lambda>_. 512) 0xDD ''re-allocation failed at '') evens (ptrs, w) of
                (Some r, ptrs, w) \<Rightarrow> (r, w)
              | (None, ptrs, w) \<Rightarrow>
                  (0, c_print lib ''heap fragmentation stress test completed.\<newline>'' (fold (c_free lib) ptrs w))))"

definition MAP_FAILED :: addr where "MAP_FAILED = - 1"

definition stress_mmap :: "'w libc \<Rightarrow> 'w \<Rightarrow> int \<times> 'w" where
  "stress_mmap lib w =
     (let iterations = 1000; size = 4096 * 16;
          body = (\<lambda>i w.
            let (ptr, w) = c_mmap lib size False (- 1) w in
            if ptr = MAP_FAILED then (Some (- 1), c_print lib (''mmap failed at iteration '' @ dec_nat i @ ''\<newline>'') w)
            else let (r, w) = c_munmap lib ptr size (c_memset lib ptr 0xAB size w) in
              if r \<noteq> 0 then (Some (- 1), c_print lib (''munmap failed at iteration '' @ dec_nat i @ ''\<newline>'') w)
              else (None, w))
      in case until_return body [0..<iterations] (c_print lib ''starting mmap stress test...\<newline>'' w) of
           (Some r, w) \<Rightarrow> (r, w)
         | (None, w) \<Rightarrow> (0, c_print lib ''mmap stress test completed.\<newline>'' w))"

definition stress_file_io :: "'w libc \<Rightarrow> 'w \<Rightarrow> int \<times> 'w" where
  "stress_file_io lib w =
     (let iterations = 1000;
          body = (\<lambda>i w.
            let (f, w) = c_fopen lib ''/init/test.txt'' ''r'' w in
            if f = NULL then (Some (- 1), c_print lib (''failed to open file at iteration '' @ dec_nat i @ ''\<newline>'') w)
            else let (_, w) = c_fread lib 1024 f w in (None, c_fclose lib f w))
      in case until_return body [0..<iterations] (c_print lib ''starting file I/O stress test...\<newline>'' w) of
           (Some r, w) \<Rightarrow> (r, w)
         | (None, w) \<Rightarrow> (0, c_print lib ''file I/O stress test completed.\<newline>'' w))"

text \<open>The array that \<open>recurse\<close> fills is never read.\<close>

function recurse :: "int \<Rightarrow> int" where
  "recurse depth = (if depth \<le> 0 then 0 else recurse (depth - 1))"
  by pat_completeness auto
termination by (relation "measure nat") auto

declare recurse.simps [simp del] dec_nat.simps [simp del] hex_nat.simps [simp del]

definition stress_stack :: "'w libc \<Rightarrow> 'w \<Rightarrow> int \<times> 'w" where
  "stress_stack lib w =
     (let w = c_print lib ''starting stack stress test...\<newline>'' w; _ = recurse 1024
      in (0, c_print lib ''stack stress test completed.\<newline>'' w))"

definition stress_all :: "'w libc \<Rightarrow> 'w \<Rightarrow> int \<times> 'w" where
  "stress_all lib w =
     (let (_, w) = stress_test lib w; (_, w) = stress_heap_fragmentation lib w; (_, w) = stress_file_io lib w;
          (_, w) = stress_stack lib w
      in (0, w))"

subsection \<open>The command line\<close>

text \<open>\<open>exec\<close> compares the command without a test for \<open>NULL\<close>.\<close>

definition shell_exec :: "'w libc \<Rightarrow> string \<Rightarrow> 'w \<Rightarrow> 'w result" where
  "shell_exec lib arg w =
     (case strtok arg '' '' of None \<Rightarrow> fails (Bad_Access ''strcmp'')
      | Some (cmd, saved) \<Rightarrow>
        let args = map_option fst (strtok saved '''') in
        rbind (if cmd = ''cat'' then rbind (cat lib args w) (\<lambda>(_, w). ret w) else ret w) (\<lambda>w.
        rbind (if cmd = ''play'' then rbind (play_pcm lib args w) (\<lambda>(_, w). ret w) else ret w) (\<lambda>w.
        let w = (if cmd = ''stress'' then snd (stress_test lib w) else w);
            w = (if cmd = ''stress-heap'' then snd (stress_heap_fragmentation lib w) else w);
            w = (if cmd = ''stress-mmap'' then snd (stress_mmap lib w) else w);
            w = (if cmd = ''stress-io'' then snd (stress_file_io lib w) else w);
            w = (if cmd = ''stress-stack'' then snd (stress_stack lib w) else w);
            w = (if cmd = ''stress-all'' then snd (stress_all lib w) else w)
        in ret w)))"

text \<open>\<open>key\<close> keeps its value when nothing arrives.\<close>

partial_function (option) getch_loop :: "'w libc \<Rightarrow> addr \<Rightarrow> char \<Rightarrow> 'w \<Rightarrow> (char \<times> 'w) result" where
  "getch_loop lib f_kb key w =
     (let (data, w) = c_fread lib 1 f_kb w; key = (if data = [] then key else hd data) in
      if key \<noteq> nul then ret (key, c_fclose lib f_kb w) else getch_loop lib f_kb key w)"

definition getch :: "'w libc \<Rightarrow> 'w \<Rightarrow> (char \<times> 'w) result" where
  "getch lib w =
     (let (f_kb, w) = c_fopen lib ''/dev/keyboard'' ''r'' w in
      if f_kb = NULL then ret (nul, w) else getch_loop lib f_kb nul (c_setvbuf lib f_kb w))"

definition printable :: "char \<Rightarrow> bool" where
  "printable c \<longleftrightarrow> 32 \<le> (of_char c :: nat) \<and> (of_char c :: nat) \<le> 126"

partial_function (option) read_line_loop ::
  "'w libc \<Rightarrow> u64 \<Rightarrow> string \<Rightarrow> u64 \<Rightarrow> 'w \<Rightarrow> (u64 \<times> string \<times> 'w) result" where
  "read_line_loop lib len buf pos w =
     rbind (getch lib w) (\<lambda>(c, w).
     if c = newline then ret (pos, buf, c_print lib [newline] w)
     else if c = backspace then
       if pos > 0 then read_line_loop lib len buf (pos - 1) (c_print lib [backspace, CHR '' '', backspace] w)
       else read_line_loop lib len buf pos w
     else if printable c then
       if pos < len - 1 then
         if unat pos < length buf then read_line_loop lib len (buf[unat pos := c]) (pos + 1) (c_print lib [c] w)
         else fails (Bad_Access ''buf'')
       else read_line_loop lib len buf pos w
     else read_line_loop lib len buf pos w)"

definition read_line :: "'w libc \<Rightarrow> string \<Rightarrow> u64 \<Rightarrow> 'w \<Rightarrow> (u64 \<times> string \<times> 'w) result" where
  "read_line lib buf len w = read_line_loop lib len buf 0 w"

definition SHELL_BUFFER :: u64 where "SHELL_BUFFER = 128"

partial_function (option) shell_loop :: "'w libc \<Rightarrow> string \<Rightarrow> 'w \<Rightarrow> int result" where
  "shell_loop lib buffer w =
     rbind (read_line lib buffer SHELL_BUFFER (c_print lib ''> '' w)) (\<lambda>(len, buffer, w).
     let buffer = take (unat len) buffer @ replicate (unat (SHELL_BUFFER - len)) nul in
     if len = 0 then shell_loop lib buffer w
     else rbind (shell_exec lib (c_string buffer) w) (\<lambda>w. shell_loop lib buffer w))"

definition shell_main :: "'w libc \<Rightarrow> 'w \<Rightarrow> int result" where
  "shell_main lib w = shell_loop lib (replicate (unat SHELL_BUFFER) nul) (c_setvbuf lib (c_stdout lib) w)"

subsection \<open>The framebuffer demonstration\<close>

definition FB_HEIGHT :: nat where "FB_HEIGHT = 768"
definition FB_PITCH :: nat where "FB_PITCH = 4096"

text \<open>The mapped pixels, numbered from the address that \<open>mmap\<close> returned.\<close>

type_synonym fb_pixels = "nat \<Rightarrow> u32"

definition fb_store :: "u32 \<Rightarrow> u32 \<Rightarrow> u32 \<Rightarrow> fb_pixels \<Rightarrow> fb_pixels result" where
  "fb_store i x y px =
     (let k = unat (y * 1024) + unat x in
      if 4 * k + 4 \<le> FB_PITCH * FB_HEIGHT
      then ret (px(k := (push_bit 16 i OR push_bit 8 i) OR i)) else fails (Bad_Access ''fb0''))"

text \<open>The loops \<open>for (x = a; x < b; x++)\<close>; the limit is computed anew in every round and does not change.\<close>

definition fb_range :: "u32 \<Rightarrow> u32 \<Rightarrow> u32 list" where
  "fb_range a b = map of_nat [unat a..<unat b]"

definition fb_frame :: "u32 \<Rightarrow> fb_pixels \<Rightarrow> fb_pixels result" where
  "fb_frame i px =
     for_each (\<lambda>x. for_each (\<lambda>y. fb_store i x y) (fb_range (i mod 400 + 100) (i mod 400 + 200)))
       (fb_range (i mod 640 + 100) (i mod 640 + 200)) px"

partial_function (option) fb_loop :: "u32 \<Rightarrow> fb_pixels \<Rightarrow> int result" where
  "fb_loop i px = (let i = i + 1 in rbind (fb_frame i px) (\<lambda>px. fb_loop i px))"

text \<open>
  The failure value of \<open>mmap\<close> is \<open>MAP_FAILED\<close>, behind which nothing is mapped; the program tests for \<open>NULL\<close> and draws
  at any other address. \<open>px\<close> gives the pixels that a mapping at an address shows.
\<close>

definition fb_main :: "'w libc \<Rightarrow> (addr \<Rightarrow> 'w \<Rightarrow> fb_pixels) \<Rightarrow> 'w \<Rightarrow> (int \<times> 'w) result" where
  "fb_main lib px w =
     (let (f_fb, w) = c_open lib ''/dev/fb0'' (c_print lib ''Trying to mmap /dev/fb0...\<newline>'' w) in
      if f_fb < 0 then ret (- 1, c_print lib ''failed to open /dev/fb0\<newline>'' w) else
      let (fbPtr, w) = c_mmap lib (FB_PITCH * FB_HEIGHT) True f_fb w;
          w = c_print lib (''mmap returned fbPtr=0x'' @ hex_nat (unat fbPtr) @ ''\<newline>'') w
      in
      if fbPtr = NULL then ret (- 1, c_close lib f_fb (c_print lib ''failed to mmap /dev/fb0\<newline>'' w))
      else if fbPtr = MAP_FAILED then fails (Bad_Access ''MAP_FAILED'')
      else rbind (fb_loop 0 (px fbPtr w)) (\<lambda>r. ret (r, w)))"

end
