(* ===== verification/Userspace_Correct.thy ===== *)
theory Userspace_Correct
  imports Userspace
begin

text \<open>
  What the user programs do. The theorems about the shell are relative to contracts of the C library: how the keyboard, the
  files and the terminal behave, as predicates over views of the world.
\<close>

section \<open>Editing a line\<close>

text \<open>
  The contract of the keyboard and the terminal: \<open>keys\<close> are the bytes that the keyboard will deliver, a zero where no key
  is pressed, \<open>shown\<close> is the text printed so far, \<open>opened\<close> tells the streams of the keyboard.
\<close>

definition keyboard_ok :: "'w libc \<Rightarrow> ('w \<Rightarrow> string) \<Rightarrow> ('w \<Rightarrow> string) \<Rightarrow> (addr \<Rightarrow> 'w \<Rightarrow> bool) \<Rightarrow> bool" where
  "keyboard_ok lib keys shown opened \<longleftrightarrow>
     (\<forall>w f w'. c_fopen lib ''/dev/keyboard'' ''r'' w = (f, w') \<longrightarrow>
        f \<noteq> NULL \<and> opened f w' \<and> keys w' = keys w \<and> shown w' = shown w) \<and>
     (\<forall>f w. opened f w \<longrightarrow>
        opened f (c_setvbuf lib f w) \<and> keys (c_setvbuf lib f w) = keys w \<and> shown (c_setvbuf lib f w) = shown w) \<and>
     (\<forall>f w c cs data w'. opened f w \<and> keys w = c # cs \<and> c_fread lib 1 f w = (data, w') \<longrightarrow>
        data = [c] \<and> opened f w' \<and> keys w' = cs \<and> shown w' = shown w) \<and>
     (\<forall>f w. opened f w \<longrightarrow> keys (c_fclose lib f w) = keys w \<and> shown (c_fclose lib f w) = shown w) \<and>
     (\<forall>t w. keys (c_print lib t w) = keys w \<and> shown (c_print lib t w) = shown w @ t)"

lemma keyboard_okD:
  assumes kb: "keyboard_ok lib keys shown opened"
  shows "c_fopen lib ''/dev/keyboard'' ''r'' w = (f, w') \<Longrightarrow> f \<noteq> NULL \<and> opened f w' \<and> keys w' = keys w \<and> shown w' = shown w"
    "opened f w \<Longrightarrow> opened f (c_setvbuf lib f w) \<and> keys (c_setvbuf lib f w) = keys w \<and> shown (c_setvbuf lib f w) = shown w"
    "opened f w \<Longrightarrow> keys w = c # cs \<Longrightarrow> c_fread lib 1 f w = (data, w') \<Longrightarrow>
       data = [c] \<and> opened f w' \<and> keys w' = cs \<and> shown w' = shown w"
    "opened f w \<Longrightarrow> keys (c_fclose lib f w) = keys w \<and> shown (c_fclose lib f w) = shown w"
    "keys (c_print lib t w) = keys w" "shown (c_print lib t w) = shown w @ t"
  using kb unfolding keyboard_ok_def by blast+

text \<open>The line and the echo that keys produce, for a line of at most \<open>n\<close> characters.\<close>

definition type_key :: "nat \<Rightarrow> string \<Rightarrow> char \<Rightarrow> string" where
  "type_key n line c =
     (if c = backspace then butlast line else if printable c \<and> length line < n then line @ [c] else line)"

definition echo :: "nat \<Rightarrow> string \<Rightarrow> char \<Rightarrow> string" where
  "echo n line c =
     (if c = backspace then if line = [] then [] else [backspace, CHR '' '', backspace]
      else if printable c \<and> length line < n then [c] else [])"

fun typed :: "nat \<Rightarrow> string \<Rightarrow> string \<Rightarrow> string" where
  "typed n line [] = line"
| "typed n line (c # cs) = typed n (type_key n line c) cs"

fun echoed :: "nat \<Rightarrow> string \<Rightarrow> string \<Rightarrow> string" where
  "echoed n line [] = []"
| "echoed n line (c # cs) = echo n line c @ echoed n (type_key n line c) cs"

lemma printable_simps [simp]: "\<not> printable nul" "\<not> printable backspace" "\<not> printable newline" "printable (CHR '' '')"
  by (simp_all add: printable_def)

lemma typed_nul [simp]: "typed n line (nul # cs) = typed n line cs" "echoed n line (nul # cs) = echoed n line cs"
  by (simp_all add: type_key_def echo_def)

lemma typed_nuls: "set ks \<subseteq> {nul} \<Longrightarrow> typed n line (ks @ cs) = typed n line cs \<and> echoed n line (ks @ cs) = echoed n line cs"
  by (induction ks) (auto simp del: typed.simps echoed.simps simp: typed.simps(1))

lemma type_key_ok:
  assumes "length line \<le> n" "\<forall>c\<in>set line. printable c"
  shows "length (type_key n line c) \<le> n" "\<forall>c\<in>set (type_key n line c). printable c"
  using assms by (auto simp: type_key_def dest: in_set_butlastD)

lemma typed_ok:
  assumes "length line \<le> n" "\<forall>c\<in>set line. printable c"
  shows "length (typed n line cs) \<le> n \<and> (\<forall>c\<in>set (typed n line cs). printable c)"
  using assms
proof (induction cs arbitrary: line)
  case (Cons c cs)
  show ?case using Cons.IH [OF type_key_ok [OF Cons.prems, of c]] by simp
qed simp

lemma getch_loop_keys:
  assumes "keyboard_ok lib keys shown opened" "opened f w" "keys w = ks @ c # rest" "set ks \<subseteq> {nul}" "c \<noteq> nul"
  shows "\<exists>w'. getch_loop lib f nul w = ret (c, w') \<and> keys w' = rest \<and> shown w' = shown w"
  using assms(2-4)
proof (induction ks arbitrary: w)
  case Nil
  obtain data w1 where r: "c_fread lib 1 f w = (data, w1)" by fastforce
  then have "data = [c]" "opened f w1" "keys w1 = rest" "shown w1 = shown w"
    using keyboard_okD(3) [OF assms(1) Nil(1) _ r, of c rest] Nil(2) by simp_all
  moreover have "keys (c_fclose lib f w1) = keys w1" "shown (c_fclose lib f w1) = shown w1"
    using keyboard_okD(4) [OF assms(1) \<open>opened f w1\<close>] by simp_all
  ultimately show ?case using r assms(5) by (subst getch_loop.simps) simp
next
  case (Cons k ks)
  obtain data w1 where r: "c_fread lib 1 f w = (data, w1)" by fastforce
  then have d: "data = [k]" "opened f w1" "keys w1 = ks @ c # rest" "shown w1 = shown w"
    using keyboard_okD(3) [OF assms(1) Cons.prems(1) _ r, of k "ks @ c # rest"] Cons.prems(2) by simp_all
  have "k = nul" using Cons.prems(3) by simp
  then have "getch_loop lib f nul w = getch_loop lib f nul w1" using r d(1) by (subst getch_loop.simps) simp
  then show ?case using Cons.IH [OF d(2,3)] Cons.prems(3) d(4) by simp
qed

lemma getch_keys:
  assumes kb: "keyboard_ok lib keys shown opened" and "keys w = ks @ c # rest" "set ks \<subseteq> {nul}" "c \<noteq> nul"
  shows "\<exists>w'. getch lib w = ret (c, w') \<and> keys w' = rest \<and> shown w' = shown w"
proof -
  obtain f w1 where o: "c_fopen lib ''/dev/keyboard'' ''r'' w = (f, w1)" by fastforce
  then have f: "f \<noteq> NULL" "opened f w1" "keys w1 = keys w" "shown w1 = shown w"
    using keyboard_okD(1) [OF kb o] by simp_all
  have s: "opened f (c_setvbuf lib f w1)" "keys (c_setvbuf lib f w1) = keys w1" "shown (c_setvbuf lib f w1) = shown w1"
    using keyboard_okD(2) [OF kb f(2)] by simp_all
  have k: "keys (c_setvbuf lib f w1) = ks @ c # rest" using s(2) f(3) assms(2) by simp
  obtain w' where w': "getch_loop lib f nul (c_setvbuf lib f w1) = ret (c, w')" "keys w' = rest"
    "shown w' = shown (c_setvbuf lib f w1)"
    using getch_loop_keys [OF kb s(1) k assms(3,4)] by blast
  have "getch lib w = getch_loop lib f nul (c_setvbuf lib f w1)" using o f(1) by (simp add: getch_def)
  then show ?thesis using w' s(3) f(4) by auto
qed

text \<open>The keys up to the end of a line: the first one that is not zero, and what follows.\<close>

lemma first_key:
  assumes "newline \<notin> set ks"
  obtains (end_of_line) "set ks \<subseteq> {nul}"
    | (key) ns c cs where "ks = ns @ c # cs" "set ns \<subseteq> {nul}" "c \<noteq> nul" "c \<noteq> newline" "newline \<notin> set cs"
proof (cases "dropWhile (\<lambda>c. c = nul) ks")
  case Nil
  then show ?thesis by (intro end_of_line) (auto simp: dropWhile_eq_Nil_conv)
next
  case (Cons c cs)
  have ks: "ks = takeWhile (\<lambda>c. c = nul) ks @ c # cs" using takeWhile_dropWhile_id [of "\<lambda>c. c = nul" ks] Cons by simp
  moreover have "c \<noteq> nul" using hd_dropWhile [of "\<lambda>c. c = nul" ks] Cons by simp
  moreover have "c \<noteq> newline" "newline \<notin> set cs" using assms arg_cong [OF ks, of set] by auto
  ultimately show ?thesis by (intro key [of "takeWhile (\<lambda>c. c = nul) ks" c cs]) (auto dest: set_takeWhileD)
qed

text \<open>The effect of one key.\<close>

lemma key_step:
  assumes kb: "keyboard_ok lib keys shown opened" and len: "0 < len" "length buf = unat len"
    and line: "length line \<le> unat len - 1" "take (length line) buf = line"
    and c: "getch lib w = ret (c, w1)" "c \<noteq> newline"
  defines "n \<equiv> unat len - 1"
  shows "\<exists>buf' w2. read_line_loop lib len buf (of_nat (length line)) w =
      read_line_loop lib len buf' (of_nat (length (type_key n line c))) w2 \<and>
    keys w2 = keys w1 \<and> shown w2 = shown w1 @ echo n line c \<and> length buf' = length buf \<and>
    take (length (type_key n line c)) buf' = type_key n line c"
proof -
  let ?pos = "of_nat (length line) :: u64"
  have u: "unat (len - 1) = n" using len(1) by (simp add: n_def unat_sub word_le_nat_alt word_less_nat_alt)
  have "length line < 2 ^ 64" using line(1) unat_lt64(1) [of len] by simp
  then have pos: "unat ?pos = length line" by (simp add: unat_of_nat_lt)
  have lt: "?pos < len - 1 \<longleftrightarrow> length line < n" by (simp add: word_less_nat_alt u pos)
  have gt: "0 < ?pos \<longleftrightarrow> line \<noteq> []" by (simp add: word_less_nat_alt pos)
  note step = read_line_loop.simps [of lib len buf ?pos w]
  consider "c = backspace" "line \<noteq> []" | "c \<noteq> backspace" "printable c" "length line < n"
    | "c = backspace \<and> line = [] \<or> c \<noteq> backspace \<and> (printable c \<longrightarrow> \<not> length line < n)" by blast
  then show ?thesis
  proof cases
    case 1
    have p: "?pos - 1 = of_nat (length line - 1)" using 1(2) by (simp add: of_nat_diff Suc_leI)
    have "take (length line - 1) buf = butlast line"
      using line(2) by (metis butlast_conv_take min.absorb1 diff_le_self take_take)
    then show ?thesis using 1 c(1) gt keyboard_okD(5,6) [OF kb]
      by (intro exI [of _ buf] exI [of _ "c_print lib [backspace, CHR '' '', backspace] w1"])
        (simp add: step type_key_def echo_def p)
  next
    case 2
    have "length line < length buf" using 2(3) len(2) by (simp add: n_def)
    moreover from this have "take (Suc (length line)) (buf[length line := c]) = line @ [c]"
      using line(2) by (simp add: take_Suc_conv_app_nth)
    ultimately show ?thesis using 2 c lt pos keyboard_okD(5,6) [OF kb]
      by (intro exI [of _ "buf[length line := c]"] exI [of _ "c_print lib [c] w1"])
        (simp add: step type_key_def echo_def add.commute)
  next
    case 3
    then show ?thesis using c lt gt line(2)
      by (intro exI [of _ buf] exI [of _ w1]) (auto simp: step type_key_def echo_def)
  qed
qed

lemma read_line_loop_keys:
  assumes kb: "keyboard_ok lib keys shown opened" and len: "0 < len" "length buf = unat len"
    and "keys w = ks @ newline # rest" "newline \<notin> set ks"
    "length line \<le> unat len - 1" "take (length line) buf = line"
  shows "\<exists>buf' w'. read_line_loop lib len buf (of_nat (length line)) w = ret (of_nat (length (typed (unat len - 1) line ks)), buf', w') \<and>
    take (length (typed (unat len - 1) line ks)) buf' = typed (unat len - 1) line ks \<and> length buf' = length buf \<and>
    keys w' = rest \<and> shown w' = shown w @ echoed (unat len - 1) line ks @ [newline]"
  using assms(3-7)
proof (induction ks arbitrary: w buf line rule: length_induct)
  case (1 ks)
  let ?n = "unat len - 1" and ?pos = "of_nat (length line) :: u64"
  have pr: "keys (c_print lib t w) = keys w" "shown (c_print lib t w) = shown w @ t" for t w
    using keyboard_okD(5,6) [OF kb] by simp_all
  show ?case
  proof (cases rule: first_key [OF "1.prems"(3)])
    case 1
    then obtain w1 where w1: "getch lib w = ret (newline, w1)" "keys w1 = rest" "shown w1 = shown w"
      using getch_keys [OF kb "1.prems"(2), of] by auto
    have t: "typed ?n line ks = line" "echoed ?n line ks = []" using typed_nuls [OF 1, of ?n line "[]"] by simp_all
    show ?thesis using w1 pr "1.prems"(1,5) unfolding t by (subst read_line_loop.simps) simp
  next
    case (2 ns c cs)
    have "keys w = ns @ c # (cs @ newline # rest)" using "1.prems"(2) 2(1) by simp
    from getch_keys [OF kb this 2(2,3)] obtain w1 where
      w1: "getch lib w = ret (c, w1)" "keys w1 = cs @ newline # rest" "shown w1 = shown w" by blast
    have t: "typed ?n line ks = typed ?n (type_key ?n line c) cs" "echoed ?n line ks = echo ?n line c @ echoed ?n (type_key ?n line c) cs"
      using typed_nuls [OF 2(2), of ?n line "c # cs"] 2(1) by simp_all
    have lt: "length cs < length ks" using 2(1) by simp
    obtain buf' w2 where step: "read_line_loop lib len buf ?pos w = read_line_loop lib len buf' (of_nat (length (type_key ?n line c))) w2"
      "keys w2 = keys w1" "shown w2 = shown w1 @ echo ?n line c" "length buf' = length buf"
      "take (length (type_key ?n line c)) buf' = type_key ?n line c"
      using key_step [OF kb len(1) "1.prems"(1,4,5) w1(1) 2(4)] by blast
    have le: "length (type_key ?n line c) \<le> ?n" using "1.prems"(4) by (auto simp: type_key_def)
    have k: "keys w2 = cs @ newline # rest" "length buf' = unat len" using step w1 "1.prems"(1) by simp_all
    from "1.IH" [rule_format, OF lt k(2,1) 2(5) le step(5)] show ?thesis unfolding t step(1) using step(3,4) w1(3) by simp
  qed
qed

section \<open>A round of the shell\<close>

lemma c_string_line:
  assumes "\<forall>c\<in>set l. printable c"
  shows "c_string (l @ replicate k nul) = l"
proof -
  have "\<forall>c\<in>set l. c \<noteq> nul" using assms by auto
  then show ?thesis by (cases k) (simp_all add: c_string_def takeWhile_append)
qed

lemma shell_loop_round:
  assumes kb: "keyboard_ok lib keys shown opened" and buf: "length buf = 128"
    and k: "keys w = ks @ newline # rest" "newline \<notin> set ks"
  defines "l \<equiv> typed 127 [] ks"
  shows "\<exists>buf' w'. length buf' = 128 \<and> keys w' = rest \<and> shown w' = shown w @ ''> '' @ echoed 127 [] ks @ [newline] \<and>
    length l < 128 \<and> (\<forall>c\<in>set l. printable c) \<and>
    shell_loop lib buf w = (if l = [] then shell_loop lib buf' w' else rbind (shell_exec lib l w') (shell_loop lib buf'))"
proof -
  have l: "length l \<le> 127" "\<forall>c\<in>set l. printable c" using typed_ok [of "[]" 127 ks] by (simp_all add: l_def)
  have "keys (c_print lib ''> '' w) = ks @ newline # rest" using keyboard_okD(5) [OF kb] k(1) by simp
  from read_line_loop_keys [OF kb, of SHELL_BUFFER buf _ ks rest "[]", OF _ _ this k(2)]
  obtain buf' w' where r: "read_line lib buf SHELL_BUFFER (c_print lib ''> '' w) = ret (of_nat (length l), buf', w')"
    "take (length l) buf' = l" "length buf' = 128" "keys w' = rest"
    "shown w' = shown w @ ''> '' @ echoed 127 [] ks @ [newline]"
    using keyboard_okD(6) [OF kb] buf by (auto simp: SHELL_BUFFER_def read_line_def l_def)
  have u: "unat (of_nat (length l) :: u64) = length l" using l(1) by (simp add: unat_of_nat_lt)
  have "unat (SHELL_BUFFER - of_nat (length l)) = 128 - length l"
    using l(1) u by (simp add: SHELL_BUFFER_def unat_sub word_le_nat_alt)
  then have "take (unat (of_nat (length l) :: u64)) buf' @ replicate (unat (SHELL_BUFFER - of_nat (length l))) nul =
      l @ replicate (128 - length l) nul" using r(2) by (simp add: u)
  moreover have "(of_nat (length l) :: u64) = 0 \<longleftrightarrow> l = []" unfolding word_unat_eq_iff u by simp
  ultimately have "shell_loop lib buf w = (if l = [] then shell_loop lib (l @ replicate (128 - length l) nul) w'
      else rbind (shell_exec lib l w') (shell_loop lib (l @ replicate (128 - length l) nul)))"
    using r(1) c_string_line [OF l(2)] by (subst shell_loop.simps) (simp add: Let_def SHELL_BUFFER_def)
  then show ?thesis using r(4,5) l
    by (intro exI [of _ "l @ replicate (128 - length l) nul"] exI [of _ w']) simp
qed

text \<open>
  C38. One round of the shell's main loop, for keys that end in a newline, under the contract of the keyboard and the
  terminal: the round returns from \<open>read_line\<close> with the line that editing produces (backspace takes the last character
  away, characters beyond the 127th and unprintable ones are ignored), the terminal shows the prompt and the echo, the
  keys after the newline are left, and exactly the edited line is executed, whatever was in the buffer before; an empty
  line starts the next round.
\<close>

theorem shell_round_correct:
  assumes "keyboard_ok lib keys shown opened" "length buf = 128" "keys w = ks @ newline # rest" "newline \<notin> set ks"
  shows "\<exists>buf' w'. length buf' = 128 \<and> keys w' = rest \<and> shown w' = shown w @ ''> '' @ echoed 127 [] ks @ [newline] \<and>
    length (typed 127 [] ks) < 128 \<and> (\<forall>c\<in>set (typed 127 [] ks). printable c) \<and>
    shell_loop lib buf w = (if typed 127 [] ks = [] then shell_loop lib buf' w'
      else rbind (shell_exec lib (typed 127 [] ks) w') (shell_loop lib buf'))"
  using assms by (rule shell_loop_round)

section \<open>Commands\<close>

lemma exec_blank: "set l \<subseteq> {CHR '' ''} \<Longrightarrow> shell_exec lib l w = fails (Bad_Access ''strcmp'')"
  by (auto simp: shell_exec_def strtok_def Let_def dropWhile_eq_Nil_conv)

lemma typed_blanks: "length line + k \<le> n \<Longrightarrow> typed n line (replicate k (CHR '' '')) = line @ replicate k (CHR '' '')"
proof (induction k arbitrary: line)
  case (Suc k)
  have "type_key n line (CHR '' '') = line @ [CHR '' '']" using Suc.prems by (simp add: type_key_def)
  then show ?case using Suc by (simp add: replicate_append_same)
qed simp

text \<open>
  A line of blanks ends the shell: \<open>strtok\<close> finds no command and \<open>exec\<close> passes the null pointer on to \<open>strcmp\<close>.
\<close>

theorem shell_blank_line_crashes:
  assumes "keyboard_ok lib keys shown opened" "length buf = 128"
    "keys w = replicate k (CHR '' '') @ newline # rest" "0 < k" "k < 128"
  shows "shell_loop lib buf w = fails (Bad_Access ''strcmp'')"
proof -
  have "newline \<notin> set (replicate k (CHR '' ''))" by simp
  from shell_loop_round [OF assms(1-3) this] typed_blanks [of "[]" k 127] exec_blank [of "replicate k (CHR '' '')" lib] assms(4,5)
  show ?thesis by auto
qed

text \<open>
  The contract of files: \<open>left f\<close> is what is left to read of a stream, \<open>content\<close> the bytes of the file at \<open>path\<close>.
\<close>

definition file_ok :: "'w libc \<Rightarrow> string \<Rightarrow> string \<Rightarrow> (addr \<Rightarrow> 'w \<Rightarrow> string) \<Rightarrow> ('w \<Rightarrow> string) \<Rightarrow> bool" where
  "file_ok lib path content left shown \<longleftrightarrow>
     (\<forall>w f w'. c_fopen lib path ''r'' w = (f, w') \<longrightarrow> f \<noteq> NULL \<and> left f w' = content \<and> shown w' = shown w) \<and>
     (\<forall>n f w data w'. c_fread lib n f w = (data, w') \<longrightarrow>
        length data \<le> n \<and> left f w = data @ left f w' \<and> (data = [] \<and> 0 < n \<longrightarrow> left f w = []) \<and> shown w' = shown w) \<and>
     (\<forall>bs f w k w'. c_fwrite lib bs (c_stdout lib) w = (k, w') \<longrightarrow> shown w' = shown w @ bs \<and> left f w' = left f w) \<and>
     (\<forall>f w. shown (c_fclose lib f w) = shown w)"

lemma file_okD:
  assumes "file_ok lib path content left shown"
  shows "c_fopen lib path ''r'' w = (f, w') \<Longrightarrow> f \<noteq> NULL \<and> left f w' = content \<and> shown w' = shown w"
    "c_fread lib n f w = (data, w') \<Longrightarrow>
       length data \<le> n \<and> left f w = data @ left f w' \<and> (data = [] \<and> 0 < n \<longrightarrow> left f w = []) \<and> shown w' = shown w"
    "c_fwrite lib bs (c_stdout lib) w = (k, w') \<Longrightarrow> shown w' = shown w @ bs \<and> left f w' = left f w"
    "shown (c_fclose lib f w) = shown w"
  using assms unfolding file_ok_def by blast+

lemma cat_loop_shows:
  assumes ok: "file_ok lib path content left shown"
  shows "\<exists>w'. cat_loop lib f w = ret w' \<and> shown w' = shown w @ left f w"
proof (induction "length (left f w)" arbitrary: w rule: less_induct)
  case less
  obtain data w1 where r: "c_fread lib 512 f w = (data, w1)" by fastforce
  have d: "left f w = data @ left f w1" "data = [] \<Longrightarrow> left f w = []" "shown w1 = shown w"
    using file_okD(2) [OF ok r] by auto
  show ?case
  proof (cases "data = []")
    case True
    then show ?thesis using r d by (subst cat_loop.simps) simp
  next
    case False
    obtain k w2 where wr: "c_fwrite lib data (c_stdout lib) w1 = (k, w2)" by fastforce
    have e: "shown w2 = shown w @ data" "left f w2 = left f w1" using file_okD(3) [OF ok wr] d(3) by simp_all
    have "length (left f w2) < length (left f w)" using False d(1) e(2) by simp
    from less [OF this] show ?thesis using r wr False d(1) e by (subst cat_loop.simps) simp
  qed
qed

lemma exec_cat: "p \<noteq> [] \<Longrightarrow> shell_exec lib (''cat '' @ p) w = rbind (cat lib (Some p) w) (\<lambda>(_, w). ret w)"
  by (simp add: shell_exec_def strtok_def Let_def takeWhile_eq_all_conv [THEN iffD2])

text \<open>
  C39. The command \<open>cat\<close> with the name of a file, as far as a line of the shell can hold it: it returns after the whole
  content of the file under \<open>/init/\<close> has been written to the terminal, in whatever portions the library delivers it, and
  the name fits its buffer.
\<close>

theorem shell_cat_correct:
  assumes "file_ok lib (''/init/'' @ p) content left shown" "p \<noteq> []" "length (''cat '' @ p) < 128"
  shows "\<exists>w'. shell_exec lib (''cat '' @ p) w = ret w' \<and> shown w' = shown w @ content"
proof -
  obtain f w1 where o: "c_fopen lib (''/init/'' @ p) ''r'' w = (f, w1)" by fastforce
  have f: "f \<noteq> NULL" "left f w1 = content" "shown w1 = shown w" using file_okD(1) [OF assms(1) o] by simp_all
  obtain w2 where w2: "cat_loop lib f w1 = ret w2" "shown w2 = shown w @ content"
    using cat_loop_shows [OF assms(1), of f w1] f by auto
  have "shown (c_fclose lib f w2) = shown w2" by (rule file_okD(4) [OF assms(1)])
  then show ?thesis using w2 f(1) assms(3) o unfolding exec_cat [OF assms(2)] by (simp add: cat_def Let_def)
qed

section \<open>A concrete library\<close>

text \<open>A world of pending keys, the unread rest of the one file \<open>/init/motd\<close>, and the text shown.\<close>

definition lib_example :: "(string \<times> string \<times> string) libc" where
  "lib_example = \<lparr>
     c_fopen = (\<lambda>path _ (k, l, s). if path = ''/dev/keyboard'' then (1, (k, l, s))
       else if path = ''/init/motd'' then (2, (k, ''hello'', s)) else (NULL, (k, l, s))),
     c_fread = (\<lambda>n f (k, l, s). if f = 1 then (take n k, (drop n k, l, s))
       else if f = 2 then (take n l, (k, drop n l, s)) else ([], (k, l, s))),
     c_fwrite = (\<lambda>bs _ (k, l, s). (length bs, (k, l, s @ bs))),
     c_fclose = (\<lambda>_ w. w), c_setvbuf = (\<lambda>_ w. w), c_stdout = 3, c_print = (\<lambda>t (k, l, s). (k, l, s @ t)),
     c_malloc = (\<lambda>_ w. (NULL, w)), c_free = (\<lambda>_ w. w), c_memset = (\<lambda>_ _ _ w. w),
     c_open = (\<lambda>_ w. (- 1, w)), c_close = (\<lambda>_ w. w), c_mmap = (\<lambda>_ _ _ w. (MAP_FAILED, w)),
     c_munmap = (\<lambda>_ _ w. (- 1, w)), c_syscall = (\<lambda>_ _ w. (0, w))\<rparr>"

abbreviation keys_of :: "string \<times> string \<times> string \<Rightarrow> string" where "keys_of \<equiv> fst"
abbreviation shown_of :: "string \<times> string \<times> string \<Rightarrow> string" where "shown_of w \<equiv> snd (snd w)"

definition left_of :: "addr \<Rightarrow> string \<times> string \<times> string \<Rightarrow> string" where
  "left_of f w = (if f = 1 then fst w else if f = 2 then fst (snd w) else [])"

lemma lib_example_ok:
  "keyboard_ok lib_example keys_of shown_of (\<lambda>f _. f = 1)"
  "file_ok lib_example ''/init/motd'' ''hello'' left_of shown_of"
  by (auto simp: keyboard_ok_def file_ok_def lib_example_def left_of_def split: if_splits)

theorem shell_round_correct_witness:
  "\<exists>buf' w'. shown_of w' = ''> ab'' @ [backspace, CHR '' '', backspace, CHR ''c'', newline] \<and> keys_of w' = [] \<and>
    shell_loop lib_example (replicate 128 nul) ([CHR ''a'', CHR ''b'', nul, backspace, CHR ''c'', newline], [], []) =
      rbind (shell_exec lib_example ''ac'' w') (shell_loop lib_example buf')"
  using shell_round_correct [OF lib_example_ok(1), of "replicate 128 nul"
      "([CHR ''a'', CHR ''b'', nul, backspace, CHR ''c'', newline], [], [])" "[CHR ''a'', CHR ''b'', nul, backspace, CHR ''c'']" "[]"]
  by (auto simp: type_key_def echo_def printable_def)

theorem shell_blank_line_crashes_witness:
  "shell_loop lib_example (replicate 128 nul) ([CHR '' '', newline], [], []) = fails (Bad_Access ''strcmp'')"
  using shell_blank_line_crashes [OF lib_example_ok(1), of "replicate 128 nul" "([CHR '' '', newline], [], [])" 1 "[]"] by simp

theorem shell_cat_correct_witness:
  "\<exists>w'. shell_exec lib_example ''cat motd'' ([], [], ''> '') = ret w' \<and> shown_of w' = ''> hello''"
  using shell_cat_correct [of lib_example "''motd''" "''hello''" left_of shown_of "([], [], ''> '')"] lib_example_ok(2) by simp

section \<open>The framebuffer demonstration\<close>

lemma fb_range_mem: "x \<in> set (fb_range a b) \<longleftrightarrow> a \<le> x \<and> x < b"
proof
  assume "x \<in> set (fb_range a b)"
  then obtain k where "unat a \<le> k" "k < unat b" "x = of_nat k" by (auto simp: fb_range_def)
  moreover have "unat b < 2 ^ 32" using unsigned_less [of b] by simp
  then have "unat x = k" using \<open>k < unat b\<close> \<open>x = of_nat k\<close> by (simp add: unat_of_nat_lt)
  ultimately show "a \<le> x \<and> x < b" by (simp add: word_le_nat_alt word_less_nat_alt)
next
  assume "a \<le> x \<and> x < b"
  then have "unat x \<in> set [unat a..<unat b]" by (simp add: word_le_nat_alt word_less_nat_alt)
  then have "of_nat (unat x) \<in> set (fb_range a b)" unfolding fb_range_def set_map by (rule imageI)
  then show "x \<in> set (fb_range a b)" by simp
qed

text \<open>A loop of stores sets the stored places to the colour and no others.\<close>

lemma for_each_paint:
  assumes "\<And>x px. x \<in> set xs \<Longrightarrow> f x px = ret (\<lambda>k. if k \<in> P x then c else px k)"
  shows "for_each f xs px = ret (\<lambda>k. if \<exists>x\<in>set xs. k \<in> P x then c else px k)"
  using assms
proof (induction xs arbitrary: px)
  case (Cons x xs)
  show ?case using Cons.IH [of "\<lambda>k. if k \<in> P x then c else px k"] Cons.prems by (simp add: fun_eq_iff)
qed simp

lemma mod_bounds:
  "unat (i mod 640 + 100 :: u32) = unat i mod 640 + 100" "unat (i mod 640 + 200 :: u32) = unat i mod 640 + 200"
  "unat (i mod 400 + 100 :: u32) = unat i mod 400 + 100" "unat (i mod 400 + 200 :: u32) = unat i mod 400 + 200"
proof -
  have "unat i mod 640 < 640" "unat i mod 400 < 400" by simp_all
  then show "unat (i mod 640 + 100 :: u32) = unat i mod 640 + 100" "unat (i mod 640 + 200 :: u32) = unat i mod 640 + 200"
    "unat (i mod 400 + 100 :: u32) = unat i mod 400 + 100" "unat (i mod 400 + 200 :: u32) = unat i mod 400 + 200"
    by (simp_all add: unat_add_lt unat_mod_distrib)
qed

lemma mod_limits: "n mod 640 + 200 < (1024 :: nat)" "n mod 400 + 200 < (768 :: nat)"
proof -
  have "n mod 640 < 640" "n mod 400 < 400" by simp_all
  then show "n mod 640 + 200 < 1024" "n mod 400 + 200 < 768" by linarith+
qed

abbreviation "fb_colour i \<equiv> (push_bit 16 i OR push_bit 8 i) OR i :: u32"

lemma fb_store_eq:
  assumes "x < 1024" "y < 768"
  shows "fb_store i x y px = ret (\<lambda>k. if k \<in> {1024 * unat y + unat x} then fb_colour i else px k)"
proof -
  have b: "unat x < 1024" "unat y < 768" using assms by (simp_all add: word_less_nat_alt)
  then have "unat (y * 1024) = 1024 * unat y" by (simp add: unat_word_ariths)
  then show ?thesis using b by (auto simp: fb_store_def FB_PITCH_def FB_HEIGHT_def Let_def)
qed

definition fb_square :: "u32 \<Rightarrow> nat set" where
  "fb_square i = {k. k mod 1024 \<in> {unat i mod 640 + 100..<unat i mod 640 + 200} \<and>
     k div 1024 \<in> {unat i mod 400 + 100..<unat i mod 400 + 200}}"

lemma fb_frame_paints: "fb_frame i px = ret (\<lambda>k. if k \<in> fb_square i then fb_colour i else px k)"
proof -
  let ?xs = "fb_range (i mod 640 + 100) (i mod 640 + 200)" and ?ys = "fb_range (i mod 400 + 100) (i mod 400 + 200)"
  have x: "x \<in> set ?xs \<longleftrightarrow> unat x \<in> {unat i mod 640 + 100..<unat i mod 640 + 200}" for x
    by (simp add: fb_range_mem word_le_nat_alt word_less_nat_alt mod_bounds)
  have y: "y \<in> set ?ys \<longleftrightarrow> unat y \<in> {unat i mod 400 + 100..<unat i mod 400 + 200}" for y
    by (simp add: fb_range_mem word_le_nat_alt word_less_nat_alt mod_bounds)
  note b = mod_limits [of "unat i"]
  have xlt: "x < 1024" if "x \<in> set ?xs" for x
    using less_trans [OF _ b(1), of "unat x"] that unfolding x word_less_nat_alt by simp
  have ylt: "y < 768" if "y \<in> set ?ys" for y
    using less_trans [OF _ b(2), of "unat y"] that unfolding y word_less_nat_alt by simp
  have inner: "for_each (fb_store i x) ?ys px = ret (\<lambda>k. if k \<in> (\<lambda>y. 1024 * unat y + unat x) ` set ?ys then fb_colour i else px k)"
    if "x \<in> set ?xs" for x px
    using for_each_paint [of ?ys "fb_store i x" "\<lambda>y. {1024 * unat y + unat x}" "fb_colour i" px] fb_store_eq [OF xlt [OF that] ylt]
    by (simp add: image_iff)
  have "(\<exists>x\<in>set ?xs. k \<in> (\<lambda>y. 1024 * unat y + unat x) ` set ?ys) \<longleftrightarrow> k \<in> fb_square i" for k
  proof
    assume "\<exists>x\<in>set ?xs. k \<in> (\<lambda>y. 1024 * unat y + unat x) ` set ?ys"
    then obtain x' y' where k: "x' \<in> set ?xs" "y' \<in> set ?ys" "k = 1024 * unat y' + unat x'" by blast
    then have "unat x' < 1024" using xlt by (simp add: word_less_nat_alt)
    then have "k div 1024 = unat y'" "k mod 1024 = unat x'" using k(3) by simp_all
    then show "k \<in> fb_square i" using k(1,2) unfolding x y by (simp add: fb_square_def)
  next
    assume k: "k \<in> fb_square i"
    then have "k div 1024 < 768" using less_trans [OF _ b(2), of "k div 1024"] by (simp add: fb_square_def)
    then have "unat (of_nat (k mod 1024) :: u32) = k mod 1024" "unat (of_nat (k div 1024) :: u32) = k div 1024"
      by (simp_all add: unat_of_nat_lt)
    then have "of_nat (k mod 1024) \<in> set ?xs" "of_nat (k div 1024) \<in> set ?ys"
      "k = 1024 * unat (of_nat (k div 1024) :: u32) + unat (of_nat (k mod 1024) :: u32)"
      using k unfolding x y by (simp_all add: fb_square_def)
    then show "\<exists>x\<in>set ?xs. k \<in> (\<lambda>y. 1024 * unat y + unat x) ` set ?ys" by blast
  qed
  then show ?thesis unfolding fb_frame_def
    using for_each_paint [of ?xs "\<lambda>x. for_each (fb_store i x) ?ys" "\<lambda>x. (\<lambda>y. 1024 * unat y + unat x) ` set ?ys" "fb_colour i" px, OF inner]
    by simp
qed

lemma fb_square_inside: "fb_square i \<subseteq> {k. 4 * k + 4 \<le> FB_PITCH * FB_HEIGHT}"
proof
  fix k assume "k \<in> fb_square i"
  then have "k div 1024 < 768" using less_trans [OF _ mod_limits(2) [of "unat i"], of "k div 1024"] by (simp add: fb_square_def)
  then have "k < 768 * 1024" by (simp add: div_less_iff_less_mult)
  then show "k \<in> {k. 4 * k + 4 \<le> FB_PITCH * FB_HEIGHT}" by (simp add: FB_PITCH_def FB_HEIGHT_def)
qed

lemma fb_square_card: "card (fb_square i) = 10000"
proof -
  let ?X = "{unat i mod 640 + 100..<unat i mod 640 + 200}" and ?Y = "{unat i mod 400 + 100..<unat i mod 400 + 200}"
  have x: "x < 1024" if "x \<in> ?X" for x using that less_trans [OF _ mod_limits(1) [of "unat i"], of x] by simp
  have "bij_betw (\<lambda>(y, x). 1024 * y + x) (?Y \<times> ?X) (fb_square i)"
  proof (rule bij_betw_byWitness [where f' = "\<lambda>k. (k div 1024, k mod 1024)"])
    show "\<forall>p\<in>?Y \<times> ?X. (\<lambda>k. (k div 1024, k mod 1024)) ((\<lambda>(y, x). 1024 * y + x) p) = p" using x by fastforce
    show "\<forall>k\<in>fb_square i. (\<lambda>(y, x). 1024 * y + x) ((\<lambda>k. (k div 1024, k mod 1024)) k) = k" by simp
    show "(\<lambda>(y, x). 1024 * y + x) ` (?Y \<times> ?X) \<subseteq> fb_square i" using x by (force simp: fb_square_def)
    show "(\<lambda>k. (k div 1024, k mod 1024)) ` fb_square i \<subseteq> ?Y \<times> ?X" by (auto simp: fb_square_def)
  qed
  then have "card (fb_square i) = card (?Y \<times> ?X)" by (simp add: bij_betw_same_card)
  also have "\<dots> = 10000" by (simp add: card_cartesian_product)
  finally show ?thesis .
qed

lemma fb_loop_diverges: "fb_loop i px = diverges"
proof -
  have "fb_loop i px = Some y \<Longrightarrow> False" for y
  proof (erule fb_loop.raw_induct [rotated])
    fix f :: "u32 \<Rightarrow> fb_pixels \<Rightarrow> int result" and i px y
    assume "\<And>i px y. f i px = Some y \<Longrightarrow> False" "(let i = i + 1 in rbind (fb_frame i px) (f i)) = Some y"
    then show False by (simp add: fb_frame_paints Let_def)
  qed
  then show ?thesis by (cases "fb_loop i px") (auto simp: diverges_def)
qed

text \<open>
  C40. Every round of the framebuffer demonstration paints exactly a square of hundred by hundred pixels, all of them
  inside the mapping, whatever value the 32-bit counter has; the program therefore runs forever and never faults.
\<close>

theorem fb_runs_forever:
  "fb_frame i px = ret (\<lambda>k. if k \<in> fb_square i then fb_colour i else px k) \<and>
   fb_square i \<subseteq> {k. 4 * k + 4 \<le> FB_PITCH * FB_HEIGHT} \<and> card (fb_square i) = 10000 \<and> fb_loop i px = diverges"
  using fb_frame_paints fb_square_inside fb_square_card fb_loop_diverges by blast

end
