(* ===== verification/Boot.thy ===== *)
theory Boot
  imports Syscall
begin

text \<open>
  The start of the kernel: the checks of the boot loader's answers (\<open>system/boot.c\<close>), \<open>kmain\<close> (\<open>entry.c\<close>) and
  \<open>panic\<close> (\<open>system/panic.c\<close>). In the rest of the model a call of \<open>panic\<close> is the fault \<open>Panic\<close>; here is what the
  function does.
\<close>

section \<open>Definitions\<close>

text \<open>
  \<open>panic\<close> kills the current process when it is a user process, and otherwise halts with interrupts off, forever.
  Without a process, \<open>process_get_current\<close> fails an assertion, which calls \<open>panic\<close> again.
\<close>

definition panic :: "code_syms \<Rightarrow> 'a proc_scheme \<Rightarrow> 'a proc_scheme result" where
  "panic syms s =
     (let s = int_disable s in
      rbind (process_get_current s) (\<lambda>a.
      rbind (get_proc a s) (\<lambda>p.
      if proc_type p = PROCESS_USER
      then rbind (process_exit syms (int_resume s)) (\<lambda>s.
           rbind (process_get_current s) (\<lambda>b. if b \<noteq> a then ret s else diverges))
      else diverges)))"

text \<open>The responses of the boot loader; \<open>None\<close> is a null pointer.\<close>

record limine =
  base_revision_supported :: bool
  boot :: "boot_info"
  has_memmap :: bool
  has_hhdm :: bool
  has_executable_address :: bool
  framebuffers :: "limine_framebuffer list option"
  modules :: "(addr \<times> addr) list option"

definition boot_verify :: "limine \<Rightarrow> unit result" where
  "boot_verify b =
     (if \<not> base_revision_supported b then fails (Panic ''unsupported limine base revision!'')
      else if \<not> has_memmap b then fails (Panic ''no memory map response!'')
      else if \<not> has_hhdm b then fails (Panic ''no HHDM response!'')
      else if \<not> has_executable_address b then fails (Panic ''no executable address response!'')
      else if modules b = None then fails (Panic ''no module response!'')
      else ret ())"

record kmain_env =
  km_limine :: limine
  km_link :: link_syms
  km_syms :: code_syms
  km_dev :: device
  km_cpuid :: cpuid
  km_pool :: addr
  km_trap :: addr

text \<open>The result is the state in which \<open>kmain\<close> halts and waits for interrupts.\<close>

definition kmain :: "kmain_env \<Rightarrow> 'a fsys_scheme \<Rightarrow> 'a fsys_scheme result" where
  "kmain env s =
     (let s = serial_install s in
      rbind (boot_verify (km_limine env)) (\<lambda>_.
      rbind (cpu_features_install (km_cpuid env) s) (\<lambda>s.
      rbind (gdt_install (km_link env) (tabs s)) (\<lambda>t.
      let s = s\<lparr>tabs := idt_install (km_link env) t\<rparr>;
          s = irq_install (km_link env) s;
          s = isr_install (km_link env) s;
          s = pmm_install (boot (km_limine env)) s
      in
      rbind (vmm_install (boot (km_limine env)) s) (\<lambda>s.
      rbind (heap_install s) (\<lambda>s.
      rbind (vfs_install (km_syms env) (the (modules (km_limine env))) s) (\<lambda>s.
      rbind (framebuffer_install (km_pool env) (framebuffers (km_limine env)) s) (\<lambda>s.
      let s = snd (ps2_keyboard_install s) in
      rbind (ac97_install (km_dev env) s) (\<lambda>s.
      let s = syscall_install (km_trap env) s in
      rbind (process_create (km_syms env) NULL NULL s) (\<lambda>(_, s).
      ret s))))))))))"

definition sleep :: "code_syms \<Rightarrow> u32 \<Rightarrow> 'a proc_scheme \<Rightarrow> (u32 \<times> 'a proc_scheme) result" where
  "sleep syms seconds s = rbind (process_sleep syms (ucast (seconds * 1000)) s) (\<lambda>s. ret (0, s))"

end
