(* ===== verification/Info.thy ===== *)
theory Info
  imports Boot
begin

text \<open>
  The information display (\<open>kernel/info.c\<close>) and the console renderer for scalable screen fonts that it uses
  (\<open>ssfn_putc\<close> of \<open>thirdparty/ssfn.h\<close>, in the configuration \<open>SSFN_CONSOLEBITMAP_TRUECOLOR\<close>; the rest of that header is not
  compiled). The kernel contains the process but does not start it. The font is a file in memory; pixels are stored into
  the field \<open>vram\<close> of the framebuffer. Arithmetic is under the checks
  of the sanitizer, except for addresses inside the entry of the glyph that was found.
\<close>

section \<open>Definitions\<close>

subsection \<open>The renderer\<close>

record ssfn_buf_t =
  sb_ptr :: addr
  sb_w :: int
  sb_h :: int
  sb_p :: u16
  sb_x :: int
  sb_y :: int
  sb_fg :: u32
  sb_bg :: u32

definition SSFN_OK :: int where "SSFN_OK = 0"
definition SSFN_ERR_INVINP :: int where "SSFN_ERR_INVINP = - 4"
definition SSFN_ERR_NOGLYPH :: int where "SSFN_ERR_NOGLYPH = - 7"

text \<open>\<open>le32\<close> and the offsets of fragments: the top byte is shifted into the sign bit of an \<open>int\<close>.\<close>

definition le32 :: "mem \<Rightarrow> addr \<Rightarrow> u32 result" where
  "le32 m a = (if 128 \<le> m (a + 3) then ubsan_handle_shift_out_of_bounds else ret (load32 m a))"

definition frag_offset :: "mem \<Rightarrow> bool \<Rightarrow> addr \<Rightarrow> int result" where
  "frag_offset m big ptr =
     (if big then if 128 \<le> m (ptr + 5) then ubsan_handle_shift_out_of_bounds else ret (int (load_le m (ptr + 2) 4))
      else ret (int (load_le m (ptr + 2) 3)))"

text \<open>The search in the table of characters: runs of absent characters, or a glyph with its fragments.\<close>

function find_glyph :: "mem \<Rightarrow> u32 \<Rightarrow> int \<Rightarrow> addr \<Rightarrow> addr option result" where
  "find_glyph m unicode i ptr =
     (if \<not> i < 0x110000 then ret None
      else if m ptr = 0xFF then
        if ptr + 1 < ptr then ubsan_handle_pointer_overflow else find_glyph m unicode (i + 65535 + 1) (ptr + 1)
      else if m ptr AND 0xC0 = 0xC0 then
        let j = int (unat (m ptr AND 0x3F)) * 256 + int (unat (m (ptr + 1))) in
        if ptr + 2 < ptr then ubsan_handle_pointer_overflow else find_glyph m unicode (i + j + 1) (ptr + 2)
      else if m ptr AND 0xC0 = 0x80 then
        let j = int (unat (m ptr AND 0x3F)) in
        if ptr + 1 < ptr then ubsan_handle_pointer_overflow else find_glyph m unicode (i + j + 1) (ptr + 1)
      else if word_of_int i = unicode then ret (Some ptr)
      else
        let n = 6 + ucast (m (ptr + 1)) * (if m ptr AND 0x40 \<noteq> 0 then 6 else 5) in
        if ptr + n < ptr then ubsan_handle_pointer_overflow else find_glyph m unicode (i + 1) (ptr + n))"
  by pat_completeness auto
termination
proof (relation "measure (\<lambda>(m, u, i, p). nat (0x110000 - i))")
qed (simp_all only: in_measure case_prod_conv wf_measure, linarith+)

declare find_glyph.simps [simp del]

definition store_pixel :: "addr \<Rightarrow> u32 \<Rightarrow> 'a fbdev_scheme \<Rightarrow> 'a fbdev_scheme result" where
  "store_pixel a c s =
     (if a mod 4 \<noteq> 0 \<or> a = NULL then ubsan_handle_type_mismatch
      else ret (s\<lparr>ft := (ft s)\<lparr>vram := (vram (ft s))(a := c)\<rparr>\<rparr>))"

text \<open>The conditions on the lines and columns; a height or width of zero means no limit.\<close>

definition inside :: "int \<Rightarrow> int \<Rightarrow> int \<Rightarrow> bool result" where
  "inside limit start k = (if limit = 0 then ret True else rbind (iadd start k) (\<lambda>v. ret (v < limit)))"

fun fill_line :: "ssfn_buf_t \<Rightarrow> int \<Rightarrow> addr \<Rightarrow> nat list \<Rightarrow> 'a fbdev_scheme \<Rightarrow> 'a fbdev_scheme result" where
  "fill_line dst w p [] s = ret s"
| "fill_line dst w p (j # js) s =
     rbind (inside w (sb_x dst) (int j)) (\<lambda>b.
     if b then rbind (store_pixel p (sb_bg dst) s) (\<lambda>s. rbind (ptr_off p 4) (\<lambda>p. fill_line dst w p js s))
     else ret s)"

text \<open>\<open>for (; y < limit && ...; y++, o += s)\<close> over the lines that are left.\<close>

fun fill_rows ::
  "ssfn_buf_t \<Rightarrow> int \<Rightarrow> int \<Rightarrow> nat \<Rightarrow> nat \<Rightarrow> addr \<times> int \<times> 'a fbdev_scheme \<Rightarrow> (addr \<times> int \<times> 'a fbdev_scheme) result" where
  "fill_rows dst w line_px wd 0 st = ret st"
| "fill_rows dst w line_px wd (Suc n) (oo, y, s) =
     rbind (inside (sb_h dst) (sb_y dst) y) (\<lambda>b.
     if b then
       rbind (fill_line dst w oo [0..<wd] s) (\<lambda>s.
       rbind (ptr_off oo (4 * line_px)) (\<lambda>oo. fill_rows dst w line_px wd n (oo, y + 1, s)))
     else ret (oo, y, s))"

definition draw_bit ::
  "ssfn_buf_t \<Rightarrow> int \<Rightarrow> nat \<Rightarrow> addr \<times> u32 \<times> addr \<times> 'a fbdev_scheme \<Rightarrow> (addr \<times> u32 \<times> addr \<times> 'a fbdev_scheme) result" where
  "draw_bit dst w l = (\<lambda>(p, m, frg, s).
     rbind (if m > 0x80 then rbind (ptr_plus frg 1) (\<lambda>frg. ret (1, frg)) else ret (m, frg)) (\<lambda>(m, frg).
     rbind (iadd (sb_x dst) (int l)) (\<lambda>xl.
     rbind (if 0 \<le> xl \<and> (w = 0 \<or> xl < w) then
              if ucast (mem s frg) AND m \<noteq> 0 then store_pixel p (sb_fg dst) s
              else if sb_bg dst \<noteq> 0 then store_pixel p (sb_bg dst) s else ret s
            else ret s) (\<lambda>s.
     rbind (ptr_off p 4) (\<lambda>p. ret (p, push_bit 1 m, frg, s))))))"

fun draw_rows ::
  "ssfn_buf_t \<Rightarrow> int \<Rightarrow> int \<Rightarrow> nat \<Rightarrow> nat \<Rightarrow> addr \<times> int \<times> u32 \<times> addr \<times> 'a fbdev_scheme \<Rightarrow> (addr \<times> int \<times> 'a fbdev_scheme) result" where
  "draw_rows dst w line_px k 0 (oo, y, m, frg, s) = ret (oo, y, s)"
| "draw_rows dst w line_px k (Suc j) (oo, y, m, frg, s) =
     rbind (inside (sb_h dst) (sb_y dst) y) (\<lambda>b.
     if b then
       rbind (for_each (draw_bit dst w) [0..<k] (oo, m, frg, s)) (\<lambda>(_, m, frg, s).
       rbind (ptr_off oo (4 * line_px)) (\<lambda>oo. draw_rows dst w line_px k j (oo, y + 1, m, frg, s)))
     else ret (oo, y, s))"

text \<open>The body of the loop over the fragments; \<open>i\<close> is the number of the fragment.\<close>

definition draw_fragment ::
  "ssfn_buf_t \<Rightarrow> int \<Rightarrow> int \<Rightarrow> addr \<Rightarrow> addr \<Rightarrow> nat \<Rightarrow> addr \<times> int \<times> 'a fbdev_scheme \<Rightarrow> (addr \<times> int \<times> 'a fbdev_scheme) result" where
  "draw_fragment dst w line_px src chr i = (\<lambda>(oo, y, s).
     let big = mem s chr AND 0x40 \<noteq> 0;
         ptr = chr + 6 + of_nat i * (if big then 6 else 5)
     in
     if mem s ptr = 255 \<and> mem s (ptr + 1) = 255 then ret (oo, y, s) else
     rbind (frag_offset (mem s) big ptr) (\<lambda>off.
     rbind (ptr_off src off) (\<lambda>frg.
     if mem s frg AND 0xE0 \<noteq> 0x80 then ret (oo, y, s) else
     let top_line = int (unat (mem s (ptr + 1))) in
     rbind (if sb_bg dst \<noteq> 0 then fill_rows dst w line_px (unat (mem s (chr + 2))) (nat (top_line - y)) (oo, y, s)
            else rbind (imul (top_line - y) line_px) (\<lambda>d. rbind (ptr_off oo (4 * d)) (\<lambda>oo. ret (oo, top_line, s)))) (\<lambda>(oo, y, s).
     let k = (unat (mem s frg AND 0x1F) + 1) * 8;
         j = unat (mem s (frg + 1)) + 1
     in rbind (ptr_plus frg 2) (\<lambda>frg. draw_rows dst w line_px k j (oo, y, 1, frg, s))))))"

definition ssfn_putc :: "addr \<Rightarrow> u32 \<Rightarrow> ssfn_buf_t \<Rightarrow> 'a fbdev_scheme \<Rightarrow> (int \<times> ssfn_buf_t \<times> 'a fbdev_scheme) result" where
  "ssfn_putc src unicode dst s =
     (let line_px = int (unat (sb_p dst div 4)) in
      if src = NULL \<or> map (mem s) [src, src + 1, src + 2, src + 3] \<noteq> [0x53, 0x46, 0x4E, 0x32] \<or> sb_ptr dst = NULL \<or> sb_p dst = 0
      then ret (SSFN_ERR_INVINP, dst, s) else
      rbind (if sb_w dst < 0 then ineg (sb_w dst) else ret (sb_w dst)) (\<lambda>w.
      rbind (le32 (mem s) (src + 16)) (\<lambda>offs.
      rbind (ptr_plus src (ucast offs)) (\<lambda>ptr.
      rbind (find_glyph (mem s) unicode 0 ptr) (\<lambda>c. case c of
        None \<Rightarrow> ret (SSFN_ERR_NOGLYPH, dst, s)
      | Some chr \<Rightarrow>
        rbind (imul (sb_y dst) (int (unat (sb_p dst)))) (\<lambda>line.
        rbind (ptr_off (sb_ptr dst) line) (\<lambda>oo.
        rbind (ptr_plus oo (word_of_int (sb_x dst) * 4)) (\<lambda>oo.
        rbind (for_each (draw_fragment dst w line_px src chr) [0..<unat (mem s (chr + 1))] (oo, 0, s)) (\<lambda>(oo, y, s).
        rbind (if sb_bg dst \<noteq> 0
               then fill_rows dst w line_px (unat (mem s (chr + 2))) (nat (int (unat (mem s (chr + 3))) - y)) (oo, y, s)
               else ret (oo, y, s)) (\<lambda>(oo, y, s).
        rbind (iadd (sb_x dst) (int (unat (mem s (chr + 4))))) (\<lambda>x.
        rbind (iadd (sb_y dst) (int (unat (mem s (chr + 5))))) (\<lambda>y.
        ret (SSFN_OK, dst\<lparr>sb_x := x, sb_y := y\<rparr>, s)))))))))))))"

subsection \<open>The display\<close>

definition info_format :: string where
  "info_format = ''-------------------\<newline>Total RAM: %u MB\<newline>Free RAM: %u MB\<newline>'' @
     ''Framebuffer: %ux%u @ %u bpp\<newline>Ticks: %u\<newline>-------------------\<newline>''"

text \<open>A 64-bit argument of a conversion \<open>%u\<close> takes a whole register, of which the lower half is printed.\<close>

definition info_args :: "'a fbdev_scheme \<Rightarrow> u64 list" where
  "info_args s =
     [ucast (ucast (pmm_get_total_pages s * 4096 div (1024 * 1024)) :: u32),
      ucast (ucast (pmm_get_free_pages s * 4096 div (1024 * 1024)) :: u32),
      ucast (fb_width (fb_info s)), ucast (fb_height (fb_info s)), ucast (fb_bpp (fb_info s)), ticks s]"

definition info_clear :: "'a fbdev_scheme \<Rightarrow> 'a fbdev_scheme" where
  "info_clear s =
     fold (\<lambda>y. fold (\<lambda>x. framebuffer_draw_pixel (of_nat x) (of_nat y) 0) [850..<1150]) [100..<300] s"

text \<open>The characters of the buffer up to the zero; the sanitizer stops an index beyond the array.\<close>

fun info_text ::
  "addr \<Rightarrow> addr \<Rightarrow> nat list \<Rightarrow> ssfn_buf_t \<times> 'a fbdev_scheme \<Rightarrow> (ssfn_buf_t \<times> 'a fbdev_scheme) result" where
  "info_text src buffer [] st = ubsan_handle_out_of_bounds"
| "info_text src buffer (i # is) (dst, s) =
     (let c = mem s (buffer + of_nat i) in
      if c = 0 then ret (dst, s)
      else if c = 0x0A then
        rbind (iadd (sb_y dst) (int (unat (mem s (src + 11))))) (\<lambda>y.
        info_text src buffer is (dst\<lparr>sb_x := 850, sb_y := y\<rparr>, s))
      else rbind (ssfn_putc src (scast c) dst s) (\<lambda>(_, dst, s). info_text src buffer is (dst, s)))"

definition info_frame ::
  "code_syms \<Rightarrow> addr \<Rightarrow> addr \<Rightarrow> ssfn_buf_t \<times> 'a fsys_scheme \<Rightarrow> (ssfn_buf_t \<times> 'a fsys_scheme) result" where
  "info_frame syms src info_buffer = (\<lambda>(dst, s).
     rbind (sprintf info_buffer (bytes info_format) (info_args s) (mem s)) (\<lambda>(_, m).
     let s = info_clear (s\<lparr>mem := m\<rparr>) in
     rbind (info_text src info_buffer [0..<1024] (dst\<lparr>sb_x := 850, sb_y := 100\<rparr>, s)) (\<lambda>(dst, s).
     rbind (sleep syms 1 s) (\<lambda>(_, s). ret (dst, s)))))"

partial_function (option) info_loop :: "code_syms \<Rightarrow> addr \<Rightarrow> addr \<Rightarrow> ssfn_buf_t \<times> 'a fsys_scheme \<Rightarrow> 'a fsys_scheme result" where
  "info_loop syms src info_buffer st = rbind (info_frame syms src info_buffer st) (info_loop syms src info_buffer)"

text \<open>\<open>stat\<close> and \<open>info_buffer\<close> are the addresses of the local variables; width and height of the destination stay zero.\<close>

definition kernel_info :: "code_syms \<Rightarrow> device \<Rightarrow> addr \<Rightarrow> addr \<Rightarrow> 'a fsys_scheme \<Rightarrow> 'a fsys_scheme result" where
  "kernel_info syms dev stat info_buffer s =
     rbind (vfs_open (lit syms ''/init/fonts/lanapixel.sfn'') 0 0 s) (\<lambda>(font_file, s).
     if font_file = NULL then ret s else
     rbind (vfs_stat font_file stat s) (\<lambda>(r, s).
     if r \<noteq> 0 then rbind (vfs_close font_file s) (\<lambda>(_, s). ret s) else
     let font_size = load64 (mem s) (stat + 8) in
     rbind (kmalloc font_size s) (\<lambda>(font_buffer, s).
     if font_buffer = NULL then rbind (vfs_close font_file s) (\<lambda>(_, s). ret s) else
     rbind (vfs_read syms dev font_file font_buffer font_size s) (\<lambda>(read_bytes, s).
     if read_bytes \<noteq> sint font_size then
       rbind (kfree font_buffer s) (\<lambda>s. rbind (vfs_close font_file s) (\<lambda>(_, s). ret s))
     else
     rbind (vfs_close font_file s) (\<lambda>(_, s).
     info_loop syms font_buffer info_buffer
       (\<lparr>sb_ptr = fb_addr (fb_info s), sb_w = 0, sb_h = 0, sb_p = ucast (fb_pitch (fb_info s)), sb_x = 850, sb_y = 100,
         sb_fg = 0xFFFFFFFF, sb_bg = 0\<rparr>, s))))))"

end
