(* ===== verification/Info_Correct.thy ===== *)
theory Info_Correct
  imports Info
begin

text \<open>
  The renderer for screen fonts: the search finds a character exactly if the table has it, and a fragment paints exactly
  the pixels of its bitmap.
\<close>

section \<open>The table of characters\<close>

text \<open>
  The entries of the table: a number of absent characters, or the record of a glyph, whose length follows from its first
  two bytes.
\<close>

datatype sfn_entry = Absent nat | Glyph "u8 list"

fun entry_ok :: "sfn_entry \<Rightarrow> bool" where
  "entry_ok (Absent n) \<longleftrightarrow> n = 65536 \<or> 1 \<le> n \<and> n \<le> 0x3F00"
| "entry_ok (Glyph b) \<longleftrightarrow> 2 \<le> length b \<and> b ! 0 < 0x80 \<and> length b = 6 + unat (b ! 1) * (if b ! 0 AND 0x40 \<noteq> 0 then 6 else 5)"

fun encode :: "sfn_entry \<Rightarrow> u8 list" where
  "encode (Absent n) =
     (if n = 65536 then [0xFF] else if n \<le> 64 then [0x80 OR of_nat (n - 1)]
      else [0xC0 OR of_nat ((n - 1) div 256), of_nat ((n - 1) mod 256)])"
| "encode (Glyph b) = b"

fun span :: "sfn_entry \<Rightarrow> nat" where
  "span (Absent n) = n"
| "span (Glyph b) = 1"

abbreviation total_span :: "sfn_entry list \<Rightarrow> nat" where "total_span es \<equiv> sum_list (map span es)"
abbreviation table_bytes :: "sfn_entry list \<Rightarrow> u8 list" where "table_bytes es \<equiv> concat (map encode es)"

text \<open>The position of the glyph for a character, in a table that starts with character \<open>i\<close>.\<close>

fun glyph_pos :: "sfn_entry list \<Rightarrow> nat \<Rightarrow> nat \<Rightarrow> nat option" where
  "glyph_pos [] i c = None"
| "glyph_pos (e # es) i c =
     (if i = c \<and> (\<exists>b. e = Glyph b) then Some 0
      else map_option (\<lambda>k. length (encode e) + k) (glyph_pos es (i + span e) c))"

definition holds_bytes :: "mem \<Rightarrow> addr \<Rightarrow> u8 list \<Rightarrow> bool" where
  "holds_bytes m a bs \<longleftrightarrow> (\<forall>k<length bs. m (a + of_nat k) = bs ! k)"

lemma holds_append:
  "holds_bytes m a (xs @ ys) \<longleftrightarrow> holds_bytes m a xs \<and> holds_bytes m (a + of_nat (length xs)) ys"
proof -
  have "(\<forall>k<length (xs @ ys). m (a + of_nat k) = (xs @ ys) ! k) \<longleftrightarrow>
      (\<forall>k<length xs. m (a + of_nat k) = xs ! k) \<and> (\<forall>k<length ys. m (a + of_nat (length xs + k)) = ys ! k)"
    (is "?L \<longleftrightarrow> ?R")
  proof
    assume L: ?L
    have "m (a + of_nat k) = xs ! k" if "k < length xs" for k using L [rule_format, of k] that by (simp add: nth_append)
    moreover have "m (a + of_nat (length xs + k)) = ys ! k" if "k < length ys" for k
      using L [rule_format, of "length xs + k"] that by (simp add: nth_append del: of_nat_add)
    ultimately show ?R by blast
  next
    assume R: ?R
    show ?L
    proof (intro allI impI)
      fix k assume k: "k < length (xs @ ys)"
      show "m (a + of_nat k) = (xs @ ys) ! k"
      proof (cases "k < length xs")
        case False
        then show ?thesis using R [THEN conjunct2, rule_format, of "k - length xs"] k by (simp add: nth_append del: of_nat_add)
      qed (use R in \<open>simp add: nth_append\<close>)
    qed
  qed
  then show ?thesis by (simp add: holds_bytes_def add.assoc)
qed

lemma glyph_pos_beyond: "c < i \<Longrightarrow> glyph_pos es i c = None"
  by (induction es arbitrary: i) auto

text \<open>The bytes of an entry, as the search looks at them.\<close>

lemma absent_bytes:
  assumes "entry_ok (Absent n)"
  shows "n = 65536 \<and> encode (Absent n) = [0xFF] \<or>
    (\<exists>b. encode (Absent n) = [b] \<and> b \<noteq> 0xFF \<and> b AND 0xC0 = 0x80 \<and> unat (b AND 0x3F) + 1 = n) \<or>
    (\<exists>b b'. encode (Absent n) = [b, b'] \<and> b \<noteq> 0xFF \<and> b AND 0xC0 = 0xC0 \<and> unat (b AND 0x3F) * 256 + unat b' + 1 = n)"
proof -
  have "\<forall>k\<in>set [0..<64]. (0x80 OR of_nat k) AND 0xC0 = (0x80 :: u8) \<and> unat ((0x80 OR of_nat k) AND 0x3F :: u8) = k \<and>
      (0x80 OR of_nat k :: u8) \<noteq> 0xFF" by code_simp
  then have small: "(0x80 OR of_nat k) AND 0xC0 = (0x80 :: u8)" "unat ((0x80 OR of_nat k) AND 0x3F :: u8) = k"
    "(0x80 OR of_nat k :: u8) \<noteq> 0xFF" if "k < 64" for k using that by auto
  have "\<forall>k\<in>set [0..<63]. (0xC0 OR of_nat k) AND 0xC0 = (0xC0 :: u8) \<and> unat ((0xC0 OR of_nat k) AND 0x3F :: u8) = k \<and>
      (0xC0 OR of_nat k :: u8) \<noteq> 0xFF" by code_simp
  then have large: "(0xC0 OR of_nat k) AND 0xC0 = (0xC0 :: u8)" "unat ((0xC0 OR of_nat k) AND 0x3F :: u8) = k"
    "(0xC0 OR of_nat k :: u8) \<noteq> 0xFF" if "k < 63" for k using that by auto
  consider "n = 65536" | "n \<noteq> 65536" "1 \<le> n" "n \<le> 64" | "n \<noteq> 65536" "64 < n" "n \<le> 0x3F00" using assms by fastforce
  then show ?thesis
  proof cases
    case 2
    then show ?thesis using small [of "n - 1"] by simp
  next
    case 3
    then have "(n - 1) div 256 < 63" by simp
    from large [OF this] show ?thesis using 3 by (simp add: unat_of_nat_lt)
  qed simp
qed

lemma find_glyph_absent:
  assumes "entry_ok (Absent n)" "holds_bytes m ptr (encode (Absent n))" "i < 0x110000"
    "unat ptr + length (encode (Absent n)) < 2 ^ 64"
  shows "find_glyph m u (int i) ptr = find_glyph m u (int (i + n)) (ptr + of_nat (length (encode (Absent n))))"
proof -
  have nw: "\<not> ptr + of_nat k < ptr" if "k \<le> length (encode (Absent n))" for k
  proof -
    have "unat ptr + k < 2 ^ 64" using that assms(4) by simp
    then have "unat (ptr + of_nat k) = unat ptr + k" by (simp add: unat_add_lt unat_of_nat_lt)
    then show ?thesis by (simp add: word_less_nat_alt)
  qed
  from absent_bytes [OF assms(1)] show ?thesis
  proof (elim disjE exE conjE)
    assume e: "n = 65536" "encode (Absent n) = [0xFF]"
    then have b: "m ptr = 0xFF" using assms(2) unfolding holds_bytes_def e(2) by (auto dest: spec [of _ 0])
    have eq: "int (i + n) = int i + 65535 + 1" using e(1) by simp
    have "\<not> ptr + 1 < ptr" using nw [of 1] unfolding e(2) by simp
    then show ?thesis unfolding e(2) eq using assms(3) b by (subst find_glyph.simps) simp
  next
    fix b assume e: "encode (Absent n) = [b]" "b \<noteq> 0xFF" "b AND 0xC0 = 0x80" "unat (b AND 0x3F) + 1 = n"
    then have b: "m ptr = b" using assms(2) unfolding holds_bytes_def e(1) by (auto dest: spec [of _ 0])
    have eq: "int (i + n) = int i + int (unat (b AND 0x3F)) + 1" using e(4) by linarith
    have "\<not> ptr + 1 < ptr" using nw [of 1] unfolding e(1) by simp
    then show ?thesis unfolding e(1) eq using assms(3) e(2,3) b by (subst find_glyph.simps) (simp add: Let_def)
  next
    fix b b' assume e: "encode (Absent n) = [b, b']" "b \<noteq> 0xFF" "b AND 0xC0 = 0xC0" "unat (b AND 0x3F) * 256 + unat b' + 1 = n"
    have h: "\<forall>k<2. m (ptr + of_nat k) = [b, b'] ! k" using assms(2) unfolding holds_bytes_def e(1) by simp
    have b: "m ptr = b" "m (ptr + 1) = b'" using h [rule_format, of 0] h [rule_format, of 1] by simp_all
    have eq: "int (i + n) = int i + (int (unat (b AND 0x3F)) * 256 + int (unat b')) + 1" using e(4) by linarith
    have "\<not> ptr + 2 < ptr" using nw [of 2] unfolding e(1) by simp
    then show ?thesis unfolding e(1) eq using assms(3) e(2,3) b by (subst find_glyph.simps) (simp add: Let_def)
  qed
qed

lemma find_glyph_glyph:
  assumes "entry_ok (Glyph b)" "holds_bytes m ptr b" "i < 0x110000" "unat ptr + length b < 2 ^ 64" "c < 0x110000"
  shows "find_glyph m (of_nat c) (int i) ptr =
    (if i = c then ret (Some ptr) else find_glyph m (of_nat c) (int (i + 1)) (ptr + of_nat (length b)))"
proof -
  have len: "2 \<le> length b" and b0: "b ! 0 < 0x80"
    and b4: "length b = 6 + unat (b ! 1) * (if b ! 0 AND 0x40 \<noteq> 0 then 6 else 5)" using assms(1) by simp_all
  have h: "\<forall>k<length b. m (ptr + of_nat k) = b ! k" using assms(2) by (simp add: holds_bytes_def)
  have b: "m ptr = b ! 0" "m (ptr + 1) = b ! 1" using h [rule_format, of 0] h [rule_format, of 1] less_le_trans [OF _ len, of 0] len by simp_all
  have "\<forall>k\<in>set [0..<128]. (of_nat k AND 0xC0 :: u8) \<noteq> 0xC0 \<and> (of_nat k AND 0xC0 :: u8) \<noteq> 0x80 \<and> (of_nat k :: u8) \<noteq> 0xFF" by code_simp
  moreover have "unat (b ! 0) \<in> set [0..<128]" using b0 by (simp add: word_less_nat_alt)
  ultimately have "(of_nat (unat (b ! 0)) AND 0xC0 :: u8) \<noteq> 0xC0 \<and> (of_nat (unat (b ! 0)) AND 0xC0 :: u8) \<noteq> 0x80 \<and>
      (of_nat (unat (b ! 0)) :: u8) \<noteq> 0xFF" by (rule bspec)
  then have k: "b ! 0 AND 0xC0 \<noteq> 0xC0" "b ! 0 AND 0xC0 \<noteq> 0x80" "b ! 0 \<noteq> 0xFF" by simp_all
  have ui: "unat (of_nat i :: u32) = i" "unat (of_nat c :: u32) = c" using assms(3,5) by (simp_all add: unat_of_nat_lt)
  have w: "word_of_int (int i) = (of_nat i :: u32)" by simp
  have eq: "word_of_int (int i) = (of_nat c :: u32) \<longleftrightarrow> i = c" unfolding w word_unat_eq_iff ui ..
  have n: "(6 :: u64) + ucast (m (ptr + 1)) * (if m ptr AND 0x40 \<noteq> 0 then 6 else 5) = of_nat (length b)"
    unfolding b b4 by simp
  have "unat (ptr + of_nat (length b)) = unat ptr + length b" using assms(4) by (simp add: unat_add_lt unat_of_nat_lt)
  then have nw: "\<not> ptr + of_nat (length b) < ptr" by (simp add: word_less_nat_alt)
  have "int (i + 1) = int i + 1" by simp
  then show ?thesis using assms(3) k nw unfolding b(1) [symmetric]
    by (subst find_glyph.simps) (simp only: eq n Let_def if_False if_True not_True_eq_False not_False_eq_True of_nat_less_iff refl, simp)
qed

lemma find_glyph_table:
  assumes "\<forall>e\<in>set es. entry_ok e" "holds_bytes m ptr (table_bytes es)" "unat ptr + length (table_bytes es) < 2 ^ 64"
    "0x110000 \<le> i + total_span es" "c < 0x110000"
  shows "find_glyph m (of_nat c) (int i) ptr = ret (map_option (\<lambda>k. ptr + of_nat k) (glyph_pos es i c))"
  using assms(1-4)
proof (induction es arbitrary: i ptr)
  case Nil
  then show ?case by (subst find_glyph.simps) simp
next
  case (Cons e es)
  let ?n = "length (encode e)"
  have h: "holds_bytes m ptr (encode e)" "holds_bytes m (ptr + of_nat ?n) (table_bytes es)"
    using Cons.prems(2) by (simp_all add: holds_append)
  have u: "unat (ptr + of_nat ?n) = unat ptr + ?n" using Cons.prems(3) by (simp add: unat_add_lt unat_of_nat_lt)
  have IH: "find_glyph m (of_nat c) (int (i + span e)) (ptr + of_nat ?n) =
      ret (map_option (\<lambda>k. ptr + of_nat ?n + of_nat k) (glyph_pos es (i + span e) c))"
    using Cons.prems by (intro Cons.IH h(2)) (simp_all add: u)
  show ?case
  proof (cases "i < 0x110000")
    case False
    then show ?thesis using glyph_pos_beyond [of c i "e # es"] assms(5) by (subst find_glyph.simps) simp
  next
    case lt: True
    show ?thesis
    proof (cases e)
      case (Absent n)
      have ok: "entry_ok (Absent n)" "unat ptr + length (encode (Absent n)) < 2 ^ 64" using Cons.prems(1,3) Absent by auto
      show ?thesis using find_glyph_absent [OF ok(1) _ lt ok(2), of m "of_nat c"] h(1) IH unfolding Absent
        by (simp add: option.map_comp o_def add.assoc del: encode.simps)
    next
      case (Glyph b)
      have ok: "entry_ok (Glyph b)" "unat ptr + length b < 2 ^ 64" using Cons.prems(1,3) Glyph by auto
      show ?thesis using find_glyph_glyph [OF ok(1) _ lt ok(2) assms(5), of m] h(1) IH unfolding Glyph
        by (simp add: option.map_comp o_def add.assoc)
    qed
  qed
qed

section \<open>Painting\<close>

definition paint :: "addr set \<Rightarrow> u32 \<Rightarrow> 'a fbdev_scheme \<Rightarrow> 'a fbdev_scheme" where
  "paint A c s = s\<lparr>ft := (ft s)\<lparr>vram := (\<lambda>a. if a \<in> A then c else vram (ft s) a)\<rparr>\<rparr>"

lemma paint_simps [simp]:
  "mem (paint A c s) = mem s" "paint {} c s = s" "paint A c (paint B c s) = paint (A \<union> B) c s"
  by (auto simp: paint_def fun_eq_iff intro!: arg_cong [of _ _ "\<lambda>f. s\<lparr>ft := (ft s)\<lparr>vram := f\<rparr>\<rparr>"])

lemma aligned_off:
  assumes "a mod 4 = 0" "unat a + 4 * n < 2 ^ 64"
  shows "unat (a + of_nat (4 * n)) = unat a + 4 * n" "(a + of_nat (4 * n)) mod 4 = 0"
    "a \<noteq> NULL \<Longrightarrow> a + of_nat (4 * n) \<noteq> NULL"
proof -
  show u: "unat (a + of_nat (4 * n)) = unat a + 4 * n" using assms(2) by (simp add: unat_add_lt unat_of_nat_lt del: of_nat_mult)
  have m: "unat (x mod 4) = unat x mod 4" for x :: u64 by (simp add: unat_mod_distrib)
  have "unat a mod 4 = 0" using assms(1) m [of a] by simp
  then have "unat ((a + of_nat (4 * n)) mod 4) = 0" unfolding m u by (simp add: mod_simps)
  then show "(a + of_nat (4 * n)) mod 4 = 0" by (simp only: unat_eq_0)
  show "a + of_nat (4 * n) \<noteq> NULL" if "a \<noteq> NULL"
  proof
    assume "a + of_nat (4 * n) = NULL"
    then have "unat a = 0" using u by simp
    then show False using that by (simp only: unat_eq_0)
  qed
qed

lemma ptr_off_up:
  assumes "unat a + n < 2 ^ 64"
  shows "ptr_off a (int n) = ret (a + of_nat n)"
proof -
  have "unat (a + of_nat n) = unat a + n" using assms by (simp add: unat_add_lt unat_of_nat_lt)
  then have "\<not> a + of_nat n < a" by (simp add: word_less_nat_alt)
  then show ?thesis by (simp add: ptr_off_def Let_def)
qed

text \<open>The bit of a bitmap that belongs to pixel \<open>t\<close>, and where the renderer looks for it.\<close>

definition frag_bit :: "mem \<Rightarrow> addr \<Rightarrow> nat \<Rightarrow> bool" where
  "frag_bit m frg t \<longleftrightarrow> bit (m (frg + of_nat (t div 8))) (t mod 8)"

fun cursor :: "addr \<Rightarrow> nat \<Rightarrow> u32 \<times> addr" where
  "cursor frg 0 = (1, frg)"
| "cursor frg (Suc t) = (2 ^ (t mod 8 + 1), frg + of_nat (t div 8))"

lemma cursor_moves:
  assumes "unat frg + t div 8 < 2 ^ 64"
  shows "(case cursor frg t of (m, f) \<Rightarrow> if m > 0x80 then rbind (ptr_plus f 1) (\<lambda>f. ret (1, f)) else ret (m, f)) =
    ret (2 ^ (t mod 8), frg + of_nat (t div 8))"
proof (cases t)
  case (Suc n)
  show ?thesis
  proof (cases "n mod 8 = 7")
    case True
    then have d: "Suc n mod 8 = 0" "Suc n div 8 = Suc (n div 8)" by (simp_all add: mod_Suc div_Suc)
    have "unat (frg + of_nat (n div 8)) = unat frg + n div 8" using assms d Suc by (simp add: unat_add_lt unat_of_nat_lt)
    moreover have "unat (frg + of_nat (n div 8) + 1) = unat (frg + of_nat (n div 8)) + 1"
      using calculation assms d Suc unat_add_lt [of "frg + of_nat (n div 8)" 1] by simp
    ultimately have "\<not> frg + of_nat (n div 8) + 1 < frg + of_nat (n div 8)" by (simp add: word_less_nat_alt)
    then have "ptr_plus (frg + of_nat (n div 8)) 1 = ret (frg + of_nat (Suc (n div 8)))" by (simp add: ptr_plus_def ac_simps)
    moreover have "(0x80 :: u32) < 2 ^ (n mod 8 + 1)" unfolding True by simp
    ultimately show ?thesis unfolding Suc cursor.simps prod.case d by (simp only: if_True rbind_simps power_0)
  next
    case False
    then have d: "Suc n mod 8 = Suc (n mod 8)" "Suc n div 8 = n div 8" by (simp_all add: mod_Suc div_Suc)
    have "n mod 8 < 8" by simp
    then have "n mod 8 \<in> {0, 1, 2, 3, 4, 5, 6}" using False by auto
    then have "\<not> (2 :: u32) ^ (n mod 8 + 1) > 0x80" by auto
    then show ?thesis using Suc d by simp
  qed
qed simp

lemma byte_bit: "(ucast (b :: u8) :: u32) AND 2 ^ k \<noteq> 0 \<longleftrightarrow> bit b k" if "k < 8"
proof -
  have "(ucast b :: u32) AND 2 ^ k \<noteq> 0 \<longleftrightarrow> bit (ucast b :: u32) k" using that by (simp add: and_exp_eq_0_iff_not_bit)
  then show ?thesis using that by (simp add: bit_simps)
qed

text \<open>
  One pixel, a line of pixels, all lines of a fragment: without limits for the width and the height and without a
  background, as the display uses the renderer.
\<close>

abbreviation unclipped :: "ssfn_buf_t \<Rightarrow> bool" where
  "unclipped dst \<equiv> sb_h dst = 0 \<and> sb_bg dst = 0 \<and> 0 \<le> sb_x dst \<and> sb_x dst + 256 \<le> 2 ^ 31"

lemma draw_bit_at:
  assumes "unclipped dst" "l < 256" "p mod 4 = 0" "p \<noteq> NULL" "unat p + 4 < 2 ^ 64" "unat frg + t div 8 < 2 ^ 64"
  shows "draw_bit dst 0 l (p, fst (cursor frg t), snd (cursor frg t), s) =
    ret (p + 4, fst (cursor frg (Suc t)), snd (cursor frg (Suc t)), paint (if frag_bit (mem s) frg t then {p} else {}) (sb_fg dst) s)"
proof -
  have cm: "(if fst (cursor frg t) > 0x80 then rbind (ptr_plus (snd (cursor frg t)) 1) (\<lambda>frg. ret (1, frg))
      else ret (fst (cursor frg t), snd (cursor frg t))) = ret (2 ^ (t mod 8), frg + of_nat (t div 8))"
    using cursor_moves [OF assms(6)] unfolding case_prod_unfold .
  have xl: "iadd (sb_x dst) (int l) = ret (sb_x dst + int l)" using assms(1,2) by (simp add: iadd_def int_range_def)
  have st: "store_pixel p c s = ret (paint {p} c s)" for c
    using assms(3,4) by (auto simp: store_pixel_def paint_def fun_upd_def)
  have po: "ptr_off p 4 = ret (p + 4)" using ptr_off_up [of p 4] assms(5) by simp
  have ps: "push_bit 1 ((2 :: u32) ^ (t mod 8)) = 2 ^ (t mod 8 + 1)" by (simp add: push_bit_eq_mult)
  have bb: "(ucast (mem s (frg + of_nat (t div 8))) :: u32) AND 2 ^ (t mod 8) \<noteq> 0 \<longleftrightarrow> frag_bit (mem s) frg t"
    unfolding frag_bit_def by (rule byte_bit) simp
  have "0 \<le> sb_x dst + int l" "sb_bg dst = 0" using assms(1) by auto
  then show ?thesis unfolding draw_bit_def prod.case cm rbind_simps xl bb
    by (auto simp: st po ps)
qed

lemma upt_off_Suc: "{f c |c. c < Suc k \<and> P c} = {f c |c. c < k \<and> P c} \<union> (if P k then {f k} else {})"
  by (auto simp: less_Suc_eq)

lemma draw_line:
  assumes pl: "unclipped dst" and k: "k \<le> 256" and oo: "oo mod 4 = 0" "oo \<noteq> NULL" "unat oo + 4 * k < 2 ^ 64"
    and f: "unat frg + (t + k) div 8 < 2 ^ 64"
  shows "for_each (draw_bit dst 0) [0..<k] (oo, fst (cursor frg t), snd (cursor frg t), s) =
    ret (oo + of_nat (4 * k), fst (cursor frg (t + k)), snd (cursor frg (t + k)),
      paint {oo + of_nat (4 * c) |c. c < k \<and> frag_bit (mem s) frg (t + c)} (sb_fg dst) s)"
  using k oo(3) f
proof (induction k)
  case (Suc k)
  have d: "(t + k) div 8 \<le> (t + Suc k) div 8" by (rule div_le_mono) simp
  have IH: "for_each (draw_bit dst 0) [0..<k] (oo, fst (cursor frg t), snd (cursor frg t), s) =
    ret (oo + of_nat (4 * k), fst (cursor frg (t + k)), snd (cursor frg (t + k)),
      paint {oo + of_nat (4 * c) |c. c < k \<and> frag_bit (mem s) frg (t + c)} (sb_fg dst) s)"
    using Suc.prems d by (intro Suc.IH) simp_all
  let ?p = "oo + of_nat (4 * k)"
  note al = aligned_off [OF oo(1), of k]
  have nx: "?p + 4 = oo + of_nat (4 * Suc k)" by (simp add: algebra_simps)
  have step: "draw_bit dst 0 k (?p, fst (cursor frg (t + k)), snd (cursor frg (t + k)), s1) =
      ret (oo + of_nat (4 * Suc k), fst (cursor frg (t + Suc k)), snd (cursor frg (t + Suc k)),
        paint (if frag_bit (mem s1) frg (t + k) then {?p} else {}) (sb_fg dst) s1)" for s1 :: "'a fbdev_scheme"
    unfolding nx [symmetric] add_Suc_right using Suc.prems d al oo(2) by (intro draw_bit_at [OF pl]) simp_all
  show ?case unfolding upt_Suc_append [OF le0] for_each_append IH rbind_simps for_each.simps step paint_simps upt_off_Suc
    by (simp only: Un_commute)
qed simp

lemma rows_split:
  "{f (px + (r * px + c)) |r c. r < j \<and> c < k \<and> P (k + (r * k + c))} \<union> {f c |c. c < k \<and> P c} =
   {f (r * px + c) |r c. r < Suc j \<and> c < (k :: nat) \<and> P (r * k + c)}" (is "?A \<union> ?B = ?C")
proof
  have "?A \<subseteq> ?C"
  proof
    fix a assume "a \<in> ?A"
    then obtain r c where "a = f (px + (r * px + c))" "r < j" "c < k" "P (k + (r * k + c))" by blast
    then have "a = f (Suc r * px + c) \<and> Suc r < Suc j \<and> c < k \<and> P (Suc r * k + c)" by (simp add: add.assoc)
    then show "a \<in> ?C" by blast
  qed
  moreover have "?B \<subseteq> ?C"
  proof
    fix a assume "a \<in> ?B"
    then obtain c where "a = f (0 * px + c) \<and> 0 < Suc j \<and> c < k \<and> P (0 * k + c)" by auto
    then show "a \<in> ?C" by blast
  qed
  ultimately show "?A \<union> ?B \<subseteq> ?C" by blast
  show "?C \<subseteq> ?A \<union> ?B"
  proof
    fix a assume "a \<in> ?C"
    then obtain r c where a: "a = f (r * px + c)" "r < Suc j" "c < k" "P (r * k + c)" by blast
    show "a \<in> ?A \<union> ?B"
    proof (cases r)
      case (Suc q)
      then have "a = f (px + (q * px + c)) \<and> q < j \<and> c < k \<and> P (k + (q * k + c))" using a by (simp add: add.assoc)
      then show ?thesis by blast
    qed (use a in auto)
  qed
qed

lemma draw_rows_at:
  assumes pl: "unclipped dst" and k: "k \<le> 256" and oo: "oo mod 4 = 0" "oo \<noteq> NULL" "unat oo + 4 * (j * px + k) < 2 ^ 64"
    and f: "unat frg + (t + j * k) div 8 < 2 ^ 64"
  shows "draw_rows dst 0 (int px) k j (oo, y, fst (cursor frg t), snd (cursor frg t), s) =
    ret (oo + of_nat (4 * (j * px)), y + int j,
      paint {oo + of_nat (4 * (r * px + c)) |r c. r < j \<and> c < k \<and> frag_bit (mem s) frg (t + (r * k + c))} (sb_fg dst) s)"
  using oo f
proof (induction j arbitrary: oo y t s)
  case (Suc j)
  have d: "(t + k) div 8 \<le> (t + Suc j * k) div 8" by (rule div_le_mono) simp
  have ln: "for_each (draw_bit dst 0) [0..<k] (oo, fst (cursor frg t), snd (cursor frg t), s) =
    ret (oo + of_nat (4 * k), fst (cursor frg (t + k)), snd (cursor frg (t + k)),
      paint {oo + of_nat (4 * c) |c. c < k \<and> frag_bit (mem s) frg (t + c)} (sb_fg dst) s)"
    using Suc.prems d by (intro draw_line [OF pl k]) simp_all
  have lim: "unat oo + 4 * px < 2 ^ 64" using Suc.prems(3) by simp
  note al = aligned_off [OF Suc.prems(1) lim]
  have po: "ptr_off oo (4 * int px) = ret (oo + of_nat (4 * px))" using ptr_off_up [OF lim] by simp
  have ins: "inside (sb_h dst) (sb_y dst) y = ret True" using pl by (simp add: inside_def)
  have IH: "draw_rows dst 0 (int px) k j (oo + of_nat (4 * px), y + 1, fst (cursor frg (t + k)), snd (cursor frg (t + k)), s1) =
    ret (oo + of_nat (4 * px) + of_nat (4 * (j * px)), y + 1 + int j,
      paint {oo + of_nat (4 * px) + of_nat (4 * (r * px + c)) |r c. r < j \<and> c < k \<and> frag_bit (mem s1) frg (t + k + (r * k + c))} (sb_fg dst) s1)"
    for s1 :: "'a fbdev_scheme"
    using Suc.prems al by (intro Suc.IH) (simp_all add: algebra_simps)
  have sum: "oo + of_nat (4 * px) + of_nat (4 * n) = oo + of_nat (4 * (px + n))" for n by (simp add: algebra_simps)
  note set = rows_split [of "\<lambda>n. oo + of_nat (4 * n)" px j k "\<lambda>n. frag_bit (mem s) frg (t + n)", folded add.assoc [of t k]]
  show ?case unfolding draw_rows.simps ins rbind_simps if_True ln prod.case po IH paint_simps sum set by simp
qed simp

section \<open>Fragments and characters\<close>

text \<open>The pixels of fragment \<open>i\<close> of the glyph at \<open>chr\<close>, when the glyph's upper left corner is the pixel at \<open>base\<close>.\<close>

definition frag_pixels :: "mem \<Rightarrow> addr \<Rightarrow> addr \<Rightarrow> addr \<Rightarrow> nat \<Rightarrow> nat \<Rightarrow> addr set" where
  "frag_pixels m src chr base px i =
     (let big = m chr AND 0x40 \<noteq> 0;
          ptr = chr + 6 + of_nat i * (if big then 6 else 5);
          frg = src + of_nat (load_le m (ptr + 2) (if big then 4 else 3));
          k = (unat (m frg AND 0x1F) + 1) * 8
      in if m ptr = 255 \<and> m (ptr + 1) = 255 \<or> m frg AND 0xE0 \<noteq> 0x80 then {}
         else {base + of_nat (4 * (unat (m (ptr + 1)) * px)) + of_nat (4 * (r * px + c)) |r c.
           r < unat (m (frg + 1)) + 1 \<and> c < k \<and> frag_bit m (frg + 2) (r * k + c)})"

lemma ptr_off_between:
  assumes "unat base + x < 2 ^ 64" "unat base + y < 2 ^ 64"
  shows "ptr_off (base + of_nat x) (int y - int x) = ret (base + of_nat y)"
proof -
  have u: "unat (base + of_nat x) = unat base + x" "unat (base + of_nat y) = unat base + y"
    using assms by (simp_all add: unat_add_lt unat_of_nat_lt)
  have "base + of_nat x + word_of_int (int y - int x) = base + of_nat y" by (simp add: of_int_diff)
  moreover have "0 \<le> int y - int x \<Longrightarrow> \<not> base + of_nat y < base + of_nat x" "int y - int x < 0 \<Longrightarrow> \<not> base + of_nat x < base + of_nat y"
    unfolding word_less_nat_alt u by simp_all
  ultimately show ?thesis unfolding ptr_off_def Let_def by auto
qed

text \<open>What the renderer relies on: the frame of the glyph and the font do not wrap around the end of memory.\<close>

definition glyph_frame :: "addr \<Rightarrow> nat \<Rightarrow> addr \<Rightarrow> bool" where
  "glyph_frame base px src \<longleftrightarrow> base mod 4 = 0 \<and> base \<noteq> NULL \<and> px < 2 ^ 14 \<and> unat base + 4 * (512 * px + 256) < 2 ^ 64 \<and>
     unat src + 2 ^ 33 < 2 ^ 64"

lemma byte_bound: "unat (b :: u8) \<le> 255"
proof -
  have "unat b < 2 ^ LENGTH(8)" by (rule unsigned_less)
  then show ?thesis by simp
qed

lemma frame_limit:
  assumes "b + 4 * (512 * px + 256) < (T :: nat)" "n \<le> 512" "k \<le> 256"
  shows "b + 4 * (n * px + k) < T"
proof -
  have "n * px + k \<le> 512 * px + 256" using assms(2,3) by (intro add_mono mult_le_mono1)
  then have "4 * (n * px + k) \<le> 4 * (512 * px + 256)" by (rule mult_le_mono2)
  then show ?thesis using assms(1) by (rule le_less_trans [OF add_left_mono])
qed

lemma draw_fragment_at:
  fixes s :: "'a fbdev_scheme"
  assumes pl: "unclipped dst" and fr: "glyph_frame base px src" and y: "y \<le> 511"
    and big: "mem s chr AND 0x40 \<noteq> 0 \<longrightarrow> mem s (chr + 6 + of_nat i * 6 + 5) < 128"
  shows "\<exists>y'\<le>511. draw_fragment dst 0 (int px) src chr i (base + of_nat (4 * (y * px)), int y, s) =
    ret (base + of_nat (4 * (y' * px)), int y', paint (frag_pixels (mem s) src chr base px i) (sb_fg dst) s)"
proof -
  define ptr where "ptr = chr + 6 + of_nat i * (if mem s chr AND 0x40 \<noteq> 0 then 6 else 5)"
  define off where "off = load_le (mem s) (ptr + 2) (if mem s chr AND 0x40 \<noteq> 0 then 4 else 3)"
  define frg where "frg = src + of_nat off"
  define y1 k j where "y1 = unat (mem s (ptr + 1))" and "k = (unat (mem s frg AND 0x1F) + 1) * 8" and "j = unat (mem s (frg + 1)) + 1"
  note folds = y1_def [symmetric] k_def [symmetric] j_def [symmetric]
  have fo: "frag_offset (mem s) (mem s chr AND 0x40 \<noteq> 0) ptr = ret (int off)"
    using big by (auto simp: frag_offset_def off_def ptr_def not_le [symmetric])
  have "(256 :: nat) ^ (if mem s chr AND 0x40 \<noteq> 0 then 4 else 3) \<le> 256 ^ 4" by simp
  then have ob: "off < 2 ^ 32" using load_le_bound [of "mem s" "ptr + 2" "if mem s chr AND 0x40 \<noteq> 0 then 4 else 3"]
    unfolding off_def by simp
  have w: "unat src + 2 ^ 33 < 2 ^ 64" "base mod 4 = 0" "base \<noteq> NULL" "px < 2 ^ 14" "unat base + 4 * (512 * px + 256) < 2 ^ 64"
    using fr by (simp_all add: glyph_frame_def)
  have po: "ptr_off src (int off) = ret frg" unfolding frg_def using ptr_off_up [of src off] ob w(1) by simp
  have start: "draw_fragment dst 0 (int px) src chr i (base + of_nat (4 * (y * px)), int y, s) =
      (if mem s ptr = 255 \<and> mem s (ptr + 1) = 255 \<or> mem s frg AND 0xE0 \<noteq> 0x80 then ret (base + of_nat (4 * (y * px)), int y, s) else
       rbind (imul (int y1 - int y) (int px)) (\<lambda>d. rbind (ptr_off (base + of_nat (4 * (y * px))) (4 * d)) (\<lambda>oo.
       rbind (ptr_plus frg 2) (\<lambda>frg. draw_rows dst 0 (int px) k j (oo, int y1, 1, frg, s)))))"
    unfolding draw_fragment_def prod.case Let_def ptr_def [symmetric] fo rbind_simps po folds
    using pl by (simp add: rbind_assoc k_def j_def del: draw_rows.simps)
  show ?thesis
  proof (cases "mem s ptr = 255 \<and> mem s (ptr + 1) = 255 \<or> mem s frg AND 0xE0 \<noteq> 0x80")
    case True
    then have "frag_pixels (mem s) src chr base px i = {}"
      unfolding frag_pixels_def Let_def ptr_def [symmetric] off_def [symmetric] frg_def [symmetric] by simp
    then show ?thesis using start True y by (intro exI [of _ y]) simp
  next
    case False
    have "unat (mem s frg AND 0x1F) \<le> 31" using word_and_le1 [of "mem s frg" "0x1F"] by (simp add: word_le_nat_alt)
    then have b: "y1 \<le> 255" "j \<le> 256" "k \<le> 256" using byte_bound by (simp_all add: y1_def j_def k_def)
    have "\<bar>int y1 - int y\<bar> \<le> 511" using b(1) y by auto
    then have "\<bar>(int y1 - int y) * int px\<bar> \<le> 511 * 2 ^ 14" unfolding abs_mult using w(4) by (intro mult_mono) auto
    then have im: "imul (int y1 - int y) (int px) = ret ((int y1 - int y) * int px)" by (auto simp: imul_def int_range_def abs_le_iff)
    have d: "4 * ((int y1 - int y) * int px) = int (4 * (y1 * px)) - int (4 * (y * px))" by (simp add: algebra_simps)
    have pb: "ptr_off (base + of_nat (4 * (y * px))) (4 * ((int y1 - int y) * int px)) = ret (base + of_nat (4 * (y1 * px)))"
      unfolding d using frame_limit [OF w(5), of y 0] frame_limit [OF w(5), of y1 0] y b(1) by (intro ptr_off_between) simp_all
    have uf: "unat frg = unat src + off" unfolding frg_def using ob w(1) by (simp add: unat_add_lt unat_of_nat_lt)
    have uf2: "unat (frg + 2) = unat frg + 2" using unat_add_lt [of frg 2] uf ob w(1) by simp
    then have pp: "ptr_plus frg 2 = ret (frg + 2)" by (simp add: ptr_plus_def word_less_nat_alt)
    have jk: "(0 + j * k) div 8 \<le> 2 ^ 13"
    proof -
      have "j * k \<le> 256 * 256" using b(2,3) by (rule mult_le_mono)
      then have "(0 + j * k) div 8 \<le> 256 * 256 div 8" by (intro div_le_mono) simp
      then show ?thesis by simp
    qed
    have lim: "unat base + 4 * (y1 * px) < 2 ^ 64" "unat (base + of_nat (4 * (y1 * px))) + 4 * (j * px + k) < 2 ^ 64"
    proof -
      show l: "unat base + 4 * (y1 * px) < 2 ^ 64" using frame_limit [OF w(5), of y1 0] b(1) by simp
      have "unat base + 4 * ((y1 + j) * px + k) < 2 ^ 64" using frame_limit [OF w(5), of "y1 + j" k] b by simp
      then show "unat (base + of_nat (4 * (y1 * px))) + 4 * (j * px + k) < 2 ^ 64"
        unfolding aligned_off(1) [OF w(2) l] by (simp add: algebra_simps)
    qed
    note al = aligned_off [OF w(2) lim(1)]
    have fl: "unat (frg + 2) + (0 + j * k) div 8 < 2 ^ 64" using uf uf2 ob w(1) jk by simp
    have fp: "frag_pixels (mem s) src chr base px i = {base + of_nat (4 * (y1 * px)) + of_nat (4 * (r * px + c)) |r c.
        r < j \<and> c < k \<and> frag_bit (mem s) (frg + 2) (r * k + c)}"
      unfolding frag_pixels_def Let_def ptr_def [symmetric] off_def [symmetric] frg_def [symmetric] folds using False by (simp only: if_False)
    have dr: "draw_rows dst 0 (int px) k j (base + of_nat (4 * (y1 * px)), int y1, 1, frg + 2, s) =
        ret (base + of_nat (4 * (y1 * px)) + of_nat (4 * (j * px)), int y1 + int j,
          paint (frag_pixels (mem s) src chr base px i) (sb_fg dst) s)"
      unfolding fp using draw_rows_at [OF pl b(3) al(2) al(3) [OF w(3)] lim(2) fl, of "int y1" s]
      unfolding cursor.simps fst_conv snd_conv add_0 .
    have "base + of_nat (4 * (y1 * px)) + of_nat (4 * (j * px)) = base + of_nat (4 * ((y1 + j) * px))" by (simp add: algebra_simps)
    moreover have "y1 + j \<le> 511" using b by simp
    ultimately show ?thesis unfolding start im rbind_simps pb pp dr using False
      by (intro exI [of _ "y1 + j"]) (simp only: if_False of_nat_add simp_thms)
  qed
qed

text \<open>The offsets of the fragments, if they take four bytes, are less than \<open>2 ^ 31\<close>.\<close>

definition frags_ok :: "mem \<Rightarrow> addr \<Rightarrow> bool" where
  "frags_ok m chr \<longleftrightarrow> m chr AND 0x40 \<noteq> 0 \<longrightarrow> (\<forall>i<unat (m (chr + 1)). m (chr + 6 + of_nat i * 6 + 5) < 128)"

lemma draw_fragments:
  assumes pl: "unclipped dst" and fr: "glyph_frame base px src" and fo: "frags_ok (mem s) chr" and n: "n \<le> unat (mem s (chr + 1))"
  shows "\<exists>y\<le>511. for_each (draw_fragment dst 0 (int px) src chr) [0..<n] (base, 0, s) =
    ret (base + of_nat (4 * (y * px)), int y, paint (\<Union>i<n. frag_pixels (mem s) src chr base px i) (sb_fg dst) s)"
  using n
proof (induction n)
  case 0
  then show ?case by (intro exI [of _ 0]) simp
next
  case (Suc n)
  then obtain y where y: "y \<le> 511" "for_each (draw_fragment dst 0 (int px) src chr) [0..<n] (base, 0, s) =
      ret (base + of_nat (4 * (y * px)), int y, paint (\<Union>i<n. frag_pixels (mem s) src chr base px i) (sb_fg dst) s)" by auto
  let ?s = "paint (\<Union>i<n. frag_pixels (mem s) src chr base px i) (sb_fg dst) s"
  have "mem ?s chr AND 0x40 \<noteq> 0 \<longrightarrow> mem ?s (chr + 6 + of_nat n * 6 + 5) < 128"
    using fo Suc.prems by (simp add: frags_ok_def)
  from draw_fragment_at [OF pl fr y(1) this] obtain y' where y': "y' \<le> 511"
    "draw_fragment dst 0 (int px) src chr n (base + of_nat (4 * (y * px)), int y, ?s) =
      ret (base + of_nat (4 * (y' * px)), int y', paint (frag_pixels (mem s) src chr base px n) (sb_fg dst) ?s)" by auto
  have "frag_pixels (mem s) src chr base px n \<union> (\<Union>i<n. frag_pixels (mem s) src chr base px i) =
      (\<Union>i<Suc n. frag_pixels (mem s) src chr base px i)" by (auto simp: less_Suc_eq)
  then show ?case using y(2) y' by (intro exI [of _ y']) (simp add: for_each_append del: of_nat_mult)
qed

text \<open>A font in memory with the table of characters \<open>es\<close>.\<close>

abbreviation table_addr :: "mem \<Rightarrow> addr \<Rightarrow> addr" where
  "table_addr m src \<equiv> src + ucast (load32 m (src + 16))"

definition font_ok :: "mem \<Rightarrow> addr \<Rightarrow> sfn_entry list \<Rightarrow> bool" where
  "font_ok m src es \<longleftrightarrow> src \<noteq> NULL \<and> unat src + 2 ^ 33 < 2 ^ 64 \<and>
     map m [src, src + 1, src + 2, src + 3] = [0x53, 0x46, 0x4E, 0x32] \<and> m (src + 19) < 128 \<and>
     (\<forall>e\<in>set es. entry_ok e) \<and> holds_bytes m (table_addr m src) (table_bytes es) \<and>
     length (table_bytes es) \<le> 2 ^ 32 \<and> 0x110000 \<le> total_span es"

lemma font_table:
  assumes f: "font_ok m src es" and c: "c < 0x110000"
  shows "ptr_plus src (ucast (load32 m (src + 16))) = ret (table_addr m src)"
    "find_glyph m (of_nat c) 0 (table_addr m src) = ret (map_option (\<lambda>k. table_addr m src + of_nat k) (glyph_pos es 0 c))"
proof -
  have s: "unat src + 2 ^ 33 < 2 ^ 64" "\<forall>e\<in>set es. entry_ok e" "holds_bytes m (table_addr m src) (table_bytes es)"
    "length (table_bytes es) \<le> 2 ^ 32" "0x110000 \<le> 0 + total_span es" using f by (simp_all add: font_ok_def)
  have "unat (load32 m (src + 16)) < 2 ^ LENGTH(32)" by (rule unsigned_less)
  then have o: "unat (ucast (load32 m (src + 16)) :: u64) < 2 ^ 32" by (simp add: unsigned_ucast_eq take_bit_eq_mod)
  then have u: "unat (table_addr m src) = unat src + unat (ucast (load32 m (src + 16)) :: u64)" using s(1) by (intro unat_add_lt) simp
  then show "ptr_plus src (ucast (load32 m (src + 16))) = ret (table_addr m src)" by (simp add: ptr_plus_def word_less_nat_alt)
  have "unat (table_addr m src) + length (table_bytes es) < 2 ^ 64" using u o s(1,4) by simp
  from find_glyph_table [OF s(2,3) this s(5) c]
  show "find_glyph m (of_nat c) 0 (table_addr m src) = ret (map_option (\<lambda>k. table_addr m src + of_nat k) (glyph_pos es 0 c))" by simp
qed

text \<open>The destination, and the address of the pixel at its cursor.\<close>

definition dst_ok :: "ssfn_buf_t \<Rightarrow> addr \<Rightarrow> bool" where
  "dst_ok dst src \<longleftrightarrow> unclipped dst \<and> sb_w dst = 0 \<and> sb_ptr dst \<noteq> NULL \<and> sb_p dst \<noteq> 0 \<and>
     0 \<le> sb_y dst \<and> sb_y dst * int (unat (sb_p dst)) < 2 ^ 31 - 256 \<and> sb_y dst + 256 \<le> 2 ^ 31 \<and>
     uint (sb_ptr dst) + sb_y dst * int (unat (sb_p dst)) + 4 * sb_x dst < 2 ^ 64 \<and>
     glyph_frame (sb_ptr dst + word_of_int (sb_y dst * int (unat (sb_p dst)) + 4 * sb_x dst)) (unat (sb_p dst div 4)) src"

abbreviation cursor_addr :: "ssfn_buf_t \<Rightarrow> addr" where
  "cursor_addr dst \<equiv> sb_ptr dst + word_of_int (sb_y dst * int (unat (sb_p dst)) + 4 * sb_x dst)"

lemma iadd_byte:
  assumes "0 \<le> v" "v + 256 \<le> 2 ^ 31"
  shows "iadd v (int (unat (d :: u8))) = ret (v + int (unat d))"
proof -
  define e where "e = int (unat d)"
  have "0 \<le> e" "e \<le> 255" using byte_bound [of d] unfolding e_def by linarith+
  then show ?thesis unfolding e_def [symmetric] using assms by (simp add: iadd_def int_range_def)
qed

lemma cursor_pointer:
  assumes d: "dst_ok dst src"
  shows "imul (sb_y dst) (int (unat (sb_p dst))) = ret (sb_y dst * int (unat (sb_p dst)))"
    "rbind (ptr_off (sb_ptr dst) (sb_y dst * int (unat (sb_p dst)))) (\<lambda>oo. ptr_plus oo (word_of_int (sb_x dst) * 4)) = ret (cursor_addr dst)"
proof -
  define l where "l = sb_y dst * int (unat (sb_p dst))"
  define x where "x = sb_x dst"
  have k: "0 \<le> l" "l < 2 ^ 31 - 256" "0 \<le> x" "x + 256 \<le> 2 ^ 31" "uint (sb_ptr dst) + l + 4 * x < 2 ^ 64"
    using d by (simp_all add: dst_ok_def l_def x_def)
  then show "imul (sb_y dst) (int (unat (sb_p dst))) = ret (sb_y dst * int (unat (sb_p dst)))"
    unfolding l_def by (simp add: imul_def int_range_def)
  obtain n a where na: "l = int n" "x = int a" using k(1,3) by (metis nonneg_int_cases)
  have "int (unat (sb_ptr dst)) + int n + 4 * int a < 2 ^ 64" using k(5) na by simp
  then have "int (unat (sb_ptr dst) + n + 4 * a) < int (2 ^ 64)" by simp
  then have lim: "unat (sb_ptr dst) + n + 4 * a < 2 ^ 64" by (simp only: of_nat_less_iff)
  have u: "unat (sb_ptr dst + of_nat n) = unat (sb_ptr dst) + n" using lim by (simp add: unat_add_lt unat_of_nat_lt)
  have "unat (sb_ptr dst + of_nat n + of_nat (4 * a)) = unat (sb_ptr dst + of_nat n) + 4 * a"
    using lim u by (simp add: unat_add_lt unat_of_nat_lt del: of_nat_mult)
  then have nw: "\<not> sb_ptr dst + of_nat n + of_nat (4 * a) < sb_ptr dst + of_nat n" by (simp add: word_less_nat_alt del: of_nat_mult)
  have "ptr_off (sb_ptr dst) (int n) = ret (sb_ptr dst + of_nat n)" using lim by (intro ptr_off_up) simp
  moreover have "word_of_int (int a) * 4 = (of_nat (4 * a) :: u64)" by simp
  moreover have "sb_ptr dst + word_of_int (int n + 4 * int a) = sb_ptr dst + of_nat n + of_nat (4 * a)" by (simp add: add.assoc)
  ultimately show "rbind (ptr_off (sb_ptr dst) (sb_y dst * int (unat (sb_p dst)))) (\<lambda>oo. ptr_plus oo (word_of_int (sb_x dst) * 4)) = ret (cursor_addr dst)"
    unfolding l_def [symmetric] x_def [symmetric] na using nw by (simp only: rbind_simps ptr_plus_def if_False)
qed

text \<open>
  C32. \<open>ssfn_putc\<close>, as the information display uses it, with a well-formed font: a character that the table of the font
  does not have gives the error code and changes nothing; for any other one it returns, every set bit of the bitmaps of the
  glyph's fragments and no other pixel gets the foreground colour, and the cursor advances as the glyph says. The table may
  mix the three encodings of absent characters.
\<close>

theorem ssfn_putc_correct:
  assumes "font_ok (mem s) src es" "dst_ok dst src" "c < 0x110000"
    and "\<forall>k. glyph_pos es 0 c = Some k \<longrightarrow> frags_ok (mem s) (table_addr (mem s) src + of_nat k)"
  shows "ssfn_putc src (of_nat c) dst s =
    (case glyph_pos es 0 c of None \<Rightarrow> ret (SSFN_ERR_NOGLYPH, dst, s)
     | Some k \<Rightarrow> let chr = table_addr (mem s) src + of_nat k in
        ret (SSFN_OK, dst\<lparr>sb_x := sb_x dst + int (unat (mem s (chr + 4))), sb_y := sb_y dst + int (unat (mem s (chr + 5)))\<rparr>,
          paint (\<Union>i<unat (mem s (chr + 1)). frag_pixels (mem s) src chr (cursor_addr dst) (unat (sb_p dst div 4)) i) (sb_fg dst) s))"
proof -
  let ?px = "unat (sb_p dst div 4)" and ?t = "table_addr (mem s) src" and ?l = "sb_y dst * int (unat (sb_p dst))"
  have h: "\<not> (src = NULL \<or> map (mem s) [src, src + 1, src + 2, src + 3] \<noteq> [0x53, 0x46, 0x4E, 0x32] \<or> sb_ptr dst = NULL \<or> sb_p dst = 0)"
    using assms(1,2) by (simp add: font_ok_def dst_ok_def)
  have "src + 16 + 3 = src + 19" by simp
  then have top: "mem s (src + 16 + 3) < 128" using assms(1) by (simp only: font_ok_def)
  have pl: "unclipped dst" and w: "sb_w dst = 0" and fr: "glyph_frame (cursor_addr dst) ?px src" and b: "sb_bg dst = 0"
    using assms(2) by (simp_all add: dst_ok_def)
  have le: "le32 (mem s) (src + 16) = ret (load32 (mem s) (src + 16))" using top by (simp add: le32_def not_le [symmetric])
  note tab = font_table [OF assms(1,3)]
  have start: "ssfn_putc src (of_nat c) dst s = (case map_option (\<lambda>k. ?t + of_nat k) (glyph_pos es 0 c) of
      None \<Rightarrow> ret (SSFN_ERR_NOGLYPH, dst, s)
    | Some chr \<Rightarrow>
      rbind (for_each (draw_fragment dst 0 (int ?px) src chr) [0..<unat (mem s (chr + 1))] (cursor_addr dst, 0, s)) (\<lambda>(oo, y, s).
      rbind (iadd (sb_x dst) (int (unat (mem s (chr + 4))))) (\<lambda>x.
      rbind (iadd (sb_y dst) (int (unat (mem s (chr + 5))))) (\<lambda>y. ret (SSFN_OK, dst\<lparr>sb_x := x, sb_y := y\<rparr>, s)))))"
  proof -
    obtain oo where oo: "ptr_off (sb_ptr dst) ?l = ret oo" "ptr_plus oo (word_of_int (sb_x dst) * 4) = ret (cursor_addr dst)"
      using cursor_pointer(2) [OF assms(2)] unfolding rbind_eq_ret by blast
    have nw: "\<not> (0 :: int) < 0" "\<not> sb_bg dst \<noteq> 0" using b by simp_all
    show ?thesis unfolding ssfn_putc_def Let_def using h
      by (simp only: if_False w nw rbind_simps le tab oo cursor_pointer(1) [OF assms(2)] rbind_ret_right case_prod_unfold fst_conv snd_conv)
  qed
  show ?thesis
  proof (cases "glyph_pos es 0 c")
    case None
    then show ?thesis unfolding start by simp
  next
    case (Some k)
    let ?chr = "?t + of_nat k"
    have "frags_ok (mem s) ?chr" using assms(4) Some by simp
    from draw_fragments [OF pl fr this order_refl] obtain y where
      y: "for_each (draw_fragment dst 0 (int ?px) src ?chr) [0..<unat (mem s (?chr + 1))] (cursor_addr dst, 0, s) =
        ret (cursor_addr dst + of_nat (4 * (y * ?px)), int y,
          paint (\<Union>i<unat (mem s (?chr + 1)). frag_pixels (mem s) src ?chr (cursor_addr dst) ?px i) (sb_fg dst) s)" by blast
    have "0 \<le> sb_x dst" "sb_x dst + 256 \<le> 2 ^ 31" "0 \<le> sb_y dst" "sb_y dst + 256 \<le> 2 ^ 31" using assms(2) by (simp_all add: dst_ok_def)
    then have "iadd (sb_x dst) (int (unat d)) = ret (sb_x dst + int (unat d))" "iadd (sb_y dst) (int (unat d)) = ret (sb_y dst + int (unat d))"
      for d :: u8 by (simp_all only: iadd_byte)
    then show ?thesis unfolding start Some option.map option.case y rbind_simps prod.case paint_simps Let_def by simp
  qed
qed

section \<open>A concrete font\<close>

text \<open>One glyph, for the letter A: a fragment of eight by one pixels, two lines down, whose outer pixels are set.\<close>

definition font_table_example :: "sfn_entry list" where
  "font_table_example = [Absent 65, Glyph [0, 1, 8, 16, 8, 0, 0, 2, 160, 0, 0]] @ replicate 16 (Absent 65536) @
     [Absent 16128, Absent 16128, Absent 16128, Absent 16128, Absent 958]"

definition font_bytes :: "u8 list" where
  "font_bytes = [0x53, 0x46, 0x4E, 0x32, 163, 0, 0, 0, 0, 0, 8, 16, 12, 0, 0, 0, 64, 0, 0, 0] @ replicate 44 0 @
     table_bytes font_table_example @ replicate 57 0 @ [0x80, 0, 0x81]"

definition font_mem :: mem where
  "font_mem x = (if unat (x - 0x1000) < 163 then font_bytes ! unat (x - 0x1000) else 0)"

definition dst_example :: ssfn_buf_t where
  "dst_example = \<lparr>sb_ptr = 0xFFFF900000000000, sb_w = 0, sb_h = 0, sb_p = 4096, sb_x = 850, sb_y = 100, sb_fg = 0xFFFFFFFF, sb_bg = 0\<rparr>"

lemma font_bytes_eq: "font_bytes =
    [0x53, 0x46, 0x4E, 0x32, 163, 0, 0, 0, 0, 0, 8, 16, 12, 0, 0, 0, 64, 0, 0, 0] @ replicate 44 0 @
    [0xC0, 64, 0, 1, 8, 16, 8, 0, 0, 2, 160, 0, 0] @ replicate 16 0xFF @ [0xFE, 255, 0xFE, 255, 0xFE, 255, 0xFE, 255, 0xC3, 189] @
    replicate 57 0 @ [0x80, 0, 0x81]"
  by (simp add: font_bytes_def font_table_example_def map_replicate)

lemma font_mem_at: "k < 163 \<Longrightarrow> font_mem (0x1000 + of_nat k) = font_bytes ! k"
  by (simp add: font_mem_def unat_of_nat_lt)

lemma font_length: "length font_bytes = 163"
  by (simp add: font_bytes_eq)

lemma font_values:
  "map (\<lambda>k. font_bytes ! k) [0, 1, 2, 3, 16, 17, 18, 19] = [0x53, 0x46, 0x4E, 0x32, 64, 0, 0, 0]"
  "map (\<lambda>k. font_bytes ! k) [66, 67, 68, 69, 70, 71, 72, 73, 74, 75, 76, 160, 161, 162] =
    [0, 1, 8, 16, 8, 0, 0, 2, 160, 0, 0, 0x80, 0, 0x81]"
  unfolding font_bytes_eq by code_simp+

lemma font_holds: "holds_bytes font_mem 0x1000 font_bytes"
  using font_mem_at by (simp add: holds_bytes_def font_length)

lemma font_mem_values:
  "font_mem 0x1000 = 0x53" "font_mem 0x1001 = 0x46" "font_mem 0x1002 = 0x4E" "font_mem 0x1003 = 0x32"
  "font_mem 0x1010 = 64" "font_mem 0x1011 = 0" "font_mem 0x1012 = 0" "font_mem 0x1013 = 0"
  "font_mem 0x1042 = 0" "font_mem 0x1043 = 1" "font_mem 0x1044 = 8" "font_mem 0x1045 = 16" "font_mem 0x1046 = 8"
  "font_mem 0x1047 = 0" "font_mem 0x1048 = 0" "font_mem 0x1049 = 2" "font_mem 0x104A = 160" "font_mem 0x104B = 0"
  "font_mem 0x104C = 0" "font_mem 0x10A0 = 0x80" "font_mem 0x10A1 = 0" "font_mem 0x10A2 = 0x81"
  using font_values by (simp_all add: font_mem_def)

lemma font_ok_example: "font_ok font_mem 0x1000 font_table_example"
proof -
  have ld: "load32 font_mem 0x1010 = 64" by (simp add: load32_def load_le_4 load_le_2 font_mem_values)
  have "font_bytes = take 64 font_bytes @ table_bytes font_table_example @ drop 103 font_bytes"
    by (simp add: font_bytes_def font_table_example_def map_replicate)
  then have "holds_bytes font_mem (0x1000 + of_nat (length (take 64 font_bytes))) (table_bytes font_table_example)"
    using font_holds by (metis holds_append)
  then have "holds_bytes font_mem 0x1040 (table_bytes font_table_example)" by (simp add: font_length)
  moreover have "\<forall>e\<in>set font_table_example. entry_ok e" "total_span font_table_example = 0x110000" "length (table_bytes font_table_example) = 39"
    by (simp_all add: font_table_example_def map_replicate sum_list_replicate)
  ultimately show ?thesis by (simp add: font_ok_def ld font_mem_values)
qed

lemma dst_ok_example: "dst_ok dst_example 0x1000"
  by (simp add: dst_ok_def dst_example_def glyph_frame_def)

lemma glyph_pos_example: "glyph_pos font_table_example 0 65 = Some 2"
  by (simp add: font_table_example_def)

lemma frag_pixel_example: "0xFFFF900000066D48 \<in> frag_pixels font_mem 0x1000 0x1042 (cursor_addr dst_example) 1024 0"
proof -
  have ld: "load_le font_mem 0x104A 3 = 160"
    using load_le_add [of font_mem "0x104A" 2 1] by (simp add: load_le_2 font_mem_values)
  have "frag_bit font_mem 0x10A2 0" by (simp add: frag_bit_def font_mem_values)
  then show ?thesis
    unfolding frag_pixels_def Let_def by (simp add: font_mem_values ld dst_example_def) (intro exI [of _ 0] conjI; simp)
qed

lemma frags_ok_example: "frags_ok font_mem 0x1042"
  by (simp add: frags_ok_def font_mem_values)

theorem ssfn_putc_correct_witness:
  "\<forall>s :: unit fbdev_scheme. \<exists>s'. ssfn_putc 0x1000 65 dst_example (s\<lparr>mem := font_mem\<rparr>) = ret (SSFN_OK, dst_example\<lparr>sb_x := 858, sb_y := 100\<rparr>, s') \<and>
     vram (ft s') 0xFFFF900000066D48 = 0xFFFFFFFF"
proof
  fix s :: "unit fbdev_scheme"
  have t: "table_addr font_mem 0x1000 + of_nat 2 = 0x1042"
    by (simp add: load32_def load_le_4 load_le_2 font_mem_values)
  have p: "unat (sb_p dst_example div 4) = 1024" by (simp add: dst_example_def)
  note ssfn_putc_correct [of "s\<lparr>mem := font_mem\<rparr>" "0x1000" font_table_example dst_example 65]
  then show "\<exists>s'. ssfn_putc 0x1000 65 dst_example (s\<lparr>mem := font_mem\<rparr>) = ret (SSFN_OK, dst_example\<lparr>sb_x := 858, sb_y := 100\<rparr>, s') \<and>
      vram (ft s') 0xFFFF900000066D48 = 0xFFFFFFFF"
    using font_ok_example dst_ok_example frags_ok_example frag_pixel_example t p
    by (simp add: glyph_pos_example font_mem_values Let_def paint_def) (simp add: dst_example_def)
qed

end
