(* ===== verification/Spec2Isabelle.thy ===== *)
theory Spec2Isabelle
  imports Vmm_Copy Kheap_Correct Process_Ring Tarfs_Correct Vfs_Correct Syscall_Correct Elf_Correct Userspace_Correct Info_Correct
begin

text \<open>
  A verification of riria, a small kernel for x86-64 (\<open>src/kernel\<close>, headers in \<open>src/base/usr/include/riria\<close>),
  and of its user programs (\<open>src/misc/userspace\<close>).

  \<^bold>\<open>The program.\<close> The boot loader starts \<open>kmain\<close>, which installs the parts of the kernel in order: serial port,
  descriptor and interrupt tables, physical and virtual memory, heap, file systems, framebuffer console, keyboard,
  sound card and system calls, and then creates the first process. From there on the kernel runs in interrupts, in
  system calls and in kernel processes. The processes that show information and that start the user programs are
  part of the kernel, but \<open>kmain\<close> creates only the idle process. The memory managers stand on each other: page tables are frames of the frame allocator, the heap grows by mapping frames, and processes, files and devices are heap objects.

  \<^bold>\<open>State.\<close> One record per layer, each extending the one below, so that an operation of a layer has the type of every
  state above it: \<open>cpu\<close> (interrupt flag, nesting depth), \<open>pmm\<close> (memory, bitmap and counters), \<open>vmm\<close>, \<open>heap\<close>,
  \<open>machine\<close> (ports, tables, registers), \<open>proc\<close>, \<open>drv\<close>, \<open>fbdev\<close>, \<open>fsys\<close>. Memory is a function from 64-bit addresses to
  bytes; words keep their width. Processes, files and other structures whose bytes no code inspects are records in
  stores indexed by their addresses; the headers of heap blocks, page tables, stacks, strings and archives are bytes.
  Function pointers are values of types that list the functions the code stores; \<open>None\<close> is the null pointer.

  \<^bold>\<open>Results.\<close> \<open>'a result\<close> (theory \<open>Prelude\<close>) is a value (\<open>ret\<close>), a fault (\<open>fails\<close>: a panic with its message, or an access
  that is undefined in C) or no result at all (\<open>diverges\<close>): a lock taken twice, a loop without end, a halt. The
  kernel is compiled with the undefined-behaviour sanitizer, whose handlers panic: overflow of signed integers, an
  index outside a fixed array, overflow of a pointer and a misaligned structure are panics of the model. Loops are
  structural recursions over the range they run over, or \<open>partial_function\<close>s when their end depends on the state; no
  definition uses fuel, and termination is proved where it is claimed.

  \<^bold>\<open>Theories.\<close>
  \<^item> \<open>Prelude\<close>: results, memory access, regions. \<open>Libc_String\<close>: \<open>libc/string\<close>, with the effect of the
    block functions and, on C strings, the results and the termination of the string functions.
    \<open>Ubsan\<close>: \<open>system/ubsan.c\<close> and checked arithmetic. \<open>Cpu\<close>: \<open>IRQ_OFF\<close>, \<open>IRQ_RES\<close> (\<open>irq.c\<close>) and \<open>spinlock.h\<close>.
  \<^item> \<open>Pmm\<close>: \<open>system/pmm.c\<close>, an instance of the contract \<open>frame_allocator\<close> of \<open>Frame_Allocator\<close>.
  \<^item> \<open>Page_Table\<close>, \<open>Vmm\<close>, \<open>Vmm_Copy\<close>: \<open>system/vmm.c\<close> over trees of tables, an instance of \<open>address_space\<close> of
    \<open>Address_Space\<close>. \<open>Fresh_Pages\<close>: fresh frames mapped into an address space.
  \<^item> \<open>Kheap\<close>: \<open>system/heap.c\<close>. \<open>Tiling\<close> is the abstract heap, a sequence of free and used tiles; \<open>Kheap_Refine\<close> and
    \<open>Kheap_Alloc\<close> prove the simulation, \<open>Kheap_Correct\<close> the properties, \<open>Kheap_Frame\<close> what the heap leaves alone. The
    contract with its callers is \<open>block_allocator\<close> of \<open>Block_Allocator\<close>.
  \<^item> \<open>Asm\<close>: the assembly files as instruction lists. \<open>Machine\<close>: descriptor tables, gates, features, interrupt
    controller and timer (\<open>arch/x86_64\<close>). \<open>Interrupts\<close>: the dispatch of interrupts.
  \<^item> \<open>Process\<close>: \<open>system/process.c\<close> and page faults. \<open>Process_Ring\<close>: the ring of processes and round-robin.
  \<^item> \<open>Drivers\<close>: PCI, AC97, serial port, keyboard. Devices are a function from the accesses so far to the next answer.
  \<^item> \<open>Flanterm\<close>, \<open>Flanterm_Font\<close>, \<open>Flanterm_Fb\<close>: the terminal emulator, its font and its framebuffer backend;
    \<open>Flanterm_Safe\<close>, \<open>Flanterm_Fb_Safe\<close>: its invariant, kept by every byte that is written. \<open>Framebuffer\<close>: \<open>fb0.c\<close>.
  \<^item> \<open>Nanoprintf\<close>, \<open>Nanoprintf_Correct\<close>, \<open>Stdio\<close>: formatted output against a reference text.
  \<^item> \<open>Devfs\<close>, \<open>Tarfs\<close>, \<open>Vfs\<close>: the file systems of \<open>fs\<close>. \<open>Tarfs_Correct\<close>: reading a file of the archive. \<open>Vfs_Correct\<close>:
    the table of open files.
  \<^item> \<open>Elf\<close>: programs and new address spaces. \<open>Elf_Correct\<close>: what a loaded program is in memory. \<open>Syscall\<close>:
    \<open>system/syscall.c\<close>. \<open>Syscall_Correct\<close>: anonymous memory, through the handler, the process, the frame allocator and the
    page tables. \<open>Boot\<close>: \<open>kmain\<close> and \<open>panic\<close>.
  \<^item> \<open>Info\<close>: \<open>info.c\<close>, the information display, and the console renderer of \<open>ssfn.h\<close> that it compiles. \<open>Info_Correct\<close>: the
    pixels of a character. The kernel contains the display but does not start it.
  \<^item> \<open>Userspace\<close>: the shell and the framebuffer demonstration of \<open>misc/userspace\<close> over the record \<open>libc\<close> of the functions they
    call. \<open>Userspace_Correct\<close>: a round of the shell, the command \<open>cat\<close>, and the bounds of the demonstration.

  \<^bold>\<open>What is shown.\<close> Frames are handed out once and zeroed; page maps change at exactly the page asked for; the heap is
  first-fit allocation with coalescing and keeps the blocks of its clients apart; freeing undoes allocating and
  unmapping undoes mapping; the scheduler takes awake processes in turn; the stubs restore every register; the
  console never leaves its arrays, whatever is written; formatted text is the reference text, cut to the buffer;
  reads deliver a file in order; descriptors name independent files; anonymous memory is fresh; a loaded
  program is the bytes of its file, with its permissions; a character on the display is the bitmap of its font; the shell
  executes the line that was edited. Some theorems state what goes wrong: a size that wraps around, a formatting function
  that always panics, a gate that is overwritten, a scheduler that waits with interrupts off, a terminal that stops
  scrolling, a shell that a line of blanks ends.

  \<^bold>\<open>Bounds.\<close> Frames lie below \<open>2 ^ 35\<close>, as the bitmap of the allocator has one bit for each of \<open>2 ^ 23\<close> pages; the
  heap lies above the higher-half view of them and grows to at most \<open>2 ^ 35\<close> bytes. Other bounds are hypotheses of
  the theorems that need them.

  \<^bold>\<open>Parameters.\<close> Code outside the kernel is an argument: devices, \<open>cpuid\<close>, the answers of the boot loader, addresses the
  linker and the compiler choose (stubs, string literals, stack slots of variables whose address is taken), and the
  variable arguments that \<open>kprintf\<close> forwards without having them. The C library of the user programs, which is not in the
  repository, is the record \<open>libc\<close>; \<open>keyboard_ok\<close> and \<open>file_ok\<close> state what the programs rely on.

  \<^bold>\<open>Not modelled.\<close> Messages of \<open>printf\<close> in other parts (they change only the console and the serial port), and the code
  under \<open>KDEBUG\<close> or disabled by the configuration of nanoprintf. Several processors, and interrupts inside the kernel at
  points where they are enabled: every operation runs as one step. The translation of addresses while kernel code
  runs: memory is what the current address space shows, and a page fault inside a system call does not happen. The
  contents of saved floating-point state. \<open>requests.c\<close> and most of \<open>limine.h\<close> are data for the boot loader. Of \<open>ssfn.h\<close> only
  the console renderer is compiled; its \<open>ssfn_utf8\<close> is never called. \<open>flanterm_deinit\<close> and \<open>flanterm_fb_deinit\<close> are never
  called.
\<close>

end
